(* ===== verification/Prelude.thy ===== *)
theory Prelude
  imports Main "HOL-Library.Signed_Division"
begin

text \<open>
  Shared by every component: Go's \<open>int64\<close> arithmetic on \<open>int\<close> with the wrap-around written
  out, decimal printing and parsing (\<open>strconv.FormatInt\<close>, \<open>strconv.ParseInt\<close>), SQL tables as
  lists of rows, and the rule collections the component proofs use.
\<close>

named_theorems go_arith \<open>exact results of 64-bit operations that stay in range\<close>
named_theorems table_simps \<open>rows of a table after an update\<close>
named_theorems preserves \<open>an operation keeps an invariant\<close>

section \<open>Go integers\<close>

text \<open>An \<open>int64\<close> is an \<open>int\<close> in range; every operation wraps as the hardware does.\<close>

definition in64 :: "int \<Rightarrow> bool" where
  "in64 x \<longleftrightarrow> - (2 ^ 63) \<le> x \<and> x < 2 ^ 63"

definition i64 :: "int \<Rightarrow> int" where
  "i64 x = (x + 2 ^ 63) mod 2 ^ 64 - 2 ^ 63"

definition add64 :: "int \<Rightarrow> int \<Rightarrow> int" where "add64 a b = i64 (a + b)"
definition sub64 :: "int \<Rightarrow> int \<Rightarrow> int" where "sub64 a b = i64 (a - b)"
definition mul64 :: "int \<Rightarrow> int \<Rightarrow> int" where "mul64 a b = i64 (a * b)"
definition neg64 :: "int \<Rightarrow> int" where "neg64 a = i64 (- a)"

text \<open>Go's \<open>/\<close> and \<open>%\<close> truncate towards zero; a zero divisor panics, so the models divide by
  constants or check the divisor first.\<close>

definition quot64 :: "int \<Rightarrow> int \<Rightarrow> int" where "quot64 a b = i64 (a sdiv b)"
definition rem64 :: "int \<Rightarrow> int \<Rightarrow> int" where "rem64 a b = a smod b"

abbreviation (input) max_int64 :: int where "max_int64 \<equiv> 9223372036854775807"
abbreviation (input) min_int64 :: int where "min_int64 \<equiv> - 9223372036854775808"

lemma in64_iff: "in64 x \<longleftrightarrow> - 9223372036854775808 \<le> x \<and> x < 9223372036854775808"
  by (simp add: in64_def)

lemma in64_i64 [simp, intro]: "in64 (i64 x)"
proof -
  have "0 \<le> (x + 2 ^ 63) mod 2 ^ 64" "(x + 2 ^ 63) mod 2 ^ 64 < (2::int) ^ 64"
    by (rule pos_mod_sign, simp, rule pos_mod_bound, simp)
  then show ?thesis by (simp add: in64_def i64_def)
qed

lemma i64_exact [simp, go_arith]: "in64 x \<Longrightarrow> i64 x = x"
  by (simp add: in64_def i64_def)

lemma add64_exact [go_arith]: "in64 (a + b) \<Longrightarrow> add64 a b = a + b"
  by (simp add: add64_def)

lemma sub64_exact [go_arith]: "in64 (a - b) \<Longrightarrow> sub64 a b = a - b"
  by (simp add: sub64_def)

lemma mul64_exact [go_arith]: "in64 (a * b) \<Longrightarrow> mul64 a b = a * b"
  by (simp add: mul64_def)

lemma neg64_exact [go_arith]: "in64 (- a) \<Longrightarrow> neg64 a = - a"
  by (simp add: neg64_def)

lemma in64_ops [simp, intro]:
  "in64 (add64 a b)" "in64 (sub64 a b)" "in64 (mul64 a b)" "in64 (neg64 a)" "in64 (quot64 a b)"
  by (simp_all add: add64_def sub64_def mul64_def neg64_def quot64_def)

lemma sdiv_nonneg: "0 \<le> a \<Longrightarrow> 0 < b \<Longrightarrow> (a::int) sdiv b = a div b"
  by (cases "a = 0") (simp_all add: signed_divide_int_def)

lemma smod_nonneg: "0 \<le> a \<Longrightarrow> 0 < b \<Longrightarrow> (a::int) smod b = a mod b"
  by (cases "a = 0") (simp_all add: signed_modulo_int_def)

lemma quot64_nonneg [go_arith]:
  assumes "0 \<le> a" "0 < b" "in64 a" shows "quot64 a b = a div b"
proof -
  have "0 \<le> a div b" "a div b \<le> a"
    using assms zdiv_mono2 [of a 1 b] by (simp_all add: pos_imp_zdiv_nonneg_iff)
  then have "in64 (a div b)" using assms by (simp add: in64_def)
  then show ?thesis using assms by (simp add: quot64_def sdiv_nonneg)
qed

lemma rem64_nonneg [go_arith]: "0 \<le> a \<Longrightarrow> 0 < b \<Longrightarrow> rem64 a b = a mod b"
  by (simp add: rem64_def smod_nonneg)

section \<open>Decimal strings\<close>

definition digit_char :: "nat \<Rightarrow> char" where
  "digit_char d = char_of (48 + d)"

fun dec :: "nat \<Rightarrow> string" where
  "dec n = (if n < 10 then [digit_char n] else dec (n div 10) @ [digit_char (n mod 10)])"

declare dec.simps [simp del]

text \<open>\<open>strconv.FormatInt(n, 10)\<close>.\<close>

definition format_int :: "int \<Rightarrow> string" where
  "format_int n = (if n < 0 then CHR ''-'' # dec (nat (- n)) else dec (nat n))"

definition is_digit :: "char \<Rightarrow> bool" where
  "is_digit c \<longleftrightarrow> 48 \<le> (of_char c :: nat) \<and> (of_char c :: nat) \<le> 57"

fun digits_val :: "nat \<Rightarrow> string \<Rightarrow> nat" where
  "digits_val acc [] = acc"
| "digits_val acc (c # cs) = digits_val (10 * acc + (of_char c - 48)) cs"

text \<open>\<open>strconv.ParseInt(s, 10, 64)\<close>: an optional sign, at least one digit, in range.\<close>

definition parse_digits :: "string \<Rightarrow> nat option" where
  "parse_digits s = (if s \<noteq> [] \<and> list_all is_digit s then Some (digits_val 0 s) else None)"

definition parse_int :: "string \<Rightarrow> int option" where
  "parse_int s =
     (let v = (case s of
                 c # cs \<Rightarrow>
                   if c = CHR ''-'' then map_option (\<lambda>n. - int n) (parse_digits cs)
                   else if c = CHR ''+'' then map_option int (parse_digits cs)
                   else map_option int (parse_digits s)
               | [] \<Rightarrow> None)
      in case v of Some n \<Rightarrow> if in64 n then Some n else None | None \<Rightarrow> None)"

lemma of_digit_char: "d < 10 \<Longrightarrow> (of_char (digit_char d) :: nat) = 48 + d"
  by (simp add: digit_char_def)

lemma dec_not_Nil [simp]: "dec n \<noteq> []"
  by (subst dec.simps) simp

lemma dec_digits: "list_all is_digit (dec n)"
proof (induction n rule: dec.induct)
  case (1 n)
  have last: "n mod 10 < 10" by simp
  show ?case
  proof (cases "n < 10")
    case True
    then show ?thesis by (subst dec.simps) (simp add: is_digit_def of_digit_char)
  next
    case False
    with 1 have "list_all is_digit (dec (n div 10))" by simp
    with False last show ?thesis
      by (subst dec.simps) (simp add: is_digit_def of_digit_char)
  qed
qed

lemma digits_val_append: "digits_val a (xs @ [c]) = 10 * digits_val a xs + (of_char c - 48)"
  by (induction xs arbitrary: a) auto

lemma digits_val_dec [simp]: "digits_val 0 (dec n) = n"
proof (induction n rule: dec.induct)
  case (1 n)
  have last: "n mod 10 < 10" by simp
  show ?case
  proof (cases "n < 10")
    case True
    then show ?thesis by (subst dec.simps) (simp add: of_digit_char)
  next
    case False
    with 1 have "digits_val 0 (dec (n div 10)) = n div 10" by simp
    with False last show ?thesis
      by (subst dec.simps) (simp add: digits_val_append of_digit_char)
  qed
qed

lemma parse_digits_dec [simp]: "parse_digits (dec n) = Some n"
  by (simp add: parse_digits_def dec_digits)

lemma digits_val_app: "digits_val a (xs @ ys) = digits_val a xs * 10 ^ length ys + digits_val 0 ys"
proof (induction ys arbitrary: xs rule: rev_induct)
  case Nil
  then show ?case by simp
next
  case (snoc y ys)
  have "digits_val a (xs @ ys @ [y]) = 10 * digits_val a (xs @ ys) + (of_char y - 48)"
    using digits_val_append [of a "xs @ ys" y] by simp
  then show ?case using snoc by (simp add: digits_val_append algebra_simps)
qed

lemma digits_val_zeros: "digits_val 0 (replicate k (CHR ''0'') @ s) = digits_val 0 s"
  by (induction k) simp_all

lemma digits_val_zeros_only [simp]: "digits_val 0 (replicate k (CHR ''0'')) = 0"
  using digits_val_zeros [of k "[]"] by simp

lemma length_dec: "n < 10 ^ k \<Longrightarrow> 0 < k \<Longrightarrow> length (dec n) \<le> k"
proof (induction n arbitrary: k rule: dec.induct)
  case (1 n)
  show ?case
  proof (cases "n < 10")
    case True
    with "1.prems" show ?thesis by (subst dec.simps) simp
  next
    case False
    then have "k \<noteq> 1" using "1.prems" by auto
    with "1.prems" obtain j where k: "k = Suc j" "0 < j" by (cases k) auto
    with "1.prems" have "n div 10 < 10 ^ j" by auto
    with False "1.IH" k have "length (dec (n div 10)) \<le> j" by simp
    with False k show ?thesis by (subst dec.simps) simp
  qed
qed

lemma parse_int_sign:
  assumes "parse_digits s = Some n"
  shows "in64 (int n) \<Longrightarrow> parse_int s = Some (int n)"
    and "in64 (- int n) \<Longrightarrow> parse_int (''-'' @ s) = Some (- int n)"
proof -
  obtain c cs where s: "s = c # cs" "is_digit c"
    using assms by (cases s) (auto simp: parse_digits_def split: if_splits)
  have "\<not> is_digit (CHR ''-'')" "\<not> is_digit (CHR ''+'')" by (simp_all add: is_digit_def)
  with s have "c \<noteq> CHR ''-''" "c \<noteq> CHR ''+''" by auto
  with assms s show "in64 (int n) \<Longrightarrow> parse_int s = Some (int n)" by (simp add: parse_int_def)
  show "in64 (- int n) \<Longrightarrow> parse_int (''-'' @ s) = Some (- int n)"
    using assms by (simp add: parse_int_def)
qed

lemma parse_format_int: "in64 n \<Longrightarrow> parse_int (format_int n) = Some n"
  using parse_int_sign [OF parse_digits_dec [of "nat \<bar>n\<bar>"]] by (auto simp: format_int_def)

text \<open>The same parser on \<open>int\<close> alone, so that closed terms evaluate in binary.\<close>

fun digits_int :: "int \<Rightarrow> string \<Rightarrow> int" where
  "digits_int acc [] = acc"
| "digits_int acc (c # cs) = digits_int (10 * acc + (of_char c - 48)) cs"

lemma digits_int_val: "list_all is_digit s \<Longrightarrow> digits_int (int a) s = int (digits_val a s)"
proof (induction s arbitrary: a)
  case Nil
  then show ?case by simp
next
  case (Cons c s)
  have "(of_char c :: int) = int (of_char c)" by (simp add: of_char_def horner_sum_bit_eq_take_bit)
  with Cons.prems have "10 * int a + (of_char c - 48) = int (10 * a + (of_char c - 48))"
    by (simp add: is_digit_def of_nat_diff)
  with Cons.IH [of "10 * a + (of_char c - 48)"] Cons.prems show ?case by simp
qed

lemma parse_int_code [code]:
  "parse_int s =
     (case s of [] \<Rightarrow> None
      | c # cs \<Rightarrow>
          (let ds = (if c = CHR ''-'' \<or> c = CHR ''+'' then cs else s);
               n = (if c = CHR ''-'' then - digits_int 0 ds else digits_int 0 ds)
           in if ds \<noteq> [] \<and> list_all is_digit ds \<and> in64 n then Some n else None))"
proof (cases s)
  case Nil
  then show ?thesis by (simp add: parse_int_def)
next
  case (Cons c cs)
  have d: "list_all is_digit ds \<Longrightarrow> digits_int 0 ds = int (digits_val 0 ds)" for ds
    using digits_int_val [of ds 0] by simp
  have "\<not> is_digit (CHR ''-'')" "\<not> is_digit (CHR ''+'')" by (simp_all add: is_digit_def)
  then show ?thesis unfolding Cons
    by (cases "c = CHR ''-''"; cases "c = CHR ''+''")
      (simp_all add: parse_int_def parse_digits_def Let_def d del: digits_int.simps digits_val.simps)
qed

text \<open>Likewise for printing.\<close>

function dec_int :: "int \<Rightarrow> string" where
  "dec_int n = (if n < 10 then [char_of (48 + n)] else dec_int (n div 10) @ [char_of (48 + n mod 10)])"
  by pat_completeness auto
termination by (relation "measure nat") auto

declare dec_int.simps [simp del]

lemma char_of_int: "char_of (int n) = (char_of n :: char)"
  unfolding char_of_def by (simp add: bit_of_nat_iff_bit)

lemma digit_char_int: "char_of (48 + int d) = digit_char d"
  using char_of_int [of "48 + d"] by (simp add: digit_char_def)

lemma dec_int_dec: "dec_int (int n) = dec n"
proof (induction n rule: dec.induct)
  case (1 n)
  have m: "int n div 10 = int (n div 10)" "int n mod 10 = int (n mod 10)"
    by (simp_all add: of_nat_mod of_nat_div)
  show ?case
  proof (cases "n < 10")
    case True
    then show ?thesis by (simp add: dec_int.simps dec.simps digit_char_int)
  next
    case False
    with 1 show ?thesis
      by (simp add: dec_int.simps [of "int n"] dec.simps [of n] m digit_char_int del: of_nat_mod of_nat_div)
  qed
qed

lemma format_int_code [code]: "format_int n = (if n < 0 then CHR ''-'' # dec_int (- n) else dec_int n)"
proof (cases "n < 0")
  case True
  then show ?thesis using dec_int_dec [of "nat (- n)"] by (simp add: format_int_def)
next
  case False
  then show ?thesis using dec_int_dec [of "nat n"] by (simp add: format_int_def)
qed

text \<open>\<open>fmt\<close>'s \<open>%0*d\<close>: zero padding to a width that counts the sign.\<close>

definition pad_int :: "nat \<Rightarrow> int \<Rightarrow> string" where
  "pad_int w n =
     (let s = dec (nat \<bar>n\<bar>); sg = (if n < 0 then ''-'' else [])
      in sg @ replicate (w - length sg - length s) (CHR ''0'') @ s)"

lemma pad_int_nonneg:
  "0 \<le> n \<Longrightarrow> pad_int w n = replicate (w - length (dec (nat n))) (CHR ''0'') @ dec (nat n)"
  by (simp add: pad_int_def Let_def)

section \<open>Tables\<close>

text \<open>
  A SQL table is a list of rows in insertion order: \<open>select_one\<close> is \<open>Take\<close> on a unique key,
  \<open>update_where\<close> an \<open>UPDATE .. WHERE\<close>, \<open>count_where\<close> its \<open>RowsAffected\<close>.
\<close>

definition select_one :: "('r \<Rightarrow> bool) \<Rightarrow> 'r list \<Rightarrow> 'r option" where
  "select_one P rows = List.find P rows"

definition update_where :: "('r \<Rightarrow> bool) \<Rightarrow> ('r \<Rightarrow> 'r) \<Rightarrow> 'r list \<Rightarrow> 'r list" where
  "update_where P f rows = map (\<lambda>r. if P r then f r else r) rows"

definition count_where :: "('r \<Rightarrow> bool) \<Rightarrow> 'r list \<Rightarrow> nat" where
  "count_where P rows = length (filter P rows)"

definition sum_where :: "('r \<Rightarrow> bool) \<Rightarrow> ('r \<Rightarrow> int) \<Rightarrow> 'r list \<Rightarrow> int" where
  "sum_where P v rows = (\<Sum>r\<leftarrow>filter P rows. v r)"

lemma select_one_Some: "select_one P rows = Some r \<Longrightarrow> r \<in> set rows \<and> P r"
  unfolding select_one_def by (metis find_Some_iff nth_mem)

lemma select_one_None: "select_one P rows = None \<longleftrightarrow> (\<forall>r\<in>set rows. \<not> P r)"
  unfolding select_one_def by (metis find_None_iff)

lemma set_update_where: "set (update_where P f rows) = (\<lambda>r. if P r then f r else r) ` set rows"
  by (simp add: update_where_def)

lemma map_update_where [table_simps]:
  "(\<And>r. P r \<Longrightarrow> g (f r) = g r) \<Longrightarrow> map g (update_where P f rows) = map g rows"
  by (induction rows) (auto simp: update_where_def)

lemma sum_where_Nil [simp]: "sum_where P v [] = 0"
  by (simp add: sum_where_def)

lemma sum_where_Cons [simp]:
  "sum_where P v (r # rows) = (if P r then v r else 0) + sum_where P v rows"
  by (simp add: sum_where_def)

lemma sum_where_append [simp]: "sum_where P v (xs @ ys) = sum_where P v xs + sum_where P v ys"
  by (simp add: sum_where_def)

lemma sum_where_nonneg: "(\<And>r. r \<in> set rows \<Longrightarrow> P r \<Longrightarrow> 0 \<le> v r) \<Longrightarrow> 0 \<le> sum_where P v rows"
  by (induction rows) auto

text \<open>A row with a unique key leaves a sum when the update takes it out of the selection.\<close>

lemma sum_where_untouched:
  "(\<And>r. r \<in> set rows \<Longrightarrow> k r \<noteq> key) \<Longrightarrow>
   sum_where P v (update_where (\<lambda>r. k r = key) f rows) = sum_where P v rows"
  by (induction rows) (auto simp: update_where_def)

lemma sum_where_key_update:
  assumes "distinct (map k rows)" "r \<in> set rows" "k r = key"
  shows "sum_where P v (update_where (\<lambda>x. k x = key) f rows) =
         sum_where P v rows - (if P r then v r else 0) + (if P (f r) then v (f r) else 0)"
  using assms
proof (induction rows)
  case Nil
  then show ?case by simp
next
  case (Cons x rows)
  show ?case
  proof (cases "x = r")
    case True
    with Cons.prems have "\<And>y. y \<in> set rows \<Longrightarrow> k y \<noteq> key" by (auto simp: image_iff)
    with True Cons.prems show ?thesis
      using sum_where_untouched [of rows k key P v f] by (simp add: update_where_def)
  next
    case False
    with Cons.prems have rs: "r \<in> set rows" by simp
    with Cons.prems have "k x \<noteq> key" by (auto simp: image_iff)
    with Cons.IH Cons.prems rs show ?thesis by (simp add: update_where_def)
  qed
qed

end
