(* ===== verification/Money.thy ===== *)
theory Money
  imports Prelude
begin

text \<open>
  \<open>packages/payment-util/money/money.go\<close>: the ISO 4217 precision table, the conversion between
  minor units and the ledger's storage units (minor units times 100), banker's rounding and
  the display formats. Amounts are \<open>int64\<close>; the conversions wrap where the code does not check.
\<close>

datatype money_error = UnknownCurrency string | NotDivisible int int

abbreviation (input) StorageScale :: int where "StorageScale \<equiv> 100"

definition precisionMinor :: "(string \<times> nat) list" where
  "precisionMinor = [
     (''BIF'', 0), (''CLP'', 0), (''DJF'', 0), (''GNF'', 0), (''ISK'', 0), (''JPY'', 0), (''KMF'', 0),
     (''KRW'', 0), (''PYG'', 0), (''RWF'', 0), (''UGX'', 0), (''UYI'', 0), (''VND'', 0), (''VUV'', 0),
     (''XAF'', 0), (''XOF'', 0), (''XPF'', 0), (''XAG'', 0), (''XAU'', 0), (''XPD'', 0), (''XPT'', 0),
     (''XBA'', 0), (''XBB'', 0), (''XBC'', 0), (''XBD'', 0), (''XDR'', 0), (''XSU'', 0), (''XTS'', 0),
     (''XUA'', 0), (''XXX'', 0), (''AED'', 2), (''AFN'', 2), (''ALL'', 2), (''AMD'', 2), (''ANG'', 2),
     (''AOA'', 2), (''ARS'', 2), (''AUD'', 2), (''AWG'', 2), (''AZN'', 2), (''BAM'', 2), (''BBD'', 2),
     (''BDT'', 2), (''BGN'', 2), (''BMD'', 2), (''BND'', 2), (''BOB'', 2), (''BOV'', 2), (''BRL'', 2),
     (''BSD'', 2), (''BTN'', 2), (''BWP'', 2), (''BYN'', 2), (''BZD'', 2), (''CAD'', 2), (''CDF'', 2),
     (''CHE'', 2), (''CHF'', 2), (''CHW'', 2), (''CNY'', 2), (''COP'', 2), (''COU'', 2), (''CRC'', 2),
     (''CUC'', 2), (''CUP'', 2), (''CVE'', 2), (''CZK'', 2), (''DKK'', 2), (''DOP'', 2), (''DZD'', 2),
     (''EGP'', 2), (''ERN'', 2), (''ETB'', 2), (''EUR'', 2), (''FJD'', 2), (''FKP'', 2), (''GBP'', 2),
     (''GEL'', 2), (''GHS'', 2), (''GIP'', 2), (''GMD'', 2), (''GTQ'', 2), (''GYD'', 2), (''HKD'', 2),
     (''HNL'', 2), (''HTG'', 2), (''HUF'', 2), (''IDR'', 2), (''ILS'', 2), (''INR'', 2), (''IRR'', 2),
     (''JMD'', 2), (''KES'', 2), (''KGS'', 2), (''KHR'', 2), (''KPW'', 2), (''KYD'', 2), (''KZT'', 2),
     (''LAK'', 2), (''LBP'', 2), (''LKR'', 2), (''LRD'', 2), (''LSL'', 2), (''MAD'', 2), (''MDL'', 2),
     (''MGA'', 2), (''MKD'', 2), (''MMK'', 2), (''MNT'', 2), (''MOP'', 2), (''MRU'', 2), (''MUR'', 2),
     (''MVR'', 2), (''MWK'', 2), (''MXN'', 2), (''MXV'', 2), (''MYR'', 2), (''MZN'', 2), (''NAD'', 2),
     (''NGN'', 2), (''NIO'', 2), (''NOK'', 2), (''NPR'', 2), (''NZD'', 2), (''PAB'', 2), (''PEN'', 2),
     (''PGK'', 2), (''PHP'', 2), (''PKR'', 2), (''PLN'', 2), (''QAR'', 2), (''RON'', 2), (''RSD'', 2),
     (''RUB'', 2), (''SAR'', 2), (''SBD'', 2), (''SCR'', 2), (''SDG'', 2), (''SEK'', 2), (''SGD'', 2),
     (''SHP'', 2), (''SLE'', 2), (''SLL'', 2), (''SOS'', 2), (''SRD'', 2), (''SSP'', 2), (''STN'', 2),
     (''SVC'', 2), (''SYP'', 2), (''SZL'', 2), (''THB'', 2), (''TJS'', 2), (''TMT'', 2), (''TOP'', 2),
     (''TRY'', 2), (''TTD'', 2), (''TWD'', 2), (''TZS'', 2), (''UAH'', 2), (''USD'', 2), (''USN'', 2),
     (''UYU'', 2), (''UZS'', 2), (''VES'', 2), (''WST'', 2), (''XCD'', 2), (''YER'', 2), (''ZAR'', 2),
     (''ZMW'', 2), (''ZWG'', 2), (''ZWL'', 2), (''BHD'', 3), (''IQD'', 3), (''JOD'', 3), (''KWD'', 3),
     (''LYD'', 3), (''OMR'', 3), (''TND'', 3), (''CLF'', 4), (''UYW'', 4)]"

definition currencySymbol :: "(string \<times> string) list" where
  "currencySymbol = [
     (''USD'', ''$''), (''EUR'', [CHR 0xE2, CHR 0x82, CHR 0xAC]), (''GBP'', [CHR 0xC2, CHR 0xA3]),
     (''JPY'', [CHR 0xC2, CHR 0xA5]), (''CNY'', [CHR 0xC2, CHR 0xA5]), (''PHP'', [CHR 0xE2, CHR 0x82, CHR 0xB1]),
     (''THB'', [CHR 0xE0, CHR 0xB8, CHR 0xBF]), (''INR'', [CHR 0xE2, CHR 0x82, CHR 0xB9]), (''VND'', [CHR 0xE2, CHR 0x82, CHR 0xAB]),
     (''KRW'', [CHR 0xE2, CHR 0x82, CHR 0xA9]), (''TRY'', [CHR 0xE2, CHR 0x82, CHR 0xBA]), (''RUB'', [CHR 0xE2, CHR 0x82, CHR 0xBD]),
     (''UAH'', [CHR 0xE2, CHR 0x82, CHR 0xB4]), (''ILS'', [CHR 0xE2, CHR 0x82, CHR 0xAA]), (''KZT'', [CHR 0xE2, CHR 0x82, CHR 0xB8]),
     (''NGN'', [CHR 0xE2, CHR 0x82, CHR 0xA6]), (''GHS'', [CHR 0xE2, CHR 0x82, CHR 0xB5]), (''BDT'', [CHR 0xE0, CHR 0xA7, CHR 0xB3]),
     (''MNT'', [CHR 0xE2, CHR 0x82, CHR 0xAE]), (''LAK'', [CHR 0xE2, CHR 0x82, CHR 0xAD]), (''KHR'', [CHR 0xE1, CHR 0x9F, CHR 0x9B]),
     (''AFN'', [CHR 0xD8, CHR 0x8B]), (''AZN'', [CHR 0xE2, CHR 0x82, CHR 0xBC]), (''GEL'', [CHR 0xE2, CHR 0x82, CHR 0xBE]),
     (''PYG'', [CHR 0xE2, CHR 0x82, CHR 0xB2]), (''CRC'', [CHR 0xE2, CHR 0x82, CHR 0xA1]), (''HKD'', ''HK$''),
     (''SGD'', ''S$''), (''AUD'', ''A$''), (''CAD'', ''C$''),
     (''TWD'', ''NT$''), (''NZD'', ''NZ$''), (''MXN'', ''Mex$''),
     (''BRL'', ''R$''), (''ARS'', ''AR$''), (''CLP'', ''CLP$''),
     (''COP'', ''COL$''), (''UYU'', ''$U''), (''CUP'', [CHR 0xE2, CHR 0x82, CHR 0xB1]),
     (''CUC'', ''CUC$''), (''DOP'', ''RD$''), (''BSD'', ''B$''),
     (''BBD'', ''Bds$''), (''BMD'', ''BD$''), (''BZD'', ''BZ$''),
     (''FJD'', ''FJ$''), (''GYD'', ''GY$''), (''JMD'', ''J$''),
     (''KYD'', ''KY$''), (''LRD'', ''L$''), (''NAD'', ''N$''),
     (''SBD'', ''SI$''), (''SRD'', ''Sr$''), (''TTD'', ''TT$''),
     (''TVD'', ''TV$''), (''XCD'', ''EC$''), (''ZWG'', ''ZWG$''),
     (''ZWL'', ''Z$''), (''PKR'', [CHR 0xE2, CHR 0x82, CHR 0xA8]), (''LKR'', ''Rs''),
     (''NPR'', [CHR 0xE0, CHR 0xA4, CHR 0xB0, CHR 0xE0, CHR 0xA5, CHR 0x82]), (''MUR'', [CHR 0xE2, CHR 0x82, CHR 0xA8]), (''SCR'', [CHR 0xE2, CHR 0x82, CHR 0xA8]),
     (''SEK'', ''kr''), (''NOK'', ''kr''), (''DKK'', ''kr''),
     (''ISK'', ''kr''), (''FOK'', ''kr''), (''PLN'', [CHR 0x7A, CHR 0xC5, CHR 0x82]),
     (''CZK'', [CHR 0x4B, CHR 0xC4, CHR 0x8D]), (''HUF'', ''Ft''), (''BGN'', [CHR 0xD0, CHR 0xBB, CHR 0xD0, CHR 0xB2]),
     (''RON'', ''lei''), (''RSD'', [CHR 0xD0, CHR 0xB4, CHR 0xD0, CHR 0xB8, CHR 0xD0, CHR 0xBD, CHR 0x2E]), (''MKD'', [CHR 0xD0, CHR 0xB4, CHR 0xD0, CHR 0xB5, CHR 0xD0, CHR 0xBD]),
     (''ALL'', ''L''), (''BAM'', ''KM''), (''MDL'', ''L''),
     (''AED'', [CHR 0xD8, CHR 0xAF, CHR 0x2E, CHR 0xD8, CHR 0xA5]), (''SAR'', [CHR 0xEF, CHR 0xB7, CHR 0xBC]), (''QAR'', [CHR 0xEF, CHR 0xB7, CHR 0xBC]),
     (''OMR'', [CHR 0xD8, CHR 0xB1, CHR 0x2E, CHR 0xD8, CHR 0xB9, CHR 0x2E]), (''BHD'', [CHR 0xD8, CHR 0xA8, CHR 0x2E, CHR 0xD8, CHR 0xAF]), (''KWD'', [CHR 0xD8, CHR 0xAF, CHR 0x2E, CHR 0xD9, CHR 0x83]),
     (''JOD'', [CHR 0xD8, CHR 0xAF, CHR 0x2E, CHR 0xD8, CHR 0xA7]), (''IQD'', [CHR 0xD8, CHR 0xB9, CHR 0x2E, CHR 0xD8, CHR 0xAF]), (''LYD'', [CHR 0xD9, CHR 0x84, CHR 0x2E, CHR 0xD8, CHR 0xAF]),
     (''TND'', [CHR 0xD8, CHR 0xAF, CHR 0x2E, CHR 0xD8, CHR 0xAA]), (''YER'', [CHR 0xEF, CHR 0xB7, CHR 0xBC]), (''EGP'', [CHR 0x45, CHR 0xC2, CHR 0xA3]),
     (''MAD'', [CHR 0xD8, CHR 0xAF, CHR 0x2E, CHR 0xD9, CHR 0x85, CHR 0x2E]), (''DZD'', [CHR 0xD8, CHR 0xAF, CHR 0x2E, CHR 0xD8, CHR 0xAC]), (''SDG'', [CHR 0xD8, CHR 0xAC, CHR 0x2E, CHR 0xD8, CHR 0xB3, CHR 0x2E]),
     (''SYP'', [CHR 0xD9, CHR 0x84, CHR 0x2E, CHR 0xD8, CHR 0xB3]), (''LBP'', [CHR 0xD9, CHR 0x84, CHR 0x2E, CHR 0xD9, CHR 0x84]), (''IRR'', [CHR 0xEF, CHR 0xB7, CHR 0xBC]),
     (''MYR'', ''RM''), (''IDR'', ''Rp''), (''MMK'', ''K''),
     (''BTN'', ''Nu.''), (''MVR'', ''Rf''), (''BND'', ''B$''),
     (''ZAR'', ''R''), (''BWP'', ''P''), (''ETB'', ''Br''),
     (''KES'', ''KSh''), (''TZS'', ''TSh''), (''UGX'', ''USh''),
     (''MWK'', ''MK''), (''ZMW'', ''K''), (''AOA'', ''Kz''),
     (''MZN'', ''MT''), (''GMD'', ''D''), (''SLL'', ''Le''),
     (''SLE'', ''Le''), (''STN'', ''Db''), (''ERN'', ''Nfk''),
     (''DJF'', ''Fdj''), (''KMF'', ''CF''), (''MGA'', ''Ar''),
     (''MRU'', ''UM''), (''RWF'', ''FRw''), (''BIF'', ''FBu''),
     (''GNF'', ''FG''), (''CDF'', ''FC''), (''XAF'', ''FCFA''),
     (''XOF'', ''CFA''), (''XPF'', [CHR 0xE2, CHR 0x82, CHR 0xA3]), (''TMT'', ''T''),
     (''TJS'', [CHR 0xD0, CHR 0x85, CHR 0xD0, CHR 0x9C]), (''UZS'', [CHR 0xD1, CHR 0x81, CHR 0xD1, CHR 0x9E, CHR 0xD0, CHR 0xBC]), (''AMD'', [CHR 0xD6, CHR 0x8F]),
     (''VUV'', ''VT''), (''WST'', ''T''), (''TOP'', ''T$''),
     (''PGK'', ''K''), (''FKP'', [CHR 0xC2, CHR 0xA3]), (''GIP'', [CHR 0xC2, CHR 0xA3]),
     (''SHP'', [CHR 0xC2, CHR 0xA3]), (''SVC'', [CHR 0xE2, CHR 0x82, CHR 0xA1]), (''GTQ'', ''Q''),
     (''HNL'', ''L''), (''HTG'', ''G''), (''NIO'', ''C$''),
     (''PAB'', ''B/.''), (''PEN'', ''S/.''), (''BOB'', ''Bs.''),
     (''VES'', ''Bs.S''), (''ANG'', [CHR 0xC6, CHR 0x92]), (''AWG'', [CHR 0xC6, CHR 0x92]),
     (''KGS'', [CHR 0xD1, CHR 0x81]), (''BYN'', ''Br''), (''KPW'', [CHR 0xE2, CHR 0x82, CHR 0xA9]),
     (''CHF'', ''CHF''), (''LSL'', ''LSL''), (''SSP'', ''SSP''),
     (''SOS'', ''Sh.So.''), (''CVE'', ''Esc''), (''TJZ'', ''TJS'')]"

definition IsSupported :: "string \<Rightarrow> bool" where
  "IsSupported code \<longleftrightarrow> map_of precisionMinor code \<noteq> None"

definition Precision :: "string \<Rightarrow> money_error + nat" where
  "Precision code = (case map_of precisionMinor code of
     None \<Rightarrow> Inl (UnknownCurrency code) | Some p \<Rightarrow> Inr p)"

text \<open>The loop \<open>for i := 0; i < p; i++ { n *= 10 }\<close>.\<close>

fun pow10_loop :: "nat \<Rightarrow> int \<Rightarrow> int" where
  "pow10_loop 0 n = n"
| "pow10_loop (Suc k) n = pow10_loop k (mul64 n 10)"

definition MinorUnitsPerMajor :: "string \<Rightarrow> money_error + int" where
  "MinorUnitsPerMajor code = (case Precision code of
     Inl e \<Rightarrow> Inl e | Inr p \<Rightarrow> Inr (pow10_loop p 1))"

definition MinorToStorage :: "int \<Rightarrow> string \<Rightarrow> money_error + int" where
  "MinorToStorage minorUnits code =
     (if \<not> IsSupported code then Inl (UnknownCurrency code)
      else Inr (mul64 minorUnits StorageScale))"

definition StorageToMinor :: "int \<Rightarrow> string \<Rightarrow> money_error + int" where
  "StorageToMinor storage code =
     (if \<not> IsSupported code then Inl (UnknownCurrency code)
      else if rem64 storage StorageScale \<noteq> 0 then Inl (NotDivisible storage StorageScale)
      else Inr (quot64 storage StorageScale))"

definition divHalfToEven :: "int \<Rightarrow> int \<Rightarrow> int" where
  "divHalfToEven num den =
     (let sign = (if num < 0 then -1 else 1);
          num = (if num < 0 then neg64 num else num);
          q = quot64 num den;
          r = rem64 num den;
          twoR = mul64 r 2;
          q = (if twoR > den then add64 q 1
               else if twoR = den \<and> rem64 q 2 \<noteq> 0 then add64 q 1
               else q)
      in mul64 sign q)"

definition StorageToMinorBanker :: "int \<Rightarrow> string \<Rightarrow> money_error + int" where
  "StorageToMinorBanker storage code =
     (if \<not> IsSupported code then Inl (UnknownCurrency code)
      else Inr (divHalfToEven storage StorageScale))"

definition Symbol :: "string \<Rightarrow> string" where
  "Symbol code = (case map_of currencySymbol code of Some s \<Rightarrow> s | None \<Rightarrow> code @ '' '')"

definition FormatMinor :: "int \<Rightarrow> string \<Rightarrow> money_error + string" where
  "FormatMinor minorUnits code = (case Precision code of
     Inl e \<Rightarrow> Inl e
   | Inr p \<Rightarrow>
       (let sign = (if minorUnits < 0 then ''-'' else []);
            minorUnits = (if minorUnits < 0 then neg64 minorUnits else minorUnits)
        in if p = 0 then Inr (sign @ format_int minorUnits)
           else let dv = pow10_loop p 1;
                    major = quot64 minorUnits dv;
                    frac = rem64 minorUnits dv
                in Inr (sign @ format_int major @ ''.'' @ pad_int p frac)))"

definition FormatStorage :: "int \<Rightarrow> string \<Rightarrow> money_error + string" where
  "FormatStorage storage code = (case StorageToMinorBanker storage code of
     Inl e \<Rightarrow> Inl e | Inr m \<Rightarrow> FormatMinor m code)"

definition RoundToStorage :: "int \<Rightarrow> string \<Rightarrow> money_error + int" where
  "RoundToStorage storage code = (case StorageToMinorBanker storage code of
     Inl e \<Rightarrow> Inl e | Inr m \<Rightarrow> Inr (mul64 m StorageScale))"

definition Display :: "int \<Rightarrow> string \<Rightarrow> money_error + string" where
  "Display storage code = (case FormatStorage storage code of
     Inl e \<Rightarrow> Inl e | Inr s \<Rightarrow> Inr (Symbol code @ s))"

section \<open>Rounding\<close>

text \<open>The rounding of a magnitude, with the wrap-around discharged.\<close>

definition round_half_even :: "int \<Rightarrow> int \<Rightarrow> int" where
  "round_half_even n d =
     (if 2 * (n mod d) > d \<or> (2 * (n mod d) = d \<and> odd (n div d)) then n div d + 1 else n div d)"

lemma round_half_even_near:
  assumes "0 < d"
  shows "2 * \<bar>n - d * round_half_even n d\<bar> \<le> d"
    and "2 * \<bar>n - d * round_half_even n d\<bar> = d \<Longrightarrow> even (round_half_even n d)"
proof -
  define q r where "q = n div d" and "r = n mod d"
  have n: "n = d * q + r" and r: "0 \<le> r" "r < d"
    using assms by (simp_all add: q_def r_def)
  have up: "n - d * (q + 1) = r - d" using n by (simp add: algebra_simps)
  have down: "n - d * q = r" using n by linarith
  have eq: "round_half_even n d = (if 2 * r > d \<or> (2 * r = d \<and> odd q) then q + 1 else q)"
    by (simp add: round_half_even_def q_def r_def)
  show "2 * \<bar>n - d * round_half_even n d\<bar> \<le> d"
    using r up down unfolding eq by (smt (verit))
  show "2 * \<bar>n - d * round_half_even n d\<bar> = d \<Longrightarrow> even (round_half_even n d)"
    using r up down even_plus_one_iff [of q] unfolding eq by (smt (verit))
qed

lemma divHalfToEven_round:
  assumes "in64 num" "num \<noteq> min_int64"
  shows "divHalfToEven num 100 = sgn num * round_half_even \<bar>num\<bar> 100"
proof -
  define m where "m = \<bar>num\<bar>"
  have m: "0 \<le> m" "m < 2 ^ 63" using assms by (auto simp: in64_def m_def)
  have neg: "num < 0 \<Longrightarrow> neg64 num = m"
    using assms by (simp add: neg64_exact in64_def m_def)
  have r: "0 \<le> m mod 100" "m mod 100 < 100" by simp_all
  have q: "quot64 m 100 = m div 100" "rem64 m 100 = m mod 100" "in64 (m div 100 + 1)"
       "in64 (2 * (m mod 100))" "0 \<le> m div 100" "m div 100 < 2 ^ 62"
    using m r by (simp_all add: quot64_nonneg rem64_nonneg in64_def del: pos_mod_sign pos_mod_bound)
  have odd: "rem64 (m div 100) 2 \<noteq> 0 \<longleftrightarrow> odd (m div 100)"
    using q(5) by (simp add: rem64_nonneg odd_iff_mod_2_eq_one)
  have tie: "mul64 50 2 = 100" by (simp add: mul64_def in64_def)
  have core: "(let q = quot64 m 100; r = rem64 m 100; twoR = mul64 r 2
      in if twoR > 100 then add64 q 1 else if twoR = 100 \<and> rem64 q 2 \<noteq> 0 then add64 q 1 else q)
      = round_half_even m 100"
    using q odd mul64_exact [of "m mod 100" 2] add64_exact [of "m div 100" 1] tie
    by (simp add: Let_def round_half_even_def mult.commute [of _ 2])
  have small: "in64 (round_half_even m 100)" "in64 (- round_half_even m 100)"
    using q by (auto simp: round_half_even_def in64_def)
  show ?thesis
  proof (cases "num < 0")
    case True
    with neg core small show ?thesis
      by (simp add: divHalfToEven_def Let_def m_def mul64_exact)
  next
    case False
    then have "m = num" by (simp add: m_def)
    with False core small show ?thesis
      by (cases "num = 0") (simp_all add: divHalfToEven_def Let_def mul64_exact round_half_even_def)
  qed
qed

section \<open>Formatting\<close>

lemma Precision_le: "Precision code = Inr p \<Longrightarrow> p \<le> 4"
proof -
  have "list_all (\<lambda>x. snd x \<le> 4) precisionMinor" by code_simp
  moreover assume "Precision code = Inr p"
  then have "(code, p) \<in> set precisionMinor"
    by (auto simp: Precision_def split: option.splits dest: map_of_SomeD)
  ultimately show ?thesis by (auto simp: list_all_iff)
qed

lemma Precision_supported: "Precision code = Inr p \<Longrightarrow> IsSupported code"
  by (simp add: Precision_def IsSupported_def split: option.splits)

lemma pow10_loop_small: "p \<le> 4 \<Longrightarrow> pow10_loop p 1 = 10 ^ p"
proof -
  assume "p \<le> 4"
  then consider "p = 0" | "p = 1" | "p = 2" | "p = 3" | "p = 4" by linarith
  then show ?thesis
    by cases (simp_all add: eval_nat_numeral mul64_exact in64_def)
qed

lemma digit_not_dot: "list_all is_digit s \<Longrightarrow> filter (\<lambda>c. c \<noteq> CHR ''.'') s = s"
  by (induction s) (auto simp: is_digit_def)

lemma zeros_digits: "list_all is_digit (replicate k (CHR ''0''))"
  by (induction k) (simp_all add: is_digit_def)

text \<open>Dropping the point of the printed amount leaves the digits of the minor units.\<close>

lemma format_digits:
  assumes "1 \<le> p" "p \<le> 4" "0 \<le> m" "in64 m"
  shows "parse_digits (filter (\<lambda>c. c \<noteq> CHR ''.'')
           (format_int (quot64 m (10 ^ p)) @ ''.'' @ pad_int p (rem64 m (10 ^ p)))) = Some (nat m)"
proof -
  let ?d = "10 ^ p :: int" and ?a = "nat (m div 10 ^ p)" and ?b = "nat (m mod 10 ^ p)"
  have q: "quot64 m ?d = m div ?d" "rem64 m ?d = m mod ?d" "0 \<le> m div ?d" "0 \<le> m mod ?d" "m mod ?d < ?d"
    using assms by (simp_all add: quot64_nonneg rem64_nonneg pos_imp_zdiv_nonneg_iff)
  then have b: "?b < 10 ^ p" using assms by (simp add: nat_less_iff)
  then have len: "length (dec ?b) \<le> p" using assms by (intro length_dec) auto
  have "int (?a * 10 ^ p + ?b) = m div ?d * ?d + m mod ?d" using q by simp
  then have ab: "int (?a * 10 ^ p + ?b) = m" by (simp only: div_mult_mod_eq)
  have "digits_val 0 (dec ?a @ replicate (p - length (dec ?b)) (CHR ''0'') @ dec ?b) = ?a * 10 ^ p + ?b"
    using len by (simp add: digits_val_app digits_val_zeros)
  also have "\<dots> = nat m" using ab by (metis nat_int)
  finally show ?thesis
    using q by (simp add: format_int_def pad_int_nonneg digit_not_dot dec_digits zeros_digits parse_digits_def)
qed

section \<open>Properties\<close>

text \<open>
  C38. Banker's rounding of a storage amount is the nearest minor amount, takes the even one at a
  tie, and is symmetric in the sign, for every \<open>int64\<close> but the least one.
\<close>

theorem banker_rounding_nearest_even:
  assumes "IsSupported code" "in64 s" "s \<noteq> min_int64"
  shows "\<exists>q. StorageToMinorBanker s code = Inr q \<and> 2 * \<bar>s - 100 * q\<bar> \<le> 100 \<and>
             (2 * \<bar>s - 100 * q\<bar> = 100 \<longrightarrow> even q) \<and>
             StorageToMinorBanker (- s) code = Inr (- q)"
proof -
  let ?m = "\<bar>s\<bar>" let ?r = "round_half_even ?m 100"
  have "in64 (- s)" "- s \<noteq> min_int64" using assms by (auto simp: in64_def)
  then have neg: "divHalfToEven (- s) 100 = - divHalfToEven s 100"
    using assms by (simp add: divHalfToEven_round sgn_minus)
  have "s - 100 * (sgn s * ?r) = sgn s * (?m - 100 * ?r)"
    using mult_sgn_abs [of s] by (simp add: right_diff_distrib mult.left_commute)
  then have "\<bar>s - 100 * (sgn s * ?r)\<bar> = \<bar>sgn s\<bar> * \<bar>?m - 100 * ?r\<bar>" by (simp add: abs_mult)
  moreover have "\<bar>sgn s\<bar> = 0 \<or> \<bar>sgn s\<bar> = 1" by (simp add: sgn_if)
  ultimately show ?thesis
    using round_half_even_near [of 100 ?m] assms neg
    by (auto simp: StorageToMinorBanker_def divHalfToEven_round)
qed

theorem banker_rounding_nearest_even_witness:
  "\<exists>q. StorageToMinorBanker 1003450 ''USD'' = Inr q \<and> 2 * \<bar>1003450 - 100 * q\<bar> \<le> 100 \<and>
       (2 * \<bar>1003450 - 100 * q\<bar> = 100 \<longrightarrow> even q) \<and>
       StorageToMinorBanker (- 1003450) ''USD'' = Inr (- q)"
  by (rule banker_rounding_nearest_even) (code_simp, simp_all add: in64_def)

text \<open>
  C39. The strict conversion accepts exactly the storage amounts that are a whole number of minor
  units, and it inverts \<open>MinorToStorage\<close> wherever that does not overflow.
\<close>

theorem storage_minor_roundtrip:
  assumes "IsSupported code" "in64 s" "in64 (100 * m)"
  shows "(StorageToMinor s code = Inr m \<longleftrightarrow> s = 100 * m) \<and>
         (MinorToStorage m code = Inr s \<longleftrightarrow> s = 100 * m)"
proof -
  have sm: "s = 100 * (s sdiv 100) + s smod 100" by (simp only: mult_sdiv_smod_eq)
  have bound: "in64 (s sdiv 100)"
  proof -
    have "\<bar>s\<bar> div 100 \<le> \<bar>s\<bar>" using zdiv_mono2 [of "\<bar>s\<bar>" 1 100] by simp
    moreover have "0 \<le> \<bar>s\<bar> div 100" by (simp add: pos_imp_zdiv_nonneg_iff)
    moreover have "s sdiv 100 = sgn s * (\<bar>s\<bar> div 100)" by (simp add: signed_divide_int_def)
    moreover have "\<bar>s\<bar> div 100 \<le> 2 ^ 63 div 100"
      using assms by (intro zdiv_mono1) (auto simp: in64_def)
    ultimately show ?thesis by (auto simp: in64_def sgn_if)
  qed
  have exact: "(100 * m) smod 100 = 0" "(100 * m) sdiv 100 = m"
    by (simp_all add: signed_modulo_int_def signed_divide_int_def abs_mult sgn_mult mult_sgn_abs)
  have "StorageToMinor s code = Inr m \<longleftrightarrow> s = 100 * m"
    using assms sm bound exact
    by (auto simp: StorageToMinor_def rem64_def quot64_def)
  moreover have "MinorToStorage m code = Inr s \<longleftrightarrow> s = 100 * m"
    using assms by (auto simp: MinorToStorage_def mul64_exact mult.commute)
  ultimately show ?thesis ..
qed

theorem storage_minor_roundtrip_witness:
  "StorageToMinor 1003400 ''USD'' = Inr 10034 \<and> MinorToStorage 10034 ''USD'' = Inr 1003400"
proof -
  have h: "IsSupported ''USD''" "in64 1003400" "in64 (100 * 10034)" by (code_simp, simp_all add: in64_def)
  show ?thesis using storage_minor_roundtrip [OF h] by simp
qed

text \<open>
  \<open>FormatMinor\<close> loses nothing: removing the decimal point of what it prints and parsing the
  rest with \<open>ParseInt\<close> gives the amount back, for every amount but the least \<open>int64\<close>.
\<close>

theorem format_minor_parses_back:
  assumes "Precision code = Inr p" "in64 m" "m \<noteq> min_int64"
  shows "\<exists>s. FormatMinor m code = Inr s \<and> parse_int (filter (\<lambda>c. c \<noteq> CHR ''.'') s) = Some m"
proof -
  have p: "p \<le> 4" "pow10_loop p 1 = 10 ^ p" using assms Precision_le pow10_loop_small by auto
  define a where "a = \<bar>m\<bar>"
  have a: "0 \<le> a" "in64 a" "in64 (- a)" using assms by (auto simp: a_def in64_def)
  have neg: "m < 0 \<Longrightarrow> neg64 m = a" using assms by (simp add: a_def neg64_exact in64_def)
  define body where "body = (if p = 0 then format_int a
     else format_int (quot64 a (10 ^ p)) @ ''.'' @ pad_int p (rem64 a (10 ^ p)))"
  have body: "parse_digits (filter (\<lambda>c. c \<noteq> CHR ''.'') body) = Some (nat a)"
    using a p format_digits [of p a]
    by (auto simp: body_def format_int_def digit_not_dot dec_digits)
  have out: "FormatMinor m code = Inr ((if m < 0 then ''-'' else []) @ body)"
    using assms p neg by (auto simp: FormatMinor_def body_def Let_def a_def)
  show ?thesis
    unfolding out using parse_int_sign [OF body] a assms(2) by (auto simp: a_def)
qed

theorem format_minor_parses_back_witness:
  "\<exists>s. FormatMinor (- 25) ''USD'' = Inr s \<and> parse_int (filter (\<lambda>c. c \<noteq> CHR ''.'') s) = Some (- 25)"
proof -
  have "Precision ''USD'' = Inr 2" by code_simp
  then show ?thesis by (rule format_minor_parses_back) (simp_all add: in64_def)
qed

section \<open>Where the conversions overflow\<close>

text \<open>\<open>MinorToStorage\<close> multiplies unchecked: a large amount wraps to zero without an error.\<close>

lemma minor_to_storage_wraps: "MinorToStorage 4611686018427387904 ''USD'' = Inr 0"
proof -
  have "IsSupported ''USD''" by code_simp
  then show ?thesis by (simp add: MinorToStorage_def mul64_def i64_def)
qed

text \<open>Negating the least \<open>int64\<close> leaves it negative, so the rounding changes its sign.\<close>

lemma banker_min_int64_flips_sign: "divHalfToEven min_int64 100 = 92233720368547758"
  by code_simp

end
