(* ===== verification/Identity.thy ===== *)
theory Identity
  imports Prelude
begin

text \<open>
  \<open>packages/payment-util/shadow/identity.go\<close>: the decimal field layouts of every numeric
  identifier (fleet users, merchants, entities, accounts in layouts V1 and V2, generic ids), with
  main and shadow traffic kept apart. The flag \<open>sh\<close> is \<open>IsShadow(ctx)\<close>. Encoders check each field
  before they add, so no sum leaves \<open>int64\<close> (\<open>EncodeAccountID_in64\<close> and its like); decoders
  divide as Go does, towards zero.
\<close>

datatype id_error =
    IdOutOfRange string int
  | IdShadowMismatch int bool
  | IdNotPositive int
  | IdNegative int
  | IdWrapped string id_error

section \<open>Fleet, user, merchant identifiers\<close>

abbreviation (input) MainFleetUserIDMin :: int where "MainFleetUserIDMin \<equiv> 1000000"
abbreviation (input) MainFleetUserIDMax :: int where "MainFleetUserIDMax \<equiv> 9999999"
abbreviation (input) MainUserIDMin :: int where "MainUserIDMin \<equiv> 100000000"
abbreviation (input) MainUserIDMax :: int where "MainUserIDMax \<equiv> 899999999"
abbreviation (input) ShadowFleetUserIDMin :: int where "ShadowFleetUserIDMin \<equiv> 9000000000"
abbreviation (input) ShadowFleetUserIDMax :: int where "ShadowFleetUserIDMax \<equiv> 9009999999"
abbreviation (input) ShadowUserIDMin :: int where "ShadowUserIDMin \<equiv> 9010000000"
abbreviation (input) ShadowUserIDMax :: int where "ShadowUserIDMax \<equiv> 9899999999"
abbreviation (input) FleetChannelStride :: int where "FleetChannelStride \<equiv> 1000"
abbreviation (input) MaxFleetChannels :: int where "MaxFleetChannels \<equiv> 9000"

definition FleetUserID :: "bool \<Rightarrow> int \<Rightarrow> int \<Rightarrow> int" where
  "FleetUserID sh channelCode globalTableIdx =
     (let channelCode = (if channelCode < 0 \<or> channelCode \<ge> MaxFleetChannels then 0 else channelCode);
          globalTableIdx = (if globalTableIdx < 0 \<or> globalTableIdx \<ge> FleetChannelStride then 0
                            else globalTableIdx);
          offset = channelCode * FleetChannelStride + globalTableIdx
      in if sh then ShadowFleetUserIDMin + offset else MainFleetUserIDMin + offset)"

definition MainFleetUserID :: "int \<Rightarrow> int" where
  "MainFleetUserID globalTableIdx = add64 MainFleetUserIDMin globalTableIdx"

definition ShadowFleetUserID :: "int \<Rightarrow> int" where
  "ShadowFleetUserID globalTableIdx = add64 ShadowFleetUserIDMin globalTableIdx"

definition DecodeFleetUserID :: "int \<Rightarrow> int \<times> int" where
  "DecodeFleetUserID userID =
     (if userID \<ge> MainFleetUserIDMin \<and> userID \<le> MainFleetUserIDMax then
        (let offset = userID - MainFleetUserIDMin
         in (offset sdiv FleetChannelStride, offset smod FleetChannelStride))
      else if userID \<ge> ShadowFleetUserIDMin \<and> userID \<le> ShadowFleetUserIDMax then
        (let offset = userID - ShadowFleetUserIDMin
         in (offset sdiv FleetChannelStride, offset smod FleetChannelStride))
      else (-1, -1))"

definition IsFleetUserID :: "int \<Rightarrow> bool" where
  "IsFleetUserID userID =
     (if userID \<ge> MainFleetUserIDMin \<and> userID \<le> MainFleetUserIDMax then True
      else if userID \<ge> ShadowFleetUserIDMin \<and> userID \<le> ShadowFleetUserIDMax then True
      else False)"

definition UserIDRange :: "bool \<Rightarrow> int \<times> int" where
  "UserIDRange sh = (if sh then (ShadowUserIDMin, ShadowUserIDMax) else (MainUserIDMin, MainUserIDMax))"

definition ValidateUserID :: "bool \<Rightarrow> int \<Rightarrow> id_error option" where
  "ValidateUserID sh userID =
     (case UserIDRange sh of (lo, hi) \<Rightarrow>
        if userID < lo \<or> userID > hi then Some (IdOutOfRange ''user_id'' userID) else None)"

definition IsShadowUserID :: "int \<Rightarrow> bool" where
  "IsShadowUserID userID \<longleftrightarrow> userID \<ge> ShadowUserIDMin \<and> userID \<le> ShadowUserIDMax"

definition IsMainUserID :: "int \<Rightarrow> bool" where
  "IsMainUserID userID \<longleftrightarrow> userID \<ge> MainUserIDMin \<and> userID \<le> MainUserIDMax"

definition ShadowUserID :: "int \<Rightarrow> int" where
  "ShadowUserID mainUserID =
     (if IsShadowUserID mainUserID then mainUserID
      else if \<not> IsMainUserID mainUserID then 0
      else ShadowUserIDMin + (mainUserID - MainUserIDMin))"

abbreviation (input) MerchantIDShadowMul :: int where "MerchantIDShadowMul \<equiv> 1000000000000000000"
abbreviation (input) MerchantIDSeqMax :: int where "MerchantIDSeqMax \<equiv> 999999999999999999"

definition EncodeMerchantID :: "bool \<Rightarrow> int \<Rightarrow> id_error + int" where
  "EncodeMerchantID sh seq =
     (if seq \<le> 0 \<or> seq > MerchantIDSeqMax then Inl (IdOutOfRange ''merchant_id seq'' seq)
      else Inr (if sh then seq + MerchantIDShadowMul else seq))"

definition DecodeMerchantID :: "int \<Rightarrow> bool \<times> int" where
  "DecodeMerchantID merchantID =
     (if merchantID \<ge> MerchantIDShadowMul then (True, merchantID - MerchantIDShadowMul)
      else (False, merchantID))"

definition IsShadowMerchantID :: "int \<Rightarrow> bool" where
  "IsShadowMerchantID merchantID \<longleftrightarrow> merchantID \<ge> MerchantIDShadowMul"

definition ValidateMerchantID :: "bool \<Rightarrow> int \<Rightarrow> id_error option" where
  "ValidateMerchantID sh merchantID =
     (if merchantID \<le> 0 then Some (IdNotPositive merchantID)
      else case DecodeMerchantID merchantID of (isShadow, seq) \<Rightarrow>
        if seq \<le> 0 \<or> seq > MerchantIDSeqMax then Some (IdOutOfRange ''seq'' seq)
        else if isShadow \<noteq> sh then Some (IdShadowMismatch merchantID isShadow)
        else None)"

definition ShadowMerchantID :: "int \<Rightarrow> int" where
  "ShadowMerchantID mainMerchantID =
     (if mainMerchantID \<le> 0 then 0
      else if IsShadowMerchantID mainMerchantID then mainMerchantID
      else mainMerchantID + MerchantIDShadowMul)"

definition ValidateCustomerID :: "bool \<Rightarrow> int \<Rightarrow> id_error option" where
  "ValidateCustomerID sh customerID =
     map_option (IdWrapped ''customer_id'') (ValidateUserID sh customerID)"

section \<open>Entity identifiers\<close>

abbreviation (input) EntityIDSeqMul :: int where "EntityIDSeqMul \<equiv> 10000000000000000"
abbreviation (input) EntityIDShadowMul :: int where "EntityIDShadowMul \<equiv> 1000000000000000000"
abbreviation (input) EntityIDSeqMax :: int where "EntityIDSeqMax \<equiv> 9999999999999999"
abbreviation (input) EntityIDTableMax :: int where "EntityIDTableMax \<equiv> 99"

definition EncodeEntityID :: "bool \<Rightarrow> int \<Rightarrow> int \<Rightarrow> id_error + int" where
  "EncodeEntityID sh globalTableIdx seq =
     (if globalTableIdx < 0 \<or> globalTableIdx > EntityIDTableMax
        then Inl (IdOutOfRange ''globalTableIdx'' globalTableIdx)
      else if seq \<le> 0 \<or> seq > EntityIDSeqMax then Inl (IdOutOfRange ''seq'' seq)
      else let i = globalTableIdx * EntityIDSeqMul + seq
           in Inr (if sh then i + EntityIDShadowMul else i))"

definition DecodeEntityID :: "int \<Rightarrow> bool \<times> int \<times> int" where
  "DecodeEntityID entityID =
     (let isShadow = entityID \<ge> EntityIDShadowMul;
          entityID = (if isShadow then entityID - EntityIDShadowMul else entityID)
      in (isShadow, entityID sdiv EntityIDSeqMul, entityID smod EntityIDSeqMul))"

definition EntityIDDBIndex :: "int \<Rightarrow> int" where
  "EntityIDDBIndex entityID = (case DecodeEntityID entityID of (_, gti, _) \<Rightarrow> gti sdiv 10)"

definition EntityIDTableIndex :: "int \<Rightarrow> int" where
  "EntityIDTableIndex entityID = (case DecodeEntityID entityID of (_, gti, _) \<Rightarrow> gti)"

definition IsShadowEntityID :: "int \<Rightarrow> bool" where
  "IsShadowEntityID entityID \<longleftrightarrow> entityID \<ge> EntityIDShadowMul"

definition ValidateEntityID :: "bool \<Rightarrow> int \<Rightarrow> id_error option" where
  "ValidateEntityID sh entityID =
     (if entityID \<le> 0 then Some (IdNotPositive entityID)
      else case DecodeEntityID entityID of (isShadow, gti, seq) \<Rightarrow>
        if gti < 0 \<or> gti > EntityIDTableMax then Some (IdOutOfRange ''globalTableIdx'' gti)
        else if seq \<le> 0 \<or> seq > EntityIDSeqMax then Some (IdOutOfRange ''seq'' seq)
        else if isShadow \<noteq> sh then Some (IdShadowMismatch entityID isShadow)
        else None)"

definition ValidatePaymentIntentID :: "bool \<Rightarrow> int \<Rightarrow> id_error option" where
  "ValidatePaymentIntentID sh i = map_option (IdWrapped ''payment_intent_id'') (ValidateEntityID sh i)"
definition ValidateChargeID :: "bool \<Rightarrow> int \<Rightarrow> id_error option" where
  "ValidateChargeID sh i = map_option (IdWrapped ''charge_id'') (ValidateEntityID sh i)"
definition ValidateRefundID :: "bool \<Rightarrow> int \<Rightarrow> id_error option" where
  "ValidateRefundID sh i = map_option (IdWrapped ''refund_id'') (ValidateEntityID sh i)"
definition ValidatePayActionID :: "bool \<Rightarrow> int \<Rightarrow> id_error option" where
  "ValidatePayActionID sh i = map_option (IdWrapped ''pay_action_id'') (ValidateEntityID sh i)"
definition ValidateDisputeID :: "bool \<Rightarrow> int \<Rightarrow> id_error option" where
  "ValidateDisputeID sh i = map_option (IdWrapped ''dispute_id'') (ValidateEntityID sh i)"
definition ValidateVoucherNo :: "bool \<Rightarrow> int \<Rightarrow> id_error option" where
  "ValidateVoucherNo sh i = map_option (IdWrapped ''voucher_no'') (ValidateEntityID sh i)"
definition ValidateTCCID :: "bool \<Rightarrow> int \<Rightarrow> id_error option" where
  "ValidateTCCID sh i = map_option (IdWrapped ''tcc_id'') (ValidateEntityID sh i)"
definition ValidateSettlementID :: "bool \<Rightarrow> int \<Rightarrow> id_error option" where
  "ValidateSettlementID sh i = map_option (IdWrapped ''settlement_id'') (ValidateEntityID sh i)"
definition ValidateAcquirerTxID :: "bool \<Rightarrow> int \<Rightarrow> id_error option" where
  "ValidateAcquirerTxID sh i = map_option (IdWrapped ''acquirer_tx_id'') (ValidateEntityID sh i)"

section \<open>Account identifiers\<close>

abbreviation (input) MainAccountIDMin :: int where "MainAccountIDMin \<equiv> 10000000000"
abbreviation (input) MainAccountIDMax :: int where "MainAccountIDMax \<equiv> 89999999999"
abbreviation (input) ShadowAccountIDMin :: int where "ShadowAccountIDMin \<equiv> 90000000000"
abbreviation (input) ShadowAccountIDMax :: int where "ShadowAccountIDMax \<equiv> 98999999999"

definition AccountIDRange :: "bool \<Rightarrow> int \<times> int" where
  "AccountIDRange sh = (if sh then (ShadowAccountIDMin, ShadowAccountIDMax)
                        else (MainAccountIDMin, MainAccountIDMax))"

definition ValidateAccountID :: "bool \<Rightarrow> int \<Rightarrow> id_error option" where
  "ValidateAccountID sh accountID =
     (case AccountIDRange sh of (lo, hi) \<Rightarrow>
        if accountID < lo \<or> accountID > hi then Some (IdOutOfRange ''account_id'' accountID) else None)"

definition IsShadowAccountID :: "int \<Rightarrow> bool" where
  "IsShadowAccountID accountID \<longleftrightarrow> accountID \<ge> ShadowAccountIDMin \<and> accountID \<le> ShadowAccountIDMax"

definition IsMainAccountID :: "int \<Rightarrow> bool" where
  "IsMainAccountID accountID \<longleftrightarrow> accountID \<ge> MainAccountIDMin \<and> accountID \<le> MainAccountIDMax"

definition ShadowAccountID :: "int \<Rightarrow> int" where
  "ShadowAccountID mainAccountID =
     (if IsShadowAccountID mainAccountID then mainAccountID
      else if \<not> IsMainAccountID mainAccountID then 0
      else ShadowAccountIDMin + (mainAccountID - MainAccountIDMin))"

abbreviation (input) accountIDBusinessMul :: int where "accountIDBusinessMul \<equiv> 10000000"
abbreviation (input) accountIDGlobalTblMul :: int where "accountIDGlobalTblMul \<equiv> 100000000000"
abbreviation (input) accountIDAccountTypeMul :: int where "accountIDAccountTypeMul \<equiv> 10000000000000"
abbreviation (input) accountIDCurrencyMul :: int where "accountIDCurrencyMul \<equiv> 1000000000000000"
abbreviation (input) accountIDShadowMul :: int where "accountIDShadowMul \<equiv> 1000000000000000000"
abbreviation (input) accountIDSeqMax :: int where "accountIDSeqMax \<equiv> 9999999"
abbreviation (input) accountIDBusinessMax :: int where "accountIDBusinessMax \<equiv> 9999"
abbreviation (input) accountIDGlobalTblMax :: int where "accountIDGlobalTblMax \<equiv> 99"
abbreviation (input) accountIDAccountTypeMax :: int where "accountIDAccountTypeMax \<equiv> 99"
abbreviation (input) accountIDCurrencyMax :: int where "accountIDCurrencyMax \<equiv> 999"
abbreviation (input) accountIDV2AccountTypeMul :: int where "accountIDV2AccountTypeMul \<equiv> 100000000000000"
abbreviation (input) accountIDV2VersionMul :: int where "accountIDV2VersionMul \<equiv> 2000000000000000000"
abbreviation (input) accountIDV2GlobalTblMax :: int where "accountIDV2GlobalTblMax \<equiv> 999"
abbreviation (input) accountIDV2AccountTypeMax :: int where "accountIDV2AccountTypeMax \<equiv> 9"

record account_fields =
  af_currency :: int
  af_accountType :: int
  af_globalTableIdx :: int
  af_businessType :: int
  af_seq :: int

definition EncodeAccountID :: "bool \<Rightarrow> account_fields \<Rightarrow> id_error + int" where
  "EncodeAccountID sh f =
     (if af_currency f < 0 \<or> af_currency f > accountIDCurrencyMax
        then Inl (IdOutOfRange ''currency'' (af_currency f))
      else if af_accountType f < 0 \<or> af_accountType f > accountIDAccountTypeMax
        then Inl (IdOutOfRange ''account_type'' (af_accountType f))
      else if af_globalTableIdx f < 0 \<or> af_globalTableIdx f > accountIDGlobalTblMax
        then Inl (IdOutOfRange ''global_table_idx'' (af_globalTableIdx f))
      else if af_businessType f < 0 \<or> af_businessType f > accountIDBusinessMax
        then Inl (IdOutOfRange ''business_type'' (af_businessType f))
      else if af_seq f \<le> 0 \<or> af_seq f > accountIDSeqMax
        then Inl (IdOutOfRange ''seq'' (af_seq f))
      else let i = af_seq f + af_businessType f * accountIDBusinessMul
                 + af_globalTableIdx f * accountIDGlobalTblMul
                 + af_accountType f * accountIDAccountTypeMul
                 + af_currency f * accountIDCurrencyMul
           in Inr (if sh then i + accountIDShadowMul else i))"

definition AccountIDLayoutVersion :: "int \<Rightarrow> nat" where
  "AccountIDLayoutVersion accountID = (if accountID \<ge> accountIDV2VersionMul then 2 else 1)"

definition EncodeAccountIDV2 :: "bool \<Rightarrow> account_fields \<Rightarrow> id_error + int" where
  "EncodeAccountIDV2 sh f =
     (if af_currency f < 0 \<or> af_currency f > accountIDCurrencyMax
        then Inl (IdOutOfRange ''V2 currency'' (af_currency f))
      else if af_accountType f < 0 \<or> af_accountType f > accountIDV2AccountTypeMax
        then Inl (IdOutOfRange ''V2 account_type'' (af_accountType f))
      else if af_globalTableIdx f < 0 \<or> af_globalTableIdx f > accountIDV2GlobalTblMax
        then Inl (IdOutOfRange ''V2 global_table_idx'' (af_globalTableIdx f))
      else if af_businessType f < 0 \<or> af_businessType f > accountIDBusinessMax
        then Inl (IdOutOfRange ''V2 business_type'' (af_businessType f))
      else if af_seq f \<le> 0 \<or> af_seq f > accountIDSeqMax
        then Inl (IdOutOfRange ''V2 seq'' (af_seq f))
      else let i = af_seq f + af_businessType f * accountIDBusinessMul
                 + af_globalTableIdx f * accountIDGlobalTblMul
                 + af_accountType f * accountIDV2AccountTypeMul
                 + af_currency f * accountIDCurrencyMul;
               i = (if sh then i + accountIDShadowMul else i)
           in Inr (i + accountIDV2VersionMul))"

text \<open>The five fields, read off one below the other, with the multiplier of the account type as
  the only difference between the layouts.\<close>

definition split_account_fields :: "int \<Rightarrow> int \<Rightarrow> account_fields" where
  "split_account_fields accountTypeMul a0 =
     (let a1 = a0 smod accountIDCurrencyMul;
          a2 = a1 smod accountTypeMul;
          a3 = a2 smod accountIDGlobalTblMul
      in \<lparr>af_currency = a0 sdiv accountIDCurrencyMul,
          af_accountType = a1 sdiv accountTypeMul,
          af_globalTableIdx = a2 sdiv accountIDGlobalTblMul,
          af_businessType = a3 sdiv accountIDBusinessMul,
          af_seq = a3 smod accountIDBusinessMul\<rparr>)"

definition DecodeAccountID :: "int \<Rightarrow> bool \<times> account_fields" where
  "DecodeAccountID accountID =
     (let version = AccountIDLayoutVersion accountID;
          accountID = (if version = 2 then accountID - accountIDV2VersionMul else accountID);
          isShadow = accountID \<ge> accountIDShadowMul;
          accountID = (if isShadow then accountID - accountIDShadowMul else accountID)
      in (isShadow,
          if version = 2 then split_account_fields accountIDV2AccountTypeMul accountID
          else split_account_fields accountIDAccountTypeMul accountID))"

definition AccountIDGlobalTableIdx :: "int \<Rightarrow> int" where
  "AccountIDGlobalTableIdx accountID =
     (if AccountIDLayoutVersion accountID = 2 then
        (let a = accountID - accountIDV2VersionMul;
             a = (if a \<ge> accountIDShadowMul then a - accountIDShadowMul else a)
         in (a smod accountIDV2AccountTypeMul) sdiv accountIDGlobalTblMul)
      else
        (let a = (if accountID \<ge> accountIDShadowMul then accountID - accountIDShadowMul else accountID)
         in (a smod accountIDAccountTypeMul) sdiv accountIDGlobalTblMul))"

definition AccountIDDBIndex :: "int \<Rightarrow> int" where
  "AccountIDDBIndex accountID =
     (let gtbl = AccountIDGlobalTableIdx accountID
      in if AccountIDLayoutVersion accountID = 2 then gtbl sdiv 100 else gtbl sdiv 10)"

definition AccountIDTableIndex :: "int \<Rightarrow> int" where
  "AccountIDTableIndex accountID = AccountIDGlobalTableIdx accountID"

definition IsShadowAccountIDLayout :: "int \<Rightarrow> bool" where
  "IsShadowAccountIDLayout accountID \<longleftrightarrow> (accountID sdiv accountIDShadowMul) smod 2 = 1"

definition ValidateAccountIDLayout :: "bool \<Rightarrow> int \<Rightarrow> id_error option" where
  "ValidateAccountIDLayout sh accountID =
     (if accountID < 0 then Some (IdNegative accountID)
      else case DecodeAccountID accountID of (isShadow, f) \<Rightarrow>
        if isShadow \<noteq> sh then Some (IdShadowMismatch accountID isShadow)
        else if af_currency f > accountIDCurrencyMax then Some (IdOutOfRange ''currency'' (af_currency f))
        else if af_accountType f > accountIDAccountTypeMax
          then Some (IdOutOfRange ''account_type'' (af_accountType f))
        else if af_globalTableIdx f > accountIDGlobalTblMax
          then Some (IdOutOfRange ''global_table_idx'' (af_globalTableIdx f))
        else if af_businessType f > accountIDBusinessMax
          then Some (IdOutOfRange ''business_type'' (af_businessType f))
        else if af_seq f \<le> 0 \<or> af_seq f > accountIDSeqMax then Some (IdOutOfRange ''seq'' (af_seq f))
        else None)"

section \<open>Generic identifiers\<close>

abbreviation (input) idTypeMul :: int where "idTypeMul \<equiv> 1000000000000000"
abbreviation (input) idTypeGlobalMul :: int where "idTypeGlobalMul \<equiv> 10000000000000"
abbreviation (input) idTypeShadowMul :: int where "idTypeShadowMul \<equiv> 1000000000000000000"

definition EncodeID :: "bool \<Rightarrow> int \<Rightarrow> int \<Rightarrow> int \<Rightarrow> id_error + int" where
  "EncodeID sh idType globalTableIdx seq =
     (if idType < 0 \<or> idType > 999 then Inl (IdOutOfRange ''idType'' idType)
      else if globalTableIdx < 0 \<or> globalTableIdx > 99
        then Inl (IdOutOfRange ''global_table_idx'' globalTableIdx)
      else if seq \<le> 0 \<or> seq > 9999999999999 then Inl (IdOutOfRange ''seq'' seq)
      else let i = seq + globalTableIdx * idTypeGlobalMul + idType * idTypeMul
           in Inr (if sh then i + idTypeShadowMul else i))"

definition EncodeIDStr :: "bool \<Rightarrow> int \<Rightarrow> int \<Rightarrow> int \<Rightarrow> id_error + string" where
  "EncodeIDStr sh idType globalTableIdx seq = (case EncodeID sh idType globalTableIdx seq of
     Inl e \<Rightarrow> Inl e | Inr i \<Rightarrow> Inr (format_int i))"

definition DecodeID :: "int \<Rightarrow> bool \<times> int \<times> int \<times> int" where
  "DecodeID i =
     (let isShadow = i \<ge> idTypeShadowMul;
          i = (if isShadow then i - idTypeShadowMul else i);
          i1 = i smod idTypeMul
      in (isShadow, i sdiv idTypeMul, i1 sdiv idTypeGlobalMul, i1 smod idTypeGlobalMul))"

definition IDDBIndex :: "int \<Rightarrow> int" where
  "IDDBIndex i =
     (let i = (if i \<ge> idTypeShadowMul then i - idTypeShadowMul else i);
          i = i smod idTypeMul
      in (i sdiv idTypeGlobalMul) sdiv 10)"

definition IDTableIndex :: "int \<Rightarrow> int" where
  "IDTableIndex i =
     (let i = (if i \<ge> idTypeShadowMul then i - idTypeShadowMul else i);
          i = i smod idTypeMul
      in i sdiv idTypeGlobalMul)"

section \<open>Reading the fields back\<close>

lemma radix:
  assumes "0 \<le> a" "a < k" "0 \<le> (c::int)"
  shows "(a + c * k) sdiv k = c" and "(a + c * k) smod k = a"
proof -
  have k: "0 < k" "0 \<le> a + c * k" using assms by simp_all
  then show "(a + c * k) sdiv k = c" "(a + c * k) smod k = a"
    using assms by (simp_all add: sdiv_nonneg smod_nonneg)
qed

text \<open>The payload of an account identifier, below the shadow and version flags.\<close>

definition account_payload :: "int \<Rightarrow> account_fields \<Rightarrow> int" where
  "account_payload typeMul f = af_seq f + af_businessType f * accountIDBusinessMul
     + af_globalTableIdx f * accountIDGlobalTblMul + af_accountType f * typeMul
     + af_currency f * accountIDCurrencyMul"

definition fields_fit :: "int \<Rightarrow> int \<Rightarrow> account_fields \<Rightarrow> bool" where
  "fields_fit types tables f \<longleftrightarrow> 0 < af_seq f \<and> af_seq f < 10000000 \<and>
     0 \<le> af_businessType f \<and> af_businessType f < 10000 \<and>
     0 \<le> af_globalTableIdx f \<and> af_globalTableIdx f < tables \<and>
     0 \<le> af_accountType f \<and> af_accountType f < types \<and>
     0 \<le> af_currency f \<and> af_currency f < 1000"

lemma payload_layers:
  assumes f: "fields_fit types tables f"
    and muls: "typeMul = tables * accountIDGlobalTblMul" "types * typeMul = accountIDCurrencyMul"
  shows "account_payload typeMul f smod accountIDCurrencyMul =
           af_seq f + af_businessType f * accountIDBusinessMul
             + af_globalTableIdx f * accountIDGlobalTblMul + af_accountType f * typeMul"
    and "account_payload typeMul f smod typeMul =
           af_seq f + af_businessType f * accountIDBusinessMul + af_globalTableIdx f * accountIDGlobalTblMul"
    and "split_account_fields typeMul (account_payload typeMul f) = f"
    and "0 < account_payload typeMul f" and "account_payload typeMul f < accountIDShadowMul"
proof -
  define s b g t c where "s = af_seq f" and "b = af_businessType f" and "g = af_globalTableIdx f"
    and "t = af_accountType f" and "c = af_currency f"
  note v = s_def b_def g_def t_def c_def
  let ?l3 = "s + b * 10000000" let ?l2 = "?l3 + g * 100000000000" let ?l1 = "?l2 + t * typeMul"
  have r: "0 < s" "s < 10000000" "0 \<le> b" "b \<le> 9999" "0 \<le> g" "g + 1 \<le> tables"
      "0 \<le> t" "t + 1 \<le> types" "0 \<le> c" "c \<le> 999"
    using f by (auto simp: fields_fit_def v)
  have l3: "0 < ?l3" "?l3 < 100000000000" using r by linarith+
  have "(g + 1) * 100000000000 \<le> typeMul" using r muls by simp
  then have "g * 100000000000 + 100000000000 \<le> typeMul" by (simp add: algebra_simps)
  moreover have "0 \<le> g * 100000000000" using r by simp
  ultimately have l2: "0 < ?l2" "?l2 < typeMul" using l3 by linarith+
  have "(t + 1) * typeMul \<le> types * typeMul" using r l2 by (intro mult_right_mono) auto
  then have "t * typeMul + typeMul \<le> 1000000000000000" using muls by (simp add: algebra_simps)
  moreover have "0 \<le> t * typeMul" using r l2 by simp
  ultimately have l1: "0 < ?l1" "?l1 < 1000000000000000" using l2 by linarith+
  have pay: "account_payload typeMul f = ?l1 + c * 1000000000000000"
    by (simp add: account_payload_def v)
  have tbl: "types * typeMul = 1000000000000000" using muls by simp
  show m1: "account_payload typeMul f smod accountIDCurrencyMul =
           af_seq f + af_businessType f * accountIDBusinessMul
             + af_globalTableIdx f * accountIDGlobalTblMul + af_accountType f * typeMul"
    using radix(2) [of ?l1 "1000000000000000" c] l1 r pay by (simp add: v)
  have "account_payload typeMul f = ?l2 + (t + c * types) * typeMul"
    using pay by (simp add: algebra_simps flip: tbl)
  then show "account_payload typeMul f smod typeMul =
           af_seq f + af_businessType f * accountIDBusinessMul + af_globalTableIdx f * accountIDGlobalTblMul"
    using radix(2) [of ?l2 typeMul "t + c * types"] l2 r by (simp add: v)
  have "split_account_fields typeMul (account_payload typeMul f) =
      \<lparr>af_currency = c, af_accountType = t, af_globalTableIdx = g, af_businessType = b, af_seq = s\<rparr>"
    unfolding pay split_account_fields_def Let_def
    using r l1 l2 l3 radix [of ?l1 "1000000000000000" c] radix [of ?l2 typeMul t]
      radix [of ?l3 100000000000 g] radix [of s 10000000 b] by simp
  then show "split_account_fields typeMul (account_payload typeMul f) = f"
    by (simp add: v)
  show "0 < account_payload typeMul f" "account_payload typeMul f < accountIDShadowMul"
    using pay l1 r by linarith+
qed

lemma EncodeAccountID_Inr:
  "EncodeAccountID sh f = Inr i \<longleftrightarrow>
   fields_fit 100 100 f \<and>
   i = account_payload accountIDAccountTypeMul f + (if sh then accountIDShadowMul else 0)"
  by (auto simp: EncodeAccountID_def fields_fit_def account_payload_def Let_def)

lemma EncodeAccountIDV2_Inr:
  "EncodeAccountIDV2 sh f = Inr i \<longleftrightarrow>
   fields_fit 10 1000 f \<and>
   i = account_payload accountIDV2AccountTypeMul f + (if sh then accountIDShadowMul else 0)
       + accountIDV2VersionMul"
  by (auto simp: EncodeAccountIDV2_def fields_fit_def account_payload_def Let_def)

lemmas payload_v1 = payload_layers [of 100 100 _ accountIDAccountTypeMul, simplified]
lemmas payload_v2 = payload_layers [of 10 1000 _ accountIDV2AccountTypeMul, simplified]

lemma EncodeAccountID_decodes: "EncodeAccountID sh f = Inr i \<Longrightarrow> DecodeAccountID i = (sh, f)"
  using payload_v1 [of f]
  by (auto simp: EncodeAccountID_Inr DecodeAccountID_def AccountIDLayoutVersion_def Let_def)

lemma EncodeAccountIDV2_decodes: "EncodeAccountIDV2 sh f = Inr i \<Longrightarrow> DecodeAccountID i = (sh, f)"
  using payload_v2 [of f]
  by (auto simp: EncodeAccountIDV2_Inr DecodeAccountID_def AccountIDLayoutVersion_def Let_def)

lemma EncodeAccountID_in64: "EncodeAccountID sh f = Inr i \<Longrightarrow> 0 < i \<and> in64 i"
  using payload_v1 [of f] by (auto simp: EncodeAccountID_Inr in64_def)

lemma EncodeAccountIDV2_in64: "EncodeAccountIDV2 sh f = Inr i \<Longrightarrow> 0 < i \<and> in64 i"
  using payload_v2 [of f] by (auto simp: EncodeAccountIDV2_Inr in64_def)

lemma EncodeEntityID_decodes: "EncodeEntityID sh t s = Inr i \<Longrightarrow> DecodeEntityID i = (sh, t, s)"
  using radix [of s EntityIDSeqMul t]
  by (auto simp: EncodeEntityID_def DecodeEntityID_def Let_def add.commute [of "t * _"] split: if_splits)

lemma EncodeEntityID_in64: "EncodeEntityID sh t s = Inr i \<Longrightarrow> 0 < i \<and> in64 i"
  by (auto simp: EncodeEntityID_def in64_def Let_def split: if_splits)

lemma EncodeMerchantID_decodes: "EncodeMerchantID sh s = Inr i \<Longrightarrow> DecodeMerchantID i = (sh, s)"
  by (auto simp: EncodeMerchantID_def DecodeMerchantID_def split: if_splits)

lemma EncodeMerchantID_in64: "EncodeMerchantID sh s = Inr i \<Longrightarrow> 0 < i \<and> in64 i"
  by (auto simp: EncodeMerchantID_def in64_def split: if_splits)

lemma EncodeID_decodes: "EncodeID sh ty t s = Inr i \<Longrightarrow> DecodeID i = (sh, ty, t, s)"
  using radix [of "s + t * idTypeGlobalMul" idTypeMul ty] radix [of s idTypeGlobalMul t]
  by (auto simp: EncodeID_def DecodeID_def Let_def split: if_splits)

lemma EncodeID_in64: "EncodeID sh ty t s = Inr i \<Longrightarrow> 0 < i \<and> in64 i"
  by (auto simp: EncodeID_def in64_def Let_def split: if_splits)

section \<open>The contract of an identifier layout\<close>

text \<open>
  What the services rely on in every layout: an identifier is a positive \<open>int64\<close>, and its
  decoder returns the traffic flag and the fields it was made of.
\<close>

locale id_codec =
  fixes enc :: "bool \<Rightarrow> 'f \<Rightarrow> id_error + int" and dec :: "int \<Rightarrow> bool \<times> 'f"
  assumes dec_enc: "enc sh f = Inr i \<Longrightarrow> dec i = (sh, f)"
    and enc_range: "enc sh f = Inr i \<Longrightarrow> 0 < i \<and> in64 i"
begin

lemma enc_injective: "enc sh f = Inr i \<Longrightarrow> enc sh' f' = Inr i \<Longrightarrow> sh = sh' \<and> f = f'"
  using dec_enc [of sh f i] dec_enc [of sh' f' i] by simp

lemma shadow_never_main: "enc True f = Inr i \<Longrightarrow> enc False f' \<noteq> Inr i"
  using enc_injective [of True f i False f'] by auto

lemma enc_column: "enc sh f = Inr i \<Longrightarrow> parse_int (format_int i) = Some i"
  using enc_range parse_format_int by blast

end

interpretation account_v1: id_codec EncodeAccountID DecodeAccountID
  by unfold_locales (auto dest: EncodeAccountID_decodes EncodeAccountID_in64)

interpretation account_v2: id_codec EncodeAccountIDV2 DecodeAccountID
  by unfold_locales (auto dest: EncodeAccountIDV2_decodes EncodeAccountIDV2_in64)

interpretation entity: id_codec "\<lambda>sh f. EncodeEntityID sh (fst f) (snd f)" DecodeEntityID
  by unfold_locales (auto dest: EncodeEntityID_decodes EncodeEntityID_in64)

interpretation merchant: id_codec EncodeMerchantID DecodeMerchantID
  by unfold_locales (auto dest: EncodeMerchantID_decodes EncodeMerchantID_in64)

interpretation generic: id_codec
  "\<lambda>sh f. EncodeID sh (fst f) (fst (snd f)) (snd (snd f))" DecodeID
  by unfold_locales (auto dest: EncodeID_decodes EncodeID_in64)

text \<open>A decoded account identifier validates, and the shortcut decoders agree with the full one.\<close>

lemma account_id_shortcuts:
  assumes "EncodeAccountID sh f = Inr i"
  shows "AccountIDTableIndex i = af_globalTableIdx f"
    and "AccountIDDBIndex i = af_globalTableIdx f div 10"
    and "ValidateAccountIDLayout sh i = None"
proof -
  have fit: "fields_fit 100 100 f"
    and i: "i = account_payload accountIDAccountTypeMul f + (if sh then accountIDShadowMul else 0)"
    using assms by (simp_all add: EncodeAccountID_Inr)
  have r: "0 \<le> af_globalTableIdx f" "0 < af_seq f" "af_seq f < 10000000" "0 \<le> af_businessType f"
      "af_businessType f \<le> 9999"
    using fit by (simp_all add: fields_fit_def)
  have p: "0 < account_payload accountIDAccountTypeMul f" "account_payload accountIDAccountTypeMul f < accountIDShadowMul"
    "account_payload accountIDAccountTypeMul f smod accountIDAccountTypeMul =
       af_seq f + af_businessType f * accountIDBusinessMul + af_globalTableIdx f * accountIDGlobalTblMul"
    using payload_v1 [OF fit] by simp_all
  have "0 \<le> af_seq f + af_businessType f * accountIDBusinessMul"
    "af_seq f + af_businessType f * accountIDBusinessMul < accountIDGlobalTblMul"
    using r by linarith+
  from radix(1) [OF this r(1)]
  show t: "AccountIDTableIndex i = af_globalTableIdx f"
    using i p by (simp add: AccountIDTableIndex_def AccountIDGlobalTableIdx_def AccountIDLayoutVersion_def Let_def)
  have "AccountIDLayoutVersion i = 1" using i p by (simp add: AccountIDLayoutVersion_def)
  with t show "AccountIDDBIndex i = af_globalTableIdx f div 10"
    using r by (simp add: AccountIDDBIndex_def AccountIDTableIndex_def Let_def sdiv_nonneg)
  show "ValidateAccountIDLayout sh i = None"
    using EncodeAccountID_decodes [OF assms] EncodeAccountID_in64 [OF assms] fit
    by (simp add: ValidateAccountIDLayout_def fields_fit_def)
qed

section \<open>Properties\<close>

text \<open>
  C37. Account identifiers of layouts V1 and V2 are decoded to the flag and the fields they were
  encoded from, and no identifier belongs to both layouts or to both traffic domains.
\<close>

theorem account_id_layouts_unambiguous:
  assumes "EncodeAccountID sh f = Inr i" "EncodeAccountIDV2 sh' f' = Inr j"
  shows "DecodeAccountID i = (sh, f) \<and> DecodeAccountID j = (sh', f') \<and> i \<noteq> j \<and>
         IsShadowAccountIDLayout i = sh \<and> IsShadowAccountIDLayout j = sh'"
proof -
  have fit: "fields_fit 100 100 f" "fields_fit 10 1000 f'"
    and i: "i = account_payload accountIDAccountTypeMul f + (if sh then 1 else 0) * accountIDShadowMul"
    and j: "j = account_payload accountIDV2AccountTypeMul f' + ((if sh' then 1 else 0) + 2) * accountIDShadowMul"
    using assms by (auto simp: EncodeAccountID_Inr EncodeAccountIDV2_Inr)
  have p: "0 < account_payload accountIDAccountTypeMul f" "account_payload accountIDAccountTypeMul f < accountIDShadowMul"
      "0 < account_payload accountIDV2AccountTypeMul f'" "account_payload accountIDV2AccountTypeMul f' < accountIDShadowMul"
    using payload_v1 [OF fit(1)] payload_v2 [OF fit(2)] by auto
  have "i sdiv accountIDShadowMul = (if sh then 1 else 0)" "j sdiv accountIDShadowMul = (if sh' then 1 else 0) + 2"
    unfolding i j using p by (intro radix(1); simp)+
  then have "IsShadowAccountIDLayout i = sh" "IsShadowAccountIDLayout j = sh'"
    by (simp_all add: IsShadowAccountIDLayout_def smod_nonneg)
  moreover have "i \<noteq> j" using i j p by (auto split: if_splits)
  ultimately show ?thesis
    using account_v1.dec_enc [OF assms(1)] account_v2.dec_enc [OF assms(2)] by simp
qed

theorem account_id_layouts_unambiguous_witness:
  "DecodeAccountID 608010100010000001 = (False, \<lparr>af_currency = 608, af_accountType = 1,
     af_globalTableIdx = 1, af_businessType = 1, af_seq = 1\<rparr>) \<and>
   DecodeAccountID 3608237000020000002 = (True, \<lparr>af_currency = 608, af_accountType = 2,
     af_globalTableIdx = 370, af_businessType = 2, af_seq = 2\<rparr>) \<and>
   (608010100010000001::int) \<noteq> 3608237000020000002 \<and>
   IsShadowAccountIDLayout 608010100010000001 = False \<and> IsShadowAccountIDLayout 3608237000020000002 = True"
  by (rule account_id_layouts_unambiguous) (simp_all add: EncodeAccountID_def EncodeAccountIDV2_def Let_def)

section \<open>Where the layout check and the encoder disagree\<close>

text \<open>\<open>ValidateAccountIDLayout\<close> keeps V1's two-digit table bound, so it refuses identifiers that
  \<open>EncodeAccountIDV2\<close> makes.\<close>

lemma validate_rejects_v2_tables:
  "\<exists>i. EncodeAccountIDV2 False \<lparr>af_currency = 608, af_accountType = 2, af_globalTableIdx = 370,
          af_businessType = 2, af_seq = 2\<rparr> = Inr i \<and>
       ValidateAccountIDLayout False i = Some (IdOutOfRange ''global_table_idx'' 370)"
proof -
  let ?f = "\<lparr>af_currency = 608, af_accountType = 2, af_globalTableIdx = 370, af_businessType = 2, af_seq = 2\<rparr>"
  have e: "EncodeAccountIDV2 False ?f = Inr 2608237000020000002"
    by (simp add: EncodeAccountIDV2_def Let_def)
  show ?thesis
    using e account_v2.dec_enc [OF e] by (simp add: ValidateAccountIDLayout_def)
qed

end
