(* ===== verification/Sharding.thy ===== *)
theory Sharding
  imports Identity "HOL-Library.Word"
begin

text \<open>
  \<open>packages/accounting-system/internal/infrastructure/sharding/router.go\<close>: ten databases of ten
  tables each. A row's place is a pair of database and global table index; an account number
  carries its table in its digits (theory \<open>Identity\<close>), so routing an account needs no lookup.
\<close>

unbundle bit_operations_syntax

type_synonym shard_id = "int \<times> int"

record router =
  dbCount :: int
  tablePerDB :: int

definition NewRouter :: router where
  "NewRouter = \<lparr>dbCount = 10, tablePerDB = 10\<rparr>"

definition NewRouterWithConfig :: "int \<Rightarrow> int \<Rightarrow> router option" where
  "NewRouterWithConfig dbs tables =
     (if dbs * tables > 100 then None else Some \<lparr>dbCount = dbs, tablePerDB = tables\<rparr>)"

definition TotalTableCount :: "router \<Rightarrow> int" where
  "TotalTableCount r = dbCount r * tablePerDB r"

definition RouteByID :: "router \<Rightarrow> int \<Rightarrow> shard_id" where
  "RouteByID r i =
     (let i = (if i < 0 then neg64 i else i);
          total = dbCount r * tablePerDB r;
          n = rem64 i total
      in (quot64 n (tablePerDB r), n))"

text \<open>\<open>hash/fnv\<close>'s 32-bit FNV-1a.\<close>

definition fnv32a :: "string \<Rightarrow> 32 word" where
  "fnv32a s = foldl (\<lambda>h c. (h XOR of_nat (of_char c)) * 16777619) 2166136261 s"

definition RouteByNumericStr :: "router \<Rightarrow> string \<Rightarrow> shard_id" where
  "RouteByNumericStr r s = (case parse_int s of
     Some i \<Rightarrow> RouteByID r i
   | None \<Rightarrow>
       (let total = dbCount r * tablePerDB r;
            n = rem64 (int (unat (fnv32a s))) total
        in (quot64 n (tablePerDB r), n)))"

definition RouteByAccountNo :: "router \<Rightarrow> string \<Rightarrow> shard_id" where
  "RouteByAccountNo r accountNo = (case parse_int accountNo of
     None \<Rightarrow> (0, 0)
   | Some i \<Rightarrow>
       if i \<le> 0 then (0, 0)
       else let tbl = AccountIDTableIndex i
            in if tbl < 0 \<or> tbl \<ge> dbCount r * tablePerDB r then (0, 0)
               else (AccountIDDBIndex i, tbl))"

definition GetTableName :: "string \<Rightarrow> int \<Rightarrow> string" where
  "GetTableName baseTableName globalTableIndex = baseTableName @ ''_'' @ pad_int 2 globalTableIndex"

definition GetDBShards :: "router \<Rightarrow> int \<Rightarrow> shard_id list" where
  "GetDBShards r dbIndex =
     map (\<lambda>localIdx. (dbIndex, dbIndex * tablePerDB r + localIdx)) [0..tablePerDB r - 1]"

definition GetAllShards :: "router \<Rightarrow> shard_id list" where
  "GetAllShards r =
     concat (map (\<lambda>dbIdx. map (\<lambda>localIdx. (dbIdx, dbIdx * tablePerDB r + localIdx)) [0..tablePerDB r - 1])
                 [0..dbCount r - 1])"

section \<open>Every route is a shard\<close>

lemma GetAllShards_production:
  "(d, t) \<in> set (GetAllShards NewRouter) \<longleftrightarrow> 0 \<le> t \<and> t < 100 \<and> d = t div 10"
proof
  assume "(d, t) \<in> set (GetAllShards NewRouter)"
  then obtain l where "0 \<le> d" "d \<le> 9" "0 \<le> l" "l \<le> 9" "t = d * 10 + l"
    by (auto simp: GetAllShards_def NewRouter_def)
  then show "0 \<le> t \<and> t < 100 \<and> d = t div 10" by auto
next
  assume h: "0 \<le> t \<and> t < 100 \<and> d = t div 10"
  then have "d \<in> {0..9}" "t = d * 10 + t mod 10" "t mod 10 \<in> {0..9}" by auto
  then show "(d, t) \<in> set (GetAllShards NewRouter)"
    unfolding GetAllShards_def NewRouter_def by (auto intro!: bexI [of _ d] image_eqI [of _ _ "t mod 10"])
qed

lemma GetAllShards_concat_GetDBShards:
  "GetAllShards r = concat (map (GetDBShards r) [0..dbCount r - 1])"
  by (simp add: GetAllShards_def GetDBShards_def [abs_def])

lemma route_remainder:
  assumes "0 \<le> i" "in64 i" shows "RouteByID NewRouter i = ((i mod 100) div 10, i mod 100)"
proof -
  have m: "0 \<le> i mod 100" "i mod 100 < 100" by simp_all
  then have "in64 (i mod 100)" unfolding in64_iff by linarith
  with m have "quot64 (i mod 100) 10 = (i mod 100) div 10" by (intro quot64_nonneg) simp_all
  then show ?thesis using assms by (simp add: RouteByID_def NewRouter_def Let_def rem64_nonneg)
qed

lemma RouteByID_in_shards:
  assumes "in64 i" "i \<noteq> min_int64"
  shows "RouteByID NewRouter i \<in> set (GetAllShards NewRouter)"
proof -
  have "RouteByID NewRouter i = RouteByID NewRouter \<bar>i\<bar>"
    using assms by (auto simp: RouteByID_def neg64_exact in64_def)
  moreover have "in64 \<bar>i\<bar>" using assms by (auto simp: in64_def)
  ultimately show ?thesis by (simp add: route_remainder GetAllShards_production)
qed

text \<open>The account's number alone gives the shard its fields name.\<close>

lemma RouteByAccountNo_encoded:
  assumes "EncodeAccountID sh f = Inr i"
  shows "RouteByAccountNo NewRouter (format_int i) = (af_globalTableIdx f div 10, af_globalTableIdx f)"
proof -
  have "0 \<le> af_globalTableIdx f" "af_globalTableIdx f < 100"
    using assms by (simp_all add: EncodeAccountID_Inr fields_fit_def)
  then show ?thesis
    using account_v1.enc_column [OF assms] account_v1.enc_range [OF assms] account_id_shortcuts [OF assms]
    by (simp add: RouteByAccountNo_def NewRouter_def Let_def)
qed

section \<open>Properties\<close>

text \<open>
  C35. An account created with the table its owner routes to is stored in its owner's shard: the
  route of the account number equals the route of the user id, and it is one of the hundred shards.
\<close>

theorem account_lives_in_owner_shard:
  assumes "in64 user" "0 < user"
    and "EncodeAccountID sh f = Inr i" "af_globalTableIdx f = snd (RouteByID NewRouter user)"
  shows "RouteByAccountNo NewRouter (format_int i) = RouteByID NewRouter user \<and>
         RouteByID NewRouter user \<in> set (GetAllShards NewRouter)"
proof -
  have "RouteByID NewRouter user = ((user mod 100) div 10, user mod 100)"
    using assms by (simp add: route_remainder)
  then show ?thesis
    using RouteByAccountNo_encoded [OF assms(3)] assms by (auto simp: GetAllShards_production)
qed

theorem account_lives_in_owner_shard_witness:
  "RouteByAccountNo NewRouter (format_int 608013700010000001) = RouteByID NewRouter 100000037 \<and>
   RouteByID NewRouter 100000037 \<in> set (GetAllShards NewRouter)"
proof (rule account_lives_in_owner_shard)
  let ?f = "\<lparr>af_currency = 608, af_accountType = 1, af_globalTableIdx = 37, af_businessType = 1, af_seq = 1\<rparr>"
  show "EncodeAccountID False ?f = Inr 608013700010000001" by (simp add: EncodeAccountID_def Let_def)
  show "af_globalTableIdx ?f = snd (RouteByID NewRouter 100000037)"
    by (simp add: route_remainder in64_def)
qed (simp_all add: in64_def)

section \<open>A key with no shard\<close>

text \<open>Negating the least \<open>int64\<close> overflows, so its route is a table index below zero.\<close>

lemma route_min_int64: "RouteByID NewRouter min_int64 = (0, -8)"
  by code_simp

lemma route_min_int64_no_shard: "RouteByID NewRouter min_int64 \<notin> set (GetAllShards NewRouter)"
  by (simp add: route_min_int64 GetAllShards_production)

end
