(* ===== verification/AccountModel.thy ===== *)
theory AccountModel
  imports Prelude
begin

text \<open>
  \<open>packages/accounting-system/internal/domain/model\<close>: accounts, journal rows, TCC branches and
  coordinators, balance buffers, the rotation life cycle and the anchor status machine, with the
  two transition tables; and \<open>internal/common/accountutil.go\<close>. Times are nanoseconds, strings
  are byte lists. Audit timestamps no code under model reads are left out of the records.
\<close>

unbundle bit_operations_syntax

section \<open>Accounts\<close>

datatype AccountType =
    AccountTypeUser | AccountTypeMerchant | AccountTypeMerchantPendingSettle
  | AccountTypePlatform | AccountTypeTransitChannelReceivable | AccountTypeTransitChannelPayable
  | AccountTypeTransactionFee | AccountTypeChargeFee | AccountTypeTransit
  | AccountTypeUnknown int

fun accountTypeCode :: "AccountType \<Rightarrow> int" where
  "accountTypeCode AccountTypeUser = 1"
| "accountTypeCode AccountTypeMerchant = 2"
| "accountTypeCode AccountTypeMerchantPendingSettle = 3"
| "accountTypeCode AccountTypePlatform = 4"
| "accountTypeCode AccountTypeTransitChannelReceivable = 5"
| "accountTypeCode AccountTypeTransitChannelPayable = 6"
| "accountTypeCode AccountTypeTransactionFee = 7"
| "accountTypeCode AccountTypeChargeFee = 8"
| "accountTypeCode AccountTypeTransit = 9"
| "accountTypeCode (AccountTypeUnknown n) = n"

datatype AccountCategory =
    AccountCategoryAsset | AccountCategoryLiability | AccountCategoryEquity
  | AccountCategoryRevenue | AccountCategoryExpense

datatype AccountStatus = AccountStatusDisabled | AccountStatusActive | AccountStatusFrozen

datatype AccountGroup = AccountGroupA | AccountGroupB

datatype LifecyclePhase =
    LifecyclePhaseLegacy | LifecyclePhaseProvisioned | LifecyclePhaseActive
  | LifecyclePhaseDraining | LifecyclePhaseFrozen | LifecyclePhaseArchived
  | LifecyclePhaseQuarantined | LifecyclePhaseUnknown int

record Account =
  acc_no :: string
  acc_user :: int
  acc_type :: AccountType
  acc_category :: AccountCategory
  acc_biz :: int
  acc_currency :: string
  balance :: int
  frozen_balance :: int
  available_balance :: int
  acc_status :: AccountStatus
  acc_group :: AccountGroup
  version :: int
  logical_account :: "int option"
  period_end :: "int option"
  lifecycle_phase :: LifecyclePhase
  draining_started_at :: "int option"
  frozen_at :: "int option"

text \<open>\<open>internal/common/accountutil.go\<close>.\<close>

definition IsAccountCanNegative :: "AccountType \<Rightarrow> bool" where
  "IsAccountCanNegative t = (case t of
     AccountTypeUser \<Rightarrow> False
   | AccountTypeMerchant \<Rightarrow> False
   | AccountTypeMerchantPendingSettle \<Rightarrow> False
   | _ \<Rightarrow> True)"

definition IsAssetOrExpense :: "AccountCategory \<Rightarrow> bool" where
  "IsAssetOrExpense c \<longleftrightarrow> c = AccountCategoryAsset \<or> c = AccountCategoryExpense"

section \<open>The life cycle of an account instance\<close>

definition phaseString :: "LifecyclePhase \<Rightarrow> string" where
  "phaseString p = (case p of
     LifecyclePhaseLegacy \<Rightarrow> ''legacy''
   | LifecyclePhaseProvisioned \<Rightarrow> ''provisioned''
   | LifecyclePhaseActive \<Rightarrow> ''active''
   | LifecyclePhaseDraining \<Rightarrow> ''draining''
   | LifecyclePhaseFrozen \<Rightarrow> ''frozen''
   | LifecyclePhaseArchived \<Rightarrow> ''archived''
   | LifecyclePhaseQuarantined \<Rightarrow> ''quarantined''
   | LifecyclePhaseUnknown n \<Rightarrow> ''unknown('' @ format_int n @ '')'')"

definition phaseIsTerminal :: "LifecyclePhase \<Rightarrow> bool" where
  "phaseIsTerminal p \<longleftrightarrow> p = LifecyclePhaseArchived"

definition phaseAcceptsNewAnchoring :: "LifecyclePhase \<Rightarrow> bool" where
  "phaseAcceptsNewAnchoring p \<longleftrightarrow> p = LifecyclePhaseActive"

definition phaseAcceptsFollowupPosting :: "LifecyclePhase \<Rightarrow> bool" where
  "phaseAcceptsFollowupPosting p \<longleftrightarrow> p = LifecyclePhaseActive \<or> p = LifecyclePhaseDraining"

definition AllowedPhaseTransitions :: "LifecyclePhase \<Rightarrow> LifecyclePhase list option" where
  "AllowedPhaseTransitions p = (case p of
     LifecyclePhaseProvisioned \<Rightarrow> Some [LifecyclePhaseActive, LifecyclePhaseQuarantined]
   | LifecyclePhaseActive \<Rightarrow> Some [LifecyclePhaseDraining, LifecyclePhaseQuarantined]
   | LifecyclePhaseDraining \<Rightarrow> Some [LifecyclePhaseFrozen, LifecyclePhaseQuarantined]
   | LifecyclePhaseFrozen \<Rightarrow> Some [LifecyclePhaseArchived, LifecyclePhaseQuarantined]
   | LifecyclePhaseArchived \<Rightarrow> Some [LifecyclePhaseQuarantined]
   | LifecyclePhaseQuarantined \<Rightarrow> Some [LifecyclePhaseDraining, LifecyclePhaseFrozen]
   | LifecyclePhaseLegacy \<Rightarrow> Some [LifecyclePhaseQuarantined]
   | LifecyclePhaseUnknown _ \<Rightarrow> None)"

definition CanTransitionPhase :: "LifecyclePhase \<Rightarrow> LifecyclePhase \<Rightarrow> bool" where
  "CanTransitionPhase from to =
     (if from = to then False
      else case AllowedPhaseTransitions from of
             None \<Rightarrow> False
           | Some allowed \<Rightarrow> list_ex (\<lambda>p. p = to) allowed)"

datatype transition_error =
    ErrIllegalPhaseTransition string string
  | ErrIllegalAnchorTransition string string

definition ValidatePhaseTransition ::
    "LifecyclePhase \<Rightarrow> LifecyclePhase \<Rightarrow> transition_error option" where
  "ValidatePhaseTransition from to =
     (if \<not> CanTransitionPhase from to
      then Some (ErrIllegalPhaseTransition (phaseString from) (phaseString to)) else None)"

definition IsLegacy :: "Account \<Rightarrow> bool" where
  "IsLegacy a \<longleftrightarrow> lifecycle_phase a = LifecyclePhaseLegacy \<or> logical_account a = None"

definition IsRotating :: "Account \<Rightarrow> bool" where
  "IsRotating a \<longleftrightarrow> logical_account a \<noteq> None \<and> lifecycle_phase a \<noteq> LifecyclePhaseLegacy"

definition AcceptsNewAnchoring :: "Account \<Rightarrow> bool" where
  "AcceptsNewAnchoring a = (if IsLegacy a then False else phaseAcceptsNewAnchoring (lifecycle_phase a))"

definition AcceptsFollowupPosting :: "Account \<Rightarrow> bool" where
  "AcceptsFollowupPosting a =
     (if IsLegacy a then False else phaseAcceptsFollowupPosting (lifecycle_phase a))"

lemma IsRotating_iff: "IsRotating a \<longleftrightarrow> \<not> IsLegacy a"
  by (auto simp: IsRotating_def IsLegacy_def)

section \<open>Anchors\<close>

datatype AnchorStatus =
    AnchorStatusTrying | AnchorStatusActive | AnchorStatusSettled | AnchorStatusMigrated
  | AnchorStatusStuck | AnchorStatusUnknown int

definition anchorString :: "AnchorStatus \<Rightarrow> string" where
  "anchorString s = (case s of
     AnchorStatusTrying \<Rightarrow> ''trying''
   | AnchorStatusActive \<Rightarrow> ''active''
   | AnchorStatusSettled \<Rightarrow> ''settled''
   | AnchorStatusMigrated \<Rightarrow> ''migrated''
   | AnchorStatusStuck \<Rightarrow> ''stuck''
   | AnchorStatusUnknown n \<Rightarrow> ''unknown('' @ format_int n @ '')'')"

definition anchorIsOpen :: "AnchorStatus \<Rightarrow> bool" where
  "anchorIsOpen s \<longleftrightarrow> s = AnchorStatusTrying \<or> s = AnchorStatusActive"

definition anchorIsTerminal :: "AnchorStatus \<Rightarrow> bool" where
  "anchorIsTerminal s \<longleftrightarrow> s = AnchorStatusSettled \<or> s = AnchorStatusMigrated"

definition AllowedAnchorTransitions :: "AnchorStatus \<Rightarrow> AnchorStatus list option" where
  "AllowedAnchorTransitions s = (case s of
     AnchorStatusTrying \<Rightarrow> Some [AnchorStatusActive, AnchorStatusSettled, AnchorStatusStuck]
   | AnchorStatusActive \<Rightarrow> Some [AnchorStatusSettled, AnchorStatusMigrated, AnchorStatusStuck]
   | _ \<Rightarrow> None)"

definition CanTransitionAnchor :: "AnchorStatus \<Rightarrow> AnchorStatus \<Rightarrow> bool" where
  "CanTransitionAnchor from to =
     (if from = to then False
      else case AllowedAnchorTransitions from of
             None \<Rightarrow> False
           | Some allowed \<Rightarrow> list_ex (\<lambda>s. s = to) allowed)"

definition ValidateAnchorTransition ::
    "AnchorStatus \<Rightarrow> AnchorStatus \<Rightarrow> transition_error option" where
  "ValidateAnchorTransition from to =
     (if \<not> CanTransitionAnchor from to
      then Some (ErrIllegalAnchorTransition (anchorString from) (anchorString to)) else None)"

datatype AnchorReuseSource =
    AnchorReuseSourcePrimary | AnchorReuseSourceRefundOf | AnchorReuseSourceReverseOf
  | AnchorReuseSourceUnknown int

definition reuseString :: "AnchorReuseSource \<Rightarrow> string" where
  "reuseString s = (case s of
     AnchorReuseSourcePrimary \<Rightarrow> ''primary''
   | AnchorReuseSourceRefundOf \<Rightarrow> ''refund-of''
   | AnchorReuseSourceReverseOf \<Rightarrow> ''reverse-of''
   | AnchorReuseSourceUnknown n \<Rightarrow> ''unknown('' @ format_int n @ '')'')"

record TxAccountAnchor =
  anc_id :: int
  flow_id :: string
  anc_logical :: int
  anc_account :: string
  direction_mask :: int
  posting_count :: int
  migrated_to :: "string option"
  anc_status :: AnchorStatus
  reuse_source :: AnchorReuseSource
  chain_depth :: int

text \<open>The mask is an \<open>int8\<close>; its two flags are its two low bits.\<close>

definition HasDebit :: "int \<Rightarrow> bool" where "HasDebit m \<longleftrightarrow> m AND 1 \<noteq> 0"
definition HasCredit :: "int \<Rightarrow> bool" where "HasCredit m \<longleftrightarrow> m AND 2 \<noteq> 0"
definition WithDebit :: "int \<Rightarrow> int" where "WithDebit m = m OR 1"
definition WithCredit :: "int \<Rightarrow> int" where "WithCredit m = m OR 2"

definition anchorOpen :: "TxAccountAnchor \<Rightarrow> bool" where
  "anchorOpen a = anchorIsOpen (anc_status a)"

definition IsMigrated :: "TxAccountAnchor \<Rightarrow> bool" where
  "IsMigrated a \<longleftrightarrow> anc_status a = AnchorStatusMigrated"

definition IsStuck :: "TxAccountAnchor \<Rightarrow> bool" where
  "IsStuck a \<longleftrightarrow> anc_status a = AnchorStatusStuck"

definition EffectiveAccountNo :: "TxAccountAnchor \<Rightarrow> string" where
  "EffectiveAccountNo a =
     (if IsMigrated a then (case migrated_to a of Some n \<Rightarrow> n | None \<Rightarrow> anc_account a)
      else anc_account a)"


section \<open>Logical accounts and rotation policies\<close>

record LogicalAccount =
  la_id :: int
  logical_account_key :: string
  la_type :: AccountType
  la_biz :: int
  la_currency :: string
  rotation_enabled :: int
  current_active_account :: "string option"
  current_active_group :: "AccountGroup option"
  current_active_period_end :: "int option"
  la_status :: int
  la_version :: int

definition laIsRotating :: "LogicalAccount \<Rightarrow> bool" where
  "laIsRotating la \<longleftrightarrow> rotation_enabled la = 1"

definition laIsEnabled :: "LogicalAccount \<Rightarrow> bool" where
  "laIsEnabled la \<longleftrightarrow> la_status la = 1"

definition AllowedKeyPrefixes :: "string list" where
  "AllowedKeyPrefixes =
     [''transit:'', ''channel-receivable:'', ''channel-suspense:'', ''channel-fee:'',
      ''channel-payable:'', ''platform-fee-clearing:'', ''platform-fee-revenue:'',
      ''platform-withdraw-pending:'', ''user-suspense:'']"

datatype key_error = KeyLength nat | KeyNotPrintable string | KeyNoPrefix string

fun hasPrefix :: "string \<Rightarrow> string \<Rightarrow> bool" where
  "hasPrefix s [] = True"
| "hasPrefix [] (p # ps) = False"
| "hasPrefix (c # cs) (p # ps) = (c = p \<and> hasPrefix cs ps)"

definition ValidateLogicalAccountKey :: "string \<Rightarrow> key_error option" where
  "ValidateLogicalAccountKey key =
     (let l = length key in
      if l < 8 \<or> l > 64 then Some (KeyLength l)
      else if list_ex (\<lambda>c. (of_char c :: nat) < 0x21 \<or> (of_char c :: nat) > 0x7E) key
           then Some (KeyNotPrintable key)
      else if list_ex (\<lambda>prefix. hasPrefix key prefix) AllowedKeyPrefixes then None
      else Some (KeyNoPrefix key))"

lemma hasPrefix_take: "hasPrefix s p \<longleftrightarrow> take (length p) s = p"
  by (induction s p rule: hasPrefix.induct) auto

record LogicalAccountRotationPolicy =
  pol_logical :: int
  period_unit :: string
  period_count :: int
  rotation_anchor_tz :: string
  drain_p99_seconds :: int
  drain_hard_timeout_secs :: int
  archive_grace_secs :: int
  provision_lead_secs :: int
  config_version :: int

definition periodUnitIsValid :: "string \<Rightarrow> bool" where
  "periodUnitIsValid u \<longleftrightarrow> u = ''DAY'' \<or> u = ''MONTH'' \<or> u = ''QUARTER''"

datatype policy_error =
    InvalidPeriodUnit string | PeriodCountNotPositive int | TZRequired | InvalidTZ string
  | P99NotPositive | HardTimeoutBelowP99 int int | NegativeArchiveGrace | NegativeProvisionLead

text \<open>\<open>time.LoadLocation\<close> consults the host's zone database, here \<open>tz_known\<close>.\<close>

definition policyValidate ::
    "(string \<Rightarrow> bool) \<Rightarrow> LogicalAccountRotationPolicy \<Rightarrow> policy_error option" where
  "policyValidate tz_known p =
     (if \<not> periodUnitIsValid (period_unit p) then Some (InvalidPeriodUnit (period_unit p))
      else if period_count p \<le> 0 then Some (PeriodCountNotPositive (period_count p))
      else if rotation_anchor_tz p = [] then Some TZRequired
      else if \<not> tz_known (rotation_anchor_tz p) then Some (InvalidTZ (rotation_anchor_tz p))
      else if drain_p99_seconds p \<le> 0 then Some P99NotPositive
      else if drain_hard_timeout_secs p < drain_p99_seconds p
           then Some (HardTimeoutBelowP99 (drain_hard_timeout_secs p) (drain_p99_seconds p))
      else if archive_grace_secs p < 0 then Some NegativeArchiveGrace
      else if provision_lead_secs p < 0 then Some NegativeProvisionLead
      else None)"

section \<open>The life cycle runs forward\<close>

lemma phase_edges:
  "CanTransitionPhase p q \<longleftrightarrow>
     p = LifecyclePhaseProvisioned \<and> q \<in> {LifecyclePhaseActive, LifecyclePhaseQuarantined} \<or>
     p = LifecyclePhaseActive \<and> q \<in> {LifecyclePhaseDraining, LifecyclePhaseQuarantined} \<or>
     p = LifecyclePhaseDraining \<and> q \<in> {LifecyclePhaseFrozen, LifecyclePhaseQuarantined} \<or>
     p = LifecyclePhaseFrozen \<and> q \<in> {LifecyclePhaseArchived, LifecyclePhaseQuarantined} \<or>
     p = LifecyclePhaseArchived \<and> q = LifecyclePhaseQuarantined \<or>
     p = LifecyclePhaseQuarantined \<and> q \<in> {LifecyclePhaseDraining, LifecyclePhaseFrozen} \<or>
     p = LifecyclePhaseLegacy \<and> q = LifecyclePhaseQuarantined"
  by (cases p; cases q) (auto simp: CanTransitionPhase_def AllowedPhaseTransitions_def)

lemma anchor_edges:
  "CanTransitionAnchor s t \<longleftrightarrow>
     s = AnchorStatusTrying \<and> t \<in> {AnchorStatusActive, AnchorStatusSettled, AnchorStatusStuck} \<or>
     s = AnchorStatusActive \<and> t \<in> {AnchorStatusSettled, AnchorStatusMigrated, AnchorStatusStuck}"
  by (cases s; cases t) (auto simp: CanTransitionAnchor_def AllowedAnchorTransitions_def)

lemma closed_phase_never_reopens:
  "CanTransitionPhase\<^sup>*\<^sup>* p q \<Longrightarrow> p \<noteq> LifecyclePhaseProvisioned \<Longrightarrow> p \<noteq> LifecyclePhaseActive \<Longrightarrow>
   q \<noteq> LifecyclePhaseProvisioned \<and> q \<noteq> LifecyclePhaseActive"
  by (induction rule: rtranclp_induct) (auto simp: phase_edges)

lemma terminal_anchor_stays:
  "CanTransitionAnchor\<^sup>*\<^sup>* s t \<Longrightarrow> \<not> anchorIsOpen s \<Longrightarrow> t = s"
  by (induction rule: rtranclp_induct) (auto simp: anchor_edges anchorIsOpen_def)

text \<open>
  An instance that has left the active phase never takes a new anchor again, however it moves
  in the transition table, quarantine and manual release included; and an anchor that is settled,
  migrated or stuck has no edge left, so the table alone never reopens it.
\<close>

theorem rotation_runs_forward:
  assumes "CanTransitionPhase LifecyclePhaseActive p" "CanTransitionPhase\<^sup>*\<^sup>* p q"
    and "CanTransitionAnchor s t" "\<not> anchorIsOpen t" "CanTransitionAnchor\<^sup>*\<^sup>* t u"
  shows "\<not> phaseAcceptsNewAnchoring q \<and> u = t"
  using assms closed_phase_never_reopens [of p q] terminal_anchor_stays [of t u]
  by (auto simp: phase_edges phaseAcceptsNewAnchoring_def)

theorem rotation_runs_forward_witness:
  "\<not> phaseAcceptsNewAnchoring LifecyclePhaseDraining \<and> AnchorStatusSettled = AnchorStatusSettled"
  by (rule rotation_runs_forward [of LifecyclePhaseQuarantined _ AnchorStatusActive])
    (simp_all add: phase_edges anchor_edges anchorIsOpen_def r_into_rtranclp)

end
