(* ===== verification/Ledger.thy ===== *)
theory Ledger
  imports AccountModel Sharding
begin

text \<open>
  The double-entry ledger of \<open>packages/accounting-system/internal/service/accounting_service.go\<close> on
  the tables of one shard: entry validation, the balance delta, and the three TCC operations
  (\<open>tccTry\<close>, \<open>tccConfirm\<close>, \<open>tccCancel\<close>) with the repositories they call (\<open>tcc_repository.go\<close>,
  \<open>balance_buffer_repository.go\<close>, \<open>CreateTransaction\<close>). Each operation maps the tables to an error
  or to the tables after it; an \<open>UPDATE\<close> that leaves \<open>BIGINT\<close> is MySQL error 1690, a violated unique
  key error 1062. A faulty connection is an error the callers inject (theory \<open>Tcc\<close>).
\<close>

section \<open>Rows and tables\<close>

record AccountingEntry =
  AccountNo :: string
  DebitAmount :: int
  CreditAmount :: int
  EntryDescription :: string

record DoubleEntryBookingRequest =
  RequestID :: string
  BusinessNo :: string
  BusinessType :: string
  Entries :: "AccountingEntry list"
  Currency :: string
  Description :: string

datatype TccStatus = TccStatusTrying | TccStatusConfirmed | TccStatusCancelled

record TccTransaction =
  tcc_id :: string
  branch_id :: string
  branch_account :: string
  balance_delta :: int
  frozen_amount :: int
  branch_status :: TccStatus

datatype BookingType = TransactionBookingTypeSync | TransactionBookingTypeBuffered

record AccountTransaction =
  transaction_id :: string
  parent_transaction :: string
  tx_account :: string
  tx_business_no :: string
  tx_business_type :: string
  debit_amount :: int
  credit_amount :: int
  balance_before :: int
  balance_after :: int
  booking_type :: BookingType
  tx_currency :: string
  transaction_date :: string
  cut_date :: string

record AccountBalanceBuffer =
  buf_account :: string
  pending_delta :: int
  pending_count :: int
  flush_scheduled_at :: "int option"

record shard =
  accounts :: "Account list"
  branches :: "TccTransaction list"
  journal :: "AccountTransaction list"
  buffers :: "AccountBalanceBuffer list"

datatype ledger_error =
    MySQLError nat
  | DriverError string
  | Opaque string
  | TooFewEntries
  | EntryAccountRequired
  | DuplicateAccount string
  | NegativeAmount int int
  | AmountAboveMax int int
  | BothDebitAndCredit
  | NoAmount
  | TotalsOverflow
  | Unbalanced int int
  | UnsupportedCurrency string
  | AccountNotFound string
  | BranchInStatus TccStatus
  | InsufficientAvailable string int int
  | VersionConflict string
  | BranchNotFound string
  | CannotConfirmCancelled string
  | CannotCancelConfirmed string
  | NotInTrying string
  | CutDateUnset string
  | CoordinatorNotTrying string
  | CoordinatorNotConfirming string
  | CoordinatorPastCancel string
  | CancelledInConfirming string
  | EmptyCurrency string
  | RetryExhausted ledger_error

text \<open>SQL arithmetic on \<open>BIGINT\<close> columns: out of range is an error, not a wrap.\<close>

definition sql_add :: "int \<Rightarrow> int \<Rightarrow> int option" where
  "sql_add x d = (if in64 (x + d) then Some (x + d) else None)"

section \<open>Validation and deltas\<close>

abbreviation (input) MaxEntryAmount :: int where "MaxEntryAmount \<equiv> 1000000000000000"

fun validate_loop :: "AccountingEntry list \<Rightarrow> string list \<Rightarrow> int \<Rightarrow> int \<Rightarrow> ledger_error + (int \<times> int)" where
  "validate_loop [] seen td tc = Inr (td, tc)"
| "validate_loop (e # es) seen td tc =
     (if AccountNo e = [] then Inl EntryAccountRequired
      else if AccountNo e \<in> set seen then Inl (DuplicateAccount (AccountNo e))
      else if DebitAmount e < 0 \<or> CreditAmount e < 0
           then Inl (NegativeAmount (DebitAmount e) (CreditAmount e))
      else if DebitAmount e > MaxEntryAmount \<or> CreditAmount e > MaxEntryAmount
           then Inl (AmountAboveMax (DebitAmount e) (CreditAmount e))
      else if DebitAmount e \<noteq> 0 \<and> CreditAmount e \<noteq> 0 then Inl BothDebitAndCredit
      else if DebitAmount e = 0 \<and> CreditAmount e = 0 then Inl NoAmount
      else if td > sub64 max_int64 (DebitAmount e) \<or> tc > sub64 max_int64 (CreditAmount e)
           then Inl TotalsOverflow
      else validate_loop es (AccountNo e # seen) (add64 td (DebitAmount e)) (add64 tc (CreditAmount e)))"

definition validateEntries :: "AccountingEntry list \<Rightarrow> ledger_error option" where
  "validateEntries es =
     (if length es < 2 then Some TooFewEntries
      else case validate_loop es [] 0 0 of
             Inl e \<Rightarrow> Some e
           | Inr (td, tc) \<Rightarrow> if td \<noteq> tc then Some (Unbalanced td tc) else None)"

definition isAssetOrExpense :: "Account \<Rightarrow> bool" where
  "isAssetOrExpense a \<longleftrightarrow>
     acc_category a = AccountCategoryAsset \<or> acc_category a = AccountCategoryExpense"

definition computeBalanceDelta :: "AccountingEntry \<Rightarrow> bool \<Rightarrow> int" where
  "computeBalanceDelta e assetOrExpense =
     (if DebitAmount e \<noteq> 0
      then if assetOrExpense then DebitAmount e else neg64 (DebitAmount e)
      else if assetOrExpense then neg64 (CreditAmount e) else CreditAmount e)"

section \<open>The repositories\<close>

definition GetAccountForUpdate :: "shard \<Rightarrow> string \<Rightarrow> Account option" where
  "GetAccountForUpdate s n = select_one (\<lambda>a. acc_no a = n) (accounts s)"

definition GetBranch :: "shard \<Rightarrow> string \<Rightarrow> TccTransaction option" where
  "GetBranch s b = select_one (\<lambda>t. branch_id t = b) (branches s)"

definition GetBranchForUpdate :: "shard \<Rightarrow> string \<Rightarrow> TccTransaction option" where
  "GetBranchForUpdate s b = select_one (\<lambda>t. branch_id t = b) (branches s)"

definition CreateBranch :: "shard \<Rightarrow> TccTransaction \<Rightarrow> ledger_error + shard" where
  "CreateBranch s br =
     (if list_ex (\<lambda>t. branch_id t = branch_id br) (branches s) then Inl (MySQLError 1062)
      else Inr (s\<lparr>branches := branches s @ [br]\<rparr>))"

definition ConfirmBranchFromTrying :: "shard \<Rightarrow> string \<Rightarrow> bool \<times> shard" where
  "ConfirmBranchFromTrying s b =
     (let P = (\<lambda>t. branch_id t = b \<and> branch_status t = TccStatusTrying)
      in (count_where P (branches s) = 1,
          s\<lparr>branches := update_where P (\<lambda>t. t\<lparr>branch_status := TccStatusConfirmed\<rparr>) (branches s)\<rparr>))"

definition UpdateBranchStatus :: "shard \<Rightarrow> string \<Rightarrow> TccStatus \<Rightarrow> shard" where
  "UpdateBranchStatus s b st =
     s\<lparr>branches := update_where (\<lambda>t. branch_id t = b) (\<lambda>t. t\<lparr>branch_status := st\<rparr>) (branches s)\<rparr>"

definition ListBranchesByTccID :: "shard \<Rightarrow> string \<Rightarrow> TccTransaction list" where
  "ListBranchesByTccID s v = filter (\<lambda>t. tcc_id t = v) (branches s)"

definition CreateTransaction :: "shard \<Rightarrow> AccountTransaction \<Rightarrow> ledger_error + shard" where
  "CreateTransaction s tx =
     (if cut_date tx = [] \<or> cut_date tx = ''0000-00-00'' then Inl (CutDateUnset (cut_date tx))
      else if list_ex (\<lambda>t. transaction_id t = transaction_id tx) (journal s) then Inl (MySQLError 1062)
      else Inr (s\<lparr>journal := journal s @ [tx]\<rparr>))"

text \<open>\<open>UPDATE account SET balance = balance + b, available_balance = available_balance + v,
  version = version + 1 WHERE account_no = n\<close>; a column the statement leaves alone gets \<open>0\<close>.\<close>

definition addToAccount :: "int \<Rightarrow> int \<Rightarrow> Account \<Rightarrow> Account option" where
  "addToAccount db dv a =
     (case (sql_add (balance a) db, sql_add (available_balance a) dv, sql_add (version a) 1) of
        (Some b, Some v, Some ver) \<Rightarrow> Some (a\<lparr>balance := b, available_balance := v, version := ver\<rparr>)
      | _ \<Rightarrow> None)"

definition updateAccount :: "shard \<Rightarrow> (Account \<Rightarrow> bool) \<Rightarrow> (Account \<Rightarrow> Account option) \<Rightarrow>
    ledger_error + (nat \<times> shard)" where
  "updateAccount s P f =
     (if list_ex (\<lambda>a. P a \<and> f a = None) (accounts s) then Inl (MySQLError 1690)
      else Inr (count_where P (accounts s),
                s\<lparr>accounts := update_where P (\<lambda>a. the (f a)) (accounts s)\<rparr>))"

text \<open>\<open>INSERT .. ON DUPLICATE KEY UPDATE\<close>: a row already there keeps its schedule.\<close>

definition upsertRows :: "AccountBalanceBuffer list \<Rightarrow> string \<Rightarrow> int \<Rightarrow> int \<Rightarrow>
    AccountBalanceBuffer list option" where
  "upsertRows bs n delta flushAt =
     (case select_one (\<lambda>b. buf_account b = n) bs of
        None \<Rightarrow> Some (bs @ [\<lparr>buf_account = n, pending_delta = delta, pending_count = 1,
                              flush_scheduled_at = Some flushAt\<rparr>])
      | Some b \<Rightarrow>
          map_option (\<lambda>d. update_where (\<lambda>b. buf_account b = n)
              (\<lambda>b. b\<lparr>pending_delta := d, pending_count := pending_count b + 1\<rparr>) bs)
            (sql_add (pending_delta b) delta))"

definition Upsert :: "shard \<Rightarrow> string \<Rightarrow> int \<Rightarrow> int \<Rightarrow> ledger_error + shard" where
  "Upsert s n delta flushAt =
     (case upsertRows (buffers s) n delta flushAt of
        None \<Rightarrow> Inl (MySQLError 1690)
      | Some bs \<Rightarrow> Inr (s\<lparr>buffers := bs\<rparr>))"

section \<open>Buffered accounts\<close>

text \<open>\<open>bufferAcctByLevel\<close>: flush level in minutes with the account numbers configured at it.
  The map is ranged over in list order; an account is configured at one level.\<close>

type_synonym buffer_config = "(int \<times> string list) list"

abbreviation (input) minute :: int where "minute \<equiv> 60000000000"
abbreviation (input) second :: int where "second \<equiv> 1000000000"
abbreviation (input) BufferFlushInterval :: int where "BufferFlushInterval \<equiv> 30"

definition isBufferedAccount :: "buffer_config \<Rightarrow> string \<Rightarrow> bool" where
  "isBufferedAccount cfg n = list_ex (\<lambda>(level, accs). n \<in> set accs) cfg"

definition FlushIntervalForAccount :: "buffer_config \<Rightarrow> string \<Rightarrow> int" where
  "FlushIntervalForAccount cfg n =
     (case List.find (\<lambda>(level, accs). n \<in> set accs) cfg of
        Some (level, accs) \<Rightarrow> level * minute
      | None \<Rightarrow> BufferFlushInterval * second)"

definition bufferFlushJitter :: "string \<Rightarrow> int \<Rightarrow> int" where
  "bufferFlushJitter n interval =
     (let m = interval sdiv 4; m = (if m < second then second else m)
      in (int (unat (fnv32a n)) mod (m div second)) * second)"

definition useBuffer :: "buffer_config \<Rightarrow> Account \<Rightarrow> bool" where
  "useBuffer cfg a \<longleftrightarrow> IsAccountCanNegative (acc_type a) \<or> isBufferedAccount cfg (acc_no a)"

section \<open>Try, Confirm, Cancel\<close>

definition tccTry :: "shard \<Rightarrow> string \<Rightarrow> string \<Rightarrow> AccountingEntry \<Rightarrow> Account \<Rightarrow> ledger_error + shard" where
  "tccTry s tccID branchID e a =
     (case GetBranch s branchID of
        Some ex \<Rightarrow> if branch_status ex = TccStatusTrying then Inr s
                   else Inl (BranchInStatus (branch_status ex))
      | None \<Rightarrow>
          (let delta = computeBalanceDelta e (isAssetOrExpense a);
               freeze = delta < 0 \<and> \<not> IsAccountCanNegative (acc_type a);
               frozen = (if freeze then neg64 delta else 0);
               br = \<lparr>tcc_id = tccID, branch_id = branchID, branch_account = AccountNo e,
                     balance_delta = delta, frozen_amount = frozen, branch_status = TccStatusTrying\<rparr>
           in if freeze then
                (if available_balance a < frozen
                 then Inl (InsufficientAvailable (AccountNo e) (available_balance a) frozen)
                 else case updateAccount s (\<lambda>x. acc_no x = AccountNo e \<and> version x = version a)
                             (addToAccount 0 (- frozen)) of
                        Inl err \<Rightarrow> Inl err
                      | Inr (n, s') \<Rightarrow>
                          if n = 0 then Inl (VersionConflict (AccountNo e)) else CreateBranch s' br)
              else CreateBranch s br))"

record bookingParams =
  bp_transactionID :: string
  bp_voucherNo :: string
  bp_businessNo :: string
  bp_businessType :: string
  bp_currency :: string
  bp_transactionDate :: string
  bp_cutDate :: string

text \<open>What Confirm books: the delta the caller knows, or the branch row's after the checks of the
  recovery path; \<open>Inr None\<close> is a branch already confirmed.\<close>

definition confirmDelta :: "shard \<Rightarrow> string \<Rightarrow> int option \<Rightarrow> ledger_error + int option" where
  "confirmDelta s branchID known =
     (case known of
        Some d \<Rightarrow> Inr (Some d)
      | None \<Rightarrow>
          (case GetBranchForUpdate s branchID of
             None \<Rightarrow> Inl (BranchNotFound branchID)
           | Some br \<Rightarrow>
               (case branch_status br of
                  TccStatusConfirmed \<Rightarrow> Inr None
                | TccStatusCancelled \<Rightarrow> Inl (CannotConfirmCancelled branchID)
                | TccStatusTrying \<Rightarrow> Inr (Some (balance_delta br)))))"

definition applyDelta :: "buffer_config \<Rightarrow> int \<Rightarrow> shard \<Rightarrow> AccountingEntry \<Rightarrow> Account \<Rightarrow> int \<Rightarrow>
    ledger_error + shard" where
  "applyDelta cfg now s e a delta =
     (if IsAccountCanNegative (acc_type a) \<or> isBufferedAccount cfg (AccountNo e)
      then let interval = FlushIntervalForAccount cfg (AccountNo e)
           in Upsert s (AccountNo e) delta (now + (interval + bufferFlushJitter (AccountNo e) interval))
      else case updateAccount s (\<lambda>x. acc_no x = AccountNo e)
                  (addToAccount delta (if delta > 0 then delta else 0)) of
             Inl err \<Rightarrow> Inl err
           | Inr (n, s') \<Rightarrow> if n = 0 then Inl (AccountNotFound (AccountNo e)) else Inr s')"

definition journalRow :: "buffer_config \<Rightarrow> AccountingEntry \<Rightarrow> Account \<Rightarrow> bookingParams \<Rightarrow> int \<Rightarrow>
    AccountTransaction" where
  "journalRow cfg e a p delta =
     \<lparr>transaction_id = bp_transactionID p, parent_transaction = bp_voucherNo p,
      tx_account = AccountNo e, tx_business_no = bp_businessNo p,
      tx_business_type = bp_businessType p, debit_amount = DebitAmount e,
      credit_amount = CreditAmount e, balance_before = balance a,
      balance_after = add64 (balance a) delta,
      booking_type = (if IsAccountCanNegative (acc_type a) \<or> isBufferedAccount cfg (AccountNo e)
                      then TransactionBookingTypeBuffered else TransactionBookingTypeSync),
      tx_currency = bp_currency p, transaction_date = bp_transactionDate p, cut_date = bp_cutDate p\<rparr>"

definition tccConfirm :: "buffer_config \<Rightarrow> int \<Rightarrow> shard \<Rightarrow> string \<Rightarrow> AccountingEntry \<Rightarrow> Account \<Rightarrow>
    bookingParams \<Rightarrow> int option \<Rightarrow> ledger_error + shard" where
  "tccConfirm cfg now s branchID e a p known =
     (case confirmDelta s branchID known of
        Inl err \<Rightarrow> Inl err
      | Inr None \<Rightarrow> Inr s
      | Inr (Some delta) \<Rightarrow>
          (case CreateTransaction s (journalRow cfg e a p delta) of
             Inl err \<Rightarrow> Inl err
           | Inr s1 \<Rightarrow>
               (case applyDelta cfg now s1 e a delta of
                  Inl err \<Rightarrow> Inl err
                | Inr s2 \<Rightarrow>
                    (case known of
                       Some _ \<Rightarrow>
                         (let (ok, s3) = ConfirmBranchFromTrying s2 branchID
                          in if ok then Inr s3 else Inl (NotInTrying branchID))
                     | None \<Rightarrow> Inr (UpdateBranchStatus s2 branchID TccStatusConfirmed)))))"

definition tccCancel :: "shard \<Rightarrow> string \<Rightarrow> AccountingEntry \<Rightarrow> ledger_error + shard" where
  "tccCancel s branchID e =
     (case GetBranchForUpdate s branchID of
        None \<Rightarrow> Inr s
      | Some br \<Rightarrow>
          (case branch_status br of
             TccStatusCancelled \<Rightarrow> Inr s
           | TccStatusConfirmed \<Rightarrow> Inl (CannotCancelConfirmed branchID)
           | TccStatusTrying \<Rightarrow>
               (case (if frozen_amount br > 0
                      then updateAccount s (\<lambda>x. acc_no x = AccountNo e) (addToAccount 0 (frozen_amount br))
                      else Inr (0, s)) of
                  Inl err \<Rightarrow> Inl err
                | Inr (_, s') \<Rightarrow> Inr (UpdateBranchStatus s' branchID TccStatusCancelled))))"


section \<open>What a validated booking satisfies\<close>

definition entry_ok :: "AccountingEntry \<Rightarrow> bool" where
  "entry_ok e \<longleftrightarrow> AccountNo e \<noteq> [] \<and> 0 \<le> DebitAmount e \<and> 0 \<le> CreditAmount e \<and>
     DebitAmount e \<le> MaxEntryAmount \<and> CreditAmount e \<le> MaxEntryAmount \<and>
     (DebitAmount e = 0) \<noteq> (CreditAmount e = 0)"

lemma validate_loop_Inr:
  assumes "validate_loop es seen td tc = Inr (td', tc')"
    and "0 \<le> td" "td \<le> max_int64" "0 \<le> tc" "tc \<le> max_int64"
  shows "list_all entry_ok es \<and> distinct (map AccountNo es) \<and>
         set (map AccountNo es) \<inter> set seen = {} \<and>
         td' = td + sum_list (map DebitAmount es) \<and> tc' = tc + sum_list (map CreditAmount es) \<and>
         0 \<le> td' \<and> td' \<le> max_int64 \<and> 0 \<le> tc' \<and> tc' \<le> max_int64"
  using assms
proof (induction es arbitrary: seen td tc)
  case Nil
  then show ?case by simp
next
  case (Cons e es)
  from Cons.prems(1) have ok: "entry_ok e" and new: "AccountNo e \<notin> set seen"
    and fits: "\<not> td > sub64 max_int64 (DebitAmount e)" "\<not> tc > sub64 max_int64 (CreditAmount e)"
    and rest: "validate_loop es (AccountNo e # seen) (add64 td (DebitAmount e))
                 (add64 tc (CreditAmount e)) = Inr (td', tc')"
    by (auto simp: entry_ok_def not_less split: if_splits)
  have subs: "sub64 max_int64 (DebitAmount e) = max_int64 - DebitAmount e"
    "sub64 max_int64 (CreditAmount e) = max_int64 - CreditAmount e"
    using ok by (auto intro!: sub64_exact simp: entry_ok_def in64_iff)
  have adds: "add64 td (DebitAmount e) = td + DebitAmount e"
    "add64 tc (CreditAmount e) = tc + CreditAmount e"
    using ok fits Cons.prems(2-) unfolding subs
    by (auto intro!: add64_exact simp: entry_ok_def in64_iff)
  have "0 \<le> td + DebitAmount e" "td + DebitAmount e \<le> max_int64"
    "0 \<le> tc + CreditAmount e" "tc + CreditAmount e \<le> max_int64"
    using ok fits Cons.prems(2-) unfolding subs by (auto simp: entry_ok_def)
  from Cons.IH [OF rest [unfolded adds] this] ok new show ?case by auto
qed

lemma validateEntries_None:
  assumes "validateEntries es = None"
  shows "2 \<le> length es" "list_all entry_ok es" "distinct (map AccountNo es)"
    "sum_list (map DebitAmount es) = sum_list (map CreditAmount es)"
proof -
  from assms obtain td where len: "\<not> length es < 2" and v: "validate_loop es [] 0 0 = Inr (td, td)"
    by (auto simp: validateEntries_def split: if_splits sum.splits)
  from len show "2 \<le> length es" by simp
  show "list_all entry_ok es" "distinct (map AccountNo es)"
    "sum_list (map DebitAmount es) = sum_list (map CreditAmount es)"
    using validate_loop_Inr [OF v] by simp_all
qed

text \<open>The delta of an entry is its signed amount, exact for every amount validation admits.\<close>

definition signed_amount :: "AccountingEntry \<Rightarrow> int" where
  "signed_amount e = DebitAmount e - CreditAmount e"

lemma computeBalanceDelta_exact:
  assumes "entry_ok e"
  shows "computeBalanceDelta e ae = (if ae then signed_amount e else - signed_amount e)"
    "computeBalanceDelta e ae \<noteq> 0" "\<bar>computeBalanceDelta e ae\<bar> \<le> MaxEntryAmount"
proof -
  have "neg64 (DebitAmount e) = - DebitAmount e" "neg64 (CreditAmount e) = - CreditAmount e"
    using assms by (auto intro!: neg64_exact simp: entry_ok_def in64_iff)
  with assms show "computeBalanceDelta e ae = (if ae then signed_amount e else - signed_amount e)"
    by (auto simp: computeBalanceDelta_def signed_amount_def entry_ok_def)
  then show "computeBalanceDelta e ae \<noteq> 0" "\<bar>computeBalanceDelta e ae\<bar> \<le> MaxEntryAmount"
    using assms by (auto simp: signed_amount_def entry_ok_def)
qed

section \<open>Invariants of a shard\<close>

definition keys_unique :: "shard \<Rightarrow> bool" where
  "keys_unique s \<longleftrightarrow> distinct (map acc_no (accounts s)) \<and> distinct (map branch_id (branches s)) \<and>
     distinct (map transaction_id (journal s)) \<and> distinct (map buf_account (buffers s))"

text \<open>What Try holds back for a delta on an account.\<close>

definition hold :: "Account \<Rightarrow> int \<Rightarrow> int" where
  "hold a delta = (if delta < 0 \<and> \<not> IsAccountCanNegative (acc_type a) then - delta else 0)"

definition trying_on :: "string \<Rightarrow> TccTransaction \<Rightarrow> bool" where
  "trying_on n t \<longleftrightarrow> branch_account t = n \<and> branch_status t = TccStatusTrying"

definition held :: "shard \<Rightarrow> string \<Rightarrow> int" where
  "held s n = sum_where (trying_on n) frozen_amount (branches s)"

definition branches_held :: "shard \<Rightarrow> bool" where
  "branches_held s \<longleftrightarrow> (\<forall>t\<in>set (branches s). \<forall>a\<in>set (accounts s).
     branch_status t = TccStatusTrying \<and> branch_account t = acc_no a \<longrightarrow>
     frozen_amount t = hold a (balance_delta t))"

definition account_balanced :: "shard \<Rightarrow> Account \<Rightarrow> bool" where
  "account_balanced s a \<longleftrightarrow> balance a = available_balance a + frozen_balance a + held s (acc_no a)"

definition funds_covered :: "buffer_config \<Rightarrow> shard \<Rightarrow> bool" where
  "funds_covered cfg s \<longleftrightarrow> (\<forall>a\<in>set (accounts s). \<not> useBuffer cfg a \<longrightarrow> account_balanced s a)"

definition ledger_inv :: "buffer_config \<Rightarrow> shard \<Rightarrow> bool" where
  "ledger_inv cfg s \<longleftrightarrow> keys_unique s \<and> branches_held s \<and> funds_covered cfg s"

section \<open>Table updates by key\<close>

lemma addToAccount_Some:
  "addToAccount db dv a = Some a' \<Longrightarrow>
   a' = a\<lparr>balance := balance a + db, available_balance := available_balance a + dv,
          version := version a + 1\<rparr>"
  by (auto simp: addToAccount_def sql_add_def split: option.splits if_splits)

lemma updateAccount_Inr:
  assumes "updateAccount s P f = Inr (n, s')"
  shows "s' = s\<lparr>accounts := update_where P (\<lambda>a. the (f a)) (accounts s)\<rparr>"
    "n = count_where P (accounts s)" "\<And>a. a \<in> set (accounts s) \<Longrightarrow> P a \<Longrightarrow> f a \<noteq> None"
  using assms by (auto simp: updateAccount_def list_ex_iff split: if_splits)

text \<open>An account's row after an update by account number.\<close>

definition moved :: "string \<Rightarrow> int \<Rightarrow> int \<Rightarrow> Account \<Rightarrow> Account" where
  "moved n db dv a = (if acc_no a = n
     then a\<lparr>balance := balance a + db, available_balance := available_balance a + dv,
            version := version a + 1\<rparr> else a)"

lemma moved_simps [simp]:
  "acc_no (moved n db dv a) = acc_no a" "acc_type (moved n db dv a) = acc_type a"
  "acc_category (moved n db dv a) = acc_category a"
  "frozen_balance (moved n db dv a) = frozen_balance a"
  "useBuffer cfg (moved n db dv a) = useBuffer cfg a"
  "hold (moved n db dv a) d = hold a d"
  by (simp_all add: moved_def useBuffer_def hold_def)

lemma acc_no_moved [simp]: "acc_no \<circ> moved n db dv = acc_no"
  by (simp add: fun_eq_iff)

lemma updateAccount_moved:
  assumes "updateAccount s (\<lambda>a. acc_no a = n) (addToAccount db dv) = Inr (k, s')"
  shows "s' = s\<lparr>accounts := map (moved n db dv) (accounts s)\<rparr>"
    "k = count_where (\<lambda>a. acc_no a = n) (accounts s)"
proof -
  note u = updateAccount_Inr [OF assms]
  have "the (addToAccount db dv a) = moved n db dv a" if "a \<in> set (accounts s)" "acc_no a = n" for a
    using u(3) [OF that] addToAccount_Some [of db dv a] that by (auto simp: moved_def)
  then have "update_where (\<lambda>a. acc_no a = n) (\<lambda>a. the (addToAccount db dv a)) (accounts s)
        = map (moved n db dv) (accounts s)"
    by (auto simp: update_where_def moved_def)
  with u show "s' = s\<lparr>accounts := map (moved n db dv) (accounts s)\<rparr>"
    "k = count_where (\<lambda>a. acc_no a = n) (accounts s)" by simp_all
qed

lemma account_unique:
  "keys_unique s \<Longrightarrow> a \<in> set (accounts s) \<Longrightarrow> b \<in> set (accounts s) \<Longrightarrow> acc_no a = acc_no b \<Longrightarrow> a = b"
  by (auto simp: keys_unique_def distinct_map inj_on_def)

lemma branch_unique:
  "keys_unique s \<Longrightarrow> a \<in> set (branches s) \<Longrightarrow> b \<in> set (branches s) \<Longrightarrow> branch_id a = branch_id b \<Longrightarrow> a = b"
  by (auto simp: keys_unique_def distinct_map inj_on_def)

lemma GetAccount_Some: "GetAccountForUpdate s n = Some a \<Longrightarrow> a \<in> set (accounts s) \<and> acc_no a = n"
  by (auto simp: GetAccountForUpdate_def dest: select_one_Some)

lemma GetBranch_Some: "GetBranch s b = Some t \<Longrightarrow> t \<in> set (branches s) \<and> branch_id t = b"
  by (auto simp: GetBranch_def dest: select_one_Some)

lemma GetBranch_None: "GetBranch s b = None \<Longrightarrow> t \<in> set (branches s) \<Longrightarrow> branch_id t \<noteq> b"
  by (auto simp: GetBranch_def select_one_None)

lemma GetBranchForUpdate_eq: "GetBranchForUpdate s b = GetBranch s b"
  by (simp add: GetBranchForUpdate_def GetBranch_def)

text \<open>The version check of Try sees the row it has just read.\<close>

lemma updateAccount_version:
  assumes "keys_unique s" "a \<in> set (accounts s)" "acc_no a = n"
  shows "updateAccount s (\<lambda>x. acc_no x = n \<and> version x = version a) f =
         updateAccount s (\<lambda>x. acc_no x = n) f"
proof -
  have same: "x \<in> set (accounts s) \<Longrightarrow> (acc_no x = n \<and> version x = version a) = (acc_no x = n)" for x
    using account_unique [OF assms(1,2)] assms(3) by metis
  have ex: "list_ex (\<lambda>x. (acc_no x = n \<and> version x = version a) \<and> f x = None) (accounts s) =
            list_ex (\<lambda>x. acc_no x = n \<and> f x = None) (accounts s)"
    unfolding list_ex_iff using same by blast
  have cnt: "count_where (\<lambda>x. acc_no x = n \<and> version x = version a) (accounts s) =
             count_where (\<lambda>x. acc_no x = n) (accounts s)"
    unfolding count_where_def by (rule arg_cong [of _ _ length], rule filter_cong [OF refl same])
  have upd: "update_where (\<lambda>x. acc_no x = n \<and> version x = version a) (\<lambda>x. the (f x)) (accounts s) =
             update_where (\<lambda>x. acc_no x = n) (\<lambda>x. the (f x)) (accounts s)"
    unfolding update_where_def by (rule map_cong [OF refl], simp only: same)
  show ?thesis by (simp only: updateAccount_def ex cnt upd)
qed


section \<open>What each operation does to the tables\<close>

definition set_status :: "string \<Rightarrow> TccStatus \<Rightarrow> TccTransaction \<Rightarrow> TccTransaction" where
  "set_status b st t = (if branch_id t = b then t\<lparr>branch_status := st\<rparr> else t)"

lemma set_status_simps [simp]:
  "branch_id (set_status b st t) = branch_id t" "tcc_id (set_status b st t) = tcc_id t"
  "branch_account (set_status b st t) = branch_account t"
  "balance_delta (set_status b st t) = balance_delta t"
  "frozen_amount (set_status b st t) = frozen_amount t"
  by (simp_all add: set_status_def)

lemma branch_ids_set_status [simp]: "branch_id \<circ> set_status b st = branch_id"
  by (simp add: fun_eq_iff)

lemma UpdateBranchStatus_eq:
  "UpdateBranchStatus s b st = s\<lparr>branches := map (set_status b st) (branches s)\<rparr>"
  by (simp add: UpdateBranchStatus_def update_where_def set_status_def cong: map_cong)

lemma ConfirmBranchFromTrying_ok:
  assumes "distinct (map branch_id (branches s))" "ConfirmBranchFromTrying s b = (True, s')"
  obtains t where "t \<in> set (branches s)" "branch_id t = b" "branch_status t = TccStatusTrying"
    "s' = s\<lparr>branches := map (set_status b TccStatusConfirmed) (branches s)\<rparr>"
proof -
  let ?P = "\<lambda>t. branch_id t = b \<and> branch_status t = TccStatusTrying"
  have n: "count_where ?P (branches s) = 1"
    and s': "s' = s\<lparr>branches := update_where ?P (\<lambda>t. t\<lparr>branch_status := TccStatusConfirmed\<rparr>) (branches s)\<rparr>"
    using assms(2) by (simp_all add: ConfirmBranchFromTrying_def Let_def)
  from n have "filter ?P (branches s) \<noteq> []" by (auto simp: count_where_def)
  then obtain t where t: "t \<in> set (branches s)" "?P t" by (auto simp: filter_empty_conv)
  have "?P x = (branch_id x = b)" if "x \<in> set (branches s)" for x
    using inj_onD [of branch_id "set (branches s)" x t] assms(1) that t by (auto simp: distinct_map)
  then have "update_where ?P (\<lambda>t. t\<lparr>branch_status := TccStatusConfirmed\<rparr>) (branches s)
             = map (set_status b TccStatusConfirmed) (branches s)"
    by (auto simp: update_where_def set_status_def)
  with t s' that show thesis by simp
qed

text \<open>The branch Try writes.\<close>

definition new_branch :: "string \<Rightarrow> string \<Rightarrow> AccountingEntry \<Rightarrow> Account \<Rightarrow> TccTransaction" where
  "new_branch v b e a =
     (let delta = computeBalanceDelta e (isAssetOrExpense a)
      in \<lparr>tcc_id = v, branch_id = b, branch_account = AccountNo e, balance_delta = delta,
          frozen_amount = hold a delta, branch_status = TccStatusTrying\<rparr>)"

definition try_new :: "shard \<Rightarrow> string \<Rightarrow> string \<Rightarrow> AccountingEntry \<Rightarrow> Account \<Rightarrow> shard" where
  "try_new s v b e a =
     (let h = hold a (computeBalanceDelta e (isAssetOrExpense a))
      in s\<lparr>accounts := (if h > 0 then map (moved (AccountNo e) 0 (- h)) (accounts s) else accounts s),
           branches := branches s @ [new_branch v b e a]\<rparr>)"

lemma tccTry_effect:
  assumes u: "keys_unique s" and a: "GetAccountForUpdate s (AccountNo e) = Some a"
    and e: "entry_ok e" and t: "tccTry s v b e a = Inr s'"
  shows "(\<exists>t. GetBranch s b = Some t \<and> branch_status t = TccStatusTrying \<and> s' = s) \<or>
         (GetBranch s b = None \<and> s' = try_new s v b e a \<and>
          hold a (computeBalanceDelta e (isAssetOrExpense a)) \<le> max 0 (available_balance a))"
proof (cases "GetBranch s b")
  case (Some t)
  with t show ?thesis by (auto simp: tccTry_def split: if_splits)
next
  case None
  define d where "d = computeBalanceDelta e (isAssetOrExpense a)"
  have d: "d \<noteq> 0" "\<bar>d\<bar> \<le> MaxEntryAmount" using computeBalanceDelta_exact [OF e] by (simp_all add: d_def)
  then have nd: "neg64 d = - d" by (auto intro!: neg64_exact simp: in64_iff)
  note acc = GetAccount_Some [OF a]
  show ?thesis
  proof (cases "d < 0 \<and> \<not> IsAccountCanNegative (acc_type a)")
    case True
    then have h: "hold a d = - d" "0 < - d" by (simp_all add: hold_def)
    with True None t nd obtain n s1 where
      av: "\<not> available_balance a < - d" and
      up: "updateAccount s (\<lambda>x. acc_no x = AccountNo e \<and> version x = version a) (addToAccount 0 d) = Inr (n, s1)"
      and cr: "CreateBranch s1 (new_branch v b e a) = Inr s'"
      unfolding tccTry_def Let_def d_def [symmetric] new_branch_def
      by (auto split: if_splits sum.splits)
    note m = updateAccount_moved [OF up [unfolded updateAccount_version [OF u conjunct1 [OF acc] conjunct2 [OF acc]]]]
    from cr m(1) have "s' = s\<lparr>accounts := map (moved (AccountNo e) 0 d) (accounts s),
        branches := branches s @ [new_branch v b e a]\<rparr>"
      by (auto simp: CreateBranch_def split: if_splits)
    with h av None show ?thesis unfolding try_new_def Let_def d_def [symmetric] by auto
  next
    case False
    then have h: "hold a d = 0" by (auto simp: hold_def)
    from False None t have "CreateBranch s (new_branch v b e a) = Inr s'"
      using h unfolding tccTry_def Let_def d_def [symmetric] new_branch_def
      by (auto split: if_splits)
    with h None show ?thesis unfolding try_new_def Let_def d_def [symmetric]
      by (auto simp: CreateBranch_def split: if_splits)
  qed
qed

text \<open>The tables after a delta is applied and journalled, and after Confirm.\<close>

definition book_accounts :: "buffer_config \<Rightarrow> shard \<Rightarrow> AccountingEntry \<Rightarrow> Account \<Rightarrow> int \<Rightarrow> Account list" where
  "book_accounts cfg s e a d =
     (if useBuffer cfg a then accounts s else map (moved (AccountNo e) d (max d 0)) (accounts s))"

definition confirm_new :: "buffer_config \<Rightarrow> shard \<Rightarrow> string \<Rightarrow> AccountingEntry \<Rightarrow> Account \<Rightarrow> bookingParams \<Rightarrow>
    int \<Rightarrow> AccountBalanceBuffer list \<Rightarrow> shard" where
  "confirm_new cfg s b e a p d bufs =
     s\<lparr>accounts := book_accounts cfg s e a d,
       branches := map (set_status b TccStatusConfirmed) (branches s),
       journal := journal s @ [journalRow cfg e a p d],
       buffers := bufs\<rparr>"

lemma applyDelta_effect:
  assumes a: "acc_no a = AccountNo e" and ap: "applyDelta cfg now s e a d = Inr s'"
  shows "\<exists>bufs. s' = s\<lparr>accounts := book_accounts cfg s e a d, buffers := bufs\<rparr> \<and>
           (if useBuffer cfg a
            then \<exists>f. upsertRows (buffers s) (AccountNo e) d f = Some bufs
            else bufs = buffers s)"
proof (cases "useBuffer cfg a")
  case True
  with a have "IsAccountCanNegative (acc_type a) \<or> isBufferedAccount cfg (AccountNo e)"
    by (auto simp: useBuffer_def)
  with ap obtain f where "Upsert s (AccountNo e) d f = Inr s'"
    by (auto simp: applyDelta_def Let_def)
  then obtain bufs where "upsertRows (buffers s) (AccountNo e) d f = Some bufs" "s' = s\<lparr>buffers := bufs\<rparr>"
    by (auto simp: Upsert_def split: option.splits)
  with True show ?thesis by (auto simp: book_accounts_def)
next
  case False
  with a have "\<not> (IsAccountCanNegative (acc_type a) \<or> isBufferedAccount cfg (AccountNo e))"
    by (auto simp: useBuffer_def)
  with ap obtain n where
    "updateAccount s (\<lambda>x. acc_no x = AccountNo e) (addToAccount d (if d > 0 then d else 0)) = Inr (n, s')"
    by (auto simp: applyDelta_def split: sum.splits if_splits)
  from updateAccount_moved(1) [OF this] False show ?thesis
    by (auto simp: book_accounts_def max_def)
qed

lemma CreateTransaction_Inr:
  "CreateTransaction s tx = Inr s' \<Longrightarrow>
   s' = s\<lparr>journal := journal s @ [tx]\<rparr> \<and> transaction_id tx \<notin> transaction_id ` set (journal s)"
  by (auto simp: CreateTransaction_def list_ex_iff split: if_splits)

lemma upsertRows_keys:
  assumes "upsertRows bs n d f = Some bufs" "distinct (map buf_account bs)"
  shows "distinct (map buf_account bufs)"
proof (cases "select_one (\<lambda>b. buf_account b = n) bs")
  case None
  with assms show ?thesis by (auto simp: upsertRows_def select_one_None)
next
  case (Some b)
  with assms show ?thesis by (auto simp: upsertRows_def map_update_where)
qed

text \<open>Confirm either finds the branch already confirmed and does nothing, or books it once.\<close>

lemma tccConfirm_effect:
  assumes u: "keys_unique s" and a: "acc_no a = AccountNo e"
    and c: "tccConfirm cfg now s b e a p known = Inr s'"
  shows "(known = None \<and> s' = s \<and> (\<exists>t. GetBranch s b = Some t \<and> branch_status t = TccStatusConfirmed)) \<or>
         (\<exists>t d bufs. t \<in> set (branches s) \<and> branch_id t = b \<and> branch_status t = TccStatusTrying \<and>
            d = (case known of None \<Rightarrow> balance_delta t | Some k \<Rightarrow> k) \<and>
            s' = confirm_new cfg s b e a p d bufs \<and>
            bp_transactionID p \<notin> transaction_id ` set (journal s) \<and>
            (if useBuffer cfg a
             then \<exists>f. upsertRows (buffers s) (AccountNo e) d f = Some bufs else bufs = buffers s))"
proof -
  from c obtain r where r: "confirmDelta s b known = Inr r"
    by (auto simp: tccConfirm_def split: sum.splits)
  show ?thesis
  proof (cases r)
    case None
    with r have "known = None" "\<exists>t. GetBranch s b = Some t \<and> branch_status t = TccStatusConfirmed"
      by (auto simp: confirmDelta_def GetBranchForUpdate_eq split: option.splits TccStatus.splits)
    with None r c show ?thesis by (simp add: tccConfirm_def)
  next
    case (Some d)
    with r c obtain s1 s2 where
      s1: "CreateTransaction s (journalRow cfg e a p d) = Inr s1" and
      s2: "applyDelta cfg now s1 e a d = Inr s2" and
      fin: "(case known of Some _ \<Rightarrow> (let (ok, s3) = ConfirmBranchFromTrying s2 b
                          in if ok then Inr s3 else Inl (NotInTrying b))
             | None \<Rightarrow> Inr (UpdateBranchStatus s2 b TccStatusConfirmed)) = Inr s'"
      by (auto simp: tccConfirm_def split: sum.splits)
    note j = CreateTransaction_Inr [OF s1]
    from applyDelta_effect [OF a s2] j obtain bufs where
      s2': "s2 = s\<lparr>journal := journal s @ [journalRow cfg e a p d], accounts := book_accounts cfg s e a d,
                buffers := bufs\<rparr>" and
      bf: "if useBuffer cfg a then \<exists>f. upsertRows (buffers s) (AccountNo e) d f = Some bufs
           else bufs = buffers s"
      by (auto simp: book_accounts_def split: if_splits)
    have fresh: "bp_transactionID p \<notin> transaction_id ` set (journal s)"
      using j by (simp add: journalRow_def)
    have br: "\<exists>t. t \<in> set (branches s) \<and> branch_id t = b \<and> branch_status t = TccStatusTrying \<and>
        d = (case known of None \<Rightarrow> balance_delta t | Some k \<Rightarrow> k)"
      and s'': "s' = s2\<lparr>branches := map (set_status b TccStatusConfirmed) (branches s2)\<rparr>"
    proof -
      have "(\<exists>t. t \<in> set (branches s) \<and> branch_id t = b \<and> branch_status t = TccStatusTrying \<and>
              d = (case known of None \<Rightarrow> balance_delta t | Some k \<Rightarrow> k)) \<and>
            s' = s2\<lparr>branches := map (set_status b TccStatusConfirmed) (branches s2)\<rparr>"
      proof (cases known)
        case None
        with r Some obtain t where "GetBranch s b = Some t" "branch_status t = TccStatusTrying" "d = balance_delta t"
          by (auto simp: confirmDelta_def GetBranchForUpdate_eq split: option.splits TccStatus.splits)
        with GetBranch_Some [of s b t] fin None show ?thesis by (auto simp: UpdateBranchStatus_eq)
      next
        case (Some k)
        with r \<open>r = Some d\<close> have "d = k" by (simp add: confirmDelta_def)
        from fin Some obtain s3 where "ConfirmBranchFromTrying s2 b = (True, s3)" "s' = s3"
          by (auto split: prod.splits if_splits)
        then obtain t where "t \<in> set (branches s2)" "branch_id t = b" "branch_status t = TccStatusTrying"
          "s' = s2\<lparr>branches := map (set_status b TccStatusConfirmed) (branches s2)\<rparr>"
          using u s2' by (auto simp: keys_unique_def elim!: ConfirmBranchFromTrying_ok [rotated])
        with s2' Some \<open>d = k\<close> show ?thesis by auto
      qed
      then show "\<exists>t. t \<in> set (branches s) \<and> branch_id t = b \<and> branch_status t = TccStatusTrying \<and>
        d = (case known of None \<Rightarrow> balance_delta t | Some k \<Rightarrow> k)"
        "s' = s2\<lparr>branches := map (set_status b TccStatusConfirmed) (branches s2)\<rparr>" by simp_all
    qed
    from br s'' s2' bf fresh show ?thesis
      by (auto simp: confirm_new_def intro!: exI [of _ bufs])
  qed
qed

end
