(* ===== verification/LedgerInvariant.thy ===== *)
theory LedgerInvariant
  imports Ledger
begin

text \<open>
  The invariant of a shard's tables (theory \<open>Ledger\<close>) and its preservation by Try, Confirm and
  Cancel: keys stay unique, every open branch holds back exactly what its delta takes, and on a
  synchronously booked account \<open>balance = available + frozen + what open branches hold\<close>.
\<close>

lemma held_append: "held (s\<lparr>branches := branches s @ [t]\<rparr>) n =
    held s n + (if trying_on n t then frozen_amount t else 0)"
  by (simp add: held_def)

lemma held_set_status:
  assumes "keys_unique s" "t \<in> set (branches s)" "branch_id t = b"
    and "branch_status t = TccStatusTrying" "st \<noteq> TccStatusTrying"
  shows "held (s\<lparr>branches := map (set_status b st) (branches s)\<rparr>) n =
         held s n - (if branch_account t = n then frozen_amount t else 0)"
proof -
  have u: "map (set_status b st) (branches s) =
        update_where (\<lambda>x. branch_id x = b) (set_status b st) (branches s)"
    by (auto simp: update_where_def set_status_def)
  have d: "distinct (map branch_id (branches s))" using assms(1) by (simp add: keys_unique_def)
  show ?thesis
    using sum_where_key_update [OF d assms(2,3), of "trying_on n" frozen_amount "set_status b st"] assms
    by (simp add: held_def u trying_on_def set_status_def)
qed

lemma held_cong [simp]:
  "held (s\<lparr>accounts := as\<rparr>) n = held s n" "held (s\<lparr>journal := js\<rparr>) n = held s n"
  "held (s\<lparr>buffers := bs\<rparr>) n = held s n"
  by (simp_all add: held_def)

lemma branches_heldD:
  "branches_held s \<Longrightarrow> t \<in> set (branches s) \<Longrightarrow> a \<in> set (accounts s) \<Longrightarrow>
   branch_status t = TccStatusTrying \<Longrightarrow> branch_account t = acc_no a \<Longrightarrow>
   frozen_amount t = hold a (balance_delta t)"
  by (auto simp: branches_held_def)

text \<open>Rows that moved keep what the branches hold against them.\<close>

lemma branches_held_moved:
  assumes "branches_held s"
    and "\<And>t. t \<in> set bs \<Longrightarrow> branch_status t = TccStatusTrying \<Longrightarrow> t \<in> set (branches s)"
    and "as = accounts s \<or> as = map (moved n db dv) (accounts s)"
  shows "branches_held (s\<lparr>accounts := as, branches := bs, journal := js, buffers := bufs\<rparr>)"
  using assms by (auto simp: branches_held_def)

lemma trying_after_set_status:
  "t \<in> set (map (set_status b st) ts) \<Longrightarrow> branch_status t = TccStatusTrying \<Longrightarrow> st \<noteq> TccStatusTrying \<Longrightarrow>
   t \<in> set ts"
  by (auto simp: set_status_def split: if_splits)

section \<open>Try\<close>

lemma try_new_keys:
  "keys_unique s \<Longrightarrow> GetBranch s b = None \<Longrightarrow> keys_unique (try_new s v b e a)"
  by (auto simp: keys_unique_def try_new_def Let_def new_branch_def dest: GetBranch_None)

lemma held_try_new:
  "held (try_new s v b e a) n =
   held s n + (if AccountNo e = n then hold a (computeBalanceDelta e (isAssetOrExpense a)) else 0)"
  by (simp add: try_new_def Let_def held_def new_branch_def trying_on_def)

lemma try_new_inv:
  assumes inv: "ledger_inv cfg s" and a: "a \<in> set (accounts s)" "acc_no a = AccountNo e"
    and new: "GetBranch s b = None"
  shows "ledger_inv cfg (try_new s v b e a)"
proof -
  let ?h = "hold a (computeBalanceDelta e (isAssetOrExpense a))"
  have u: "keys_unique s" and bh: "branches_held s" and fc: "funds_covered cfg s"
    using inv by (simp_all add: ledger_inv_def)
  have only: "x = a" if "x \<in> set (accounts s)" "acc_no x = AccountNo e" for x
    using account_unique [OF u that(1) a(1)] that(2) a(2) by simp
  have nonneg: "0 \<le> ?h" by (simp add: hold_def)
  have "branches_held (try_new s v b e a)"
    using bh only by (auto simp: branches_held_def try_new_def Let_def new_branch_def)
  moreover have "funds_covered cfg (try_new s v b e a)"
    unfolding funds_covered_def
  proof (intro ballI impI)
    fix x assume x: "x \<in> set (accounts (try_new s v b e a))" and sync: "\<not> useBuffer cfg x"
    then obtain y where y: "y \<in> set (accounts s)"
      and xy: "x = (if ?h > 0 then moved (AccountNo e) 0 (- ?h) y else y)"
      by (auto simp: try_new_def Let_def split: if_splits)
    with fc sync have bal: "account_balanced s y" by (auto simp: funds_covered_def split: if_splits)
    have no: "acc_no x = acc_no y" using xy by simp
    show "account_balanced (try_new s v b e a) x"
    proof (cases "acc_no y = AccountNo e")
      case True
      with only y have "y = a" by simp
      with True bal nonneg xy show ?thesis
        by (auto simp: account_balanced_def held_try_new no moved_def)
    next
      case False
      then have "x = (if ?h > 0 then y else y)" using xy by (auto simp: moved_def)
      with False bal show ?thesis by (simp add: account_balanced_def held_try_new)
    qed
  qed
  ultimately show ?thesis using try_new_keys [OF u new] by (simp add: ledger_inv_def)
qed

lemma tccTry_inv [preserves]:
  assumes "ledger_inv cfg s" "GetAccountForUpdate s (AccountNo e) = Some a" "entry_ok e"
    and "tccTry s v b e a = Inr s'"
  shows "ledger_inv cfg s'"
proof -
  have u: "keys_unique s" using assms(1) by (simp add: ledger_inv_def)
  from tccTry_effect [OF u assms(2-4)] show ?thesis
    using assms(1) GetAccount_Some [OF assms(2)] try_new_inv by auto
qed

section \<open>Confirm\<close>

lemma confirm_new_inv:
  assumes inv: "ledger_inv cfg s" and a: "a \<in> set (accounts s)" "acc_no a = AccountNo e"
    and t: "t \<in> set (branches s)" "branch_id t = b" "branch_status t = TccStatusTrying"
    and same: "branch_account t = AccountNo e" "balance_delta t = d"
    and fresh: "bp_transactionID p \<notin> transaction_id ` set (journal s)"
    and bufs: "if useBuffer cfg a then \<exists>f. upsertRows (buffers s) (AccountNo e) d f = Some bufs
               else bufs = buffers s"
  shows "ledger_inv cfg (confirm_new cfg s b e a p d bufs)"
proof -
  have u: "keys_unique s" and bh: "branches_held s" and fc: "funds_covered cfg s"
    using inv by (simp_all add: ledger_inv_def)
  let ?s' = "confirm_new cfg s b e a p d bufs"
  have only: "x = a" if "x \<in> set (accounts s)" "acc_no x = AccountNo e" for x
    using account_unique [OF u that(1) a(1)] that(2) a(2) by simp
  have hold: "frozen_amount t = hold a d"
    using branches_heldD [OF bh t(1) a(1) t(3)] same a(2) by simp
  have held': "held ?s' n = held s n - (if AccountNo e = n then hold a d else 0)" for n
    using held_set_status [OF u t, of TccStatusConfirmed n] same(1) hold
    by (simp add: confirm_new_def held_def)
  have "distinct (map buf_account bufs)"
    using u bufs upsertRows_keys by (auto simp: keys_unique_def split: if_splits)
  then have "keys_unique ?s'"
    using u fresh by (auto simp: keys_unique_def confirm_new_def book_accounts_def journalRow_def)
  moreover have "branches_held ?s'"
  proof -
    have "branches_held (s\<lparr>accounts := book_accounts cfg s e a d,
        branches := map (set_status b TccStatusConfirmed) (branches s),
        journal := journal s @ [journalRow cfg e a p d], buffers := bufs\<rparr>)"
      by (rule branches_held_moved [OF bh, of _ _ "AccountNo e" d "max d 0"])
        (auto simp: book_accounts_def set_status_def split: if_splits)
    then show ?thesis by (simp add: confirm_new_def)
  qed
  moreover have "funds_covered cfg ?s'"
    unfolding funds_covered_def
  proof (intro ballI impI)
    fix x assume x: "x \<in> set (accounts ?s')" and sync: "\<not> useBuffer cfg x"
    then obtain y where y: "y \<in> set (accounts s)"
      and xy: "x = (if useBuffer cfg a then y else moved (AccountNo e) d (max d 0) y)"
      by (auto simp: confirm_new_def book_accounts_def split: if_splits)
    with fc sync have bal: "account_balanced s y" and sy: "\<not> useBuffer cfg y"
      by (auto simp: funds_covered_def split: if_splits)
    show "account_balanced ?s' x"
    proof (cases "acc_no y = AccountNo e")
      case True
      with only y have "y = a" by simp
      with True bal xy sy show ?thesis
        by (auto simp: account_balanced_def held' moved_def hold_def useBuffer_def)
    next
      case False
      then have "x = (if useBuffer cfg a then y else y)" using xy by (auto simp: moved_def)
      with False bal show ?thesis by (simp add: account_balanced_def held')
    qed
  qed
  ultimately show ?thesis by (simp add: ledger_inv_def)
qed

lemma tccConfirm_inv [preserves]:
  assumes inv: "ledger_inv cfg s" and a: "GetAccountForUpdate s (AccountNo e) = Some a"
    and own: "\<And>t. GetBranch s b = Some t \<Longrightarrow> branch_account t = AccountNo e \<and>
                (\<forall>d. known = Some d \<longrightarrow> balance_delta t = d)"
    and c: "tccConfirm cfg now s b e a p known = Inr s'"
  shows "ledger_inv cfg s'"
proof -
  have u: "keys_unique s" using inv by (simp add: ledger_inv_def)
  note acc = GetAccount_Some [OF a]
  have get: "GetBranch s b = Some t" if "t \<in> set (branches s)" "branch_id t = b" for t
  proof (cases "GetBranch s b")
    case None
    with that show ?thesis using GetBranch_None by blast
  next
    case (Some t')
    with GetBranch_Some [OF Some] branch_unique [OF u that(1), of t'] that(2) show ?thesis by simp
  qed
  from tccConfirm_effect [OF u conjunct2 [OF acc] c] show ?thesis
  proof (elim disjE exE conjE)
    assume "s' = s" with inv show ?thesis by simp
  next
    fix t d bufs
    assume t: "t \<in> set (branches s)" "branch_id t = b" "branch_status t = TccStatusTrying"
      and d: "d = (case known of None \<Rightarrow> balance_delta t | Some k \<Rightarrow> k)"
      and s': "s' = confirm_new cfg s b e a p d bufs"
      and fresh: "bp_transactionID p \<notin> transaction_id ` set (journal s)"
      and bufs: "if useBuffer cfg a then \<exists>f. upsertRows (buffers s) (AccountNo e) d f = Some bufs
               else bufs = buffers s"
    from own [OF get [OF t(1,2)]] d have "branch_account t = AccountNo e" "balance_delta t = d"
      by (auto split: option.splits)
    from confirm_new_inv [OF inv conjunct1 [OF acc] conjunct2 [OF acc] t this fresh bufs] s'
    show ?thesis by simp
  qed
qed

section \<open>Cancel\<close>

definition cancel_new :: "shard \<Rightarrow> string \<Rightarrow> AccountingEntry \<Rightarrow> int \<Rightarrow> shard" where
  "cancel_new s b e f =
     s\<lparr>accounts := (if f > 0 then map (moved (AccountNo e) 0 f) (accounts s) else accounts s),
       branches := map (set_status b TccStatusCancelled) (branches s)\<rparr>"

lemma tccCancel_effect:
  assumes "tccCancel s b e = Inr s'"
  shows "(s' = s \<and> (\<forall>t. GetBranch s b = Some t \<longrightarrow> branch_status t = TccStatusCancelled)) \<or>
         (\<exists>t. GetBranch s b = Some t \<and> branch_status t = TccStatusTrying \<and>
              s' = cancel_new s b e (frozen_amount t))"
proof (cases "GetBranch s b")
  case None
  with assms show ?thesis by (simp add: tccCancel_def GetBranchForUpdate_eq)
next
  case (Some t)
  show ?thesis
  proof (cases "branch_status t")
    case TccStatusTrying
    with Some assms obtain n s1 where
      up: "(if frozen_amount t > 0
            then updateAccount s (\<lambda>x. acc_no x = AccountNo e) (addToAccount 0 (frozen_amount t))
            else Inr (0, s)) = Inr (n, s1)"
      and s': "s' = UpdateBranchStatus s1 b TccStatusCancelled"
      by (auto simp: tccCancel_def GetBranchForUpdate_eq split: sum.splits)
    from up have "s1 = s\<lparr>accounts := (if frozen_amount t > 0
        then map (moved (AccountNo e) 0 (frozen_amount t)) (accounts s) else accounts s)\<rparr>"
      by (auto split: if_splits dest: updateAccount_moved(1))
    with s' Some TccStatusTrying show ?thesis by (auto simp: cancel_new_def UpdateBranchStatus_eq)
  qed (use Some assms in \<open>auto simp: tccCancel_def GetBranchForUpdate_eq\<close>)
qed

lemma cancel_new_inv:
  assumes inv: "ledger_inv cfg s"
    and t: "t \<in> set (branches s)" "branch_id t = b" "branch_status t = TccStatusTrying"
    and same: "branch_account t = AccountNo e"
  shows "ledger_inv cfg (cancel_new s b e (frozen_amount t))"
proof -
  have u: "keys_unique s" and bh: "branches_held s" and fc: "funds_covered cfg s"
    using inv by (simp_all add: ledger_inv_def)
  let ?f = "frozen_amount t" and ?s' = "cancel_new s b e (frozen_amount t)"
  have held': "held ?s' n = held s n - (if AccountNo e = n then ?f else 0)" for n
    using held_set_status [OF u t, of TccStatusCancelled n] same by (simp add: cancel_new_def held_def)
  have "keys_unique ?s'" using u by (auto simp: keys_unique_def cancel_new_def)
  moreover have "branches_held ?s'"
  proof -
    have "branches_held (s\<lparr>accounts := (if ?f > 0 then map (moved (AccountNo e) 0 ?f) (accounts s)
              else accounts s), branches := map (set_status b TccStatusCancelled) (branches s),
              journal := journal s, buffers := buffers s\<rparr>)"
      by (rule branches_held_moved [OF bh, of _ _ "AccountNo e" 0 ?f])
        (auto simp: set_status_def split: if_splits)
    then show ?thesis by (simp add: cancel_new_def)
  qed
  moreover have "funds_covered cfg ?s'"
    unfolding funds_covered_def
  proof (intro ballI impI)
    fix x assume x: "x \<in> set (accounts ?s')" and sync: "\<not> useBuffer cfg x"
    then obtain y where y: "y \<in> set (accounts s)"
      and xy: "x = (if ?f > 0 then moved (AccountNo e) 0 ?f y else y)"
      by (auto simp: cancel_new_def split: if_splits)
    with fc sync have bal: "account_balanced s y" by (auto simp: funds_covered_def split: if_splits)
    have no: "acc_no x = acc_no y" using xy by simp
    show "account_balanced ?s' x"
    proof (cases "acc_no y = AccountNo e")
      case True
      have "?f = hold y (balance_delta t)"
        using branches_heldD [OF bh t(1) y t(3)] same True by simp
      then have "0 \<le> ?f" by (simp add: hold_def)
      with True bal xy show ?thesis by (auto simp: account_balanced_def held' no moved_def)
    next
      case False
      then have "x = (if ?f > 0 then y else y)" using xy by (auto simp: moved_def)
      with False bal show ?thesis by (simp add: account_balanced_def held')
    qed
  qed
  ultimately show ?thesis by (simp add: ledger_inv_def)
qed

lemma tccCancel_inv [preserves]:
  assumes "ledger_inv cfg s" "\<And>t. GetBranch s b = Some t \<Longrightarrow> branch_account t = AccountNo e"
    and "tccCancel s b e = Inr s'"
  shows "ledger_inv cfg s'"
proof -
  from tccCancel_effect [OF assms(3)] show ?thesis
    using assms(1,2) GetBranch_Some cancel_new_inv by blast
qed

end
