(* ===== verification/Tcc.thy ===== *)
theory Tcc
  imports LedgerInvariant "HOL-Library.List_Lexorder" "HOL-Library.Char_ord"
begin

text \<open>
  The distributed booking of \<open>accounting_service.go\<close> over the hundred shards: \<open>tccBooking\<close> with its
  per-database transactions, deadlock retry and coordinator, \<open>cancelTried\<close>, the cancel path of
  \<open>tcc_service.go\<close>, the recovery of half-confirmed vouchers, and \<open>tcc_recovery_worker.go\<close>. A
  database that fails is a \<open>faults\<close> argument: any group transaction may be rolled back at any
  attempt with any error, any coordinator statement may fail. Groups of different databases run
  concurrently in the code and touch disjoint shards; here they run in key order.
\<close>

section \<open>The coordinator table\<close>

datatype TccCoordinatorPhase =
  TccPhaseTrying | TccPhaseConfirming | TccPhaseConfirmed | TccPhaseCancelled

record TccCoordinator =
  coord_tcc_id :: string
  phase :: TccCoordinatorPhase
  coord_business_no :: string
  branch_count :: nat
  coord_cut_date :: string
  coord_currency :: string
  coord_created_date :: string
  coord_updated_at :: int

record cluster =
  shards :: "shard_id \<Rightarrow> shard"
  coordinators :: "TccCoordinator list"

text \<open>The table is sharded by a hash of its primary key, so it is one list keyed by \<open>tcc_id\<close>.\<close>

definition coordCreate :: "int \<Rightarrow> string \<Rightarrow> cluster \<Rightarrow> string \<Rightarrow> string \<Rightarrow> string \<Rightarrow> string \<Rightarrow> nat \<Rightarrow> cluster" where
  "coordCreate now today c tccID businessNo cutDate currency branchCount =
     (if list_ex (\<lambda>k. coord_tcc_id k = tccID) (coordinators c) then c
      else c\<lparr>coordinators := coordinators c @
        [\<lparr>coord_tcc_id = tccID, phase = TccPhaseTrying, coord_business_no = businessNo,
          branch_count = branchCount, coord_cut_date = cutDate, coord_currency = currency,
          coord_created_date = today, coord_updated_at = now\<rparr>]\<rparr>)"

text \<open>\<open>UPDATE .. SET phase = to WHERE tcc_id = ? AND phase IN from\<close>; the connection counts matched
  rows (\<open>clientFoundRows=true\<close>), and \<open>updated_at\<close> moves when the row changes.\<close>

definition coordUpdate :: "int \<Rightarrow> cluster \<Rightarrow> string \<Rightarrow> TccCoordinatorPhase list \<Rightarrow> TccCoordinatorPhase \<Rightarrow>
    nat \<times> cluster" where
  "coordUpdate now c tccID from to =
     (let P = (\<lambda>k. coord_tcc_id k = tccID \<and> phase k \<in> set from)
      in (count_where P (coordinators c),
          c\<lparr>coordinators := update_where P
             (\<lambda>k. if phase k = to then k else k\<lparr>phase := to, coord_updated_at := now\<rparr>) (coordinators c)\<rparr>))"

definition TransitionToConfirming :: "int \<Rightarrow> cluster \<Rightarrow> string \<Rightarrow> ledger_error + cluster" where
  "TransitionToConfirming now c v =
     (let (n, c') = coordUpdate now c v [TccPhaseTrying] TccPhaseConfirming
      in if n = 0 then Inl (CoordinatorNotTrying v) else Inr c')"

definition TransitionToConfirmed :: "int \<Rightarrow> cluster \<Rightarrow> string \<Rightarrow> ledger_error + cluster" where
  "TransitionToConfirmed now c v =
     (let (n, c') = coordUpdate now c v [TccPhaseConfirming, TccPhaseConfirmed] TccPhaseConfirmed
      in if n = 0 then Inl (CoordinatorNotConfirming v) else Inr c')"

definition TransitionToCancelled :: "int \<Rightarrow> cluster \<Rightarrow> string \<Rightarrow> ledger_error + cluster" where
  "TransitionToCancelled now c v =
     (let (n, c') = coordUpdate now c v [TccPhaseTrying, TccPhaseCancelled] TccPhaseCancelled
      in if n = 0 then Inl (CoordinatorPastCancel v) else Inr c')"

definition GetByTccID :: "cluster \<Rightarrow> string \<Rightarrow> TccCoordinator option" where
  "GetByTccID c v = select_one (\<lambda>k. coord_tcc_id k = v) (coordinators c)"

text \<open>\<open>Limit\<close> of each shard, merge and global \<open>Limit\<close> select the same \<open>limit\<close> oldest rows.\<close>

definition coordListStuck :: "cluster \<Rightarrow> int \<Rightarrow> nat \<Rightarrow> TccCoordinator list" where
  "coordListStuck c before limit =
     take limit (sort_key coord_updated_at
       (filter (\<lambda>k. phase k \<in> {TccPhaseTrying, TccPhaseConfirming} \<and> coord_updated_at k < before)
         (coordinators c)))"

definition CountActiveByCutDate :: "cluster \<Rightarrow> string \<Rightarrow> nat" where
  "CountActiveByCutDate c maxCutDate =
     count_where (\<lambda>k. coord_cut_date k \<le> maxCutDate \<and> phase k \<in> {TccPhaseTrying, TccPhaseConfirming})
       (coordinators c)"

section \<open>Transactions and deadlock retry\<close>

definition isRetriableMySQLErr :: "ledger_error \<Rightarrow> bool" where
  "isRetriableMySQLErr e = (case e of
     MySQLError n \<Rightarrow> n = 1213 \<or> n = 1205 \<or> n = 1040 \<or> n = 1317 \<or> n = 1614
   | _ \<Rightarrow> False)"

definition isDeadlockError :: "ledger_error \<Rightarrow> bool" where
  "isDeadlockError e = (case e of MySQLError n \<Rightarrow> n = 1213 | _ \<Rightarrow> False)"

abbreviation (input) deadlockMaxRetries :: nat where "deadlockMaxRetries \<equiv> 3"

fun retry_loop :: "(nat \<Rightarrow> ledger_error + 'a) \<Rightarrow> nat \<Rightarrow> nat \<Rightarrow> ledger_error \<Rightarrow> ledger_error + 'a" where
  "retry_loop fn attempt 0 lastErr = Inl (RetryExhausted lastErr)"
| "retry_loop fn attempt (Suc left) lastErr =
     (case fn attempt of
        Inr x \<Rightarrow> Inr x
      | Inl e \<Rightarrow> if \<not> isRetriableMySQLErr e then Inl e else retry_loop fn (Suc attempt) left e)"

definition retryOnDeadlock :: "(nat \<Rightarrow> ledger_error + 'a) \<Rightarrow> ledger_error + 'a" where
  "retryOnDeadlock fn = retry_loop fn 0 deadlockMaxRetries (Opaque [])"

text \<open>A transaction's statements, left to right; an error rolls all of them back.\<close>

fun run_tx :: "('x \<Rightarrow> 's \<Rightarrow> ledger_error + 's) \<Rightarrow> 'x list \<Rightarrow> 's \<Rightarrow> ledger_error + 's" where
  "run_tx step [] s = Inr s"
| "run_tx step (x # xs) s = (case step x s of Inl e \<Rightarrow> Inl e | Inr s' \<Rightarrow> run_tx step xs s')"

datatype stage = AtBegin | AtAccountLock | AtStatement | AtCommit
datatype fault = Fault stage ledger_error

record faults =
  try_fault :: "int \<Rightarrow> nat \<Rightarrow> fault option"
  confirm_fault :: "int \<Rightarrow> nat \<Rightarrow> fault option"
  cancel_fault :: "string \<Rightarrow> ledger_error option"
  create_fault :: "ledger_error option"
  confirming_fault :: "ledger_error option"
  confirmed_fault :: "ledger_error option"
  cancelled_fault :: "ledger_error option"

definition no_faults :: faults where
  "no_faults = \<lparr>try_fault = \<lambda>_ _. None, confirm_fault = \<lambda>_ _. None, cancel_fault = \<lambda>_. None,
     create_fault = None, confirming_fault = None, confirmed_fault = None, cancelled_fault = None\<rparr>"

section \<open>Grouping by database\<close>

record sharded_entry =
  se_idx :: nat
  se_entry :: AccountingEntry
  se_db :: int
  se_tbl :: int

definition shardEntries :: "AccountingEntry list \<Rightarrow> sharded_entry list" where
  "shardEntries es = map (\<lambda>(i, e). let (d, t) = RouteByAccountNo NewRouter (AccountNo e)
       in \<lparr>se_idx = i, se_entry = e, se_db = d, se_tbl = t\<rparr>) (enumerate 0 es)"

definition dbGroupKeys :: "sharded_entry list \<Rightarrow> int list" where
  "dbGroupKeys ses = rev (remdups (rev (map se_db ses)))"

definition dbGroup :: "sharded_entry list \<Rightarrow> int \<Rightarrow> sharded_entry list" where
  "dbGroup ses db = sort_key (\<lambda>se. AccountNo (se_entry se)) (filter (\<lambda>se. se_db se = db) ses)"

definition shard_of :: "sharded_entry \<Rightarrow> shard_id" where
  "shard_of se = (se_db se, se_tbl se)"

definition put_shard :: "cluster \<Rightarrow> shard_id \<Rightarrow> shard \<Rightarrow> cluster" where
  "put_shard c sid s = c\<lparr>shards := (shards c)(sid := s)\<rparr>"

section \<open>Try, Confirm and Cancel of a group\<close>

definition tryEntry :: "string \<Rightarrow> string list \<Rightarrow> sharded_entry \<Rightarrow> cluster \<times> (nat \<times> int) list \<Rightarrow>
    ledger_error + (cluster \<times> (nat \<times> int) list)" where
  "tryEntry v txIDs se = (\<lambda>(c, deltas).
     let s = shards c (shard_of se); e = se_entry se
     in case GetAccountForUpdate s (AccountNo e) of
          None \<Rightarrow> Inl (AccountNotFound (AccountNo e))
        | Some a \<Rightarrow>
            (case tccTry s v (txIDs ! se_idx se) e a of
               Inl err \<Rightarrow> Inl err
             | Inr s' \<Rightarrow> Inr (put_shard c (shard_of se) s',
                  (se_idx se, computeBalanceDelta e (isAssetOrExpense a)) # deltas)))"

definition tryGroup :: "faults \<Rightarrow> string \<Rightarrow> string list \<Rightarrow> int \<Rightarrow> sharded_entry list \<Rightarrow> cluster \<Rightarrow>
    ledger_error + (cluster \<times> (nat \<times> int) list)" where
  "tryGroup f v txIDs db grp c = retryOnDeadlock (\<lambda>attempt.
     case try_fault f db attempt of
       Some (Fault st e) \<Rightarrow> Inl e
     | None \<Rightarrow> run_tx (tryEntry v txIDs) grp (c, []))"

definition paramsOf :: "DoubleEntryBookingRequest \<Rightarrow> string \<Rightarrow> string \<Rightarrow> string \<Rightarrow> string \<Rightarrow> bookingParams" where
  "paramsOf req v cutDate today txID =
     \<lparr>bp_transactionID = txID, bp_voucherNo = v, bp_businessNo = BusinessNo req,
      bp_businessType = BusinessType req, bp_currency = Currency req,
      bp_transactionDate = today, bp_cutDate = cutDate\<rparr>"

text \<open>\<open>outcomes[i].balanceDelta\<close>, zero until Try fills it.\<close>

definition delta_of :: "(nat \<times> int) list \<Rightarrow> nat \<Rightarrow> int" where
  "delta_of deltas i = (case map_of deltas i of Some d \<Rightarrow> d | None \<Rightarrow> 0)"

definition confirmEntry :: "buffer_config \<Rightarrow> int \<Rightarrow> DoubleEntryBookingRequest \<Rightarrow> string \<Rightarrow> string \<Rightarrow> string \<Rightarrow>
    string list \<Rightarrow> (nat \<times> int) list \<Rightarrow> sharded_entry \<Rightarrow> cluster \<Rightarrow> ledger_error + cluster" where
  "confirmEntry cfg now req v cutDate today txIDs deltas se c =
     (let s = shards c (shard_of se); e = se_entry se; txID = txIDs ! se_idx se
      in case GetAccountForUpdate s (AccountNo e) of
           None \<Rightarrow> Inl (AccountNotFound (AccountNo e))
         | Some a \<Rightarrow>
             (case tccConfirm cfg now s txID e a (paramsOf req v cutDate today txID)
                     (Some (delta_of deltas (se_idx se))) of
                Inl err \<Rightarrow> Inl err
              | Inr s' \<Rightarrow> Inr (put_shard c (shard_of se) s')))"

text \<open>A fault while Confirm locks the account is rendered into the message with \<open>%s\<close>, which loses
  the MySQL error number; every other stage wraps it.\<close>

definition confirmGroup :: "faults \<Rightarrow> (sharded_entry \<Rightarrow> cluster \<Rightarrow> ledger_error + cluster) \<Rightarrow> int \<Rightarrow>
    sharded_entry list \<Rightarrow> cluster \<Rightarrow> ledger_error + cluster" where
  "confirmGroup f step db grp c = retryOnDeadlock (\<lambda>attempt.
     case confirm_fault f db attempt of
       Some (Fault st e) \<Rightarrow> Inl (if st = AtAccountLock then Opaque ''get account'' else e)
     | None \<Rightarrow> run_tx step grp c)"

definition cancelOne :: "faults \<Rightarrow> string list \<Rightarrow> sharded_entry \<Rightarrow> cluster \<Rightarrow> cluster" where
  "cancelOne f txIDs se c =
     (let b = txIDs ! se_idx se
      in case cancel_fault f b of
           Some err \<Rightarrow> c
         | None \<Rightarrow>
             (case tccCancel (shards c (shard_of se)) b (se_entry se) of
                Inl err \<Rightarrow> c
              | Inr s' \<Rightarrow> put_shard c (shard_of se) s'))"

definition cancelTried :: "faults \<Rightarrow> string list \<Rightarrow> sharded_entry list \<Rightarrow> cluster \<Rightarrow> cluster" where
  "cancelTried f txIDs tried c = fold (cancelOne f txIDs) tried c"

section \<open>Booking\<close>

text \<open>The groups' results, in key order, and the tables after them; a failed group changes nothing.\<close>

fun run_groups :: "(int \<Rightarrow> cluster \<Rightarrow> ledger_error + (cluster \<times> 'a)) \<Rightarrow> int list \<Rightarrow> cluster \<Rightarrow>
    (int \<times> (ledger_error + 'a)) list \<times> cluster" where
  "run_groups g [] c = ([], c)"
| "run_groups g (k # ks) c =
     (case g k c of
        Inl e \<Rightarrow> (let (rs, c') = run_groups g ks c in ((k, Inl e) # rs, c'))
      | Inr (c1, x) \<Rightarrow> (let (rs, c') = run_groups g ks c1 in ((k, Inr x) # rs, c')))"

definition group_error :: "(int \<times> (ledger_error + 'a)) list \<Rightarrow> sharded_entry \<Rightarrow> ledger_error option" where
  "group_error rs se = (case map_of rs (se_db se) of Some (Inl e) \<Rightarrow> Some e | _ \<Rightarrow> None)"

definition first_error :: "(int \<times> (ledger_error + 'a)) list \<Rightarrow> sharded_entry list \<Rightarrow> ledger_error option" where
  "first_error rs ses = (case List.find (\<lambda>se. group_error rs se \<noteq> None) ses of
     Some se \<Rightarrow> group_error rs se | None \<Rightarrow> None)"

definition all_deltas :: "(int \<times> (ledger_error + (nat \<times> int) list)) list \<Rightarrow> (nat \<times> int) list" where
  "all_deltas rs = concat (map (\<lambda>(k, r). case r of Inl _ \<Rightarrow> [] | Inr ds \<Rightarrow> ds) rs)"

record booking_config =
  buffer_accounts :: buffer_config
  coordinator_enabled :: bool

definition tccBooking :: "booking_config \<Rightarrow> faults \<Rightarrow> int \<Rightarrow> string \<Rightarrow> DoubleEntryBookingRequest \<Rightarrow>
    string \<Rightarrow> string \<Rightarrow> string list \<Rightarrow> cluster \<Rightarrow> (ledger_error + (string \<times> string list)) \<times> cluster" where
  "tccBooking cfg f now today req v cutDate txIDs c0 =
     (let ses = shardEntries (Entries req);
          keys = dbGroupKeys ses;
          coord = (coordinator_enabled cfg \<and> length keys \<noteq> 1);
          c1 = (if coord \<and> create_fault f = None
                then coordCreate now today c0 v (BusinessNo req) cutDate (Currency req) (length (Entries req))
                else c0);
          (tried_rs, c2) = run_groups (\<lambda>db. tryGroup f v txIDs db (dbGroup ses db)) keys c1
      in case first_error tried_rs ses of
           Some err \<Rightarrow>
             (let c3 = (if coord \<and> cancelled_fault f = None
                        then (case TransitionToCancelled now c2 v of Inl _ \<Rightarrow> c2 | Inr c \<Rightarrow> c) else c2)
              in (Inl err, cancelTried f txIDs (filter (\<lambda>se. group_error tried_rs se = None) ses) c3))
         | None \<Rightarrow>
             (case (if coord then (case confirming_fault f of
                                     Some e \<Rightarrow> Inl e
                                   | None \<Rightarrow> TransitionToConfirming now c2 v)
                    else Inr c2) of
                Inl e \<Rightarrow> (Inl e, c2)
              | Inr c3 \<Rightarrow>
                  (let step = confirmEntry (buffer_accounts cfg) now req v cutDate today txIDs (all_deltas tried_rs);
                       (conf_rs, c4) = run_groups (\<lambda>db c. map_sum id (\<lambda>c. (c, ()))
                                          (confirmGroup f step db (dbGroup ses db) c)) keys c3
                   in case first_error conf_rs ses of
                        Some err \<Rightarrow> (Inl err, c4)
                      | None \<Rightarrow>
                          (Inr (v, txIDs),
                           if coord \<and> confirmed_fault f = None
                           then (case TransitionToConfirmed now c4 v of Inl _ \<Rightarrow> c4 | Inr c \<Rightarrow> c)
                           else c4))))"

end
