(* ===== verification/TccInvariant.thy ===== *)
theory TccInvariant
  imports Tcc
begin

text \<open>
  What a distributed booking keeps and what it changes: contracts of the transaction combinators
  (locales \<open>tx_steps\<close>, \<open>tx_ledger\<close>), their interpretations on Try, Confirm and Cancel, and the
  invariant and accounting equation of \<open>tccBooking\<close> under any faults.
\<close>

section \<open>Contracts of a transaction's steps\<close>

locale tx_steps =
  fixes step :: "'x \<Rightarrow> 's \<Rightarrow> ledger_error + 's"
    and ok :: "'x \<Rightarrow> bool"
    and inv :: "'s \<Rightarrow> bool"
  assumes step_inv: "ok x \<Longrightarrow> inv s \<Longrightarrow> step x s = Inr s' \<Longrightarrow> inv s'"
begin

lemma run_inv: "list_all ok xs \<Longrightarrow> inv s \<Longrightarrow> run_tx step xs s = Inr s' \<Longrightarrow> inv s'"
  by (induction xs arbitrary: s) (auto split: sum.splits dest: step_inv)

end

locale tx_ledger = tx_steps +
  fixes m :: "'s \<Rightarrow> int" and w :: "'x \<Rightarrow> int"
  assumes step_amount: "ok x \<Longrightarrow> inv s \<Longrightarrow> step x s = Inr s' \<Longrightarrow> m s' = m s + w x"
begin

lemma run_amount:
  "list_all ok xs \<Longrightarrow> inv s \<Longrightarrow> run_tx step xs s = Inr s' \<Longrightarrow> m s' = m s + sum_list (map w xs)"
proof (induction xs arbitrary: s)
  case Nil
  then show ?case by simp
next
  case (Cons x xs)
  from Cons.prems obtain s1 where s1: "step x s = Inr s1" "run_tx step xs s1 = Inr s'"
    by (auto split: sum.splits)
  with Cons.prems Cons.IH [of s1] step_amount [of x s s1] step_inv [of x s s1] show ?case by simp
qed

end

lemma retry_loop_Inr: "retry_loop fn a left e = Inr x \<Longrightarrow> \<exists>k. a \<le> k \<and> k < a + left \<and> fn k = Inr x"
proof (induction left arbitrary: a e)
  case 0
  then show ?case by simp
next
  case (Suc left)
  show ?case
  proof (cases "fn a")
    case (Inl e')
    with Suc.prems have "retry_loop fn (Suc a) left e' = Inr x" by (simp split: if_splits)
    from Suc.IH [OF this] show ?thesis by (auto intro: Suc_leD)
  next
    case (Inr y)
    with Suc.prems show ?thesis by auto
  qed
qed

lemma retryOnDeadlock_Inr: "retryOnDeadlock fn = Inr x \<Longrightarrow> \<exists>k<deadlockMaxRetries. fn k = Inr x"
  unfolding retryOnDeadlock_def by (drule retry_loop_Inr) auto

section \<open>Where rows live\<close>

definition places :: "shard_id list" where
  "places = List.product [0..9] [0..99]"

lemma places_mem: "(d, t) \<in> set places \<longleftrightarrow> 0 \<le> d \<and> d \<le> 9 \<and> 0 \<le> t \<and> t \<le> 99"
  by (auto simp: places_def)

lemma distinct_places [simp]: "distinct places"
  by (simp add: places_def distinct_product)

lemma route_in_places: "RouteByAccountNo NewRouter n \<in> set places"
proof (cases "parse_int n")
  case None
  then show ?thesis by (simp add: RouteByAccountNo_def places_mem)
next
  case (Some i)
  show ?thesis
  proof (cases "i \<le> 0 \<or> AccountIDTableIndex i < 0 \<or> AccountIDTableIndex i \<ge> 100")
    case True
    with Some show ?thesis by (auto simp: RouteByAccountNo_def places_mem NewRouter_def Let_def)
  next
    case False
    then have t: "0 \<le> AccountIDTableIndex i" "AccountIDTableIndex i < 100" by simp_all
    then have "0 \<le> AccountIDDBIndex i \<and> AccountIDDBIndex i \<le> 9"
      by (auto simp: AccountIDDBIndex_def AccountIDTableIndex_def Let_def sdiv_nonneg)
    with False Some t show ?thesis
      by (auto simp: RouteByAccountNo_def places_mem NewRouter_def Let_def)
  qed
qed

text \<open>A quantity of the shards, summed over all places.\<close>

definition csum :: "(shard \<Rightarrow> int) \<Rightarrow> cluster \<Rightarrow> int" where
  "csum m c = (\<Sum>sid\<leftarrow>places. m (shards c sid))"

lemma sum_list_fun_upd:
  "distinct xs \<Longrightarrow> x \<in> set xs \<Longrightarrow>
   (\<Sum>y\<leftarrow>xs. m ((f(x := v)) y)) = (\<Sum>y\<leftarrow>xs. m (f y)) + m v - (m (f x) :: int)"
proof (induction xs)
  case Nil
  then show ?case by simp
next
  case (Cons y ys)
  show ?case
  proof (cases "y = x")
    case True
    with Cons.prems have "(\<Sum>z\<leftarrow>ys. m ((f(x := v)) z)) = (\<Sum>z\<leftarrow>ys. m (f z))"
      by (intro arg_cong [of _ _ sum_list] map_cong) auto
    with True show ?thesis by simp
  next
    case False
    with Cons show ?thesis by simp
  qed
qed

lemma csum_put: "sid \<in> set places \<Longrightarrow> csum m (put_shard c sid s) = csum m c + m s - m (shards c sid)"
  using sum_list_fun_upd [OF distinct_places, of sid m "shards c" s] by (simp add: csum_def put_shard_def)

lemma shards_put [simp]: "shards (put_shard c sid s) = (shards c)(sid := s)"
  and coordinators_put [simp]: "coordinators (put_shard c sid s) = coordinators c"
  by (simp_all add: put_shard_def)

section \<open>What identifies rows across a booking\<close>

definition account_side :: "shard \<Rightarrow> string \<Rightarrow> bool option" where
  "account_side s n = map_option isAssetOrExpense (GetAccountForUpdate s n)"

definition branch_view :: "shard \<Rightarrow> string \<Rightarrow> (string \<times> int) option" where
  "branch_view s b = map_option (\<lambda>t. (branch_account t, balance_delta t)) (GetBranch s b)"

lemma find_map_key: "(\<And>x. P (f x) = P x) \<Longrightarrow> List.find P (map f xs) = map_option f (List.find P xs)"
  by (induction xs) auto

lemma GetAccount_moved:
  "GetAccountForUpdate (s\<lparr>accounts := map (moved n db dv) (accounts s)\<rparr>) k =
   map_option (moved n db dv) (GetAccountForUpdate s k)"
  by (simp add: GetAccountForUpdate_def select_one_def find_map_key)

lemma account_side_moved [simp]:
  "account_side (s\<lparr>accounts := map (moved n db dv) (accounts s)\<rparr>) k = account_side s k"
proof -
  have "isAssetOrExpense \<circ> moved n db dv = isAssetOrExpense"
    by (simp add: fun_eq_iff isAssetOrExpense_def)
  then show ?thesis unfolding account_side_def GetAccount_moved by (simp add: option.map_comp)
qed

lemma account_side_cong [simp]:
  "account_side (s\<lparr>branches := bs\<rparr>) k = account_side s k"
  "account_side (s\<lparr>journal := js\<rparr>) k = account_side s k"
  "account_side (s\<lparr>buffers := us\<rparr>) k = account_side s k"
  by (simp_all add: account_side_def GetAccountForUpdate_def)

lemma branch_view_set_status:
  "branch_view (s\<lparr>branches := map (set_status b st) (branches s)\<rparr>) k = branch_view s k"
  unfolding branch_view_def GetBranch_def select_one_def
  by (simp add: find_map_key option.map_comp comp_def)

lemma branch_view_cong [simp]:
  "branch_view (s\<lparr>accounts := as\<rparr>) k = branch_view s k"
  "branch_view (s\<lparr>journal := js\<rparr>) k = branch_view s k"
  "branch_view (s\<lparr>buffers := us\<rparr>) k = branch_view s k"
  by (simp_all add: branch_view_def GetBranch_def)

lemma find_append: "List.find P (xs @ ys) = (case List.find P xs of Some x \<Rightarrow> Some x | None \<Rightarrow> List.find P ys)"
  by (induction xs) auto

lemma account_side_try_new [simp]: "account_side (try_new s v b e a) k = account_side s k"
proof -
  have "try_new s v b e a = (let h = hold a (computeBalanceDelta e (isAssetOrExpense a))
     in (if h > 0 then s\<lparr>accounts := map (moved (AccountNo e) 0 (- h)) (accounts s)\<rparr> else s)
        \<lparr>branches := branches s @ [new_branch v b e a]\<rparr>)"
    by (simp add: try_new_def Let_def)
  then show ?thesis by (simp add: Let_def)
qed

lemma branch_view_try_new:
  "GetBranch s b = None \<Longrightarrow> branch_view (try_new s v b e a) k =
   (if k = b then Some (AccountNo e, computeBalanceDelta e (isAssetOrExpense a)) else branch_view s k)"
  by (auto simp: branch_view_def GetBranch_def select_one_def try_new_def Let_def find_append new_branch_def
      split: option.splits)

lemma account_side_confirm_new [simp]: "account_side (confirm_new cfg s b e a p d bufs) k = account_side s k"
proof -
  have "confirm_new cfg s b e a p d bufs =
     (if useBuffer cfg a then s else s\<lparr>accounts := map (moved (AccountNo e) d (max d 0)) (accounts s)\<rparr>)
     \<lparr>branches := map (set_status b TccStatusConfirmed) (branches s),
      journal := journal s @ [journalRow cfg e a p d], buffers := bufs\<rparr>"
    by (simp add: confirm_new_def book_accounts_def)
  then show ?thesis by simp
qed

lemma branch_view_confirm_new [simp]: "branch_view (confirm_new cfg s b e a p d bufs) k = branch_view s k"
proof -
  have "branch_view (confirm_new cfg s b e a p d bufs) k =
        branch_view (s\<lparr>branches := map (set_status b TccStatusConfirmed) (branches s)\<rparr>) k"
    by (simp add: confirm_new_def branch_view_def GetBranch_def)
  then show ?thesis by (simp only: branch_view_set_status)
qed

lemma account_side_cancel_new [simp]: "account_side (cancel_new s b e f) k = account_side s k"
proof -
  have "cancel_new s b e f =
     (if f > 0 then s\<lparr>accounts := map (moved (AccountNo e) 0 f) (accounts s)\<rparr> else s)
     \<lparr>branches := map (set_status b TccStatusCancelled) (branches s)\<rparr>"
    by (simp add: cancel_new_def)
  then show ?thesis by simp
qed

lemma branch_view_cancel_new [simp]: "branch_view (cancel_new s b e f) k = branch_view s k"
proof -
  have "branch_view (cancel_new s b e f) k =
        branch_view (s\<lparr>branches := map (set_status b TccStatusCancelled) (branches s)\<rparr>) k"
    by (simp add: cancel_new_def branch_view_def GetBranch_def)
  then show ?thesis by (simp only: branch_view_set_status)
qed


section \<open>The accounting equation and the journal\<close>

definition pending :: "shard \<Rightarrow> string \<Rightarrow> int" where
  "pending s n = sum_where (\<lambda>b. buf_account b = n) pending_delta (buffers s)"

definition side :: "Account \<Rightarrow> int" where
  "side a = (if isAssetOrExpense a then 1 else - 1)"

text \<open>Assets and expenses minus liabilities, equity and revenue, buffered deltas included.\<close>

definition equation :: "shard \<Rightarrow> int" where
  "equation s = (\<Sum>a\<leftarrow>accounts s. side a * (balance a + pending s (acc_no a)))"

definition voucher_sum :: "(AccountTransaction \<Rightarrow> int) \<Rightarrow> string \<Rightarrow> shard \<Rightarrow> int" where
  "voucher_sum g v s = sum_where (\<lambda>r. parent_transaction r = v) g (journal s)"

lemma side_moved [simp]: "side (moved n db dv a) = side a"
  by (simp add: side_def isAssetOrExpense_def)

lemma sum_list_moved_key:
  assumes "distinct (map acc_no as)" "a \<in> set as" "acc_no a = n"
    and "\<And>x. x \<in> set as \<Longrightarrow> acc_no x \<noteq> n \<Longrightarrow> g x = (f x :: int)"
  shows "(\<Sum>x\<leftarrow>as. g x) = (\<Sum>x\<leftarrow>as. f x) + g a - f a"
  using assms
proof (induction as)
  case Nil
  then show ?case by simp
next
  case (Cons x as)
  show ?case
  proof (cases "x = a")
    case True
    with Cons.prems have "\<And>y. y \<in> set as \<Longrightarrow> acc_no y \<noteq> n" by (auto simp: image_iff)
    with Cons.prems have "(\<Sum>y\<leftarrow>as. g y) = (\<Sum>y\<leftarrow>as. f y)"
      by (intro arg_cong [of _ _ sum_list] map_cong) auto
    with True show ?thesis by simp
  next
    case False
    with Cons.prems have "a \<in> set as" "acc_no x \<noteq> n" by (auto simp: image_iff)
    with Cons show ?thesis by simp
  qed
qed

lemma pending_upsert:
  assumes "upsertRows (buffers s) n d f = Some bufs" "distinct (map buf_account (buffers s))"
  shows "pending (s\<lparr>buffers := bufs\<rparr>) k = pending s k + (if k = n then d else 0)"
proof (cases "select_one (\<lambda>b. buf_account b = n) (buffers s)")
  case None
  with assms(1) show ?thesis by (auto simp: upsertRows_def pending_def)
next
  case (Some b)
  then have b: "b \<in> set (buffers s)" "buf_account b = n" by (auto dest: select_one_Some)
  from Some assms(1) have bufs: "bufs = update_where (\<lambda>b. buf_account b = n)
      (\<lambda>x. x\<lparr>pending_delta := pending_delta b + d, pending_count := pending_count x + 1\<rparr>) (buffers s)"
    by (auto simp: upsertRows_def sql_add_def split: if_splits)
  show ?thesis
    using sum_where_key_update [OF assms(2) b, of "\<lambda>b. buf_account b = k" pending_delta
        "\<lambda>x. x\<lparr>pending_delta := pending_delta b + d, pending_count := pending_count x + 1\<rparr>"] b
    by (auto simp: pending_def bufs)
qed

lemma pending_cong [simp]:
  "pending (s\<lparr>accounts := as\<rparr>) n = pending s n" "pending (s\<lparr>branches := bs\<rparr>) n = pending s n"
  "pending (s\<lparr>journal := js\<rparr>) n = pending s n"
  by (simp_all add: pending_def)

lemma equation_confirm_new:
  assumes u: "keys_unique s" and a: "a \<in> set (accounts s)" "acc_no a = AccountNo e"
    and bufs: "if useBuffer cfg a then \<exists>f. upsertRows (buffers s) (AccountNo e) d f = Some bufs
               else bufs = buffers s"
  shows "equation (confirm_new cfg s b e a p d bufs) = equation s + side a * d"
proof -
  have da: "distinct (map acc_no (accounts s))" and db: "distinct (map buf_account (buffers s))"
    using u by (simp_all add: keys_unique_def)
  let ?f = "\<lambda>x. side x * (balance x + pending s (acc_no x))"
  show ?thesis
  proof (cases "useBuffer cfg a")
    case True
    with bufs obtain f where up: "upsertRows (buffers s) (AccountNo e) d f = Some bufs" by auto
    have "pending (confirm_new cfg s b e a p d bufs) k = pending s k + (if k = AccountNo e then d else 0)" for k
      using pending_upsert [OF up db, of k] by (simp add: confirm_new_def pending_def)
    with True have "equation (confirm_new cfg s b e a p d bufs) =
        (\<Sum>x\<leftarrow>accounts s. side x * (balance x + (pending s (acc_no x) + (if acc_no x = AccountNo e then d else 0))))"
      by (simp add: equation_def confirm_new_def book_accounts_def)
    also have "\<dots> = equation s + side a * d"
      using sum_list_moved_key [OF da a, of "\<lambda>x. side x * (balance x + (pending s (acc_no x) +
          (if acc_no x = AccountNo e then d else 0)))" ?f] a
      by (simp add: equation_def algebra_simps)
    finally show ?thesis .
  next
    case False
    with bufs have same: "pending (confirm_new cfg s b e a p d bufs) k = pending s k" for k
      by (simp add: confirm_new_def pending_def)
    with False have "equation (confirm_new cfg s b e a p d bufs) =
        (\<Sum>x\<leftarrow>accounts s. ?f (moved (AccountNo e) d (max d 0) x))"
      by (simp add: equation_def confirm_new_def book_accounts_def comp_def)
    also have "\<dots> = equation s + side a * d"
      using sum_list_moved_key [OF da a, of "\<lambda>x. ?f (moved (AccountNo e) d (max d 0) x)" ?f] a
      by (simp add: equation_def moved_def side_def isAssetOrExpense_def algebra_simps)
    finally show ?thesis .
  qed
qed

lemma equation_accounts:
  assumes "\<And>x. side (h x) * (balance (h x) + pending s (acc_no (h x))) =
                side x * (balance x + pending s (acc_no x))"
  shows "equation (s\<lparr>accounts := map h (accounts s), branches := bs\<rparr>) = equation s"
  using assms by (simp add: equation_def comp_def)

lemma equation_try_new [simp]: "equation (try_new s v b e a) = equation s"
  and equation_cancel_new [simp]: "equation (cancel_new s b e f) = equation s"
proof -
  have m: "side (moved n 0 dv x) * (balance (moved n 0 dv x) + pending s (acc_no (moved n 0 dv x))) =
      side x * (balance x + pending s (acc_no x))" for n dv x
    by (simp add: moved_def side_def isAssetOrExpense_def)
  have i: "equation (s\<lparr>branches := bs\<rparr>) = equation s" for bs by (simp add: equation_def)
  show "equation (try_new s v b e a) = equation s"
    using equation_accounts [OF m] i by (auto simp: try_new_def Let_def)
  show "equation (cancel_new s b e f) = equation s"
    using equation_accounts [OF m] i by (auto simp: cancel_new_def)
qed

lemma voucher_sum_simps [simp]:
  "voucher_sum g v (try_new s v' b e a) = voucher_sum g v s"
  "voucher_sum g v (cancel_new s b e f) = voucher_sum g v s"
  by (simp_all add: voucher_sum_def try_new_def cancel_new_def Let_def)

lemma voucher_sum_confirm_new [simp]:
  "voucher_sum g v (confirm_new cfg s b e a p d bufs) =
   voucher_sum g v s + (if bp_voucherNo p = v then g (journalRow cfg e a p d) else 0)"
  by (simp add: voucher_sum_def confirm_new_def journalRow_def)


text \<open>What a posting changes and a hold does not: journal, buffers and balances.\<close>

definition books :: "shard \<Rightarrow> AccountTransaction list \<times> AccountBalanceBuffer list \<times> (string \<times> int) list" where
  "books s = (journal s, buffers s, map (\<lambda>a. (acc_no a, balance a)) (accounts s))"

lemma balances_moved: "(\<lambda>a. (acc_no a, balance a)) \<circ> moved n 0 dv = (\<lambda>a. (acc_no a, balance a))"
  by (auto simp: fun_eq_iff moved_def)

lemma books_simps [simp]:
  "books (try_new s v b e a) = books s" "books (cancel_new s b e f) = books s"
  by (simp_all add: books_def try_new_def cancel_new_def Let_def balances_moved)

definition same_books :: "cluster \<Rightarrow> cluster \<Rightarrow> bool" where
  "same_books c c' \<longleftrightarrow> (\<forall>sid. books (shards c' sid) = books (shards c sid))"

lemma same_books_refl [simp]: "same_books c c"
  by (simp add: same_books_def)

lemma same_books_trans: "same_books a b \<Longrightarrow> same_books b c \<Longrightarrow> same_books a c"
  by (simp add: same_books_def)

lemma same_books_put: "books s = books (shards c sid) \<Longrightarrow> same_books c (put_shard c sid s)"
  by (simp add: same_books_def)

lemma same_books_shards: "shards c' = shards c \<Longrightarrow> same_books c c'"
  by (simp add: same_books_def)

end
