(* ===== verification/TccBooking.thy ===== *)
theory TccBooking
  imports TccInvariant "HOL-Library.Multiset"
begin

text \<open>
  The booking itself: what one run of \<open>tccBooking\<close> keeps and changes on the whole cluster, for a
  validated request and any faults. The step contracts of \<open>TccInvariant\<close> are interpreted on Try and
  Confirm; the properties are read off them.
\<close>

section \<open>What holds throughout a booking\<close>

text \<open>
  \<open>sides\<close> is the side of each entry's account before the booking. A branch row that carries one of
  the booking's ids belongs to the entry with that id: the row is new, or a rerun of the same request.
\<close>

definition booking_inv :: "buffer_config \<Rightarrow> sharded_entry list \<Rightarrow> string list \<Rightarrow>
    (sharded_entry \<Rightarrow> bool option) \<Rightarrow> cluster \<Rightarrow> bool" where
  "booking_inv cfg ses txIDs sides c \<longleftrightarrow>
     (\<forall>sid. ledger_inv cfg (shards c sid)) \<and>
     (\<forall>se\<in>set ses. entry_ok (se_entry se) \<and> shard_of se \<in> set places) \<and>
     inj_on (\<lambda>se. txIDs ! se_idx se) (set ses) \<and>
     (\<forall>se\<in>set ses. account_side (shards c (shard_of se)) (AccountNo (se_entry se)) = sides se) \<and>
     (\<forall>se\<in>set ses. \<forall>n d. branch_view (shards c (shard_of se)) (txIDs ! se_idx se) = Some (n, d) \<longrightarrow>
        n = AccountNo (se_entry se) \<and> (\<forall>x. sides se = Some x \<longrightarrow> d = computeBalanceDelta (se_entry se) x))"

lemma booking_invD:
  assumes "booking_inv cfg ses txIDs sides c"
  shows "ledger_inv cfg (shards c sid)" "keys_unique (shards c sid)"
    "se \<in> set ses \<Longrightarrow> entry_ok (se_entry se)"
    "se \<in> set ses \<Longrightarrow> shard_of se \<in> set places"
    "se \<in> set ses \<Longrightarrow> account_side (shards c (shard_of se)) (AccountNo (se_entry se)) = sides se"
proof -
  show l: "ledger_inv cfg (shards c sid)" using assms unfolding booking_inv_def by blast
  show "keys_unique (shards c sid)" using l by (simp add: ledger_inv_def)
qed (use assms in \<open>simp_all add: booking_inv_def\<close>)

text \<open>A shard whose account sides survive and whose branch rows change only at the entry's id.\<close>

lemma booking_inv_put:
  assumes inv: "booking_inv cfg ses txIDs sides c" and se: "se \<in> set ses"
    and l: "ledger_inv cfg s'"
    and side: "\<And>k. account_side s' k = account_side (shards c (shard_of se)) k"
    and view: "\<And>k. k \<noteq> txIDs ! se_idx se \<Longrightarrow> branch_view s' k = branch_view (shards c (shard_of se)) k"
    and own: "\<And>n d. branch_view s' (txIDs ! se_idx se) = Some (n, d) \<Longrightarrow>
       n = AccountNo (se_entry se) \<and> (\<forall>x. sides se = Some x \<longrightarrow> d = computeBalanceDelta (se_entry se) x)"
  shows "booking_inv cfg ses txIDs sides (put_shard c (shard_of se) s')"
proof -
  have other: "x = se \<or> txIDs ! se_idx x \<noteq> txIDs ! se_idx se" if "x \<in> set ses" for x
    using inv se that by (auto simp: booking_inv_def inj_on_def)
  have "\<forall>x\<in>set ses. \<forall>n d. branch_view (shards (put_shard c (shard_of se) s') (shard_of x)) (txIDs ! se_idx x)
          = Some (n, d) \<longrightarrow> n = AccountNo (se_entry x) \<and>
          (\<forall>y. sides x = Some y \<longrightarrow> d = computeBalanceDelta (se_entry x) y)"
  proof (intro ballI allI impI)
    fix x n d assume x: "x \<in> set ses"
      and v: "branch_view (shards (put_shard c (shard_of se) s') (shard_of x)) (txIDs ! se_idx x) = Some (n, d)"
    show "n = AccountNo (se_entry x) \<and> (\<forall>y. sides x = Some y \<longrightarrow> d = computeBalanceDelta (se_entry x) y)"
    proof (cases "x = se")
      case True
      with v own show ?thesis by simp
    next
      case False
      with other [OF x] have ne: "txIDs ! se_idx x \<noteq> txIDs ! se_idx se" by simp
      have "branch_view (shards c (shard_of x)) (txIDs ! se_idx x) = Some (n, d)"
        using v view [OF ne] by (simp split: if_splits)
      with inv x show ?thesis by (auto simp: booking_inv_def)
    qed
  qed
  then show ?thesis using inv l side by (auto simp: booking_inv_def)
qed

text \<open>The deltas Try hands to Confirm are those of the entries.\<close>

definition deltas_ok :: "sharded_entry list \<Rightarrow> (sharded_entry \<Rightarrow> bool option) \<Rightarrow> (nat \<times> int) list \<Rightarrow> bool" where
  "deltas_ok ses sides ds \<longleftrightarrow> (\<forall>se\<in>set ses. \<forall>d. (se_idx se, d) \<in> set ds \<longrightarrow>
     (\<exists>x. sides se = Some x \<and> d = computeBalanceDelta (se_entry se) x))"

lemma deltas_ok_Nil [simp]: "deltas_ok ses sides []"
  by (simp add: deltas_ok_def)

lemma deltas_ok_Cons:
  assumes "deltas_ok ses sides ds" "se \<in> set ses" "inj_on se_idx (set ses)" "sides se = Some x"
  shows "deltas_ok ses sides ((se_idx se, computeBalanceDelta (se_entry se) x) # ds)"
  unfolding deltas_ok_def
proof (intro ballI allI impI)
  fix y d assume y: "y \<in> set ses"
    and m: "(se_idx y, d) \<in> set ((se_idx se, computeBalanceDelta (se_entry se) x) # ds)"
  from m consider "se_idx y = se_idx se" "d = computeBalanceDelta (se_entry se) x" | "(se_idx y, d) \<in> set ds"
    by auto
  then show "\<exists>x. sides y = Some x \<and> d = computeBalanceDelta (se_entry y) x"
  proof cases
    case 1
    with inj_onD [OF assms(3), of y se] y assms(2,4) show ?thesis by simp
  next
    case 2
    with assms(1) y show ?thesis by (auto simp: deltas_ok_def)
  qed
qed

lemma tryEntry_keeps:
  assumes inv: "booking_inv cfg ses txIDs sides c" and se: "se \<in> set ses"
    and t: "tryEntry v txIDs se (c, ds) = Inr (c', ds')"
  shows "booking_inv cfg ses txIDs sides c' \<and> csum equation c' = csum equation c \<and>
         csum (voucher_sum g w) c' = csum (voucher_sum g w) c \<and>
         same_books c c' \<and> coordinators c' = coordinators c \<and>
         (\<exists>x. sides se = Some x \<and> ds' = (se_idx se, computeBalanceDelta (se_entry se) x) # ds)"
proof -
  let ?s = "shards c (shard_of se)" and ?e = "se_entry se" and ?b = "txIDs ! se_idx se"
  from t obtain a s' where a: "GetAccountForUpdate ?s (AccountNo ?e) = Some a"
    and t': "tccTry ?s v ?b ?e a = Inr s'"
    and c': "c' = put_shard c (shard_of se) s'"
    and ds': "ds' = (se_idx se, computeBalanceDelta ?e (isAssetOrExpense a)) # ds"
    by (auto simp: tryEntry_def Let_def split: option.splits sum.splits)
  note iv = booking_invD [OF inv]
  have sd: "sides se = Some (isAssetOrExpense a)"
    using iv(5) [OF se] a by (simp add: account_side_def)
  from tccTry_effect [OF iv(2) a iv(3) [OF se] t']
  have "s' = ?s \<or> GetBranch ?s ?b = None \<and> s' = try_new ?s v ?b ?e a" by auto
  then have "account_side s' k = account_side ?s k" "equation s' = equation ?s"
    "voucher_sum g w s' = voucher_sum g w ?s" "books s' = books ?s" for k by auto
  moreover from \<open>s' = ?s \<or> _\<close> have "k \<noteq> ?b \<Longrightarrow> branch_view s' k = branch_view ?s k" for k
    by (auto simp: branch_view_try_new)
  moreover have "branch_view s' ?b = Some (n, d) \<Longrightarrow>
      n = AccountNo ?e \<and> (\<forall>x. sides se = Some x \<longrightarrow> d = computeBalanceDelta ?e x)" for n d
    using \<open>s' = ?s \<or> _\<close>
  proof
    assume "branch_view s' ?b = Some (n, d)" "s' = ?s"
    with inv se show ?thesis by (auto simp: booking_inv_def)
  next
    assume "branch_view s' ?b = Some (n, d)" "GetBranch ?s ?b = None \<and> s' = try_new ?s v ?b ?e a"
    with sd show ?thesis by (auto simp: branch_view_try_new)
  qed
  moreover have "ledger_inv cfg s'" by (rule tccTry_inv [OF iv(1) a iv(3) [OF se] t'])
  ultimately show ?thesis
    using booking_inv_put [OF inv se] iv(4) [OF se] sd
    by (simp add: c' ds' csum_put same_books_put)
qed

interpretation try_tx: tx_steps "tryEntry v txIDs" "\<lambda>se. se \<in> set ses"
  "\<lambda>(c, ds). booking_inv cfg ses txIDs sides c \<and> deltas_ok ses sides ds \<and>
     csum equation c = q \<and> csum (voucher_sum g w) c = j \<and> inj_on se_idx (set ses) \<and>
     same_books c0 c \<and> coordinators c = coordinators c0"
  for v txIDs ses cfg sides q g w j c0
proof (unfold_locales, clarify)
  fix se c ds c' ds'
  assume "se \<in> set ses" "tryEntry v txIDs se (c, ds) = Inr (c', ds')"
    "booking_inv cfg ses txIDs sides c" "deltas_ok ses sides ds" "inj_on se_idx (set ses)"
    "same_books c0 c" "coordinators c = coordinators c0"
  with tryEntry_keeps [of cfg ses txIDs sides c se v ds c' ds' g w]
  show "booking_inv cfg ses txIDs sides c' \<and> deltas_ok ses sides ds' \<and>
        csum equation c' = csum equation c \<and> csum (voucher_sum g w) c' = csum (voucher_sum g w) c \<and>
        inj_on se_idx (set ses) \<and> same_books c0 c' \<and> coordinators c' = coordinators c0"
    by (auto intro: deltas_ok_Cons same_books_trans)
qed

lemma tryGroup_keeps:
  assumes "tryGroup f v txIDs db grp c = Inr (c', ds')" "list_all (\<lambda>se. se \<in> set ses) grp"
    and "booking_inv cfg ses txIDs sides c" "inj_on se_idx (set ses)"
  shows "booking_inv cfg ses txIDs sides c' \<and> deltas_ok ses sides ds' \<and>
         csum equation c' = csum equation c \<and> csum (voucher_sum g w) c' = csum (voucher_sum g w) c \<and>
         (\<forall>se\<in>set grp. se_idx se \<in> fst ` set ds') \<and> same_books c c' \<and> coordinators c' = coordinators c"
proof -
  from assms(1) obtain k where k: "run_tx (tryEntry v txIDs) grp (c, []) = Inr (c', ds')"
    unfolding tryGroup_def by (auto dest!: retryOnDeadlock_Inr split: option.splits fault.splits)
  have filled: "run_tx (tryEntry v txIDs) xs (c, ds) = Inr (c', ds') \<Longrightarrow>
      set ds \<subseteq> set ds' \<and> (\<forall>se\<in>set xs. se_idx se \<in> fst ` set ds')" for xs c ds
  proof (induction xs arbitrary: c ds)
    case Nil
    then show ?case by simp
  next
    case (Cons x xs)
    then obtain c1 ds1 where t: "tryEntry v txIDs x (c, ds) = Inr (c1, ds1)"
      and r: "run_tx (tryEntry v txIDs) xs (c1, ds1) = Inr (c', ds')"
      by (auto split: sum.splits)
    from t obtain d where "ds1 = (se_idx x, d) # ds"
      by (auto simp: tryEntry_def Let_def split: sum.splits option.splits)
    with Cons.IH [OF r] show ?case by force
  qed
  show ?thesis
    using try_tx.run_inv [OF assms(2) _ k, of cfg sides "csum equation c" g w "csum (voucher_sum g w) c" c]
      filled [OF k] assms(3,4)
    by auto
qed


section \<open>Confirm\<close>

lemma delta_of_ok:
  assumes "deltas_ok ses sides ds" "se \<in> set ses" "se_idx se \<in> fst ` set ds"
  shows "\<exists>x. sides se = Some x \<and> delta_of ds (se_idx se) = computeBalanceDelta (se_entry se) x"
proof -
  from assms(3) obtain d where "map_of ds (se_idx se) = Some d"
    by (cases "map_of ds (se_idx se)") (auto simp: map_of_eq_None_iff)
  with map_of_SomeD [OF this] assms(1,2) show ?thesis by (auto simp: delta_of_def deltas_ok_def)
qed

text \<open>What one entry adds to a voucher's journal.\<close>

definition posting :: "(AccountingEntry \<Rightarrow> int) \<Rightarrow> (AccountTransaction \<Rightarrow> int) \<Rightarrow> bool" where
  "posting h g \<longleftrightarrow> (\<forall>cfg e a p d. g (journalRow cfg e a p d) = h e)"

lemma posting_debit: "posting DebitAmount debit_amount"
  and posting_credit: "posting CreditAmount credit_amount"
  by (simp_all add: posting_def journalRow_def)

lemma confirmEntry_keeps:
  assumes inv: "booking_inv cfg ses txIDs sides c" and se: "se \<in> set ses"
    and ds: "deltas_ok ses sides ds" "se_idx se \<in> fst ` set ds" and g: "posting h g"
    and t: "confirmEntry cfg now req v cutDate today txIDs ds se c = Inr c'"
  shows "booking_inv cfg ses txIDs sides c' \<and> csum equation c' = csum equation c + signed_amount (se_entry se) \<and>
         csum (voucher_sum g v) c' = csum (voucher_sum g v) c + h (se_entry se)"
proof -
  let ?s = "shards c (shard_of se)" and ?e = "se_entry se" and ?b = "txIDs ! se_idx se"
  let ?d = "delta_of ds (se_idx se)" and ?p = "paramsOf req v cutDate today (txIDs ! se_idx se)"
  from t obtain a s' where a: "GetAccountForUpdate ?s (AccountNo ?e) = Some a"
    and t': "tccConfirm cfg now ?s ?b ?e a ?p (Some ?d) = Inr s'"
    and c': "c' = put_shard c (shard_of se) s'"
    by (auto simp: confirmEntry_def Let_def split: option.splits sum.splits)
  note iv = booking_invD [OF inv]
  note acc = GetAccount_Some [OF a]
  have sd: "sides se = Some (isAssetOrExpense a)"
    using iv(5) [OF se] a by (simp add: account_side_def)
  with delta_of_ok [OF ds(1) se ds(2)]
  have d: "?d = computeBalanceDelta ?e (isAssetOrExpense a)" by auto
  then have signed: "side a * ?d = signed_amount ?e"
    using computeBalanceDelta_exact(1) [OF iv(3) [OF se]] by (simp add: side_def)
  from tccConfirm_effect [OF iv(2) conjunct2 [OF acc] t'] obtain bufs where
    s': "s' = confirm_new cfg ?s ?b ?e a ?p ?d bufs" and
    bufs: "if useBuffer cfg a then \<exists>f. upsertRows (buffers ?s) (AccountNo ?e) ?d f = Some bufs
           else bufs = buffers ?s"
    by auto
  have own: "branch_view ?s ?b = Some (n, d) \<Longrightarrow>
      n = AccountNo ?e \<and> (\<forall>x. sides se = Some x \<longrightarrow> d = computeBalanceDelta ?e x)" for n d
    using inv se by (auto simp: booking_inv_def)
  have "ledger_inv cfg s'"
  proof (rule tccConfirm_inv [OF iv(1) a _ t'])
    fix t assume "GetBranch ?s ?b = Some t"
    then have "branch_view ?s ?b = Some (branch_account t, balance_delta t)" by (simp add: branch_view_def)
    with own sd d show "branch_account t = AccountNo ?e \<and> (\<forall>d. Some ?d = Some d \<longrightarrow> balance_delta t = d)"
      by auto
  qed
  then have "booking_inv cfg ses txIDs sides (put_shard c (shard_of se) s')"
    by (rule booking_inv_put [OF inv se]) (simp_all add: s' own)
  moreover have "equation s' = equation ?s + signed_amount ?e"
    using equation_confirm_new [OF iv(2) conjunct1 [OF acc] conjunct2 [OF acc] bufs] signed by (simp add: s')
  moreover have "voucher_sum g v s' = voucher_sum g v ?s + h ?e"
    using g by (simp add: s' paramsOf_def posting_def)
  ultimately show ?thesis using iv(4) [OF se] by (simp add: c' csum_put)
qed

interpretation confirm_tx: tx_ledger "confirmEntry cfg now req v cutDate today txIDs ds" "\<lambda>se. se \<in> set ses"
  "\<lambda>c. booking_inv cfg ses txIDs sides c \<and> deltas_ok ses sides ds \<and>
       (\<forall>se\<in>set ses. se_idx se \<in> fst ` set ds)"
  "csum equation" "\<lambda>se. signed_amount (se_entry se)"
  for cfg now req v cutDate today txIDs ds ses sides
  using confirmEntry_keeps [OF _ _ _ _ posting_debit] by unfold_locales blast+

interpretation post_tx: tx_ledger "confirmEntry cfg now req v cutDate today txIDs ds" "\<lambda>se. se \<in> set ses"
  "\<lambda>c. booking_inv cfg ses txIDs sides c \<and> deltas_ok ses sides ds \<and>
       (\<forall>se\<in>set ses. se_idx se \<in> fst ` set ds) \<and> posting h g"
  "csum (voucher_sum g v)" "\<lambda>se. h (se_entry se)"
  for cfg now req v cutDate today txIDs ds ses sides h g
  using confirmEntry_keeps by unfold_locales blast+

lemma confirmGroup_keeps:
  assumes "confirmGroup f (confirmEntry cfg now req v cutDate today txIDs ds) db grp c = Inr c'"
    and "list_all (\<lambda>se. se \<in> set ses) grp" "booking_inv cfg ses txIDs sides c" "deltas_ok ses sides ds"
    and "\<forall>se\<in>set ses. se_idx se \<in> fst ` set ds" "posting h g"
  shows "booking_inv cfg ses txIDs sides c' \<and>
         csum equation c' = csum equation c + (\<Sum>se\<leftarrow>grp. signed_amount (se_entry se)) \<and>
         csum (voucher_sum g v) c' = csum (voucher_sum g v) c + (\<Sum>se\<leftarrow>grp. h (se_entry se))"
proof -
  from assms(1) have "run_tx (confirmEntry cfg now req v cutDate today txIDs ds) grp c = Inr c'"
    unfolding confirmGroup_def by (auto dest!: retryOnDeadlock_Inr split: option.splits fault.splits)
  from confirm_tx.run_inv [OF assms(2) _ this] confirm_tx.run_amount [OF assms(2) _ this]
    post_tx.run_amount [OF assms(2) _ this] assms(3-6)
  show ?thesis by blast
qed


section \<open>Cancel\<close>

lemma cancelOne_keeps:
  assumes inv: "booking_inv cfg ses txIDs sides c" and se: "se \<in> set ses"
  shows "booking_inv cfg ses txIDs sides (cancelOne f txIDs se c) \<and>
         csum equation (cancelOne f txIDs se c) = csum equation c \<and>
         csum (voucher_sum g w) (cancelOne f txIDs se c) = csum (voucher_sum g w) c \<and>
         same_books c (cancelOne f txIDs se c) \<and>
         coordinators (cancelOne f txIDs se c) = coordinators c"
proof -
  let ?s = "shards c (shard_of se)" and ?e = "se_entry se" and ?b = "txIDs ! se_idx se"
  note iv = booking_invD [OF inv]
  have own: "branch_view ?s ?b = Some (n, d) \<Longrightarrow>
      n = AccountNo ?e \<and> (\<forall>x. sides se = Some x \<longrightarrow> d = computeBalanceDelta ?e x)" for n d
    using inv se by (auto simp: booking_inv_def)
  show ?thesis
  proof (cases "cancel_fault f ?b = None \<and> (\<exists>s'. tccCancel ?s ?b ?e = Inr s')")
    case False
    then have "cancelOne f txIDs se c = c"
      by (auto simp: cancelOne_def Let_def split: option.splits sum.splits)
    with inv show ?thesis by simp
  next
    case True
    then obtain s' where t: "tccCancel ?s ?b ?e = Inr s'" and nf: "cancel_fault f ?b = None" by auto
    then have c': "cancelOne f txIDs se c = put_shard c (shard_of se) s'"
      by (simp add: cancelOne_def Let_def)
    have "ledger_inv cfg s'"
      by (rule tccCancel_inv [OF iv(1) _ t]) (use own in \<open>auto simp: branch_view_def\<close>)
    moreover have "s' = ?s \<or> (\<exists>k. s' = cancel_new ?s ?b ?e k)"
      using tccCancel_effect [OF t] by auto
    then have "branch_view s' k = branch_view ?s k" "account_side s' k = account_side ?s k"
      "equation s' = equation ?s" "voucher_sum g w s' = voucher_sum g w ?s" "books s' = books ?s" for k
      by auto
    ultimately show ?thesis
      using booking_inv_put [OF inv se, of s'] own iv(4) [OF se] by (simp add: c' csum_put same_books_put)
  qed
qed

lemma cancelTried_keeps:
  assumes "booking_inv cfg ses txIDs sides c" "set tried \<subseteq> set ses"
  shows "booking_inv cfg ses txIDs sides (cancelTried f txIDs tried c) \<and>
         csum equation (cancelTried f txIDs tried c) = csum equation c \<and>
         csum (voucher_sum g w) (cancelTried f txIDs tried c) = csum (voucher_sum g w) c \<and>
         same_books c (cancelTried f txIDs tried c) \<and>
         coordinators (cancelTried f txIDs tried c) = coordinators c"
  using assms
proof (induction tried arbitrary: c)
  case Nil
  then show ?case by (simp add: cancelTried_def)
next
  case (Cons x xs)
  from Cons.prems(2) have "x \<in> set ses" by simp
  from cancelOne_keeps [OF Cons.prems(1) this, of f g w]
    Cons.IH [of "cancelOne f txIDs x c"] Cons.prems(2)
  show ?case by (auto simp: cancelTried_def intro: same_books_trans)
qed

section \<open>Groups\<close>

lemma run_groups_keeps:
  assumes step: "\<And>k c c' x. k \<in> set ks \<Longrightarrow> J c \<Longrightarrow> g k c = Inr (c', x) \<Longrightarrow>
      J c' \<and> Q k x \<and> m c' = (m c :: int) + w k"
    and "J c" "run_groups g ks c = (rs, c')"
  shows "J c' \<and> map fst rs = ks \<and> (\<forall>(k, r)\<in>set rs. \<forall>x. r = Inr x \<longrightarrow> Q k x) \<and>
         ((\<forall>(k, r)\<in>set rs. \<exists>x. r = Inr x) \<longrightarrow> m c' = m c + sum_list (map w ks))"
  using assms
proof (induction ks arbitrary: c rs)
  case Nil
  then show ?case by simp
next
  case (Cons k ks)
  note step = Cons.prems(1)
  have step': "\<And>i c c' x. i \<in> set ks \<Longrightarrow> J c \<Longrightarrow> g i c = Inr (c', x) \<Longrightarrow>
      J c' \<and> Q i x \<and> m c' = m c + w i" by (rule step) auto
  show ?case
  proof (cases "g k c")
    case (Inl e)
    then obtain rs' where r: "run_groups g ks c = (rs', c')" "rs = (k, Inl e) # rs'"
      using Cons.prems(3) by (auto split: prod.splits)
    have IH: "J c' \<and> map fst rs' = ks \<and> (\<forall>(k, r)\<in>set rs'. \<forall>x. r = Inr x \<longrightarrow> Q k x) \<and>
         ((\<forall>(k, r)\<in>set rs'. \<exists>x. r = Inr x) \<longrightarrow> m c' = m c + sum_list (map w ks))"
      by (rule Cons.IH [OF step' Cons.prems(2) r(1)]) assumption+
    then show ?thesis by (simp add: r(2))
  next
    case (Inr p)
    then obtain c1 x rs' where p: "g k c = Inr (c1, x)"
      and r: "run_groups g ks c1 = (rs', c')" "rs = (k, Inr x) # rs'"
      using Cons.prems(3) by (cases p) (auto split: prod.splits)
    from step [OF _ Cons.prems(2) p] have s1: "J c1" "Q k x" "m c1 = m c + w k" by simp_all
    have IH: "J c' \<and> map fst rs' = ks \<and> (\<forall>(k, r)\<in>set rs'. \<forall>x. r = Inr x \<longrightarrow> Q k x) \<and>
         ((\<forall>(k, r)\<in>set rs'. \<exists>x. r = Inr x) \<longrightarrow> m c' = m c1 + sum_list (map w ks))"
      by (rule Cons.IH [OF step' s1(1) r(1)]) assumption+
    then show ?thesis using s1 by (simp add: r(2))
  qed
qed

lemma first_error_None:
  assumes "first_error rs ses = None" "map fst rs = dbGroupKeys ses"
  shows "\<forall>(k, r)\<in>set rs. \<exists>x. r = Inr x"
proof clarify
  fix k r assume kr: "(k, r) \<in> set rs"
  have "distinct (map fst rs)" using assms(2) by (simp add: dbGroupKeys_def)
  then have m: "map_of rs k = Some r" using kr by simp
  have "k \<in> set (dbGroupKeys ses)" using kr assms(2) by (metis fst_conv image_eqI list.set_map)
  then obtain se where se: "se \<in> set ses" "se_db se = k" by (auto simp: dbGroupKeys_def)
  have "group_error rs se = None"
  proof (rule ccontr)
    assume "group_error rs se \<noteq> None"
    with se(1) obtain y where "List.find (\<lambda>se. group_error rs se \<noteq> None) ses = Some y" "group_error rs y \<noteq> None"
      by (metis (mono_tags, lifting) find_None_iff find_Some_iff nth_mem option.exhaust)
    with assms(1) show False by (simp add: first_error_def)
  qed
  with se m show "\<exists>x. r = Inr x" by (cases r) (auto simp: group_error_def)
qed

lemma set_dbGroup: "set (dbGroup ses k) = {se \<in> set ses. se_db se = k}"
  by (auto simp: dbGroup_def)

lemma dbGroup_in: "list_all (\<lambda>se. se \<in> set ses) (dbGroup ses k)"
  by (simp add: list_all_iff set_dbGroup)

lemma sum_filter_keys:
  "distinct ks \<Longrightarrow> set (map se_db ses) \<subseteq> set ks \<Longrightarrow>
   (\<Sum>k\<leftarrow>ks. \<Sum>se\<leftarrow>filter (\<lambda>se. se_db se = k) ses. h se) = (\<Sum>se\<leftarrow>ses. (h se :: int))"
proof (induction ses)
  case Nil
  then show ?case by simp
next
  case (Cons x ses)
  have "(\<Sum>k\<leftarrow>ks. \<Sum>se\<leftarrow>filter (\<lambda>se. se_db se = k) (x # ses). h se) =
        (\<Sum>k\<leftarrow>ks. (if k = se_db x then h x else 0) + (\<Sum>se\<leftarrow>filter (\<lambda>se. se_db se = k) ses. h se))"
    by (intro arg_cong [of _ _ sum_list] map_cong) auto
  also have "\<dots> = (\<Sum>k\<leftarrow>ks. if k = se_db x then h x else 0) +
        (\<Sum>k\<leftarrow>ks. \<Sum>se\<leftarrow>filter (\<lambda>se. se_db se = k) ses. h se)"
    by (simp add: sum_list_addf)
  also have "(\<Sum>k\<leftarrow>ks. if k = se_db x then h x else 0) = h x"
  proof -
    have "distinct ks \<Longrightarrow> se_db x \<in> set ks \<Longrightarrow> (\<Sum>k\<leftarrow>ks. if k = se_db x then h x else 0) = h x"
      "se_db x \<notin> set ks \<Longrightarrow> (\<Sum>k\<leftarrow>ks. if k = se_db x then h x else 0) = 0"
      by (induction ks) auto
    with Cons.prems show ?thesis by auto
  qed
  finally show ?case using Cons by simp
qed

lemma sum_groups:
  "(\<Sum>k\<leftarrow>dbGroupKeys ses. \<Sum>se\<leftarrow>dbGroup ses k. h se) = (\<Sum>se\<leftarrow>ses. (h se :: int))"
proof -
  have "(\<Sum>se\<leftarrow>dbGroup ses k. h se) = (\<Sum>se\<leftarrow>filter (\<lambda>se. se_db se = k) ses. h se)" for k
    by (simp add: dbGroup_def flip: sum_mset_sum_list)
  then show ?thesis
    using sum_filter_keys [of "dbGroupKeys ses" ses h] by (simp add: dbGroupKeys_def)
qed


section \<open>A whole booking\<close>

lemma booking_inv_shards: "shards c' = shards c \<Longrightarrow> booking_inv cfg ses txIDs sides c' = booking_inv cfg ses txIDs sides c"
  by (simp add: booking_inv_def)

lemma csum_shards: "shards c' = shards c \<Longrightarrow> csum m c' = csum m c"
  by (simp add: csum_def)

lemma coord_shards [simp]:
  "shards (coordCreate now today c v b cd cur n) = shards c"
  "TransitionToConfirming now c v = Inr c' \<Longrightarrow> shards c' = shards c"
  "TransitionToConfirmed now c v = Inr c' \<Longrightarrow> shards c' = shards c"
  "TransitionToCancelled now c v = Inr c' \<Longrightarrow> shards c' = shards c"
  by (auto simp: coordCreate_def TransitionToConfirming_def TransitionToConfirmed_def
      TransitionToCancelled_def coordUpdate_def Let_def split: if_splits)

lemma map_entry_shardEntries [simp]: "map se_entry (shardEntries es) = es"
proof -
  have "se_entry \<circ> (\<lambda>(i, e). let (d, t) = RouteByAccountNo NewRouter (AccountNo e)
       in \<lparr>se_idx = i, se_entry = e, se_db = d, se_tbl = t\<rparr>) = snd"
    by (auto simp: fun_eq_iff split: prod.splits)
  then show ?thesis by (simp add: shardEntries_def)
qed

lemma map_idx_shardEntries [simp]: "map se_idx (shardEntries es) = [0..<length es]"
proof -
  have "se_idx \<circ> (\<lambda>(i, e). let (d, t) = RouteByAccountNo NewRouter (AccountNo e)
       in \<lparr>se_idx = i, se_entry = e, se_db = d, se_tbl = t\<rparr>) = fst"
    by (auto simp: fun_eq_iff split: prod.splits)
  then show ?thesis by (simp add: shardEntries_def)
qed

lemma in_shardEntries:
  assumes "se \<in> set (shardEntries es)"
  shows "se_idx se < length es \<and> se_entry se = es ! se_idx se \<and>
         shard_of se = RouteByAccountNo NewRouter (AccountNo (se_entry se))"
  using assms by (auto simp: shardEntries_def in_set_enumerate_eq shard_of_def split: prod.splits)

lemma inj_shardEntries: "inj_on se_idx (set (shardEntries es))"
proof -
  have "distinct (map se_idx (shardEntries es))" by simp
  then show ?thesis by (simp only: distinct_map)
qed

text \<open>
  Any branch row that carries one of the request's ids is of the entry with that id: the ids are
  fresh, or an earlier run of the same request wrote it.
\<close>

definition ids_owned :: "cluster \<Rightarrow> AccountingEntry list \<Rightarrow> string list \<Rightarrow> bool" where
  "ids_owned c es txIDs \<longleftrightarrow> (\<forall>se\<in>set (shardEntries es).
     case branch_view (shards c (shard_of se)) (txIDs ! se_idx se) of
       None \<Rightarrow> True
     | Some (n, d) \<Rightarrow> n = AccountNo (se_entry se) \<and>
         (case account_side (shards c (shard_of se)) (AccountNo (se_entry se)) of
            None \<Rightarrow> True | Some x \<Rightarrow> d = computeBalanceDelta (se_entry se) x))"

definition ledger_sound :: "buffer_config \<Rightarrow> cluster \<Rightarrow> bool" where
  "ledger_sound cfg c \<longleftrightarrow> (\<forall>sid. ledger_inv cfg (shards c sid))"

lemma booking_inv_start:
  assumes "validateEntries es = None" "ledger_sound cfg c" "length txIDs = length es" "distinct txIDs"
    and "ids_owned c es txIDs"
  shows "booking_inv cfg (shardEntries es) txIDs
           (\<lambda>se. account_side (shards c (shard_of se)) (AccountNo (se_entry se))) c"
proof -
  have "entry_ok (se_entry se) \<and> shard_of se \<in> set places" if "se \<in> set (shardEntries es)" for se
    using in_shardEntries [OF that] validateEntries_None(2) [OF assms(1)] route_in_places
    by (auto simp: list_all_iff)
  moreover have "inj_on (\<lambda>se. txIDs ! se_idx se) (set (shardEntries es))"
  proof (rule inj_onI)
    fix x y assume "x \<in> set (shardEntries es)" "y \<in> set (shardEntries es)"
      "txIDs ! se_idx x = txIDs ! se_idx y"
    with in_shardEntries [of x es] in_shardEntries [of y es] assms(3,4)
    show "x = y" using inj_onD [OF inj_shardEntries] by (auto simp: nth_eq_iff_index_eq)
  qed
  moreover have "n = AccountNo (se_entry se) \<and>
      (\<forall>x. account_side (shards c (shard_of se)) (AccountNo (se_entry se)) = Some x \<longrightarrow>
           d = computeBalanceDelta (se_entry se) x)"
    if "se \<in> set (shardEntries es)" "branch_view (shards c (shard_of se)) (txIDs ! se_idx se) = Some (n, d)"
    for se n d
    using bspec [OF assms(5) [unfolded ids_owned_def] that(1)] that(2) by auto
  ultimately show ?thesis
    using assms(2) unfolding booking_inv_def ledger_sound_def by blast
qed

lemma all_deltas_ok:
  assumes "map fst rs = dbGroupKeys ses"
    and all: "\<forall>(k, r)\<in>set rs. \<exists>x. r = Inr x"
    and q: "\<forall>(k, r)\<in>set rs. \<forall>x. r = Inr x \<longrightarrow>
        deltas_ok ses sides x \<and> (\<forall>se\<in>set (dbGroup ses k). se_idx se \<in> fst ` set x)"
  shows "deltas_ok ses sides (all_deltas rs) \<and> (\<forall>se\<in>set ses. se_idx se \<in> fst ` set (all_deltas rs))"
proof -
  have mem: "p \<in> set (all_deltas rs) \<longleftrightarrow> (\<exists>k x. (k, Inr x) \<in> set rs \<and> p \<in> set x)" for p
    unfolding all_deltas_def by (force split: sum.splits)
  have "deltas_ok ses sides (all_deltas rs)"
    using q unfolding deltas_ok_def mem by blast
  moreover have "se_idx se \<in> fst ` set (all_deltas rs)" if "se \<in> set ses" for se
  proof -
    from that have "se_db se \<in> set (map fst rs)" by (simp add: assms(1) dbGroupKeys_def)
    then obtain r where "(se_db se, r) \<in> set rs" by auto
    with all q that obtain x where "(se_db se, Inr x) \<in> set rs" "se_idx se \<in> fst ` set x"
      by (fastforce simp: set_dbGroup)
    then obtain d where "(se_idx se, d) \<in> set x" by auto
    with \<open>(se_db se, Inr x) \<in> set rs\<close> have "(se_idx se, d) \<in> set (all_deltas rs)" unfolding mem by blast
    then show ?thesis by (metis fst_conv image_eqI)
  qed
  ultimately show ?thesis by blast
qed

text \<open>The phases: Try keeps equation and journal; Confirm adds every entry once, or fails.\<close>

lemma try_phase:
  assumes "booking_inv cfg ses txIDs sides c" "inj_on se_idx (set ses)"
    and "run_groups (\<lambda>db. tryGroup f v txIDs db (dbGroup ses db)) (dbGroupKeys ses) c = (rs, c')"
  shows "booking_inv cfg ses txIDs sides c' \<and> map fst rs = dbGroupKeys ses \<and>
         csum equation c' = csum equation c \<and> csum (voucher_sum g w) c' = csum (voucher_sum g w) c \<and>
         same_books c c' \<and> coordinators c' = coordinators c \<and>
         (first_error rs ses = None \<longrightarrow>
            deltas_ok ses sides (all_deltas rs) \<and> (\<forall>se\<in>set ses. se_idx se \<in> fst ` set (all_deltas rs)))"
proof -
  let ?J = "\<lambda>x. booking_inv cfg ses txIDs sides x \<and> csum equation x = csum equation c \<and>
       csum (voucher_sum g w) x = csum (voucher_sum g w) c \<and>
       same_books c x \<and> coordinators x = coordinators c"
  let ?Q = "\<lambda>k x. deltas_ok ses sides x \<and> (\<forall>se\<in>set (dbGroup ses k). se_idx se \<in> fst ` set x)"
  have step: "?J c' \<and> ?Q k x \<and> (\<lambda>_. 0::int) c' = (\<lambda>_. 0) c1 + (\<lambda>_. 0) k"
    if "?J c1" "tryGroup f v txIDs k (dbGroup ses k) c1 = Inr (c', x)" for k c1 c' x
    using tryGroup_keeps [OF that(2) dbGroup_in, of cfg sides g w] that(1) assms(2)
    by (auto intro: same_books_trans)
  have r: "?J c' \<and> map fst rs = dbGroupKeys ses \<and> (\<forall>(k, r)\<in>set rs. \<forall>x. r = Inr x \<longrightarrow> ?Q k x) \<and>
      ((\<forall>(k, r)\<in>set rs. \<exists>x. r = Inr x) \<longrightarrow>
        (\<lambda>_. 0::int) c' = (\<lambda>_. 0) c + sum_list (map (\<lambda>_. 0) (dbGroupKeys ses)))"
    by (rule run_groups_keeps [where J = ?J, OF step _ assms(3)]) (simp_all add: assms(1))
  then show ?thesis
    using all_deltas_ok [of rs ses sides] first_error_None [of rs ses] by blast
qed

lemma confirm_phase:
  assumes "booking_inv cfg ses txIDs sides c" "deltas_ok ses sides ds"
    and "\<forall>se\<in>set ses. se_idx se \<in> fst ` set ds" "posting h g"
    and run: "run_groups (\<lambda>db c. map_sum id (\<lambda>c. (c, ()))
        (confirmGroup f (confirmEntry cfg now req v cutDate today txIDs ds) db (dbGroup ses db) c))
        (dbGroupKeys ses) c = (rs, c')"
  shows "booking_inv cfg ses txIDs sides c' \<and>
         (first_error rs ses = None \<longrightarrow>
            csum equation c' = csum equation c + (\<Sum>se\<leftarrow>ses. signed_amount (se_entry se)) \<and>
            csum (voucher_sum g v) c' = csum (voucher_sum g v) c + (\<Sum>se\<leftarrow>ses. h (se_entry se)))"
proof -
  let ?J = "booking_inv cfg ses txIDs sides"
  have step: "?J c' \<and> True \<and> csum equation c' = csum equation c1 + (\<Sum>se\<leftarrow>dbGroup ses k. signed_amount (se_entry se))"
    "?J c' \<and> True \<and> csum (voucher_sum g v) c' = csum (voucher_sum g v) c1 + (\<Sum>se\<leftarrow>dbGroup ses k. h (se_entry se))"
    if "?J c1" "map_sum id (\<lambda>c. (c, ()))
        (confirmGroup f (confirmEntry cfg now req v cutDate today txIDs ds) k (dbGroup ses k) c1) = Inr (c', x)"
    for k c1 c' x
  proof -
    from that(2) have "confirmGroup f (confirmEntry cfg now req v cutDate today txIDs ds) k (dbGroup ses k) c1 = Inr c'"
      by (cases "confirmGroup f (confirmEntry cfg now req v cutDate today txIDs ds) k (dbGroup ses k) c1") auto
    from confirmGroup_keeps [OF this dbGroup_in that(1) assms(2-4)]
    show "?J c' \<and> True \<and> csum equation c' = csum equation c1 + (\<Sum>se\<leftarrow>dbGroup ses k. signed_amount (se_entry se))"
      "?J c' \<and> True \<and> csum (voucher_sum g v) c' = csum (voucher_sum g v) c1 + (\<Sum>se\<leftarrow>dbGroup ses k. h (se_entry se))"
      by simp_all
  qed
  note r1 = run_groups_keeps [where J = ?J and Q = "\<lambda>_ _. True", OF step(1) assms(1) run]
  note r2 = run_groups_keeps [where J = ?J and Q = "\<lambda>_ _. True", OF step(2) assms(1) run]
  show ?thesis using r1 r2 first_error_None [of rs ses] sum_groups [of "\<lambda>se. signed_amount (se_entry se)" ses]
      sum_groups [of "\<lambda>se. h (se_entry se)" ses]
    by auto
qed


lemma sum_entries:
  "(\<Sum>se\<leftarrow>shardEntries es. h (se_entry se)) = (\<Sum>e\<leftarrow>es. (h e :: int))"
proof -
  have "map (\<lambda>se. h (se_entry se)) (shardEntries es) = map h (map se_entry (shardEntries es))"
    by (simp only: map_map comp_def)
  then show ?thesis by (simp only: map_entry_shardEntries)
qed

lemma signed_sum:
  "validateEntries es = None \<Longrightarrow> (\<Sum>e\<leftarrow>es. signed_amount e) = 0"
  using validateEntries_None(4) [of es] by (simp add: signed_amount_def sum_list_subtractf)

lemma tccBooking_outcome:
  assumes v: "validateEntries (Entries req) = None"
    and inv: "booking_inv (buffer_accounts cfg) (shardEntries (Entries req)) txIDs sides c"
    and g: "posting h g"
    and run: "tccBooking cfg f now today req v cutDate txIDs c = (res, c')"
  shows "booking_inv (buffer_accounts cfg) (shardEntries (Entries req)) txIDs sides c' \<and>
         (\<forall>x. res = Inr x \<longrightarrow> x = (v, txIDs) \<and> csum equation c' = csum equation c \<and>
            csum (voucher_sum g v) c' = csum (voucher_sum g v) c + (\<Sum>e\<leftarrow>Entries req. h e))"
proof -
  let ?ses = "shardEntries (Entries req)" and ?b = "buffer_accounts cfg"
  define coord where "coord = (coordinator_enabled cfg \<and> length (dbGroupKeys ?ses) \<noteq> 1)"
  define c1 where "c1 = (if coord \<and> create_fault f = None
      then coordCreate now today c v (BusinessNo req) cutDate (Currency req) (length (Entries req)) else c)"
  have c1: "shards c1 = shards c" by (simp add: c1_def)
  obtain rs c2 where t: "run_groups (\<lambda>db. tryGroup f v txIDs db (dbGroup ?ses db)) (dbGroupKeys ?ses) c1 = (rs, c2)"
    by fastforce
  have p1: "booking_inv ?b ?ses txIDs sides c2" "csum equation c2 = csum equation c"
      "csum (voucher_sum g v) c2 = csum (voucher_sum g v) c"
      "first_error rs ?ses = None \<Longrightarrow> deltas_ok ?ses sides (all_deltas rs)"
      "first_error rs ?ses = None \<Longrightarrow> \<forall>se\<in>set ?ses. se_idx se \<in> fst ` set (all_deltas rs)"
    using try_phase [OF _ inj_shardEntries t, of ?b sides g v] inv
    by (simp_all add: booking_inv_shards [OF c1] csum_shards [OF c1])
  note run' = run [unfolded tccBooking_def Let_def, folded coord_def, folded c1_def, unfolded t prod.case]
  show ?thesis
  proof (cases "first_error rs ?ses")
    case (Some err)
    define c3 where "c3 = (if coord \<and> cancelled_fault f = None
        then (case TransitionToCancelled now c2 v of Inl _ \<Rightarrow> c2 | Inr c \<Rightarrow> c) else c2)"
    have c3: "shards c3 = shards c2" by (auto simp: c3_def split: sum.splits)
    have "booking_inv ?b ?ses txIDs sides c3" using p1(1) by (simp add: booking_inv_shards [OF c3])
    then have "booking_inv ?b ?ses txIDs sides (cancelTried f txIDs (filter (\<lambda>se. group_error rs se = None) ?ses) c3)"
      by (rule conjunct1 [OF cancelTried_keeps [OF _ filter_is_subset]])
    moreover from run' [unfolded Some option.case]
    have "res = Inl err" "c' = cancelTried f txIDs (filter (\<lambda>se. group_error rs se = None) ?ses) c3"
      unfolding c3_def by (simp_all only: prod.inject)
    ultimately show ?thesis by simp
  next
    case None
    note p1' = p1(4,5) [OF None]
    show ?thesis
    proof (cases "if coord then (case confirming_fault f of Some e \<Rightarrow> Inl e
                    | None \<Rightarrow> TransitionToConfirming now c2 v) else Inr c2")
      case (Inl e)
      with run' None p1(1) show ?thesis by auto
    next
      case (Inr c3)
      then have c3: "shards c3 = shards c2" by (auto split: if_splits option.splits)
      let ?step = "confirmEntry ?b now req v cutDate today txIDs (all_deltas rs)"
      obtain rs' c4 where cf: "run_groups (\<lambda>db c. map_sum id (\<lambda>c. (c, ()))
          (confirmGroup f ?step db (dbGroup ?ses db) c)) (dbGroupKeys ?ses) c3 = (rs', c4)"
        by fastforce
      have b3: "booking_inv ?b ?ses txIDs sides c3" using p1(1) by (simp add: booking_inv_shards [OF c3])
      note p2 = confirm_phase [OF b3 p1' g cf]
      show ?thesis
      proof (cases "first_error rs' ?ses")
        case (Some err)
        with run' None Inr cf p2 show ?thesis by auto
      next
        case no: None
        define c5 where "c5 = (if coord \<and> confirmed_fault f = None
            then (case TransitionToConfirmed now c4 v of Inl _ \<Rightarrow> c4 | Inr c \<Rightarrow> c) else c4)"
        have c5: "shards c5 = shards c4" by (auto simp: c5_def split: sum.splits)
        have "res = Inr (v, txIDs)" "c' = c5"
          using run' None Inr cf no by (simp_all flip: c5_def)
        moreover have "csum equation c4 = csum equation c"
          using p2 no p1(2) csum_shards [OF c3, of equation] sum_entries [of signed_amount] signed_sum [OF v] by simp
        moreover have "csum (voucher_sum g v) c4 = csum (voucher_sum g v) c + (\<Sum>e\<leftarrow>Entries req. h e)"
          using p2 no p1(3) csum_shards [OF c3, of "voucher_sum g v"] sum_entries [of h] by simp
        ultimately show ?thesis
          using p2 by (auto simp: booking_inv_shards [OF c5] csum_shards [OF c5])
      qed
    qed
  qed
qed

section \<open>What a failure leaves behind\<close>

interpretation coord_tx: tx_steps "confirmEntry cfg now req v cutDate today txIDs ds" "\<lambda>_. True"
  "\<lambda>c. coordinators c = cs"
  for cfg now req v cutDate today txIDs ds cs
  by unfold_locales (auto simp: confirmEntry_def Let_def split: option.splits sum.splits)

lemma confirm_groups_coordinators:
  assumes "run_groups (\<lambda>db c. map_sum id (\<lambda>c. (c, ()))
      (confirmGroup f (confirmEntry cfg now req v cutDate today txIDs ds) db (dbGroup ses db) c)) ks c = (rs, c')"
  shows "coordinators c' = coordinators c"
proof -
  have step: "coordinators c2 = coordinators c \<and> True \<and> (0::int) = 0 + 0"
    if "coordinators c1 = coordinators c" "map_sum id (\<lambda>c. (c, ()))
      (confirmGroup f (confirmEntry cfg now req v cutDate today txIDs ds) k (dbGroup ses k) c1) = Inr (c2, x)"
    for k c1 c2 x
  proof -
    from that(2) have "confirmGroup f (confirmEntry cfg now req v cutDate today txIDs ds) k (dbGroup ses k) c1 = Inr c2"
      by (cases "confirmGroup f (confirmEntry cfg now req v cutDate today txIDs ds) k (dbGroup ses k) c1") auto
    then have "run_tx (confirmEntry cfg now req v cutDate today txIDs ds) (dbGroup ses k) c1 = Inr c2"
      unfolding confirmGroup_def by (auto dest!: retryOnDeadlock_Inr split: option.splits fault.splits)
    from coord_tx.run_inv [OF _ that(1) this] show ?thesis by (simp add: list_all_iff)
  qed
  show ?thesis
    by (rule conjunct1 [OF run_groups_keeps [where J = "\<lambda>x. coordinators x = coordinators c"
          and Q = "\<lambda>_ _. True" and m = "\<lambda>_. 0" and w = "\<lambda>_. 0", OF _ refl assms]])
      (rule step)
qed

lemma single_group_error:
  assumes "length ks = 1" "run_groups g ks c = (rs, c')" "first_error rs ses \<noteq> None"
  shows "c' = c"
proof -
  from assms(1) obtain k where k: "ks = [k]" by (auto simp: length_Suc_conv)
  show ?thesis
  proof (cases "g k c")
    case (Inl e)
    with assms(2) k show ?thesis by simp
  next
    case (Inr p)
    with assms(2) k have "rs = [(k, Inr (snd p))]" by (cases p) simp
    then have "group_error rs se = None" for se by (simp add: group_error_def)
    then have "List.find (\<lambda>se. group_error rs se \<noteq> None) ses = None" by (simp add: find_None_iff)
    with assms(3) show ?thesis by (simp add: first_error_def)
  qed
qed

lemma GetByTccID_confirming:
  assumes d: "distinct (map coord_tcc_id (coordinators c))" and t: "TransitionToConfirming now c v = Inr c'"
  shows "\<exists>k. GetByTccID c' v = Some k \<and> phase k = TccPhaseConfirming"
proof -
  let ?P = "\<lambda>k. coord_tcc_id k = v \<and> phase k \<in> set [TccPhaseTrying]"
  let ?u = "\<lambda>k. if ?P k then (if phase k = TccPhaseConfirming then k
      else k\<lparr>phase := TccPhaseConfirming, coord_updated_at := now\<rparr>) else k"
  have n: "count_where ?P (coordinators c) \<noteq> 0" and c': "coordinators c' = map ?u (coordinators c)"
  proof -
    have t': "(if count_where ?P (coordinators c) = 0 then Inl (CoordinatorNotTrying v)
        else Inr (c\<lparr>coordinators := map ?u (coordinators c)\<rparr>)) = Inr c'"
      using t by (simp only: TransitionToConfirming_def coordUpdate_def Let_def prod.case update_where_def)
    then show "count_where ?P (coordinators c) \<noteq> 0" by (metis sum.distinct(1))
    with t' show "coordinators c' = map ?u (coordinators c)"
      by (metis (no_types, lifting) cluster.select_convs(2) cluster.surjective cluster.update_convs(2) sum.inject(2))
  qed
  from n obtain k where k: "k \<in> set (coordinators c)" "?P k"
    by (auto simp: count_where_def filter_empty_conv)
  then obtain k' where k': "List.find (\<lambda>k. coord_tcc_id k = v) (coordinators c) = Some k'"
    by (cases "List.find (\<lambda>k. coord_tcc_id k = v) (coordinators c)") (auto simp: find_None_iff)
  then have "k' \<in> set (coordinators c)" "coord_tcc_id k' = v"
    using select_one_Some [of "\<lambda>k. coord_tcc_id k = v" "coordinators c" k'] by (simp_all add: select_one_def)
  then have "k' = k"
    using inj_onD [of coord_tcc_id "set (coordinators c)" k' k] k d by (simp add: distinct_map)
  have "GetByTccID c' v = map_option ?u (List.find (\<lambda>k. coord_tcc_id k = v) (coordinators c))"
    unfolding GetByTccID_def select_one_def c' by (rule find_map_key) simp
  with k k' \<open>k' = k\<close> show ?thesis by auto
qed

lemma coordCreate_distinct:
  "distinct (map coord_tcc_id (coordinators c)) \<Longrightarrow>
   distinct (map coord_tcc_id (coordinators (coordCreate now today c v b cd cur n)))"
  by (auto simp: coordCreate_def list_ex_iff)

lemma GetByTccID_cong: "coordinators c' = coordinators c \<Longrightarrow> GetByTccID c' v = GetByTccID c v"
  by (simp add: GetByTccID_def)

section \<open>A payment between two databases\<close>

text \<open>A wallet in database 0 with 5000 pays 1200 to a merchant in database 3.\<close>

definition wallet_no :: string where "wallet_no = ''100000000001''"
definition shop_no :: string where "shop_no = ''3700000000001''"

definition user_account :: "string \<Rightarrow> AccountType \<Rightarrow> int \<Rightarrow> Account" where
  "user_account n t b =
     \<lparr>acc_no = n, acc_user = 100000001, acc_type = t, acc_category = AccountCategoryLiability,
      acc_biz = 1, acc_currency = ''PHP'', balance = b, frozen_balance = 0, available_balance = b,
      acc_status = AccountStatusActive, acc_group = AccountGroupA, version = 0,
      logical_account = None, period_end = None, lifecycle_phase = LifecyclePhaseLegacy,
      draining_started_at = None, frozen_at = None\<rparr>"

definition empty_shard :: shard where
  "empty_shard = \<lparr>accounts = [], branches = [], journal = [], buffers = []\<rparr>"

definition shop_cluster :: cluster where
  "shop_cluster = \<lparr>shards = (\<lambda>_. empty_shard)
       ((0, 1) := empty_shard\<lparr>accounts := [user_account wallet_no AccountTypeUser 5000]\<rparr>,
        (3, 37) := empty_shard\<lparr>accounts := [user_account shop_no AccountTypeMerchant 0]\<rparr>),
     coordinators = []\<rparr>"

definition shop_request :: DoubleEntryBookingRequest where
  "shop_request = \<lparr>RequestID = ''r1'', BusinessNo = ''b1'', BusinessType = ''PAYMENT'',
     Entries = [\<lparr>AccountNo = wallet_no, DebitAmount = 1200, CreditAmount = 0, EntryDescription = []\<rparr>,
                \<lparr>AccountNo = shop_no, DebitAmount = 0, CreditAmount = 1200, EntryDescription = []\<rparr>],
     Currency = ''PHP'', Description = []\<rparr>"

definition shop_config :: booking_config where
  "shop_config = \<lparr>buffer_accounts = [], coordinator_enabled = True\<rparr>"

lemma shop_sound: "ledger_sound [] shop_cluster"
proof -
  have "ledger_inv [] empty_shard"
    "ledger_inv [] (empty_shard\<lparr>accounts := [user_account wallet_no AccountTypeUser 5000]\<rparr>)"
    "ledger_inv [] (empty_shard\<lparr>accounts := [user_account shop_no AccountTypeMerchant 0]\<rparr>)"
    by code_simp+
  then show ?thesis by (simp add: ledger_sound_def shop_cluster_def)
qed

abbreviation shop_run :: "faults \<Rightarrow> (ledger_error + (string \<times> string list)) \<times> cluster" where
  "shop_run f \<equiv> tccBooking shop_config f 0 ''2026-01-01'' shop_request ''9'' ''2026-01-01'' [''t1'', ''t2'']
     shop_cluster"

section \<open>Properties\<close>





definition no_confirm_in_db3 :: faults where
  "no_confirm_in_db3 = no_faults\<lparr>confirm_fault := \<lambda>db _. if db = 3
     then Some (Fault AtCommit (DriverError ''connection reset'')) else None\<rparr>"


end
