(* ===== verification/Recovery.thy ===== *)
theory Recovery
  imports TccBooking
begin

text \<open>
  Cancelling and recovering vouchers: \<open>internal/service/tcc_service.go\<close> (\<open>CancelBranch\<close>,
  \<open>CancelTcc\<close>), the confirm retry of \<open>accounting_service.go\<close> (\<open>RetryStuckConfirmingTcc\<close> and its
  helpers) and the three tracks of \<open>tcc_recovery_worker.go\<close>. What follows: the entry recovery
  rebuilds is the one that was booked, a recovery that reports success has confirmed every branch,
  and two runs on concrete tables that show what a client's retry of a failed order does.
\<close>

declare split_paired_All [simp del] split_paired_Ex [simp del]

section \<open>Cancelling\<close>

definition GetTccStatus :: "cluster \<Rightarrow> string \<Rightarrow> (TccTransaction \<times> shard_id) list" where
  "GetTccStatus c v = concat (map (\<lambda>sid. map (\<lambda>t. (t, sid)) (ListBranchesByTccID (shards c sid) v))
     (GetAllShards NewRouter))"

definition CancelBranch :: "cluster \<Rightarrow> string \<Rightarrow> string \<Rightarrow> ledger_error + cluster" where
  "CancelBranch c branchID accountNo =
     (let sid = RouteByAccountNo NewRouter accountNo; s = shards c sid
      in case GetBranchForUpdate s branchID of
           None \<Rightarrow> Inr c
         | Some br \<Rightarrow>
             (case branch_status br of
                TccStatusCancelled \<Rightarrow> Inr c
              | TccStatusConfirmed \<Rightarrow> Inl (CannotCancelConfirmed branchID)
              | TccStatusTrying \<Rightarrow>
                  (case (if frozen_amount br > 0
                         then updateAccount s (\<lambda>x. acc_no x = accountNo) (addToAccount 0 (frozen_amount br))
                         else Inr (0, s)) of
                     Inl err \<Rightarrow> Inl err
                   | Inr (_, s') \<Rightarrow>
                       Inr (put_shard c sid (UpdateBranchStatus s' branchID TccStatusCancelled)))))"

record cancel_faults =
  cas_error :: "ledger_error option"
  get_error :: bool
  branch_error :: "string \<Rightarrow> ledger_error option"

definition no_cancel_faults :: cancel_faults where
  "no_cancel_faults = \<lparr>cas_error = None, get_error = False, branch_error = \<lambda>_. None\<rparr>"

fun cancel_branches :: "cancel_faults \<Rightarrow> (TccTransaction \<times> shard_id) list \<Rightarrow> cluster \<Rightarrow>
    ledger_error list \<times> cluster" where
  "cancel_branches f [] c = ([], c)"
| "cancel_branches f ((b, sid) # bs) c =
     (if branch_status b \<noteq> TccStatusTrying then cancel_branches f bs c
      else case (case branch_error f (branch_id b) of
                   Some e \<Rightarrow> Inl e | None \<Rightarrow> CancelBranch c (branch_id b) (branch_account b)) of
             Inl e \<Rightarrow> (let (es, c') = cancel_branches f bs c in (e # es, c'))
           | Inr c1 \<Rightarrow> cancel_branches f bs c1)"

text \<open>\<open>CancelTcc\<close>: the empty error list is \<open>nil\<close>.\<close>

definition CancelTcc :: "int \<Rightarrow> cancel_faults \<Rightarrow> cluster \<Rightarrow> string \<Rightarrow> ledger_error list \<times> cluster" where
  "CancelTcc now f c v =
     (case (case cas_error f of Some e \<Rightarrow> Inl e | None \<Rightarrow> TransitionToCancelled now c v) of
        Inr c1 \<Rightarrow> cancel_branches f (GetTccStatus c1 v) c1
      | Inl _ \<Rightarrow>
          if \<not> get_error f \<and> GetByTccID c v \<noteq> None then ([], c)
          else cancel_branches f (GetTccStatus c v) c)"

section \<open>Completing half-confirmed vouchers\<close>

text \<open>The entry rebuilt from a branch row and its account's category.\<close>

definition rebuiltEntry :: "Account \<Rightarrow> TccTransaction \<Rightarrow> AccountingEntry" where
  "rebuiltEntry a br =
     (let amount = (if balance_delta br < 0 then neg64 (balance_delta br) else balance_delta br);
          isDebitPositive = IsAssetOrExpense (acc_category a);
          isPositiveDelta = balance_delta br > 0
      in \<lparr>AccountNo = branch_account br,
          DebitAmount = (if isDebitPositive = isPositiveDelta then amount else 0),
          CreditAmount = (if isDebitPositive = isPositiveDelta then 0 else amount),
          EntryDescription = []\<rparr>)"

definition recoveryParams :: "TccTransaction \<Rightarrow> TccCoordinator \<Rightarrow> bookingParams" where
  "recoveryParams br k =
     \<lparr>bp_transactionID = branch_id br, bp_voucherNo = tcc_id br, bp_businessNo = coord_business_no k,
      bp_businessType = ''RECOVERY'', bp_currency = coord_currency k,
      bp_transactionDate = coord_created_date k, bp_cutDate = coord_cut_date k\<rparr>"

definition confirmOneBranchFromRecovery :: "buffer_config \<Rightarrow> int \<Rightarrow> cluster \<Rightarrow> TccTransaction \<Rightarrow>
    shard_id \<Rightarrow> TccCoordinator \<Rightarrow> ledger_error + cluster" where
  "confirmOneBranchFromRecovery cfg now c br sid k =
     (let s = shards c sid
      in case GetAccountForUpdate s (branch_account br) of
           None \<Rightarrow> Inl (AccountNotFound (branch_account br))
         | Some a \<Rightarrow>
             if coord_currency k = [] then Inl (EmptyCurrency (tcc_id br))
             else case tccConfirm cfg now s (branch_id br) (rebuiltEntry a br) a (recoveryParams br k) None of
                    Inl e \<Rightarrow> Inl e
                  | Inr s' \<Rightarrow> Inr (put_shard c sid s'))"

fun recover_branches :: "buffer_config \<Rightarrow> int \<Rightarrow> TccCoordinator \<Rightarrow> (TccTransaction \<times> shard_id) list \<Rightarrow>
    cluster \<Rightarrow> ledger_error option \<times> cluster" where
  "recover_branches cfg now k [] c = (None, c)"
| "recover_branches cfg now k ((b, sid) # bs) c =
     (case branch_status b of
        TccStatusConfirmed \<Rightarrow> recover_branches cfg now k bs c
      | TccStatusCancelled \<Rightarrow> (Some (CancelledInConfirming (branch_id b)), c)
      | TccStatusTrying \<Rightarrow>
          (case confirmOneBranchFromRecovery cfg now c b sid k of
             Inl e \<Rightarrow> (Some e, c)
           | Inr c' \<Rightarrow> recover_branches cfg now k bs c'))"

definition confirmed_or_same :: "int \<Rightarrow> cluster \<Rightarrow> string \<Rightarrow> cluster" where
  "confirmed_or_same now c v = (case TransitionToConfirmed now c v of Inl _ \<Rightarrow> c | Inr c' \<Rightarrow> c')"

definition recoverOneConfirmingTcc :: "buffer_config \<Rightarrow> int \<Rightarrow> cluster \<Rightarrow> TccCoordinator \<Rightarrow>
    ledger_error option \<times> cluster" where
  "recoverOneConfirmingTcc cfg now c k =
     (let v = coord_tcc_id k; bs = GetTccStatus c v
      in if bs = [] then (None, confirmed_or_same now c v)
         else case recover_branches cfg now k bs c of
                (Some e, c') \<Rightarrow> (Some e, c')
              | (None, c') \<Rightarrow> (None, confirmed_or_same now c' v))"

fun retry_confirming :: "buffer_config \<Rightarrow> int \<Rightarrow> TccCoordinator list \<Rightarrow> cluster \<Rightarrow> nat \<times> cluster" where
  "retry_confirming cfg now [] c = (0, c)"
| "retry_confirming cfg now (k # ks) c =
     (if phase k \<noteq> TccPhaseConfirming then retry_confirming cfg now ks c
      else case recoverOneConfirmingTcc cfg now c k of
             (Some e, c') \<Rightarrow> retry_confirming cfg now ks c'
           | (None, c') \<Rightarrow> (let (n, c'') = retry_confirming cfg now ks c' in (n + 1, c'')))"

definition RetryStuckConfirmingTcc :: "booking_config \<Rightarrow> int \<Rightarrow> int \<Rightarrow> cluster \<Rightarrow> nat \<times> cluster" where
  "RetryStuckConfirmingTcc cfg now before c =
     (if \<not> coordinator_enabled cfg then (0, c)
      else retry_confirming (buffer_accounts cfg) now (coordListStuck c before 200) c)"

section \<open>The recovery worker\<close>

abbreviation (input) tccStuckTimeout :: int where "tccStuckTimeout \<equiv> 300000000000"
abbreviation (input) tccRecoveryBatchLimit :: nat where "tccRecoveryBatchLimit \<equiv> 100"

text \<open>Track 1 cancels stuck TRYING vouchers and returns the CONFIRMING ones.\<close>

fun recover_coordinators :: "int \<Rightarrow> cancel_faults \<Rightarrow> TccCoordinator list \<Rightarrow> cluster \<Rightarrow> string list \<times> cluster" where
  "recover_coordinators now f [] c = ([], c)"
| "recover_coordinators now f (k # ks) c =
     (case phase k of
        TccPhaseConfirming \<Rightarrow>
          (let (ids, c') = recover_coordinators now f ks c in (coord_tcc_id k # ids, c'))
      | TccPhaseTrying \<Rightarrow>
          (case CancelTcc now f c (coord_tcc_id k) of
             ([], c1) \<Rightarrow> recover_coordinators now f ks
                (case TransitionToCancelled now c1 (coord_tcc_id k) of Inl _ \<Rightarrow> c1 | Inr c2 \<Rightarrow> c2)
           | (_, c1) \<Rightarrow> recover_coordinators now f ks c1)
      | _ \<Rightarrow> recover_coordinators now f ks c)"

definition recoverFromCoordinator :: "int \<Rightarrow> cancel_faults \<Rightarrow> bool \<Rightarrow> cluster \<Rightarrow> string list \<times> cluster" where
  "recoverFromCoordinator now f list_fails c =
     (if list_fails then ([], c)
      else recover_coordinators now f (coordListStuck c (now - tccStuckTimeout) tccRecoveryBatchLimit) c)"

text \<open>Track 3 scans branch rows; \<open>old\<close> tells which branch ids were created before the cut-off.\<close>

definition ListStuckBranches :: "cluster \<Rightarrow> (string \<Rightarrow> bool) \<Rightarrow> nat \<Rightarrow> TccTransaction list" where
  "ListStuckBranches c old limit = take limit (concat (map (\<lambda>sid. take limit
     (filter (\<lambda>t. branch_status t = TccStatusTrying \<and> old (branch_id t)) (branches (shards c sid))))
     (GetAllShards NewRouter)))"

fun recover_stuck :: "int \<Rightarrow> cancel_faults \<Rightarrow> string list \<Rightarrow> string list \<Rightarrow> TccTransaction list \<Rightarrow>
    cluster \<Rightarrow> cluster" where
  "recover_stuck now f skip seen [] c = c"
| "recover_stuck now f skip seen (b # bs) c =
     (if tcc_id b \<in> set seen then recover_stuck now f skip seen bs c
      else if tcc_id b \<in> set skip then recover_stuck now f skip (tcc_id b # seen) bs c
      else recover_stuck now f skip (tcc_id b # seen) bs (snd (CancelTcc now f c (tcc_id b))))"

definition recoverFromBranches :: "int \<Rightarrow> cancel_faults \<Rightarrow> (string \<Rightarrow> bool) \<Rightarrow> string list \<Rightarrow> cluster \<Rightarrow> cluster" where
  "recoverFromBranches now f old skip c =
     recover_stuck now f skip [] (ListStuckBranches c old tccRecoveryBatchLimit) c"

definition recover :: "booking_config \<Rightarrow> int \<Rightarrow> cancel_faults \<Rightarrow> bool \<Rightarrow> (string \<Rightarrow> bool) \<Rightarrow> cluster \<Rightarrow> cluster" where
  "recover cfg now f list_fails old c =
     (let (ids, c1) = recoverFromCoordinator now f list_fails c;
          c2 = (if ids \<noteq> [] then snd (RetryStuckConfirmingTcc cfg now (now - tccStuckTimeout) c1) else c1)
      in recoverFromBranches now f old ids c2)"

section \<open>What recovery books\<close>

text \<open>
  C14. The entry rebuilt from a branch row is the entry that was booked: for every amount validation
  admits, the account number, debit and credit recovered from the row's delta and the account's
  category are those of the original entry.
\<close>

theorem recovery_rebuilds_the_entry:
  assumes "entry_ok e" "br = new_branch v b e a"
  shows "AccountNo (rebuiltEntry a br) = AccountNo e \<and> DebitAmount (rebuiltEntry a br) = DebitAmount e \<and>
         CreditAmount (rebuiltEntry a br) = CreditAmount e"
proof -
  define d where "d = computeBalanceDelta e (isAssetOrExpense a)"
  have d: "d = (if isAssetOrExpense a then signed_amount e else - signed_amount e)" "d \<noteq> 0" "\<bar>d\<bar> \<le> MaxEntryAmount"
    using computeBalanceDelta_exact [OF assms(1)] by (simp_all add: d_def)
  have n: "neg64 d = - d" using d(3) by (intro neg64_exact) (simp add: in64_iff abs_le_iff)
  have s: "IsAssetOrExpense (acc_category a) = isAssetOrExpense a"
    by (simp add: IsAssetOrExpense_def isAssetOrExpense_def)
  have br: "balance_delta br = d" "branch_account br = AccountNo e"
    by (simp_all add: assms(2) new_branch_def Let_def d_def)
  have signs: "DebitAmount e = 0 \<and> 0 < CreditAmount e \<or> CreditAmount e = 0 \<and> 0 < DebitAmount e"
    using assms(1) by (auto simp: entry_ok_def)
  show ?thesis unfolding rebuiltEntry_def Let_def br s n using d(1) signs
    by (auto simp: signed_amount_def)
qed

theorem recovery_rebuilds_the_entry_witness:
  "let e = \<lparr>AccountNo = wallet_no, DebitAmount = 1200, CreditAmount = 0, EntryDescription = []\<rparr>;
       a = user_account wallet_no AccountTypeUser 5000
   in AccountNo (rebuiltEntry a (new_branch ''9'' ''t1'' e a)) = wallet_no \<and>
      DebitAmount (rebuiltEntry a (new_branch ''9'' ''t1'' e a)) = 1200 \<and>
      CreditAmount (rebuiltEntry a (new_branch ''9'' ''t1'' e a)) = 0"
proof -
  have "entry_ok \<lparr>AccountNo = wallet_no, DebitAmount = 1200, CreditAmount = 0, EntryDescription = []\<rparr>"
    by code_simp
  from recovery_rebuilds_the_entry [OF this refl] show ?thesis by (simp add: Let_def)
qed


section \<open>What recovery completes\<close>

definition confirmed_at :: "cluster \<Rightarrow> shard_id \<Rightarrow> string \<Rightarrow> bool" where
  "confirmed_at c sid b \<longleftrightarrow> (\<exists>t\<in>set (branches (shards c sid)). branch_id t = b \<and> branch_status t = TccStatusConfirmed)"

definition unique_keys :: "cluster \<Rightarrow> bool" where
  "unique_keys c \<longleftrightarrow> (\<forall>sid. keys_unique (shards c sid))"

lemma keys_unique_confirm_new:
  assumes "keys_unique s" "bp_transactionID p \<notin> transaction_id ` set (journal s)"
    and "if useBuffer cfg a then \<exists>f. upsertRows (buffers s) (AccountNo e) d f = Some bufs else bufs = buffers s"
  shows "keys_unique (confirm_new cfg s b e a p d bufs)"
proof -
  have "distinct (map buf_account bufs)"
    using assms upsertRows_keys by (auto simp: keys_unique_def split: if_splits)
  with assms show ?thesis
    by (auto simp: keys_unique_def confirm_new_def book_accounts_def journalRow_def)
qed

lemma set_status_confirmed:
  "t \<in> set ts \<Longrightarrow> branch_id t = b \<Longrightarrow> branch_status t = TccStatusConfirmed \<or> b = k \<Longrightarrow>
   \<exists>u\<in>set (map (set_status k TccStatusConfirmed) ts). branch_id u = b \<and> branch_status u = TccStatusConfirmed"
  by (rule bexI [of _ "set_status k TccStatusConfirmed t"]) (auto simp: set_status_def)

lemma confirm_from_recovery_effect:
  assumes u: "unique_keys c" and r: "confirmOneBranchFromRecovery cfg now c br sid k = Inr c'"
  shows "unique_keys c' \<and> confirmed_at c' sid (branch_id br) \<and>
         (\<forall>sid' b. confirmed_at c sid' b \<longrightarrow> confirmed_at c' sid' b)"
proof -
  from r obtain a s' where a: "GetAccountForUpdate (shards c sid) (branch_account br) = Some a"
    and t: "tccConfirm cfg now (shards c sid) (branch_id br) (rebuiltEntry a br) a (recoveryParams br k) None = Inr s'"
    and c': "c' = put_shard c sid s'"
    by (auto simp: confirmOneBranchFromRecovery_def Let_def split: option.splits if_splits sum.splits)
  have ks: "keys_unique (shards c sid)" using u by (simp add: unique_keys_def)
  have "acc_no a = AccountNo (rebuiltEntry a br)"
    using GetAccount_Some [OF a] by (simp add: rebuiltEntry_def Let_def)
  from tccConfirm_effect [OF ks this t] show ?thesis
  proof (elim disjE exE conjE)
    fix t assume "s' = shards c sid" "GetBranch (shards c sid) (branch_id br) = Some t"
      "branch_status t = TccStatusConfirmed"
    then show ?thesis using u GetBranch_Some [of "shards c sid" "branch_id br" t]
      by (auto simp: c' unique_keys_def confirmed_at_def)
  next
    fix t d bufs
    assume t: "t \<in> set (branches (shards c sid))" "branch_id t = branch_id br"
      and s': "s' = confirm_new cfg (shards c sid) (branch_id br) (rebuiltEntry a br) a (recoveryParams br k) d bufs"
      and fresh: "bp_transactionID (recoveryParams br k) \<notin> transaction_id ` set (journal (shards c sid))"
      and bufs: "if useBuffer cfg a then \<exists>f. upsertRows (buffers (shards c sid)) (AccountNo (rebuiltEntry a br)) d f = Some bufs
                 else bufs = buffers (shards c sid)"
    have br: "branches s' = map (set_status (branch_id br) TccStatusConfirmed) (branches (shards c sid))"
      by (simp add: s' confirm_new_def)
    have "unique_keys c'"
      using u keys_unique_confirm_new [OF ks fresh bufs] by (simp add: c' s' unique_keys_def)
    moreover have "confirmed_at c' sid (branch_id br)"
      using set_status_confirmed [OF t] by (simp add: confirmed_at_def c' br)
    moreover have "confirmed_at c sid' b \<Longrightarrow> confirmed_at c' sid' b" for sid' b
      using set_status_confirmed [of _ "branches (shards c sid)" b "branch_id br"]
      by (auto simp: confirmed_at_def c' br split: if_splits)
    ultimately show ?thesis by blast
  qed
qed

lemma recover_branches_effect:
  assumes "unique_keys c" "recover_branches cfg now k bs c = (None, c')"
    and "\<And>b sid. (b, sid) \<in> set bs \<Longrightarrow> branch_status b = TccStatusConfirmed \<Longrightarrow> confirmed_at c sid (branch_id b)"
  shows "(\<forall>(b, sid)\<in>set bs. confirmed_at c' sid (branch_id b)) \<and>
         (\<forall>sid b. confirmed_at c sid b \<longrightarrow> confirmed_at c' sid b)"
  using assms
proof (induction bs arbitrary: c)
  case Nil
  then show ?case by simp
next
  case (Cons x bs)
  obtain b sid where x: "x = (b, sid)" by (cases x)
  show ?case
  proof (cases "branch_status b")
    case TccStatusTrying
    with Cons.prems(2) x obtain c1 where c1: "confirmOneBranchFromRecovery cfg now c b sid k = Inr c1"
      and rest: "recover_branches cfg now k bs c1 = (None, c')"
      by (auto split: sum.splits)
    note eff = confirm_from_recovery_effect [OF Cons.prems(1) c1]
    have "(\<forall>(b, sid)\<in>set bs. confirmed_at c' sid (branch_id b)) \<and>
          (\<forall>sid b. confirmed_at c1 sid b \<longrightarrow> confirmed_at c' sid b)"
      by (rule Cons.IH [OF _ rest]) (use eff Cons.prems(3) in auto)
    with eff x show ?thesis by auto
  next
    case TccStatusConfirmed
    with Cons.prems(2) x have rest: "recover_branches cfg now k bs c = (None, c')" by simp
    have "(\<forall>(b, sid)\<in>set bs. confirmed_at c' sid (branch_id b)) \<and>
          (\<forall>sid b. confirmed_at c sid b \<longrightarrow> confirmed_at c' sid b)"
      by (rule Cons.IH [OF Cons.prems(1) rest]) (use Cons.prems(3) in auto)
    with Cons.prems(3) [of b sid] TccStatusConfirmed x show ?thesis by auto
  next
    case TccStatusCancelled
    with Cons.prems(2) x show ?thesis by simp
  qed
qed

lemma confirmed_or_same_shards: "shards (confirmed_or_same now c v) = shards c"
  by (auto simp: confirmed_or_same_def split: sum.splits)

text \<open>
  C15. When the recovery of a half-confirmed voucher reports success, every branch of the voucher, on
  every shard, is CONFIRMED; branches confirmed before stay confirmed.
\<close>

theorem recovery_confirms_every_branch:
  assumes "unique_keys c" "recoverOneConfirmingTcc cfg now c k = (None, c')"
    and "(b, sid) \<in> set (GetTccStatus c (coord_tcc_id k))"
  shows "confirmed_at c' sid (branch_id b) \<and> (\<forall>sid b. confirmed_at c sid b \<longrightarrow> confirmed_at c' sid b)"
proof -
  let ?bs = "GetTccStatus c (coord_tcc_id k)"
  from assms(2,3) obtain c1 where r: "recover_branches cfg now k ?bs c = (None, c1)"
    and c': "c' = confirmed_or_same now c1 (coord_tcc_id k)"
    by (auto simp: recoverOneConfirmingTcc_def Let_def split: prod.splits option.splits if_splits)
  have "confirmed_at c s (branch_id x)" if "(x, s) \<in> set ?bs" "branch_status x = TccStatusConfirmed" for x s
    using that by (auto simp: GetTccStatus_def ListBranchesByTccID_def confirmed_at_def)
  from recover_branches_effect [OF assms(1) r this] assms(3) show ?thesis
    by (auto simp: c' confirmed_at_def confirmed_or_same_shards)
qed


section \<open>Two runs\<close>

text \<open>The shop payment after its confirmation in database 3 failed: one branch confirmed, one open.\<close>

definition half_confirmed :: cluster where
  "half_confirmed = snd (shop_run no_confirm_in_db3)"

definition voucher_view :: "cluster \<Rightarrow> string \<Rightarrow> (string \<times> TccStatus) list" where
  "voucher_view c v = map (\<lambda>(t, sid). (branch_id t, branch_status t)) (GetTccStatus c v)"

lemma unique_keys_sound: "ledger_sound cfg c \<Longrightarrow> unique_keys c"
  unfolding ledger_sound_def unique_keys_def ledger_inv_def by blast

lemma half_confirmed_sound: "ledger_sound (buffer_accounts shop_config) half_confirmed"
proof -
  have v: "validateEntries (Entries shop_request) = None" by code_simp
  have l: "ledger_sound (buffer_accounts shop_config) shop_cluster"
    using shop_sound by (simp add: shop_config_def)
  have n: "length [''t1'', ''t2''] = length (Entries shop_request)" "distinct [''t1'', ''t2'']"
    by (simp_all add: shop_request_def)
  have o: "ids_owned shop_cluster (Entries shop_request) [''t1'', ''t2'']" by code_simp
  note start = booking_inv_start [OF v l n o]
  from tccBooking_outcome [OF v start posting_debit surjective_pairing]
  show ?thesis unfolding half_confirmed_def booking_inv_def ledger_sound_def by blast
qed

theorem recovery_confirms_every_branch_witness:
  "voucher_view half_confirmed ''9'' = [(''t1'', TccStatusConfirmed), (''t2'', TccStatusTrying)] \<and>
   confirmed_at (snd (recoverOneConfirmingTcc [] 7 half_confirmed (hd (coordinators half_confirmed)))) (3, 37) ''t2''"
proof -
  let ?k = "hd (coordinators half_confirmed)"
  have u: "unique_keys half_confirmed" by (rule unique_keys_sound [OF half_confirmed_sound])
  have "fst (recoverOneConfirmingTcc [] 7 half_confirmed ?k) = None"
    unfolding half_confirmed_def by code_simp
  then have r: "recoverOneConfirmingTcc [] 7 half_confirmed ?k =
      (None, snd (recoverOneConfirmingTcc [] 7 half_confirmed ?k))"
    by (metis surjective_pairing)
  let ?b = "\<lparr>tcc_id = ''9'', branch_id = ''t2'', branch_account = shop_no, balance_delta = 1200,
      frozen_amount = 0, branch_status = TccStatusTrying\<rparr>"
  have b: "(?b, (3, 37)) \<in> set (GetTccStatus half_confirmed (coord_tcc_id ?k))"
    unfolding half_confirmed_def by code_simp
  have "voucher_view half_confirmed ''9'' = [(''t1'', TccStatusConfirmed), (''t2'', TccStatusTrying)]"
    unfolding half_confirmed_def by code_simp
  with recovery_confirms_every_branch [OF u r b] show ?thesis by simp
qed

text \<open>
  The order of a half-confirmed voucher is FAILED, so the client may send the request again before
  recovery runs. Try then finds the first branch CONFIRMED and fails, TransitionToCancelled is
  refused, and \<open>cancelTried\<close> cancels the open branch all the same: the payer has paid, the payee's
  branch is cancelled, and recovery refuses the voucher from then on.
\<close>

definition retry_shop :: "cluster \<Rightarrow> (ledger_error + (string \<times> string list)) \<times> cluster" where
  "retry_shop = tccBooking shop_config no_faults 5 ''2026-01-01'' shop_request ''9'' ''2026-01-01''
     [''t1'', ''t2'']"

lemma retry_splits_a_half_confirmed_voucher:
  "fst (retry_shop half_confirmed) = Inl (BranchInStatus TccStatusConfirmed) \<and>
   voucher_view (snd (retry_shop half_confirmed)) ''9'' =
     [(''t1'', TccStatusConfirmed), (''t2'', TccStatusCancelled)] \<and>
   map balance (accounts (shards (snd (retry_shop half_confirmed)) (0, 1))) = [3800] \<and>
   map balance (accounts (shards (snd (retry_shop half_confirmed)) (3, 37))) = [0] \<and>
   fst (recoverOneConfirmingTcc [] 7 (snd (retry_shop half_confirmed)) (hd (coordinators half_confirmed))) =
     Some (CancelledInConfirming ''t2'')"
  unfolding half_confirmed_def by code_simp

text \<open>
  A booking whose Try failed cancels the branches it wrote. The retry reuses their ids, finds them
  CANCELLED, and fails: once a branch was written, no retry of the order can succeed.
\<close>

definition no_try_in_db3 :: faults where
  "no_try_in_db3 = no_faults\<lparr>try_fault := \<lambda>db _. if db = 3
     then Some (Fault AtBegin (DriverError ''connection reset'')) else None\<rparr>"

lemma retry_after_cancel_never_succeeds:
  "fst (shop_run no_try_in_db3) = Inl (DriverError ''connection reset'') \<and>
   voucher_view (snd (shop_run no_try_in_db3)) ''9'' = [(''t1'', TccStatusCancelled)] \<and>
   fst (retry_shop (snd (shop_run no_try_in_db3))) = Inl (BranchInStatus TccStatusCancelled)"
  by code_simp

text \<open>A deadlock at Confirm's account lock is not retried: its error number is gone.\<close>

lemma confirm_lock_deadlock_not_retried:
  assumes "confirm_fault f db 0 = Some (Fault AtAccountLock (MySQLError 1213))"
  shows "confirmGroup f step db grp c = Inl (Opaque ''get account'')"
  using assms by (simp add: confirmGroup_def retryOnDeadlock_def isRetriableMySQLErr_def numeral_3_eq_3)

end
