(* ===== verification/Protocol.thy ===== *)
theory Protocol
  imports Recovery
begin

text \<open>
  The interleaving of one booking, the recovery worker and everybody else. A step is a committed
  group transaction of the booking (\<open>tccBooking\<close>), a coordinator statement, one cancelled or
  recovered branch (\<open>CancelTcc\<close>, \<open>recoverOneConfirmingTcc\<close>), or any change that leaves the voucher
  alone; a failed or rolled back transaction is a step not taken. The booking runs once: what a
  second run of the same order does is in theory \<open>Recovery\<close>.
\<close>

declare split_paired_All [simp del] split_paired_Ex [simp del]

datatype client_pc = ClientTrying | ClientAborted | ClientConfirming

record protocol =
  cl :: cluster
  client :: client_pc
  canceller :: bool
  completer :: bool

definition has_branch :: "TccStatus \<Rightarrow> cluster \<Rightarrow> string \<Rightarrow> bool" where
  "has_branch st c v \<longleftrightarrow> (\<exists>sid. \<exists>t\<in>set (branches (shards c sid)). tcc_id t = v \<and> branch_status t = st)"

definition phases_of :: "cluster \<Rightarrow> string \<Rightarrow> TccCoordinatorPhase set" where
  "phases_of c v = phase ` {k \<in> set (coordinators c). coord_tcc_id k = v}"

definition leaves_alone :: "string \<Rightarrow> cluster \<Rightarrow> cluster \<Rightarrow> bool" where
  "leaves_alone v c c' \<longleftrightarrow> phases_of c' v = phases_of c v \<and>
     (\<forall>st. has_branch st c' v \<longrightarrow> has_branch st c v)"

text \<open>
  \<open>canceller\<close>: some \<open>CancelTcc\<close> of the voucher has passed its \<open>TransitionToCancelled\<close>. \<open>completer\<close>:
  the recovery has read the coordinator in phase CONFIRMING.
\<close>

inductive protocol_step :: "buffer_config \<Rightarrow> DoubleEntryBookingRequest \<Rightarrow> string \<Rightarrow> string \<Rightarrow> string list \<Rightarrow>
    protocol \<Rightarrow> protocol \<Rightarrow> bool"
  for cfg req v cutDate txIDs where
  try_group: "client p = ClientTrying \<Longrightarrow>
     run_tx (tryEntry v txIDs) (dbGroup (shardEntries (Entries req)) db) (cl p, []) = Inr (c', ds) \<Longrightarrow>
     protocol_step cfg req v cutDate txIDs p (p\<lparr>cl := c'\<rparr>)"
| try_failed: "client p = ClientTrying \<Longrightarrow> c' = cl p \<or> TransitionToCancelled now (cl p) v = Inr c' \<Longrightarrow>
     protocol_step cfg req v cutDate txIDs p (p\<lparr>cl := c', client := ClientAborted\<rparr>)"
| cancel_tried: "client p = ClientAborted \<Longrightarrow> se \<in> set (shardEntries (Entries req)) \<Longrightarrow>
     protocol_step cfg req v cutDate txIDs p (p\<lparr>cl := cancelOne f txIDs se (cl p)\<rparr>)"
| confirming: "client p = ClientTrying \<Longrightarrow> TransitionToConfirming now (cl p) v = Inr c' \<Longrightarrow>
     protocol_step cfg req v cutDate txIDs p (p\<lparr>cl := c', client := ClientConfirming\<rparr>)"
| confirm_group: "client p = ClientConfirming \<Longrightarrow>
     run_tx (confirmEntry cfg now req v cutDate today txIDs ds)
       (dbGroup (shardEntries (Entries req)) db) (cl p) = Inr c' \<Longrightarrow>
     protocol_step cfg req v cutDate txIDs p (p\<lparr>cl := c'\<rparr>)"
| confirmed: "client p = ClientConfirming \<Longrightarrow> TransitionToConfirmed now (cl p) v = Inr c' \<Longrightarrow>
     protocol_step cfg req v cutDate txIDs p (p\<lparr>cl := c'\<rparr>)"
| cancel_start: "TransitionToCancelled now (cl p) v = Inr c' \<Longrightarrow>
     protocol_step cfg req v cutDate txIDs p (p\<lparr>cl := c', canceller := True\<rparr>)"
| cancel_branch: "canceller p \<Longrightarrow> CancelBranch (cl p) b n = Inr c' \<Longrightarrow>
     protocol_step cfg req v cutDate txIDs p (p\<lparr>cl := c'\<rparr>)"
| complete_start: "TccPhaseConfirming \<in> phases_of (cl p) v \<Longrightarrow>
     protocol_step cfg req v cutDate txIDs p (p\<lparr>completer := True\<rparr>)"
| complete_branch: "completer p \<Longrightarrow> confirmOneBranchFromRecovery cfg now (cl p) br sid k = Inr c' \<Longrightarrow>
     protocol_step cfg req v cutDate txIDs p (p\<lparr>cl := c'\<rparr>)"
| complete_end: "completer p \<Longrightarrow> TransitionToConfirmed now (cl p) v = Inr c' \<Longrightarrow>
     protocol_step cfg req v cutDate txIDs p (p\<lparr>cl := c'\<rparr>)"
| others: "leaves_alone v (cl p) c' \<Longrightarrow>
     protocol_step cfg req v cutDate txIDs p (p\<lparr>cl := c'\<rparr>)"

definition protocol_init :: "string \<Rightarrow> protocol \<Rightarrow> bool" where
  "protocol_init v p \<longleftrightarrow> client p = ClientTrying \<and> \<not> canceller p \<and> \<not> completer p \<and>
     phases_of (cl p) v = {TccPhaseTrying} \<and> (\<forall>st. \<not> has_branch st (cl p) v)"

section \<open>What a step does to the voucher's branches\<close>

text \<open>The statuses new in a cluster: every branch of \<open>v\<close> it has was there before, or has status \<open>st\<close>.\<close>

definition only_adds :: "TccStatus \<Rightarrow> string \<Rightarrow> cluster \<Rightarrow> cluster \<Rightarrow> bool" where
  "only_adds st v c c' \<longleftrightarrow> (\<forall>x. x \<noteq> st \<longrightarrow> has_branch x c' v \<longrightarrow> has_branch x c v)"

lemma only_adds_refl [simp]: "only_adds st v c c"
  by (simp add: only_adds_def)

lemma only_adds_trans: "only_adds st v a b \<Longrightarrow> only_adds st v b c \<Longrightarrow> only_adds st v a c"
  by (simp add: only_adds_def)

lemma has_branch_put:
  "has_branch x (put_shard c sid s) v \<Longrightarrow>
   has_branch x c v \<or> (\<exists>t\<in>set (branches s). tcc_id t = v \<and> branch_status t = x)"
  by (auto simp: has_branch_def split: if_splits)

lemma only_adds_put:
  assumes "\<And>t. t \<in> set (branches s) \<Longrightarrow> branch_status t = st \<or> t \<in> set (branches (shards c sid))"
  shows "only_adds st v c (put_shard c sid s)"
  unfolding only_adds_def
proof (intro allI impI)
  fix x assume x: "x \<noteq> st" "has_branch x (put_shard c sid s) v"
  from has_branch_put [OF x(2)] show "has_branch x c v"
  proof
    assume "\<exists>t\<in>set (branches s). tcc_id t = v \<and> branch_status t = x"
    then obtain t where t: "t \<in> set (branches s)" "tcc_id t = v" "branch_status t = x" by auto
    with assms [OF t(1)] x(1) show ?thesis by (auto simp: has_branch_def)
  qed
qed

lemma set_status_in: "t \<in> set (map (set_status b st) ts) \<Longrightarrow> branch_status t = st \<or> t \<in> set ts"
  by (auto simp: set_status_def split: if_splits)

lemma branches_updateAccount: "updateAccount s P f = Inr (n, s') \<Longrightarrow> branches s' = branches s"
  by (drule updateAccount_Inr(1)) simp

lemma CreateBranch_in: "CreateBranch s br = Inr s' \<Longrightarrow> t \<in> set (branches s') \<Longrightarrow> t = br \<or> t \<in> set (branches s)"
  by (auto simp: CreateBranch_def split: if_splits)

lemma tccTry_branches:
  assumes "tccTry s v b e a = Inr s'" "t \<in> set (branches s')"
  shows "branch_status t = TccStatusTrying \<or> t \<in> set (branches s)"
  using assms
  by (auto simp: tccTry_def Let_def split: option.splits if_splits sum.splits prod.splits
      dest!: CreateBranch_in branches_updateAccount)

lemma applyDelta_branches: "applyDelta cfg now s e a d = Inr s' \<Longrightarrow> branches s' = branches s"
  by (auto simp: applyDelta_def Upsert_def Let_def split: if_splits sum.splits prod.splits option.splits
      dest!: branches_updateAccount)

lemma ConfirmBranch_in:
  "ConfirmBranchFromTrying s b = (ok, s') \<Longrightarrow> t \<in> set (branches s') \<Longrightarrow>
   branch_status t = TccStatusConfirmed \<or> t \<in> set (branches s)"
  by (auto simp: ConfirmBranchFromTrying_def Let_def set_update_where split: if_splits)

lemma tccConfirm_branches:
  assumes "tccConfirm cfg now s b e a p known = Inr s'" "t \<in> set (branches s')"
  shows "branch_status t = TccStatusConfirmed \<or> t \<in> set (branches s)"
proof -
  have j: "CreateTransaction s x = Inr y \<Longrightarrow> branches y = branches s" for x y
    by (auto dest: CreateTransaction_Inr)
  show ?thesis using assms
    by (auto simp: tccConfirm_def Let_def UpdateBranchStatus_eq set_status_def split: sum.splits option.splits prod.splits if_splits
        dest!: j applyDelta_branches ConfirmBranch_in)
qed

lemma tccCancel_branches:
  assumes "tccCancel s b e = Inr s'" "t \<in> set (branches s')"
  shows "branch_status t = TccStatusCancelled \<or> t \<in> set (branches s)"
  using tccCancel_effect [OF assms(1)] assms(2)
  by (auto simp: cancel_new_def set_status_def split: if_splits)

text \<open>The shapes of a step's contract: statuses it may add, phases it keeps.\<close>

definition adds :: "TccStatus \<Rightarrow> string \<Rightarrow> cluster \<Rightarrow> cluster \<Rightarrow> bool" where
  "adds st v c c' \<longleftrightarrow> only_adds st v c c' \<and> phases_of c' v = phases_of c v"

lemma phases_of_cong: "coordinators c' = coordinators c \<Longrightarrow> phases_of c' v = phases_of c v"
  by (simp add: phases_of_def)

lemma adds_trans: "adds st v a b \<Longrightarrow> adds st v b c \<Longrightarrow> adds st v a c"
  using only_adds_trans by (auto simp: adds_def)

interpretation try_status: tx_steps "tryEntry w txIDs" "\<lambda>_. True" "\<lambda>(c, ds). adds TccStatusTrying v c0 c"
  for w txIDs v c0
proof (unfold_locales, clarify)
  fix se c ds c' ds'
  assume a: "adds TccStatusTrying v c0 c" and t: "tryEntry w txIDs se (c, ds) = Inr (c', ds')"
  from t obtain a s' where "tccTry (shards c (shard_of se)) w (txIDs ! se_idx se) (se_entry se) a = Inr s'"
    "c' = put_shard c (shard_of se) s'"
    by (auto simp: tryEntry_def Let_def split: option.splits sum.splits)
  then have "adds TccStatusTrying v c c'"
    by (auto simp: adds_def phases_of_def intro!: only_adds_put dest: tccTry_branches)
  with a show "adds TccStatusTrying v c0 c'" by (rule adds_trans)
qed

interpretation confirm_status: tx_steps "confirmEntry cfg now req w cutDate today txIDs ds" "\<lambda>_. True"
  "\<lambda>c. adds TccStatusConfirmed v c0 c"
  for cfg now req w cutDate today txIDs ds v c0
proof (unfold_locales)
  fix se c c'
  assume a: "adds TccStatusConfirmed v c0 c"
    and t: "confirmEntry cfg now req w cutDate today txIDs ds se c = Inr c'"
  from t obtain a p k s' where "tccConfirm cfg now (shards c (shard_of se)) (txIDs ! se_idx se) (se_entry se) a p k = Inr s'"
    "c' = put_shard c (shard_of se) s'"
    by (auto simp: confirmEntry_def Let_def split: option.splits sum.splits)
  then have "adds TccStatusConfirmed v c c'"
    by (auto simp: adds_def phases_of_def intro!: only_adds_put dest: tccConfirm_branches)
  with a show "adds TccStatusConfirmed v c0 c'" by (rule adds_trans)
qed

lemma cancelOne_adds: "adds TccStatusCancelled v c (cancelOne f txIDs se c)"
  by (auto simp: cancelOne_def Let_def adds_def phases_of_def split: option.splits sum.splits
      intro!: only_adds_put dest: tccCancel_branches)

lemma CancelBranch_adds:
  assumes "CancelBranch c b n = Inr c'"
  shows "adds TccStatusCancelled v c c'"
proof -
  have "c' = c \<or> (\<exists>s'. tccCancel (shards c (RouteByAccountNo NewRouter n)) b
      \<lparr>AccountNo = n, DebitAmount = 0, CreditAmount = 0, EntryDescription = []\<rparr> = Inr s' \<and>
      c' = put_shard c (RouteByAccountNo NewRouter n) s')"
    using assms by (auto simp: CancelBranch_def tccCancel_def Let_def
        split: option.splits TccStatus.splits sum.splits if_splits)
  then show ?thesis
    by (auto simp: adds_def phases_of_def intro!: only_adds_put dest: tccCancel_branches)
qed

lemma recovery_adds:
  assumes "confirmOneBranchFromRecovery cfg now c br sid k = Inr c'"
  shows "adds TccStatusConfirmed v c c'"
  using assms
  by (auto simp: confirmOneBranchFromRecovery_def Let_def adds_def phases_of_def
      split: option.splits if_splits sum.splits intro!: only_adds_put dest: tccConfirm_branches)


section \<open>What a coordinator statement does\<close>

lemma phases_coordUpdate:
  "phases_of (snd (coordUpdate now c v from to)) v =
   (\<lambda>ph. if ph \<in> set from then to else ph) ` phases_of c v"
proof -
  define u :: "TccCoordinator \<Rightarrow> TccCoordinator" where "u = (\<lambda>k. if coord_tcc_id k = v \<and> phase k \<in> set from
      then (if phase k = to then k else k\<lparr>phase := to, coord_updated_at := now\<rparr>) else k)"
  have id: "coord_tcc_id (u k) = coord_tcc_id k" for k by (simp add: u_def)
  have ph: "coord_tcc_id k = v \<Longrightarrow> phase (u k) = (if phase k \<in> set from then to else phase k)" for k
    by (simp add: u_def)
  have c: "set (coordinators (snd (coordUpdate now c v from to))) = u ` set (coordinators c)"
    by (simp add: coordUpdate_def Let_def set_update_where u_def)
  have "{k \<in> u ` set (coordinators c). coord_tcc_id k = v} = u ` {k \<in> set (coordinators c). coord_tcc_id k = v}"
    by (auto simp: id)
  then have "phases_of (snd (coordUpdate now c v from to)) v =
      (\<lambda>k. phase (u k)) ` {k \<in> set (coordinators c). coord_tcc_id k = v}"
    by (simp only: phases_of_def c image_image)
  also have "\<dots> = (\<lambda>k. if phase k \<in> set from then to else phase k) ` {k \<in> set (coordinators c). coord_tcc_id k = v}"
    by (rule image_cong [OF refl]) (simp add: ph)
  finally show ?thesis by (simp only: phases_of_def image_image)
qed

lemma shards_coordUpdate [simp]: "shards (snd (coordUpdate now c v from to)) = shards c"
  by (simp add: coordUpdate_def Let_def)

lemma count_phases: "fst (coordUpdate now c v from to) \<noteq> 0 \<Longrightarrow> \<exists>ph\<in>set from. ph \<in> phases_of c v"
  by (auto simp: coordUpdate_def Let_def count_where_def filter_empty_conv phases_of_def)

lemma guard_Inr: "(let (n, c') = q in if n = 0 then Inl e else Inr c') = Inr d \<Longrightarrow> fst q \<noteq> (0::nat) \<and> d = snd q"
  by (cases q) (auto split: if_splits)

lemma Transition_Inr:
  "TransitionToConfirming now c v = Inr c' \<Longrightarrow>
   fst (coordUpdate now c v [TccPhaseTrying] TccPhaseConfirming) \<noteq> 0 \<and>
   c' = snd (coordUpdate now c v [TccPhaseTrying] TccPhaseConfirming)"
  "TransitionToConfirmed now c v = Inr c' \<Longrightarrow>
   fst (coordUpdate now c v [TccPhaseConfirming, TccPhaseConfirmed] TccPhaseConfirmed) \<noteq> 0 \<and>
   c' = snd (coordUpdate now c v [TccPhaseConfirming, TccPhaseConfirmed] TccPhaseConfirmed)"
  "TransitionToCancelled now c v = Inr c' \<Longrightarrow>
   fst (coordUpdate now c v [TccPhaseTrying, TccPhaseCancelled] TccPhaseCancelled) \<noteq> 0 \<and>
   c' = snd (coordUpdate now c v [TccPhaseTrying, TccPhaseCancelled] TccPhaseCancelled)"
  unfolding TransitionToConfirming_def TransitionToConfirmed_def TransitionToCancelled_def
  by (rule guard_Inr, assumption)+

lemma has_branch_shards: "shards c' = shards c \<Longrightarrow> has_branch st c' v = has_branch st c v"
  by (simp add: has_branch_def)

text \<open>Each transition, on a voucher with one coordinator row.\<close>

lemma coordinator_transition:
  assumes "phases_of c v = {x}"
  shows "TransitionToConfirming now c v = Inr c' \<Longrightarrow>
      x = TccPhaseTrying \<and> phases_of c' v = {TccPhaseConfirming} \<and> shards c' = shards c"
    and "TransitionToConfirmed now c v = Inr c' \<Longrightarrow>
      x \<in> {TccPhaseConfirming, TccPhaseConfirmed} \<and> phases_of c' v = {TccPhaseConfirmed} \<and> shards c' = shards c"
    and "TransitionToCancelled now c v = Inr c' \<Longrightarrow>
      x \<in> {TccPhaseTrying, TccPhaseCancelled} \<and> phases_of c' v = {TccPhaseCancelled} \<and> shards c' = shards c"
proof -
  show "TransitionToConfirming now c v = Inr c' \<Longrightarrow>
      x = TccPhaseTrying \<and> phases_of c' v = {TccPhaseConfirming} \<and> shards c' = shards c"
    using assms Transition_Inr(1) [of now c v c'] count_phases [of now c v "[TccPhaseTrying]" TccPhaseConfirming]
    by (simp add: phases_coordUpdate)
  show "TransitionToConfirmed now c v = Inr c' \<Longrightarrow>
      x \<in> {TccPhaseConfirming, TccPhaseConfirmed} \<and> phases_of c' v = {TccPhaseConfirmed} \<and> shards c' = shards c"
    using assms Transition_Inr(2) [of now c v c']
      count_phases [of now c v "[TccPhaseConfirming, TccPhaseConfirmed]" TccPhaseConfirmed]
    by (auto simp: phases_coordUpdate)
  show "TransitionToCancelled now c v = Inr c' \<Longrightarrow>
      x \<in> {TccPhaseTrying, TccPhaseCancelled} \<and> phases_of c' v = {TccPhaseCancelled} \<and> shards c' = shards c"
    using assms Transition_Inr(3) [of now c v c']
      count_phases [of now c v "[TccPhaseTrying, TccPhaseCancelled]" TccPhaseCancelled]
    by (auto simp: phases_coordUpdate)
qed

section \<open>The invariant\<close>

definition past_try :: "TccCoordinatorPhase \<Rightarrow> bool" where
  "past_try x \<longleftrightarrow> x = TccPhaseConfirming \<or> x = TccPhaseConfirmed"

definition voucher_inv :: "string \<Rightarrow> protocol \<Rightarrow> bool" where
  "voucher_inv v p \<longleftrightarrow> (\<exists>x. phases_of (cl p) v = {x} \<and>
     (client p = ClientConfirming \<longleftrightarrow> past_try x) \<and>
     (canceller p \<longrightarrow> x = TccPhaseCancelled) \<and>
     (completer p \<longrightarrow> past_try x) \<and>
     (has_branch TccStatusConfirmed (cl p) v \<longrightarrow> past_try x) \<and>
     (has_branch TccStatusCancelled (cl p) v \<longrightarrow> \<not> past_try x \<and> (x = TccPhaseCancelled \<or> client p = ClientAborted)))"

lemma voucher_inv_adds:
  assumes "voucher_inv v p" "adds st v (cl p) c'"
    and "st = TccStatusConfirmed \<Longrightarrow> client p = ClientConfirming \<or> completer p"
    and "st = TccStatusCancelled \<Longrightarrow> canceller p \<or> client p = ClientAborted"
  shows "voucher_inv v (p\<lparr>cl := c'\<rparr>)"
proof -
  from assms(1) obtain x where x: "phases_of (cl p) v = {x}"
    "client p = ClientConfirming \<longleftrightarrow> past_try x"
    "canceller p \<longrightarrow> x = TccPhaseCancelled" "completer p \<longrightarrow> past_try x"
    "has_branch TccStatusConfirmed (cl p) v \<longrightarrow> past_try x"
    "has_branch TccStatusCancelled (cl p) v \<longrightarrow> \<not> past_try x \<and> (x = TccPhaseCancelled \<or> client p = ClientAborted)"
    unfolding voucher_inv_def by blast
  have p: "phases_of c' v = {x}" using assms(2) x(1) by (simp add: adds_def)
  have c: "has_branch TccStatusConfirmed c' v \<longrightarrow> past_try x"
    using assms(2,3) x by (cases "st = TccStatusConfirmed") (auto simp: adds_def only_adds_def)
  have k: "has_branch TccStatusCancelled c' v \<longrightarrow> \<not> past_try x \<and> (x = TccPhaseCancelled \<or> client p = ClientAborted)"
    using assms(2,4) x by (cases "st = TccStatusCancelled") (auto simp: adds_def only_adds_def past_try_def)
  show ?thesis unfolding voucher_inv_def using p c k x by (intro exI [of _ x]) simp
qed

lemma voucher_inv_init: "protocol_init v p \<Longrightarrow> voucher_inv v p"
  by (auto simp: protocol_init_def voucher_inv_def past_try_def)

lemma voucher_inv_coord:
  assumes "voucher_inv v p" "phases_of (cl p') v = {y}" "shards (cl p') = shards (cl p)"
    and "client p' = ClientConfirming \<longleftrightarrow> past_try y" "canceller p' \<Longrightarrow> y = TccPhaseCancelled"
    and "completer p' \<Longrightarrow> completer p" "client p = ClientAborted \<Longrightarrow> client p' = ClientAborted"
    and "\<And>x. phases_of (cl p) v = {x} \<Longrightarrow> past_try x \<Longrightarrow> past_try y"
    and "\<And>x. phases_of (cl p) v = {x} \<Longrightarrow> x = TccPhaseCancelled \<Longrightarrow> y = TccPhaseCancelled"
  shows "voucher_inv v p'"
proof -
  from assms(1) obtain x where x: "phases_of (cl p) v = {x}"
    "client p = ClientConfirming \<longleftrightarrow> past_try x"
    "canceller p \<longrightarrow> x = TccPhaseCancelled" "completer p \<longrightarrow> past_try x"
    "has_branch TccStatusConfirmed (cl p) v \<longrightarrow> past_try x"
    "has_branch TccStatusCancelled (cl p) v \<longrightarrow> \<not> past_try x \<and> (x = TccPhaseCancelled \<or> client p = ClientAborted)"
    unfolding voucher_inv_def by blast
  note mono = assms(8) [OF x(1)] assms(9) [OF x(1)]
  have np: "\<not> past_try TccPhaseCancelled" by (simp add: past_try_def)
  have "has_branch TccStatusCancelled (cl p) v \<longrightarrow> \<not> past_try y \<and> (y = TccPhaseCancelled \<or> client p' = ClientAborted)"
    using x(6) mono assms(4,7) np by (metis client_pc.distinct(5))
  then show ?thesis unfolding voucher_inv_def has_branch_shards [OF assms(3)]
    using assms(2,4,5,6) x(4,5) mono(1) by blast
qed

lemma voucher_inv_step:
  assumes "protocol_step cfg req v cutDate txIDs p p'" "voucher_inv v p"
  shows "voucher_inv v p'"
  using assms
proof (induction rule: protocol_step.induct)
  case (try_group p db c' ds)
  have "adds TccStatusTrying v (cl p) c'"
    using try_status.run_inv [OF _ _ try_group(2), of v "cl p"] by (simp add: list_all_iff adds_def)
  from voucher_inv_adds [OF try_group(3) this] show ?case by simp
next
  case (try_failed p c' now)
  then obtain x where x: "phases_of (cl p) v = {x}" "\<not> past_try x"
    unfolding voucher_inv_def by auto
  from try_failed(2) have "\<exists>y. phases_of c' v = {y} \<and> shards c' = shards (cl p) \<and> \<not> past_try y \<and>
      (x = TccPhaseCancelled \<longrightarrow> y = TccPhaseCancelled)"
  proof
    assume "c' = cl p" with x show ?thesis by simp
  next
    assume "TransitionToCancelled now (cl p) v = Inr c'"
    from coordinator_transition(3) [OF x(1) this] show ?thesis by (auto simp: past_try_def)
  qed
  then obtain y where y: "phases_of c' v = {y}" "shards c' = shards (cl p)" "\<not> past_try y"
      "x = TccPhaseCancelled \<longrightarrow> y = TccPhaseCancelled" by blast
  show ?case
    by (rule voucher_inv_coord [OF try_failed(3), where y = y])
      (use x y try_failed(1,3) in \<open>auto simp: voucher_inv_def\<close>)
next
  case (cancel_tried p se f)
  from voucher_inv_adds [OF cancel_tried(3) cancelOne_adds] cancel_tried(1) show ?case by simp
next
  case (confirming p now c')
  then obtain x where x: "phases_of (cl p) v = {x}" unfolding voucher_inv_def by blast
  note t = coordinator_transition(1) [OF x confirming(2)]
  show ?case
    by (rule voucher_inv_coord [OF confirming(3), where y = TccPhaseConfirming])
      (use t x confirming(1,3) in \<open>auto simp: past_try_def voucher_inv_def\<close>)
next
  case (confirm_group p now today ds db c')
  have "adds TccStatusConfirmed v (cl p) c'"
    using confirm_status.run_inv [OF _ _ confirm_group(2), of v "cl p"] by (simp add: list_all_iff adds_def)
  from voucher_inv_adds [OF confirm_group(3) this] confirm_group(1) show ?case by simp
next
  case (confirmed p now c')
  then obtain x where x: "phases_of (cl p) v = {x}" unfolding voucher_inv_def by blast
  note t = coordinator_transition(2) [OF x confirmed(2)]
  show ?case
    by (rule voucher_inv_coord [OF confirmed(3), where y = TccPhaseConfirmed])
      (use t x confirmed(1,3) in \<open>auto simp: past_try_def voucher_inv_def\<close>)
next
  case (cancel_start now p c')
  then obtain x where x: "phases_of (cl p) v = {x}" unfolding voucher_inv_def by blast
  note t = coordinator_transition(3) [OF x cancel_start(1)]
  show ?case
    by (rule voucher_inv_coord [OF cancel_start(2), where y = TccPhaseCancelled])
      (use t x cancel_start(2) in \<open>auto simp: past_try_def voucher_inv_def\<close>)
next
  case (cancel_branch p b n c')
  from voucher_inv_adds [OF cancel_branch(3) CancelBranch_adds [OF cancel_branch(2)]] cancel_branch(1) show ?case by simp
next
  case (complete_start p)
  then obtain x where x: "phases_of (cl p) v = {x}" unfolding voucher_inv_def by blast
  with complete_start show ?case by (auto simp: voucher_inv_def past_try_def)
next
  case (complete_branch p now br sid k c')
  from voucher_inv_adds [OF complete_branch(3) recovery_adds [OF complete_branch(2)]] complete_branch(1) show ?case by simp
next
  case (complete_end p now c')
  then obtain x where x: "phases_of (cl p) v = {x}" unfolding voucher_inv_def by blast
  note t = coordinator_transition(2) [OF x complete_end(2)]
  show ?case
    by (rule voucher_inv_coord [OF complete_end(3), where y = TccPhaseConfirmed])
      (use t x complete_end(1,3) in \<open>auto simp: past_try_def voucher_inv_def\<close>)
next
  case (others p c')
  then have "adds TccStatusTrying v (cl p) c'"
    by (auto simp: leaves_alone_def adds_def only_adds_def)
  from voucher_inv_adds [OF others(2) this] show ?case by simp
qed


lemma voucher_inv_reachable:
  "(protocol_step cfg req v cutDate txIDs)\<^sup>*\<^sup>* p p' \<Longrightarrow> voucher_inv v p \<Longrightarrow> voucher_inv v p'"
  by (induction rule: rtranclp_induct) (auto intro: voucher_inv_step)

section \<open>Properties\<close>


definition shop_start :: protocol where
  "shop_start = \<lparr>cl = coordCreate 0 ''2026-01-01'' shop_cluster ''9'' ''b1'' ''2026-01-01'' ''PHP'' 2,
     client = ClientTrying, canceller = False, completer = False\<rparr>"


end
