(* ===== verification/Buffer.thy ===== *)
theory Buffer
  imports TccBooking
begin

text \<open>
  The flush of buffered balances: \<open>buffered_balance_worker.go\<close> with the buffer repository
  (\<open>balance_buffer_repository.go\<close>), and the reads that lay the pending delta over an account
  (\<open>overlayPendingDelta\<close>, \<open>GetAccount\<close>). A flush moves money from a buffer row to its account, so the
  sum of both is what every flush keeps.
\<close>

declare split_paired_All [simp del] split_paired_Ex [simp del]

section \<open>The buffer repository\<close>

abbreviation (input) BufferFlushThreshold :: int where "BufferFlushThreshold \<equiv> 100"
abbreviation (input) BufferBatchSize :: nat where "BufferBatchSize \<equiv> 100"

text \<open>\<open>ORDER BY pending_count DESC, flush_scheduled_at ASC\<close>: a NULL schedule sorts first, and rows
  that tie stay in table order.\<close>

definition bySchedule :: "AccountBalanceBuffer list \<Rightarrow> AccountBalanceBuffer list" where
  "bySchedule bs = filter (\<lambda>b. flush_scheduled_at b = None) bs @
     sort_key (\<lambda>b. the (flush_scheduled_at b)) (filter (\<lambda>b. flush_scheduled_at b \<noteq> None) bs)"

definition isDue :: "int \<Rightarrow> AccountBalanceBuffer \<Rightarrow> bool" where
  "isDue now b \<longleftrightarrow> (case flush_scheduled_at b of None \<Rightarrow> True | Some t \<Rightarrow> t \<le> now) \<or>
     pending_count b \<ge> BufferFlushThreshold"

definition FindDueForFlush :: "shard \<Rightarrow> nat \<Rightarrow> int \<Rightarrow> AccountBalanceBuffer list" where
  "FindDueForFlush s limit now =
     take limit (sort_key (\<lambda>b. - pending_count b) (bySchedule (filter (isDue now) (buffers s))))"

text \<open>\<open>SKIP LOCKED\<close>: a row another transaction holds is not returned.\<close>

definition LockRow :: "shard \<Rightarrow> (string \<Rightarrow> bool) \<Rightarrow> string \<Rightarrow> AccountBalanceBuffer option" where
  "LockRow s locked n = (if locked n then None else select_one (\<lambda>b. buf_account b = n) (buffers s))"

definition RescheduleRow :: "shard \<Rightarrow> string \<Rightarrow> int \<Rightarrow> shard" where
  "RescheduleRow s n t = s\<lparr>buffers := update_where (\<lambda>b. buf_account b = n)
     (\<lambda>b. b\<lparr>pending_delta := 0, pending_count := 0, flush_scheduled_at := Some t\<rparr>) (buffers s)\<rparr>"

definition DeleteRow :: "shard \<Rightarrow> string \<Rightarrow> shard" where
  "DeleteRow s n = s\<lparr>buffers := filter (\<lambda>b. buf_account b \<noteq> n) (buffers s)\<rparr>"

definition GetPendingDelta :: "shard \<Rightarrow> string \<Rightarrow> int" where
  "GetPendingDelta s n =
     (case select_one (\<lambda>b. buf_account b = n) (buffers s) of None \<Rightarrow> 0 | Some b \<Rightarrow> pending_delta b)"

section \<open>The flush worker\<close>

text \<open>What one sweep of a shard meets: a failing query, rows locked by another worker, and rows
  whose transaction fails at some statement or at commit.\<close>

record flush_env =
  query_fails :: bool
  locked_elsewhere :: "string \<Rightarrow> bool"
  row_fault :: "string \<Rightarrow> ledger_error option"

definition quiet :: flush_env where
  "quiet = \<lparr>query_fails = False, locked_elsewhere = (\<lambda>_. False), row_fault = (\<lambda>_. None)\<rparr>"

definition flushToAccount :: "shard \<Rightarrow> AccountBalanceBuffer \<Rightarrow> ledger_error + shard" where
  "flushToAccount s b =
     (if pending_delta b \<noteq> 0 \<or> pending_count b > 0
      then case updateAccount s (\<lambda>a. acc_no a = buf_account b)
                  (addToAccount (pending_delta b) (if pending_delta b > 0 then pending_delta b else 0)) of
             Inl e \<Rightarrow> Inl e
           | Inr (n, s') \<Rightarrow> if n = 0 then Inl (AccountNotFound (buf_account b)) else Inr s'
      else Inr s)"

definition flushRow :: "buffer_config \<Rightarrow> flush_env \<Rightarrow> int \<Rightarrow> shard \<Rightarrow> AccountBalanceBuffer \<Rightarrow>
    ledger_error + shard" where
  "flushRow cfg env now s row =
     (let n = buf_account row
      in case row_fault env n of
           Some e \<Rightarrow> Inl e
         | None \<Rightarrow>
             (case LockRow s (locked_elsewhere env) n of
                None \<Rightarrow> Inr s
              | Some b \<Rightarrow>
                  (case flushToAccount s b of
                     Inl e \<Rightarrow> Inl e
                   | Inr s' \<Rightarrow>
                       let interval = FlushIntervalForAccount cfg n
                       in Inr (if interval > BufferFlushInterval * second
                               then RescheduleRow s' n (case flush_scheduled_at b of
                                      Some t \<Rightarrow> t + interval | None \<Rightarrow> now + interval)
                               else DeleteRow s' n))))"

definition flushOne :: "buffer_config \<Rightarrow> flush_env \<Rightarrow> int \<Rightarrow> shard \<Rightarrow> AccountBalanceBuffer \<Rightarrow> shard" where
  "flushOne cfg env now s row = (case flushRow cfg env now s row of Inl e \<Rightarrow> s | Inr s' \<Rightarrow> s')"

definition flushShard :: "buffer_config \<Rightarrow> flush_env \<Rightarrow> int \<Rightarrow> shard \<Rightarrow> shard" where
  "flushShard cfg env now s =
     (if query_fails env then s
      else foldl (flushOne cfg env now) s (FindDueForFlush s BufferBatchSize now))"

definition flushAll :: "buffer_config \<Rightarrow> (shard_id \<Rightarrow> flush_env) \<Rightarrow> int \<Rightarrow> cluster \<Rightarrow> cluster" where
  "flushAll cfg envs now c =
     foldl (\<lambda>c sid. put_shard c sid (flushShard cfg (envs sid) now (shards c sid))) c
       (GetAllShards NewRouter)"

section \<open>Reading an account\<close>

definition overlayPendingDelta :: "buffer_config \<Rightarrow> cluster \<Rightarrow> Account \<Rightarrow> Account" where
  "overlayPendingDelta cfg c a =
     (if \<not> IsAccountCanNegative (acc_type a) \<and> \<not> isBufferedAccount cfg (acc_no a) then a
      else let delta = GetPendingDelta (shards c (RouteByAccountNo NewRouter (acc_no a))) (acc_no a)
           in if delta = 0 then a
              else a\<lparr>balance := add64 (balance a) delta,
                     available_balance := add64 (available_balance a) delta\<rparr>)"

definition GetAccount :: "buffer_config \<Rightarrow> cluster \<Rightarrow> string \<Rightarrow> Account option" where
  "GetAccount cfg c n =
     map_option (overlayPendingDelta cfg c)
       (select_one (\<lambda>a. acc_no a = n) (accounts (shards c (RouteByAccountNo NewRouter n))))"

section \<open>One row\<close>

lemma flushToAccount_effect:
  assumes "flushToAccount s b = Inr s'"
  shows "s' = s\<lparr>accounts := if pending_delta b \<noteq> 0 \<or> pending_count b > 0
      then map (moved (buf_account b) (pending_delta b) (max (pending_delta b) 0)) (accounts s)
      else accounts s\<rparr>"
    and "pending_delta b \<noteq> 0 \<Longrightarrow> \<exists>a\<in>set (accounts s). acc_no a = buf_account b"
proof -
  have mx: "(if pending_delta b > 0 then pending_delta b else 0) = max (pending_delta b) 0"
    by simp
  show "s' = s\<lparr>accounts := if pending_delta b \<noteq> 0 \<or> pending_count b > 0
      then map (moved (buf_account b) (pending_delta b) (max (pending_delta b) 0)) (accounts s)
      else accounts s\<rparr>"
    using assms unfolding flushToAccount_def mx
    by (auto split: if_splits sum.splits dest!: updateAccount_moved(1))
  show "\<exists>a\<in>set (accounts s). acc_no a = buf_account b" if "pending_delta b \<noteq> 0"
    using assms that unfolding flushToAccount_def mx
    by (auto split: if_splits sum.splits dest!: updateAccount_moved(2) simp: count_where_def filter_empty_conv)
qed

lemma GetPendingDelta_pending:
  "distinct (map buf_account (buffers s)) \<Longrightarrow> GetPendingDelta s n = pending s n"
proof (unfold GetPendingDelta_def pending_def, induction "buffers s" arbitrary: s)
  case Nil
  then show ?case by (simp add: select_one_def)
next
  case (Cons b bs)
  let ?s = "s\<lparr>buffers := bs\<rparr>"
  have z: "sum_where (\<lambda>b. buf_account b = n) pending_delta bs = 0" if "n \<notin> buf_account ` set bs"
    using that by (induction bs) auto
  from Cons(3) Cons(2) have "distinct (buf_account b # map buf_account bs)" by (metis list.simps(9))
  with Cons(1) [of ?s] Cons(2) [symmetric] z show ?case
    by (auto simp: select_one_def)
qed

lemma pending_empty: "n \<notin> buf_account ` set bs \<Longrightarrow> sum_where (\<lambda>b. buf_account b = n) pending_delta bs = 0"
  by (induction bs) auto

lemma pending_delete: "pending (DeleteRow s n) k = (if k = n then 0 else pending s k)"
proof -
  have e: "sum_where (\<lambda>b. buf_account b = k) pending_delta (filter (\<lambda>b. buf_account b \<noteq> n) bs) =
        (if k = n then 0 else sum_where (\<lambda>b. buf_account b = k) pending_delta bs)" for bs
    by (induction bs) auto
  show ?thesis by (simp add: DeleteRow_def pending_def e)
qed

lemma pending_reschedule: "pending (RescheduleRow s n t) k = (if k = n then 0 else pending s k)"
proof -
  have e: "sum_where (\<lambda>b. buf_account b = k) pending_delta (update_where (\<lambda>b. buf_account b = n)
          (\<lambda>b. b\<lparr>pending_delta := 0, pending_count := 0, flush_scheduled_at := Some t\<rparr>) bs) =
        (if k = n then 0 else sum_where (\<lambda>b. buf_account b = k) pending_delta bs)" for bs
    by (induction bs) (auto simp: update_where_def)
  show ?thesis by (simp add: RescheduleRow_def pending_def e)
qed

text \<open>A row is left alone, or its delta is added to its account and the row emptied.\<close>

definition settled :: "shard \<Rightarrow> string \<Rightarrow> shard \<Rightarrow> bool" where
  "settled s n s' \<longleftrightarrow>
     (\<exists>d. d = pending s n \<and> (d \<noteq> 0 \<longrightarrow> (\<exists>a\<in>set (accounts s). acc_no a = n)) \<and>
        (accounts s' = map (moved n d (max d 0)) (accounts s) \<or> d = 0 \<and> accounts s' = accounts s)) \<and>
     branches s' = branches s \<and> journal s' = journal s \<and>
     (\<forall>k. pending s' k = (if k = n then 0 else pending s k)) \<and>
     (\<exists>f. buffers s' = update_where (\<lambda>b. buf_account b = n) f (buffers s) \<and> (\<forall>b. buf_account (f b) = buf_account b)
        \<or> buffers s' = filter (\<lambda>b. buf_account b \<noteq> n) (buffers s))"

lemma flushRow_effect:
  assumes "flushRow cfg env now s row = Inr s'" "distinct (map buf_account (buffers s))"
  shows "s' = s \<or> settled s (buf_account row) s'"
proof (cases "LockRow s (locked_elsewhere env) (buf_account row)")
  case None
  with assms show ?thesis by (auto simp: flushRow_def Let_def split: option.splits)
next
  case (Some b)
  then have sel: "select_one (\<lambda>b. buf_account b = buf_account row) (buffers s) = Some b"
    by (simp add: LockRow_def split: if_splits)
  then have n: "buf_account b = buf_account row" and d: "pending_delta b = pending s (buf_account row)"
    using GetPendingDelta_pending [OF assms(2), of "buf_account row"]
    by (auto simp: GetPendingDelta_def dest: select_one_Some)
  from Some assms(1) obtain s1 t where s1: "flushToAccount s b = Inr s1"
    and s': "s' = RescheduleRow s1 (buf_account row) t \<or> s' = DeleteRow s1 (buf_account row)"
    by (auto simp: flushRow_def Let_def split: option.splits sum.splits if_splits)
  note e = flushToAccount_effect [OF s1, unfolded n d]
  have "pending s1 k = pending s k" for k by (simp add: e(1))
  then have p: "pending s' k = (if k = buf_account row then 0 else pending s k)" for k
    using s' by (auto simp: pending_delete pending_reschedule)
  have a: "accounts s' = accounts s1" "branches s' = branches s" "journal s' = journal s"
    using s' by (auto simp: e(1) RescheduleRow_def DeleteRow_def)
  have "settled s (buf_account row) s'"
    unfolding settled_def a(2,3)
  proof (intro conjI exI [of _ "pending s (buf_account row)"] refl impI allI p)
    show "\<exists>a\<in>set (accounts s). acc_no a = buf_account row" if "pending s (buf_account row) \<noteq> 0"
      using e(2) that .
    show "accounts s' = map (moved (buf_account row) (pending s (buf_account row))
        (max (pending s (buf_account row)) 0)) (accounts s) \<or>
      pending s (buf_account row) = 0 \<and> accounts s' = accounts s"
      unfolding a(1) e(1) by simp
    show "\<exists>f. buffers s' = update_where (\<lambda>b. buf_account b = buf_account row) f (buffers s) \<and>
        (\<forall>b. buf_account (f b) = buf_account b) \<or>
        buffers s' = filter (\<lambda>b. buf_account b \<noteq> buf_account row) (buffers s)"
    proof (cases "s' = DeleteRow s1 (buf_account row)")
      case True
      then show ?thesis by (simp add: DeleteRow_def e(1))
    next
      case False
      with s' have "s' = RescheduleRow s1 (buf_account row) t" by blast
      then show ?thesis
        by (intro exI [of _ "\<lambda>b. b\<lparr>pending_delta := 0, pending_count := 0, flush_scheduled_at := Some t\<rparr>"])
          (simp add: RescheduleRow_def e(1))
    qed
  qed
  then show ?thesis ..
qed

section \<open>A sweep of rows\<close>

locale sweep =
  fixes step :: "'s \<Rightarrow> 'r \<Rightarrow> 's"
    and inv :: "'s \<Rightarrow> bool"
    and rel :: "'s \<Rightarrow> 's \<Rightarrow> bool"
  assumes step_inv: "inv s \<Longrightarrow> inv (step s r)"
    and step_rel: "inv s \<Longrightarrow> rel s (step s r)"
    and rel_refl: "rel s s"
    and rel_trans: "rel s t \<Longrightarrow> rel t u \<Longrightarrow> rel s u"
begin

lemma sweep_inv: "inv s \<Longrightarrow> inv (foldl step s rs)"
  by (induction rs arbitrary: s) (auto intro: step_inv)

lemma sweep_rel: "inv s \<Longrightarrow> rel s (foldl step s rs)"
  by (induction rs arbitrary: s) (auto intro: rel_refl rel_trans step_rel step_inv)

end

text \<open>What a flush may not change: everything of an account but its three money columns and its
  version, the sum of balance and pending delta, the branches and the journal.\<close>

definition identity :: "Account \<Rightarrow> Account" where
  "identity a = a\<lparr>balance := 0, available_balance := 0, version := 0\<rparr>"

definition effective :: "shard \<Rightarrow> (Account \<times> int) list" where
  "effective s = map (\<lambda>a. (identity a, balance a + pending s (acc_no a))) (accounts s)"

definition same_money :: "shard \<Rightarrow> shard \<Rightarrow> bool" where
  "same_money s s' \<longleftrightarrow> effective s' = effective s \<and> branches s' = branches s \<and> journal s' = journal s"

text \<open>Buffer rows belong to accounts that book through the buffer.\<close>

definition flush_inv :: "buffer_config \<Rightarrow> shard \<Rightarrow> bool" where
  "flush_inv cfg s \<longleftrightarrow> ledger_inv cfg s \<and>
     (\<forall>b\<in>set (buffers s). \<forall>a\<in>set (accounts s). acc_no a = buf_account b \<longrightarrow> useBuffer cfg a)"

lemma same_money_refl: "same_money s s" and
  same_money_trans: "same_money s t \<Longrightarrow> same_money t u \<Longrightarrow> same_money s u"
  by (simp_all add: same_money_def)

lemma identity_moved [simp]: "identity (moved n d v a) = identity a"
  by (simp add: identity_def moved_def)

lemma settled_same_money:
  assumes "settled s n s'"
  shows "same_money s s'"
proof -
  from assms obtain d where d: "d = pending s n"
    and acc: "accounts s' = map (moved n d (max d 0)) (accounts s) \<or> d = 0 \<and> accounts s' = accounts s"
    and p: "\<And>k. pending s' k = (if k = n then 0 else pending s k)"
    and r: "branches s' = branches s" "journal s' = journal s"
    unfolding settled_def by blast
  have "balance (moved n d v a) + pending s' (acc_no a) = balance a + pending s (acc_no a)" for v a
    by (simp add: moved_def p d)
  moreover have "balance a + pending s' (acc_no a) = balance a + pending s (acc_no a)" if "d = 0" for a
    using that by (simp add: p d)
  ultimately have "effective s' = effective s"
    using acc by (auto simp: effective_def)
  with r show ?thesis by (simp add: same_money_def)
qed

lemma settled_pending: "settled s n s' \<Longrightarrow> pending s' k = (if k = n then 0 else pending s k)"
  unfolding settled_def by blast

lemma settled_keys:
  assumes "settled s n s'" "keys_unique s"
  shows "keys_unique s'" "buf_account ` set (buffers s') \<subseteq> buf_account ` set (buffers s)"
proof -
  from assms(1) have acc: "map acc_no (accounts s') = map acc_no (accounts s)"
    and r: "branches s' = branches s" "journal s' = journal s"
    unfolding settled_def by auto
  from assms(1) obtain f where
    "buffers s' = update_where (\<lambda>b. buf_account b = n) f (buffers s) \<and> (\<forall>b. buf_account (f b) = buf_account b)
     \<or> buffers s' = filter (\<lambda>b. buf_account b \<noteq> n) (buffers s)"
    unfolding settled_def by blast
  then have b: "map buf_account (buffers s') = map buf_account (buffers s) \<or>
      buffers s' = filter (\<lambda>b. buf_account b \<noteq> n) (buffers s)"
    by (auto simp: map_update_where)
  then have "distinct (map buf_account (buffers s'))"
    using assms(2) by (auto simp: keys_unique_def distinct_map_filter)
  with acc r assms(2) show "keys_unique s'" by (simp add: keys_unique_def)
  from b show "buf_account ` set (buffers s') \<subseteq> buf_account ` set (buffers s)"
    by (metis filter_is_subset image_mono list.set_map order_refl)
qed

lemma settled_flush_inv:
  assumes st: "settled s n s'" and iv: "flush_inv cfg s"
  shows "flush_inv cfg s'"
proof -
  from iv have u: "keys_unique s" and h: "branches_held s" and f: "funds_covered cfg s"
    and own: "\<And>b a. b \<in> set (buffers s) \<Longrightarrow> a \<in> set (accounts s) \<Longrightarrow> acc_no a = buf_account b \<Longrightarrow> useBuffer cfg a"
    by (auto simp: flush_inv_def ledger_inv_def)
  from st obtain d where d: "d = pending s n"
    and acc: "accounts s' = map (moved n d (max d 0)) (accounts s) \<or> d = 0 \<and> accounts s' = accounts s"
    and r: "branches s' = branches s" unfolding settled_def by blast
  have orig: "\<exists>x\<in>set (accounts s). a = x \<or> a = moved n d (max d 0) x" if "a \<in> set (accounts s')" for a
    using acc that by auto
  have hd: "held s' k = held s k" for k by (simp add: held_def r)
  have "account_balanced s' a" if a: "a \<in> set (accounts s')" "\<not> useBuffer cfg a" for a
  proof -
    from orig [OF a(1)] obtain x where x: "x \<in> set (accounts s)" "a = x \<or> a = moved n d (max d 0) x" by blast
    with a have nb: "\<not> useBuffer cfg x" by auto
    then have bal: "account_balanced s x" using f x(1) by (simp add: funds_covered_def)
    have "d = 0" if "acc_no x = n"
    proof -
      have "n \<notin> buf_account ` set (buffers s)" using own x(1) nb that by blast
      then show ?thesis by (simp add: d pending_def pending_empty)
    qed
    with x(2) bal show ?thesis by (auto simp: account_balanced_def hd moved_def)
  qed
  then have "funds_covered cfg s'" by (simp add: funds_covered_def)
  moreover have "branches_held s'"
    using h orig by (fastforce simp: branches_held_def r)
  moreover have "useBuffer cfg a"
    if "b \<in> set (buffers s')" "a \<in> set (accounts s')" "acc_no a = buf_account b" for b a
  proof -
    from settled_keys(2) [OF st u] that(1) obtain b0 where b0: "b0 \<in> set (buffers s)" "buf_account b0 = buf_account b"
      by (metis image_iff subsetD)
    from orig [OF that(2)] obtain x where "x \<in> set (accounts s)" "a = x \<or> a = moved n d (max d 0) x" by blast
    with own [of b0 x] b0 that(3) show ?thesis by auto
  qed
  ultimately show ?thesis
    using settled_keys(1) [OF st u] by (auto simp: flush_inv_def ledger_inv_def)
qed

lemma flushOne_cases:
  assumes "flush_inv cfg s"
  shows "flushOne cfg env now s row = s \<or> settled s (buf_account row) (flushOne cfg env now s row)"
proof -
  have "distinct (map buf_account (buffers s))"
    using assms by (simp add: flush_inv_def ledger_inv_def keys_unique_def)
  then show ?thesis
    using flushRow_effect [of cfg env now s row] by (auto simp: flushOne_def split: sum.split)
qed

interpretation rows: sweep "flushOne cfg env now" "flush_inv cfg" same_money
proof
  show "flush_inv cfg (flushOne cfg env now s r)" if "flush_inv cfg s" for s r
    using flushOne_cases [OF that] settled_flush_inv that by metis
  show "same_money s (flushOne cfg env now s r)" if "flush_inv cfg s" for s r
    using flushOne_cases [OF that] settled_same_money same_money_refl by metis
  show "same_money s s" for s by (rule same_money_refl)
  show "same_money s u" if "same_money s t" "same_money t u" for s t u
    using same_money_trans [OF that] .
qed

lemma flushShard_keeps:
  assumes "flush_inv cfg s"
  shows "flush_inv cfg (flushShard cfg env now s)" "same_money s (flushShard cfg env now s)"
  using rows.sweep_inv [OF assms] rows.sweep_rel [OF assms] assms same_money_refl
  by (simp_all add: flushShard_def)

interpretation shards: sweep
  "\<lambda>c sid. put_shard c sid (flushShard cfg (envs sid) now (shards c sid))"
  "\<lambda>c. \<forall>sid. flush_inv cfg (shards c sid)"
  "\<lambda>c c'. coordinators c' = coordinators c \<and> (\<forall>sid. same_money (shards c sid) (shards c' sid))"
proof
qed (auto simp: same_money_refl intro: flushShard_keeps dest: same_money_trans)

lemma same_money_equation:
  assumes "same_money s s'"
  shows "equation s' = equation s"
proof -
  have "equation t = (\<Sum>(a, b)\<leftarrow>effective t. side a * b)" for t
    by (simp add: equation_def effective_def comp_def side_def isAssetOrExpense_def identity_def)
  with assms show ?thesis by (simp add: same_money_def)
qed

lemma flushAll_keeps:
  assumes "\<forall>sid. flush_inv cfg (shards c sid)"
  shows "flush_inv cfg (shards (flushAll cfg envs now c) sid)"
    and "same_money (shards c sid) (shards (flushAll cfg envs now c) sid)"
    and "coordinators (flushAll cfg envs now c) = coordinators c"
  using shards.sweep_inv [OF assms, of envs now "GetAllShards NewRouter", folded flushAll_def]
    shards.sweep_rel [OF assms, of envs now "GetAllShards NewRouter", folded flushAll_def] by blast+

section \<open>What a reader sees\<close>

lemma select_effective:
  "map_option (\<lambda>a. (identity a, balance a + pending s (acc_no a)))
      (select_one (\<lambda>a. acc_no a = n) (accounts s)) =
   select_one (\<lambda>(i, b). acc_no i = n) (effective s)"
proof -
  have "map_option h (List.find (\<lambda>a. acc_no a = n) as) = List.find (\<lambda>(i, b). acc_no i = n) (map h as)"
    if "\<And>a. acc_no (fst (h a)) = acc_no a" for h :: "Account \<Rightarrow> Account \<times> int" and as
    using that by (induction as) (auto simp: case_prod_beta)
  from this [of "\<lambda>a. (identity a, balance a + pending s (acc_no a))" "accounts s"] show ?thesis by (simp add: select_one_def effective_def identity_def)
qed

lemma overlay_balance:
  assumes iv: "flush_inv cfg s" and s: "s = shards c (RouteByAccountNo NewRouter (acc_no a))"
    and a: "a \<in> set (accounts s)" and fits: "in64 (balance a + pending s (acc_no a))"
  shows "balance (overlayPendingDelta cfg c a) = balance a + pending s (acc_no a)"
proof (cases "useBuffer cfg a")
  case True
  have "GetPendingDelta s (acc_no a) = pending s (acc_no a)"
    using iv by (intro GetPendingDelta_pending) (simp add: flush_inv_def ledger_inv_def keys_unique_def)
  with True fits s show ?thesis
    by (simp add: overlayPendingDelta_def useBuffer_def Let_def add64_exact)
next
  case False
  with iv a have "acc_no a \<notin> buf_account ` set (buffers s)" by (auto simp: flush_inv_def)
  then have "pending s (acc_no a) = 0" by (simp add: pending_def pending_empty)
  with False show ?thesis by (simp add: overlayPendingDelta_def useBuffer_def)
qed

definition reported :: "buffer_config \<Rightarrow> cluster \<Rightarrow> string \<Rightarrow> int option" where
  "reported cfg c n = map_option balance (GetAccount cfg c n)"

lemma reported_effective:
  assumes "flush_inv cfg s" "s = shards c (RouteByAccountNo NewRouter n)"
    and "\<forall>a\<in>set (accounts s). in64 (balance a + pending s (acc_no a))"
  shows "reported cfg c n = map_option snd (select_one (\<lambda>(i, b). acc_no i = n) (effective s))"
proof (cases "select_one (\<lambda>a. acc_no a = n) (accounts s)")
  case None
  with assms(2) show ?thesis using select_effective [of s n] by (simp add: reported_def GetAccount_def)
next
  case (Some a)
  then have a: "a \<in> set (accounts s)" "acc_no a = n" by (auto dest: select_one_Some)
  from Some select_effective [of s n]
  have "select_one (\<lambda>(i, b). acc_no i = n) (effective s) = Some (identity a, balance a + pending s (acc_no a))"
    by simp
  moreover have "balance (overlayPendingDelta cfg c a) = balance a + pending s (acc_no a)"
  proof (rule overlay_balance [OF assms(1) _ a(1)])
    show "in64 (balance a + pending s (acc_no a))" using assms(3) a(1) by blast
  qed (simp add: assms(2) a(2))
  ultimately show ?thesis using Some assms(2) by (simp add: reported_def GetAccount_def)
qed

lemma effective_fits:
  assumes "same_money s s'" "\<forall>a\<in>set (accounts s). in64 (balance a + pending s (acc_no a))"
  shows "\<forall>a\<in>set (accounts s'). in64 (balance a + pending s' (acc_no a))"
proof
  fix a assume "a \<in> set (accounts s')"
  then have "(identity a, balance a + pending s' (acc_no a)) \<in> set (effective s')"
    by (auto simp: effective_def)
  with assms(1) have "(identity a, balance a + pending s' (acc_no a)) \<in> set (effective s)"
    by (simp add: same_money_def)
  with assms(2) show "in64 (balance a + pending s' (acc_no a))" by (auto simp: effective_def)
qed

section \<open>What a quiet flush settles\<close>

definition flushable :: "shard \<Rightarrow> string \<Rightarrow> bool" where
  "flushable s n \<longleftrightarrow> (\<exists>a\<in>set (accounts s). acc_no a = n) \<and>
     (\<forall>a\<in>set (accounts s). acc_no a = n \<longrightarrow> in64 (balance a + pending s n) \<and>
        in64 (available_balance a + max (pending s n) 0) \<and> in64 (version a + 1))"

lemma flush_inv_buffers: "flush_inv cfg s \<Longrightarrow> distinct (map buf_account (buffers s))"
  by (simp add: flush_inv_def ledger_inv_def keys_unique_def)

lemma flushOne_quiet:
  assumes iv: "flush_inv cfg s" and ok: "flushable s (buf_account row)"
  shows "pending (flushOne cfg quiet now s row) (buf_account row) = 0"
proof (cases "select_one (\<lambda>b. buf_account b = buf_account row) (buffers s)")
  case None
  with GetPendingDelta_pending [OF flush_inv_buffers [OF iv], of "buf_account row"]
  show ?thesis by (simp add: flushOne_def flushRow_def Let_def LockRow_def quiet_def GetPendingDelta_def)
next
  case (Some b)
  let ?n = "buf_account row"
  from Some have n: "buf_account b = ?n" by (auto dest: select_one_Some)
  from Some GetPendingDelta_pending [OF flush_inv_buffers [OF iv], of ?n]
  have d: "pending_delta b = pending s ?n" by (simp add: GetPendingDelta_def)
  have m: "(if pending s ?n > 0 then pending s ?n else 0) = max (pending s ?n) 0" by simp
  have "count_where (\<lambda>a. acc_no a = ?n) (accounts s) \<noteq> 0"
    using ok by (auto simp: flushable_def count_where_def filter_empty_conv)
  moreover have "\<not> list_ex (\<lambda>a. acc_no a = ?n \<and> addToAccount (pending s ?n) (max (pending s ?n) 0) a = None) (accounts s)"
    using ok by (auto simp: flushable_def list_ex_iff addToAccount_def sql_add_def split: option.splits if_splits)
  ultimately have "\<exists>s1. flushToAccount s b = Inr s1"
    unfolding flushToAccount_def n d m updateAccount_def by simp
  then obtain s1 where s1: "flushToAccount s b = Inr s1" ..
  have "pending s1 k = pending s k" for k
    using flushToAccount_effect(1) [OF s1] by simp
  with Some s1 show ?thesis
    by (simp add: flushOne_def flushRow_def Let_def LockRow_def quiet_def pending_delete pending_reschedule)
qed

lemma flushOne_other:
  assumes "flush_inv cfg s"
  shows "pending s k = 0 \<Longrightarrow> pending (flushOne cfg env now s row) k = 0"
    and "k \<noteq> buf_account row \<Longrightarrow> flushable s k \<Longrightarrow> flushable (flushOne cfg env now s row) k"
proof -
  note c = flushOne_cases [OF assms, of env now row]
  show "pending (flushOne cfg env now s row) k = 0" if "pending s k = 0"
    using c that settled_pending by fastforce
  show "flushable (flushOne cfg env now s row) k" if k: "k \<noteq> buf_account row" "flushable s k"
    using c
  proof
    assume st: "settled s (buf_account row) (flushOne cfg env now s row)"
    then obtain d where acc: "accounts (flushOne cfg env now s row) =
          map (moved (buf_account row) d (max d 0)) (accounts s) \<or>
        accounts (flushOne cfg env now s row) = accounts s"
      and p: "pending (flushOne cfg env now s row) k = pending s k"
      using k(1) settled_pending [OF st, of k] unfolding settled_def by auto
    have "moved (buf_account row) d v a = a" if "acc_no a = k" for a v
      using that k(1) by (simp add: moved_def)
    with acc k(2) show ?thesis unfolding flushable_def p by fastforce
  qed (simp add: k(2))
qed

lemma flush_rows_quiet:
  assumes "flush_inv cfg s" "distinct (map buf_account rs)" "\<forall>r\<in>set rs. flushable s (buf_account r)"
  shows "(\<forall>r\<in>set rs. pending (foldl (flushOne cfg quiet now) s rs) (buf_account r) = 0) \<and>
         (\<forall>k. pending s k = 0 \<longrightarrow> pending (foldl (flushOne cfg quiet now) s rs) k = 0)"
  using assms
proof (induction rs arbitrary: s)
  case Nil
  then show ?case by simp
next
  case (Cons r rs)
  let ?s = "flushOne cfg quiet now s r"
  have "flush_inv cfg ?s" using Cons.prems(1) rows.step_inv by blast
  moreover have "\<forall>x\<in>set rs. flushable ?s (buf_account x)"
    using Cons.prems flushOne_other(2) [OF Cons.prems(1)] by (auto simp: image_iff)
  ultimately have ih: "(\<forall>x\<in>set rs. pending (foldl (flushOne cfg quiet now) ?s rs) (buf_account x) = 0) \<and>
      (\<forall>k. pending ?s k = 0 \<longrightarrow> pending (foldl (flushOne cfg quiet now) ?s rs) k = 0)"
    using Cons.IH [of ?s] Cons.prems(2) by simp
  moreover have "pending ?s (buf_account r) = 0" using flushOne_quiet Cons.prems by simp
  ultimately show ?case using flushOne_other(1) [OF Cons.prems(1)] by simp
qed

lemma FindDue_rows:
  assumes "distinct (map buf_account (buffers s))"
  shows "set (FindDueForFlush s k now) \<subseteq> set (filter (isDue now) (buffers s))"
    and "distinct (map buf_account (FindDueForFlush s k now))"
    and "length (filter (isDue now) (buffers s)) \<le> k \<Longrightarrow>
         set (FindDueForFlush s k now) = set (filter (isDue now) (buffers s))"
proof -
  let ?l = "sort_key (\<lambda>b. - pending_count b) (bySchedule (filter (isDue now) (buffers s)))"
  have p: "mset ?l = mset (filter (isDue now) (buffers s))"
    by (simp add: bySchedule_def multiset_eq_iff)
  show "set (FindDueForFlush s k now) \<subseteq> set (filter (isDue now) (buffers s))"
    unfolding FindDueForFlush_def using set_take_subset [of k ?l] mset_eq_setD [OF p] by simp
  have "mset (map buf_account ?l) = mset (map buf_account (filter (isDue now) (buffers s)))"
    using p by (metis mset_map)
  then have "distinct (map buf_account ?l)"
    using assms by (metis distinct_map_filter mset_eq_imp_distinct_iff)
  then show "distinct (map buf_account (FindDueForFlush s k now))"
    unfolding FindDueForFlush_def by (simp add: take_map [symmetric])
  show "set (FindDueForFlush s k now) = set (filter (isDue now) (buffers s))"
    if "length (filter (isDue now) (buffers s)) \<le> k"
  proof -
    have "length ?l \<le> k" using that mset_eq_length [OF p] by simp
    then show ?thesis unfolding FindDueForFlush_def using mset_eq_setD [OF p] by simp
  qed
qed

text \<open>
  C30. Flushing the balance buffers moves no money: whatever rows other workers hold and whichever
  row transactions or shard queries fail, a flush of all shards keeps every shard's ledger sound,
  changes no branch, journal row or coordinator, leaves the sum of balance and pending delta of
  every account as it was, and with it the accounting equation.
\<close>

theorem flush_keeps_the_books:
  assumes "\<forall>sid. flush_inv cfg (shards c sid)"
  shows "ledger_sound cfg (flushAll cfg envs now c) \<and>
         coordinators (flushAll cfg envs now c) = coordinators c \<and>
         (\<forall>sid. same_money (shards c sid) (shards (flushAll cfg envs now c) sid)) \<and>
         csum equation (flushAll cfg envs now c) = csum equation c"
proof -
  note k = flushAll_keeps [OF assms, where envs = envs and now = now]
  have "ledger_sound cfg (flushAll cfg envs now c)"
    using k(1) by (simp add: ledger_sound_def flush_inv_def)
  moreover have "equation (shards (flushAll cfg envs now c) sid) = equation (shards c sid)" for sid
    using k(2) same_money_equation by blast
  then have "csum equation (flushAll cfg envs now c) = csum equation c" by (simp add: csum_def)
  ultimately show ?thesis using k by blast
qed

text \<open>A platform account with 700, of which 300 more are waiting in the buffer and due.\<close>

definition fee_no :: string where "fee_no = ''3700000000009''"

definition fee_shard :: "int \<Rightarrow> int \<Rightarrow> shard" where
  "fee_shard b d = empty_shard\<lparr>accounts := [user_account fee_no AccountTypeTransactionFee b],
     buffers := [\<lparr>buf_account = fee_no, pending_delta = d, pending_count = 2, flush_scheduled_at = Some 0\<rparr>]\<rparr>"

definition fee_cluster :: "int \<Rightarrow> cluster" where
  "fee_cluster d = \<lparr>shards = (\<lambda>_. empty_shard)((3, 37) := fee_shard 700 d), coordinators = []\<rparr>"

lemma fee_cluster_inv: "\<forall>sid. flush_inv [] (shards (fee_cluster 300) sid)"
proof -
  have "flush_inv [] empty_shard" "flush_inv [] (fee_shard 700 300)" by code_simp+
  then show ?thesis by (simp add: fee_cluster_def)
qed

theorem flush_keeps_the_books_witness:
  "ledger_sound [] (flushAll [] (\<lambda>_. quiet) 1 (fee_cluster 300)) \<and>
   csum equation (flushAll [] (\<lambda>_. quiet) 1 (fee_cluster 300)) = csum equation (fee_cluster 300) \<and>
   flushShard [] quiet 1 (fee_shard 700 300) \<noteq> fee_shard 700 300"
proof -
  have "flushShard [] quiet 1 (fee_shard 700 300) \<noteq> fee_shard 700 300" by code_simp
  with flush_keeps_the_books [OF fee_cluster_inv, of "\<lambda>_. quiet" 1] show ?thesis by blast
qed



text \<open>
  C31. An undisturbed flush of a shard settles every due row it selects: nothing is pending on the
  row's account any more and its stored balance is the balance that was reported. When the due rows
  fit the batch, that is every due row.
\<close>

theorem quiet_flush_settles_due_rows:
  assumes iv: "flush_inv cfg s" and ok: "\<forall>b\<in>set (buffers s). flushable s (buf_account b)"
    and s': "s' = flushShard cfg quiet now s"
  shows "(\<forall>b\<in>set (FindDueForFlush s BufferBatchSize now).
            pending s' (buf_account b) = 0 \<and>
            (\<forall>a'\<in>set (accounts s'). acc_no a' = buf_account b \<longrightarrow>
               (\<exists>a\<in>set (accounts s). acc_no a = buf_account b \<and>
                  balance a' = balance a + pending s (buf_account b)))) \<and>
         (length (filter (isDue now) (buffers s)) \<le> BufferBatchSize \<longrightarrow>
            set (FindDueForFlush s BufferBatchSize now) = set (filter (isDue now) (buffers s)))"
proof -
  let ?rs = "FindDueForFlush s BufferBatchSize now"
  note due = FindDue_rows [OF flush_inv_buffers [OF iv], where k = BufferBatchSize and now = now]
  have "\<forall>r\<in>set ?rs. flushable s (buf_account r)"
    using due(1) ok by auto
  then have z: "\<forall>r\<in>set ?rs. pending s' (buf_account r) = 0"
    using flush_rows_quiet [OF iv due(2)] by (simp add: s' flushShard_def quiet_def)
  have m: "effective s' = effective s"
    using flushShard_keeps(2) [OF iv] by (simp add: s' same_money_def)
  have "\<exists>a\<in>set (accounts s). acc_no a = buf_account b \<and> balance a' = balance a + pending s (buf_account b)"
    if b: "b \<in> set ?rs" and a': "a' \<in> set (accounts s')" "acc_no a' = buf_account b" for b a'
  proof -
    have "(identity a', balance a' + pending s' (acc_no a')) \<in> set (effective s')"
      using a'(1) by (auto simp: effective_def)
    then have "(identity a', balance a') \<in> set (effective s)" using z b a'(2) m by simp
    then obtain a where "a \<in> set (accounts s)" "identity a = identity a'" "balance a' = balance a + pending s (acc_no a)"
      by (auto simp: effective_def)
    moreover from this(2) have "acc_no (identity a) = acc_no (identity a')" by simp
    then have "acc_no a = acc_no a'" by (simp add: identity_def)
    ultimately show ?thesis using a'(2) by auto
  qed
  with z due(3) show ?thesis by blast
qed

theorem quiet_flush_settles_due_rows_witness:
  "pending (flushShard [] quiet 1 (fee_shard 700 300)) fee_no = 0"
proof -
  have iv: "flush_inv [] (fee_shard 700 300)" by code_simp
  have ok: "\<forall>b\<in>set (buffers (fee_shard 700 300)). flushable (fee_shard 700 300) (buf_account b)" by code_simp
  have due: "\<exists>b\<in>set (FindDueForFlush (fee_shard 700 300) BufferBatchSize 1). buf_account b = fee_no" by code_simp
  from quiet_flush_settles_due_rows [OF iv ok refl, of 1] due show ?thesis by fastforce
qed

section \<open>Where the available balance goes astray\<close>

text \<open>Of a platform account's debit the flush takes nothing from the available balance, which the
  overlay did subtract: the account reports 700 available before the debit, 400 while the debit is
  pending, and 700 again, above its balance, once the debit is flushed.\<close>

lemma flushed_debit_returns_to_available:
  "map_option (\<lambda>a. (balance a, available_balance a)) (GetAccount [] (fee_cluster (- 300)) fee_no) = Some (400, 400)"
  "map (\<lambda>a. (balance a, available_balance a)) (accounts (flushShard [] quiet 1 (fee_shard 700 (- 300)))) = [(400, 700)]"
  by code_simp+

text \<open>For an ordinary account configured as buffered, a credit of 300 and a debit of 100 (held since
  Try) wait as one delta of 200: the flush adds 200 to both columns, and 100 is missing from the
  available balance for ever.\<close>

definition buffered_wallet :: shard where
  "buffered_wallet = empty_shard\<lparr>
     accounts := [(user_account wallet_no AccountTypeUser 5000)\<lparr>available_balance := 4900\<rparr>],
     buffers := [\<lparr>buf_account = wallet_no, pending_delta = 200, pending_count = 2, flush_scheduled_at = Some 0\<rparr>]\<rparr>"

lemma netted_buffer_loses_available:
  "map (\<lambda>a. (balance a, available_balance a))
     (accounts (flushShard [(5, [wallet_no])] quiet 1 buffered_wallet)) = [(5200, 5100)]"
  by code_simp

end
