(* ===== verification/Booking.thy ===== *)
theory Booking
  imports Buffer Recovery
begin

text \<open>
  The idempotent entry point of the ledger: \<open>DoubleEntryBooking\<close> and \<open>idempotentBooking\<close> of
  \<open>accounting_service.go\<close> over the order table of \<open>transaction_order_repository.go\<close>, with the
  currency table of \<open>internal/currency/currency.go\<close>. One order row decides whether a request runs,
  is refused or is answered from memory. Other clients' writes between two statements of a call, and
  statements that fail, are arguments (\<open>order_env\<close>); the digest of the request is a parameter.
\<close>

section \<open>Currencies of the ledger\<close>

definition precisionMap :: "(string \<times> nat) list" where
  "precisionMap = [
     (''PHP'', 2), (''USD'', 2), (''EUR'', 2), (''GBP'', 2), (''HKD'', 2), (''SGD'', 2), (''AUD'', 2),
     (''CAD'', 2), (''CHF'', 2), (''CNY'', 2), (''MYR'', 2), (''THB'', 2), (''INR'', 2), (''TWD'', 2),
     (''VND'', 0), (''IDR'', 0), (''JPY'', 0), (''KRW'', 0), (''KWD'', 3), (''BHD'', 3), (''OMR'', 3)]"

definition StorageFactor :: "string \<Rightarrow> ledger_error + int" where
  "StorageFactor code = (case map_of precisionMap code of
     None \<Rightarrow> Inl (UnsupportedCurrency code) | Some p \<Rightarrow> Inr (10 ^ p * 100))"

definition validateCurrency :: "string \<Rightarrow> ledger_error option" where
  "validateCurrency code =
     (if map_of precisionMap code = None then Some (UnsupportedCurrency code) else None)"

definition ToStorageFromMinor :: "int \<Rightarrow> string \<Rightarrow> ledger_error + int" where
  "ToStorageFromMinor minorUnits code = (case map_of precisionMap code of
     None \<Rightarrow> Inl (UnsupportedCurrency code) | Some p \<Rightarrow> Inr (mul64 minorUnits 100))"

section \<open>What an order remembers\<close>

record entryParam =
  ep_account :: string
  ep_debit :: string
  ep_credit :: string
  ep_description :: string

record reqParams =
  rp_business_no :: string
  rp_business_type :: string
  rp_currency :: string
  rp_description :: string
  rp_entries :: "entryParam list"

record orderExtra =
  ReqHash :: string
  VoucherNo :: string
  TxIDs :: "string list"
  ExtraCutDate :: string
  ReqParams :: "reqParams option"

definition no_extra :: orderExtra where
  "no_extra = \<lparr>ReqHash = [], VoucherNo = [], TxIDs = [], ExtraCutDate = [], ReqParams = None\<rparr>"

definition buildReqParams :: "DoubleEntryBookingRequest \<Rightarrow> reqParams" where
  "buildReqParams req = \<lparr>rp_business_no = BusinessNo req, rp_business_type = BusinessType req,
     rp_currency = Currency req, rp_description = Description req,
     rp_entries = map (\<lambda>e. \<lparr>ep_account = AccountNo e, ep_debit = format_int (DebitAmount e),
        ep_credit = format_int (CreditAmount e), ep_description = EntryDescription e\<rparr>) (Entries req)\<rparr>"

text \<open>\<open>encoding/json\<close>: strings with the escapes of \<open>Marshal\<close> (on valid UTF-8 without the two line
  separators U+2028 and U+2029), objects in field order, \<open>omitempty\<close> fields left out when empty.\<close>

definition hex_digit :: "int \<Rightarrow> char" where
  "hex_digit d = (if d < 10 then char_of (48 + d) else char_of (87 + d))"

definition jsonChar :: "char \<Rightarrow> string" where
  "jsonChar c = (let n = of_char c :: int in
     if n = 34 then [CHR 0x5C, CHR 0x22] else if n = 92 then [CHR 0x5C, CHR 0x5C]
     else if n = 8 then [CHR 0x5C, CHR ''b''] else if n = 12 then [CHR 0x5C, CHR ''f'']
     else if n = 10 then [CHR 0x5C, CHR ''n''] else if n = 13 then [CHR 0x5C, CHR ''r'']
     else if n = 9 then [CHR 0x5C, CHR ''t'']
     else if n < 32 \<or> n = 60 \<or> n = 62 \<or> n = 38
       then [CHR 0x5C, CHR ''u'', CHR ''0'', CHR ''0'', hex_digit (n div 16), hex_digit (n mod 16)]
     else [c])"

definition jsonString :: "string \<Rightarrow> string" where
  "jsonString s = [CHR 0x22] @ concat (map jsonChar s) @ [CHR 0x22]"

fun jsonSeq :: "string list \<Rightarrow> string" where
  "jsonSeq [] = []"
| "jsonSeq [x] = x"
| "jsonSeq (x # xs) = x @ '','' @ jsonSeq xs"

definition jsonField :: "string \<Rightarrow> string \<Rightarrow> string" where
  "jsonField k v = jsonString k @ '':'' @ v"

definition jsonObject :: "string list \<Rightarrow> string" where
  "jsonObject fs = ''{'' @ jsonSeq fs @ ''}''"

definition jsonArray :: "string list \<Rightarrow> string" where
  "jsonArray xs = ''['' @ jsonSeq xs @ '']''"

definition omitEmpty :: "'a list \<Rightarrow> string \<Rightarrow> string list" where
  "omitEmpty v f = (if v = [] then [] else [f])"

definition marshalEntry :: "entryParam \<Rightarrow> string" where
  "marshalEntry e = jsonObject ([jsonField ''account_no'' (jsonString (ep_account e)),
     jsonField ''debit_amount'' (jsonString (ep_debit e)),
     jsonField ''credit_amount'' (jsonString (ep_credit e))] @
     omitEmpty (ep_description e) (jsonField ''description'' (jsonString (ep_description e))))"

definition marshalParams :: "reqParams \<Rightarrow> string" where
  "marshalParams p = jsonObject [jsonField ''business_no'' (jsonString (rp_business_no p)),
     jsonField ''business_type'' (jsonString (rp_business_type p)),
     jsonField ''currency'' (jsonString (rp_currency p)),
     jsonField ''description'' (jsonString (rp_description p)),
     jsonField ''entries'' (jsonArray (map marshalEntry (rp_entries p)))]"

definition marshalExtra :: "orderExtra \<Rightarrow> string" where
  "marshalExtra x = jsonObject ([jsonField ''req_hash'' (jsonString (ReqHash x))] @
     omitEmpty (VoucherNo x) (jsonField ''voucher_no'' (jsonString (VoucherNo x))) @
     omitEmpty (TxIDs x) (jsonField ''tx_ids'' (jsonArray (map jsonString (TxIDs x)))) @
     omitEmpty (ExtraCutDate x) (jsonField ''cut_date'' (jsonString (ExtraCutDate x))) @
     (case ReqParams x of None \<Rightarrow> [] | Some p \<Rightarrow> [jsonField ''req_params'' (marshalParams p)]))"

text \<open>\<open>computeRequestHash\<close> digests the request with its entries sorted by account number.\<close>

definition requestPayload :: "DoubleEntryBookingRequest \<Rightarrow> string" where
  "requestPayload req = jsonObject [jsonField ''business_no'' (jsonString (BusinessNo req)),
     jsonField ''business_type'' (jsonString (BusinessType req)),
     jsonField ''currency'' (jsonString (Currency req)),
     jsonField ''description'' (jsonString (Description req)),
     jsonField ''entries'' (jsonArray (map (\<lambda>e. jsonObject [
        jsonField ''a'' (jsonString (AccountNo e)),
        jsonField ''d'' (jsonString (format_int (DebitAmount e))),
        jsonField ''c'' (jsonString (format_int (CreditAmount e)))]) (sort_key AccountNo (Entries req))))]"

definition computeRequestHash :: "(string \<Rightarrow> string) \<Rightarrow> DoubleEntryBookingRequest \<Rightarrow> string" where
  "computeRequestHash digest req = digest (requestPayload req)"

text \<open>The extra row holds the text; a text above 4096 bytes is cut and is no JSON document any more,
  which \<open>parseOrderExtra\<close> reads as an order without memory.\<close>

datatype stored_extra = Whole orderExtra | CutOff

abbreviation (input) TransactionOrderExtraMaxLen :: int where "TransactionOrderExtraMaxLen \<equiv> 4096"

definition truncateExtra :: "orderExtra \<Rightarrow> stored_extra" where
  "truncateExtra x =
     (if int (length (marshalExtra x)) \<le> TransactionOrderExtraMaxLen then Whole x else CutOff)"

definition parseOrderExtra :: "stored_extra option \<Rightarrow> orderExtra" where
  "parseOrderExtra s = (case s of Some (Whole x) \<Rightarrow> x | _ \<Rightarrow> no_extra)"

section \<open>The order table\<close>

datatype OrderStatus = OrderPending | OrderProcessing | OrderSuccess | OrderFailed

record TransactionOrder =
  order_no :: string
  order_business_no :: string
  order_business_type :: string
  order_status :: OrderStatus
  order_voucher :: string
  retry_count :: nat
  error_message :: string
  extra_row :: "stored_extra option"

text \<open>Main row and extra row share the key and the shard, so one list stands for both tables of all
  shards; \<open>extra_row\<close> is \<open>None\<close> where the extra row is missing.\<close>

definition order_key :: "string \<Rightarrow> string \<Rightarrow> string \<Rightarrow> TransactionOrder \<Rightarrow> bool" where
  "order_key no ty bno r \<longleftrightarrow> order_no r = no \<and> order_business_type r = ty \<and> order_business_no r = bno"

definition GetByOrderKey :: "TransactionOrder list \<Rightarrow> string \<Rightarrow> string \<Rightarrow> string \<Rightarrow> TransactionOrder option" where
  "GetByOrderKey os no ty bno = select_one (order_key no ty bno) os"

definition UpdateToProcessing :: "TransactionOrder list \<Rightarrow> string \<Rightarrow> string \<Rightarrow> string \<Rightarrow>
    nat \<times> TransactionOrder list" where
  "UpdateToProcessing os no ty bno =
     (let P = (\<lambda>r. order_key no ty bno r \<and> order_status r \<in> {OrderPending, OrderFailed})
      in (count_where P os, update_where P (\<lambda>r. r\<lparr>order_status := OrderProcessing\<rparr>) os))"

datatype write_fault = NothingWritten | MainRowOnly

definition createOrder :: "write_fault option \<Rightarrow> TransactionOrder list \<Rightarrow> TransactionOrder \<Rightarrow>
    ledger_error option \<times> TransactionOrder list" where
  "createOrder f os r =
     (case f of
        Some NothingWritten \<Rightarrow> (Some (DriverError ''insert''), os)
      | _ \<Rightarrow>
          if list_ex (order_key (order_no r) (order_business_type r) (order_business_no r)) os
          then (Some (MySQLError 1062), os)
          else if f = Some MainRowOnly then (Some (DriverError ''insert''), os @ [r\<lparr>extra_row := None\<rparr>])
          else (None, os @ [r]))"

definition UpdateSuccess :: "write_fault option \<Rightarrow> TransactionOrder list \<Rightarrow> string \<Rightarrow> string \<Rightarrow> string \<Rightarrow>
    string \<Rightarrow> orderExtra \<Rightarrow> TransactionOrder list" where
  "UpdateSuccess f os no ty bno v x =
     (case f of
        Some NothingWritten \<Rightarrow> os
      | _ \<Rightarrow> update_where (order_key no ty bno) (\<lambda>r. r\<lparr>order_status := OrderSuccess, order_voucher := v,
               extra_row := if f = Some MainRowOnly then extra_row r else Some (truncateExtra x)\<rparr>) os)"

definition UpdateFailed :: "bool \<Rightarrow> TransactionOrder list \<Rightarrow> string \<Rightarrow> string \<Rightarrow> string \<Rightarrow> string \<Rightarrow>
    TransactionOrder list" where
  "UpdateFailed f os no ty bno msg =
     (if f then os
      else update_where (order_key no ty bno) (\<lambda>r. r\<lparr>order_status := OrderFailed, error_message := msg,
             retry_count := retry_count r + 1\<rparr>) os)"

text \<open>\<open>ResetStuckProcessing\<close> on the rows that are too old, and the administrator's
  \<open>ResetForRetry\<close>, which takes a voucher number for proof that the booking was done.\<close>

definition ResetStuckProcessing :: "(TransactionOrder \<Rightarrow> bool) \<Rightarrow> TransactionOrder list \<Rightarrow>
    nat \<times> TransactionOrder list" where
  "ResetStuckProcessing old os =
     (let P = (\<lambda>r. order_status r = OrderProcessing \<and> old r)
      in (count_where P os,
          update_where P (\<lambda>r. r\<lparr>order_status := OrderFailed, retry_count := retry_count r + 1,
             error_message := ''reset by recovery: stuck in PROCESSING state''\<rparr>) os))"

datatype ResetAction = Forced | SkippedSuccess | PhantomFixed | Unstuck | AlreadyFailed | ResetPending

definition ResetForRetry :: "TransactionOrder list \<Rightarrow> string \<Rightarrow> string \<Rightarrow> string \<Rightarrow> bool \<Rightarrow>
    (string + ResetAction) \<times> TransactionOrder list" where
  "ResetForRetry os no ty bno force =
     (let set_row = (\<lambda>st f. update_where (\<lambda>r. order_key no ty bno r \<and> order_status r = st) f os)
      in case GetByOrderKey os no ty bno of
           None \<Rightarrow> (Inl ''order not found'', os)
         | Some r \<Rightarrow>
             if force
             then (Inr Forced, update_where (order_key no ty bno) (\<lambda>r. r\<lparr>order_status := OrderFailed,
                     retry_count := 0, error_message := ''reset by admin force''\<rparr>) os)
             else case order_status r of
                    OrderSuccess \<Rightarrow> (Inr SkippedSuccess, os)
                  | OrderProcessing \<Rightarrow>
                      if order_voucher r \<noteq> []
                      then (Inr PhantomFixed, set_row OrderProcessing (\<lambda>r. r\<lparr>order_status := OrderSuccess\<rparr>))
                      else (Inr Unstuck, set_row OrderProcessing (\<lambda>r. r\<lparr>order_status := OrderFailed,
                              error_message := ''reset_for_retry: was stuck in PROCESSING''\<rparr>))
                  | OrderFailed \<Rightarrow> (Inr AlreadyFailed, os)
                  | OrderPending \<Rightarrow> (Inr ResetPending, set_row OrderPending (\<lambda>r. r\<lparr>order_status := OrderFailed\<rparr>)))"

section \<open>Identifiers\<close>

text \<open>\<open>idgen.NextID\<close> hands out a sequence number or fails; the number is an argument.\<close>

definition generateVoucherNo :: "bool \<Rightarrow> int option \<Rightarrow> string \<Rightarrow> string option" where
  "generateVoucherNo sh sq bno =
     (case sq of None \<Rightarrow> None
      | Some n \<Rightarrow> (case EncodeIDStr sh 1 (snd (RouteByNumericStr NewRouter bno)) n of
                     Inl _ \<Rightarrow> None | Inr i \<Rightarrow> Some i))"

definition generateTransactionID :: "bool \<Rightarrow> int option \<Rightarrow> string \<Rightarrow> string option" where
  "generateTransactionID sh sq accountNo =
     (case sq of None \<Rightarrow> None
      | Some n \<Rightarrow> (case EncodeIDStr sh 2 (snd (RouteByAccountNo NewRouter accountNo)) n of
                     Inl _ \<Rightarrow> None | Inr i \<Rightarrow> Some i))"

definition generateTransactionIDs :: "bool \<Rightarrow> (nat \<Rightarrow> int option) \<Rightarrow> AccountingEntry list \<Rightarrow>
    string list option" where
  "generateTransactionIDs sh sq es =
     those (map (\<lambda>(i, e). generateTransactionID sh (sq i) (AccountNo e)) (enumerate 0 es))"

section \<open>The booking call\<close>

text \<open>
  What a call meets, by attempt: failing queries, the sequence numbers it draws, what other clients
  write between its read and its insert (\<open>before_create\<close>) and between that and its claim
  (\<open>before_claim\<close>), and write faults. \<open>local_cut_date\<close> is the cut date the process would compute.
\<close>

record order_env =
  shadow_flow :: bool
  get_fails :: "nat \<Rightarrow> bool"
  voucher_seq :: "nat \<Rightarrow> int option"
  tx_seq :: "nat \<Rightarrow> nat \<Rightarrow> int option"
  before_create :: "nat \<Rightarrow> TransactionOrder list \<Rightarrow> TransactionOrder list"
  create_order_fault :: "nat \<Rightarrow> write_fault option"
  before_claim :: "nat \<Rightarrow> TransactionOrder list \<Rightarrow> TransactionOrder list"
  claim_fails :: "nat \<Rightarrow> bool"
  success_fault :: "write_fault option"
  failed_fails :: bool
  local_cut_date :: string
  error_text :: "ledger_error \<Rightarrow> string"

datatype booking_error =
    InvalidRequest ledger_error
  | OrderQueryFailed
  | IdGenerationFailed
  | CreateOrderFailed ledger_error
  | ClaimFailed
  | RequestInProgress
  | BookingFailed ledger_error
  | AttemptsExhausted

text \<open>\<open>logger.Fatal\<close> ends the process; every other outcome is voucher, transactions and error.\<close>

datatype booking_reply = Reply string "string list" "booking_error option" | ProcessExit

record bank =
  orders :: "TransactionOrder list"
  ledger :: cluster

type_synonym booker = "DoubleEntryBookingRequest \<Rightarrow> string \<Rightarrow> string \<Rightarrow> string list \<Rightarrow> cluster \<Rightarrow>
    (ledger_error + (string \<times> string list)) \<times> cluster"

definition allInAllowlist :: "string list \<Rightarrow> AccountingEntry list \<Rightarrow> bool" where
  "allInAllowlist al es \<longleftrightarrow> al \<noteq> [] \<and> list_all (\<lambda>e. AccountNo e \<in> set al) es"

text \<open>The redis path is an argument with its allow list; it is off when there is no balance cache.\<close>

definition doBooking :: "(string list \<times> booker) option \<Rightarrow> booker \<Rightarrow> booker" where
  "doBooking hot tcc req v cutDate txIDs c =
     (case hot of
        Some (al, hotPathBooking) \<Rightarrow>
          if allInAllowlist al (Entries req) then hotPathBooking req v cutDate txIDs c
          else tcc req v cutDate txIDs c
      | None \<Rightarrow> tcc req v cutDate txIDs c)"

definition ensureIDs :: "order_env \<Rightarrow> nat \<Rightarrow> DoubleEntryBookingRequest \<Rightarrow> orderExtra \<Rightarrow>
    (string \<times> string list) option" where
  "ensureIDs env k req x =
     (case (if VoucherNo x = [] then generateVoucherNo (shadow_flow env) (voucher_seq env k) (BusinessNo req)
            else Some (VoucherNo x)) of
        None \<Rightarrow> None
      | Some v \<Rightarrow>
          (case (if length (TxIDs x) \<noteq> length (Entries req)
                 then generateTransactionIDs (shadow_flow env) (tx_seq env k) (Entries req)
                 else Some (TxIDs x)) of
             None \<Rightarrow> None
           | Some ids \<Rightarrow> Some (v, ids)))"

definition consistentRequest :: "string \<Rightarrow> orderExtra \<Rightarrow> bool" where
  "consistentRequest reqHash x \<longleftrightarrow> ReqHash x = [] \<or> ReqHash x = reqHash"

definition executeAndRecord :: "order_env \<Rightarrow> booker \<Rightarrow> DoubleEntryBookingRequest \<Rightarrow> string \<Rightarrow> string \<Rightarrow>
    string \<Rightarrow> string list \<Rightarrow> bank \<Rightarrow> booking_reply \<times> bank" where
  "executeAndRecord env book req reqHash v cutDate txIDs b =
     (let no = RequestID req; ty = BusinessType req; bno = BusinessNo req
      in case book req v cutDate txIDs (ledger b) of
           (Inl e, c) \<Rightarrow>
             (Reply [] [] (Some (BookingFailed e)),
              b\<lparr>ledger := c, orders := UpdateFailed (failed_fails env) (orders b) no ty bno (error_text env e)\<rparr>)
         | (Inr (vno, txs), c) \<Rightarrow>
             (Reply vno txs None,
              b\<lparr>ledger := c, orders := UpdateSuccess (success_fault env) (orders b) no ty bno vno
                  \<lparr>ReqHash = reqHash, VoucherNo = vno, TxIDs = txs, ExtraCutDate = cutDate, ReqParams = None\<rparr>\<rparr>))"

text \<open>One pass of the loop: a final outcome, or the state with which it goes round again.\<close>

definition claimAndExecute :: "order_env \<Rightarrow> booker \<Rightarrow> DoubleEntryBookingRequest \<Rightarrow> string \<Rightarrow> nat \<Rightarrow>
    (string \<times> string list) \<Rightarrow> string \<Rightarrow> string \<Rightarrow> string list \<Rightarrow> bank \<Rightarrow> (booking_reply \<times> bank) + bank" where
  "claimAndExecute env book req reqHash k onErr v cutDate txIDs b =
     (let b1 = b\<lparr>orders := before_claim env k (orders b)\<rparr>
      in if claim_fails env k then Inl (Reply (fst onErr) (snd onErr) (Some ClaimFailed), b1)
         else let (n, os) = UpdateToProcessing (orders b1) (RequestID req) (BusinessType req) (BusinessNo req)
              in if n = 0 then Inr (b1\<lparr>orders := os\<rparr>)
                 else Inl (executeAndRecord env book req reqHash v cutDate txIDs (b1\<lparr>orders := os\<rparr>)))"

definition existingOrder :: "order_env \<Rightarrow> booker \<Rightarrow> DoubleEntryBookingRequest \<Rightarrow> string \<Rightarrow> nat \<Rightarrow>
    TransactionOrder \<Rightarrow> bank \<Rightarrow> (booking_reply \<times> bank) + bank" where
  "existingOrder env book req reqHash k order b =
     (let x = parseOrderExtra (extra_row order); old = (order_voucher order, TxIDs x)
      in if \<not> consistentRequest reqHash x then Inl (ProcessExit, b)
         else case order_status order of
                OrderSuccess \<Rightarrow> Inl (Reply (fst old) (snd old) None, b)
              | OrderProcessing \<Rightarrow> Inl (Reply (fst old) (snd old) (Some RequestInProgress), b)
              | _ \<Rightarrow>
                  (case ensureIDs env k req x of
                     None \<Rightarrow> Inl (Reply (fst old) (snd old) (Some IdGenerationFailed), b)
                   | Some (v, ids) \<Rightarrow>
                       claimAndExecute env book req reqHash k old v
                         (if ExtraCutDate x = [] then local_cut_date env else ExtraCutDate x) ids b))"

definition freshOrder :: "order_env \<Rightarrow> booker \<Rightarrow> DoubleEntryBookingRequest \<Rightarrow> string \<Rightarrow> nat \<Rightarrow>
    bank \<Rightarrow> (booking_reply \<times> bank) + bank" where
  "freshOrder env book req reqHash k b =
     (case (generateVoucherNo (shadow_flow env) (voucher_seq env k) (BusinessNo req),
            generateTransactionIDs (shadow_flow env) (tx_seq env k) (Entries req)) of
        (Some v, Some ids) \<Rightarrow>
          (let cutDate = local_cut_date env;
               x = \<lparr>ReqHash = reqHash, VoucherNo = v, TxIDs = ids, ExtraCutDate = cutDate,
                     ReqParams = Some (buildReqParams req)\<rparr>;
               row = \<lparr>order_no = RequestID req, order_business_no = BusinessNo req,
                       order_business_type = BusinessType req, order_status = OrderPending,
                       order_voucher = v, retry_count = 0, error_message = [],
                       extra_row = Some (truncateExtra x)\<rparr>;
               (err, os) = createOrder (create_order_fault env k) (before_create env k (orders b)) row;
               b1 = b\<lparr>orders := os\<rparr>
           in case err of
                Some (MySQLError n) \<Rightarrow>
                  if n = 1062 then Inr b1 else Inl (Reply v [] (Some (CreateOrderFailed (MySQLError n))), b1)
              | Some e \<Rightarrow> Inl (Reply v [] (Some (CreateOrderFailed e)), b1)
              | None \<Rightarrow> claimAndExecute env book req reqHash k ([], []) v cutDate ids b1)
      | _ \<Rightarrow> Inl (Reply [] [] (Some IdGenerationFailed), b))"

abbreviation (input) idempotentMaxAttempts :: nat where "idempotentMaxAttempts \<equiv> 3"

fun booking_loop :: "order_env \<Rightarrow> booker \<Rightarrow> DoubleEntryBookingRequest \<Rightarrow> string \<Rightarrow> nat \<Rightarrow> nat \<Rightarrow> bank \<Rightarrow>
    booking_reply \<times> bank" where
  "booking_loop env book req reqHash k 0 b = (Reply [] [] (Some AttemptsExhausted), b)"
| "booking_loop env book req reqHash k (Suc left) b =
     (if get_fails env k then (Reply [] [] (Some OrderQueryFailed), b)
      else case (case GetByOrderKey (orders b) (RequestID req) (BusinessType req) (BusinessNo req) of
                   Some order \<Rightarrow> existingOrder env book req reqHash k order b
                 | None \<Rightarrow> freshOrder env book req reqHash k b) of
             Inl done \<Rightarrow> done
           | Inr b' \<Rightarrow> booking_loop env book req reqHash (Suc k) left b')"

definition idempotentBooking :: "(string \<Rightarrow> string) \<Rightarrow> order_env \<Rightarrow> booker \<Rightarrow> DoubleEntryBookingRequest \<Rightarrow>
    bank \<Rightarrow> booking_reply \<times> bank" where
  "idempotentBooking digest env book req b =
     booking_loop env book req (computeRequestHash digest req) 0 idempotentMaxAttempts b"

definition DoubleEntryBooking :: "(string \<Rightarrow> string) \<Rightarrow> order_env \<Rightarrow> booker \<Rightarrow> DoubleEntryBookingRequest \<Rightarrow>
    bank \<Rightarrow> booking_reply \<times> bank" where
  "DoubleEntryBooking digest env book req b =
     (case validateCurrency (Currency req) of
        Some e \<Rightarrow> (Reply [] [] (Some (InvalidRequest e)), b)
      | None \<Rightarrow>
          (case validateEntries (Entries req) of
             Some e \<Rightarrow> (Reply [] [] (Some (InvalidRequest e)), b)
           | None \<Rightarrow> idempotentBooking digest env book req b))"

section \<open>What one call can do\<close>

lemma executeAndRecord_cases:
  assumes "executeAndRecord env book req h v cd ids b = (r, b')"
  shows "ledger b' = snd (book req v cd ids (ledger b))"
    and "case fst (book req v cd ids (ledger b)) of
           Inl e \<Rightarrow> r = Reply [] [] (Some (BookingFailed e))
         | Inr (v', ids') \<Rightarrow> r = Reply v' ids' None \<and> orders b' =
             UpdateSuccess (success_fault env) (orders b) (RequestID req) (BusinessType req) (BusinessNo req) v'
               \<lparr>ReqHash = h, VoucherNo = v', TxIDs = ids', ExtraCutDate = cd, ReqParams = None\<rparr>"
  using assms by (auto simp: executeAndRecord_def Let_def split: prod.splits sum.splits)

text \<open>The claim takes every row of the key out of the states a claim accepts.\<close>

definition taken :: "DoubleEntryBookingRequest \<Rightarrow> TransactionOrder list \<Rightarrow> bool" where
  "taken req os \<longleftrightarrow> (\<exists>r\<in>set os. order_key (RequestID req) (BusinessType req) (BusinessNo req) r) \<and>
     (\<forall>r\<in>set os. order_key (RequestID req) (BusinessType req) (BusinessNo req) r \<longrightarrow>
        order_status r \<in> {OrderProcessing, OrderSuccess})"

lemma order_key_update [simp]:
  "order_key no ty bno (r\<lparr>order_status := st\<rparr>) = order_key no ty bno r"
  "order_key no ty bno (r\<lparr>order_voucher := v\<rparr>) = order_key no ty bno r"
  "order_key no ty bno (r\<lparr>extra_row := x\<rparr>) = order_key no ty bno r"
  by (simp_all add: order_key_def)

lemma all_rows_map:
  assumes "\<exists>r\<in>set os. K r" "\<And>r. K (h r) = K r" "\<And>r. r \<in> set os \<Longrightarrow> K r \<Longrightarrow> T (h r)"
  shows "(\<exists>r\<in>set (map h os). K r) \<and> (\<forall>r\<in>set (map h os). K r \<longrightarrow> T r)"
  using assms by auto

lemma claim_takes:
  assumes "UpdateToProcessing os (RequestID req) (BusinessType req) (BusinessNo req) = (n, os')" "n \<noteq> 0"
  shows "taken req os'"
proof -
  let ?k = "order_key (RequestID req) (BusinessType req) (BusinessNo req)"
  let ?f = "\<lambda>r. if ?k r \<and> order_status r \<in> {OrderPending, OrderFailed} then r\<lparr>order_status := OrderProcessing\<rparr> else r"
  from assms have os': "os' = map ?f os" and ex: "\<exists>r\<in>set os. ?k r"
    by (auto simp: UpdateToProcessing_def Let_def count_where_def update_where_def filter_empty_conv)
  show ?thesis unfolding taken_def os'
  proof (rule all_rows_map [OF ex])
    show "?k (?f r) = ?k r" for r by simp
    show "order_status (?f r) \<in> {OrderProcessing, OrderSuccess}" if "?k r" for r
      using that by (cases "order_status r") simp_all
  qed
qed

lemma success_keeps_taken:
  assumes "taken req os"
  shows "taken req (UpdateSuccess f os (RequestID req) (BusinessType req) (BusinessNo req) v x)"
    and "f = None \<Longrightarrow> GetByOrderKey (UpdateSuccess f os (RequestID req) (BusinessType req) (BusinessNo req) v x)
           (RequestID req) (BusinessType req) (BusinessNo req) = Some r \<Longrightarrow>
         order_status r = OrderSuccess \<and> order_voucher r = v \<and> extra_row r = Some (truncateExtra x)"
proof -
  let ?u = "\<lambda>r. r\<lparr>order_status := OrderSuccess, order_voucher := v,
       extra_row := if f = Some MainRowOnly then extra_row r else Some (truncateExtra x)\<rparr>"
  let ?k = "order_key (RequestID req) (BusinessType req) (BusinessNo req)"
  have k: "?k (?u r) = ?k r" for r by (simp add: order_key_def)
  have "taken req (update_where ?k ?u os)"
    unfolding taken_def update_where_def
  proof (rule all_rows_map)
    show "\<exists>r\<in>set os. ?k r" using assms by (simp add: taken_def)
    show "?k (if ?k r then ?u r else r) = ?k r" for r by (simp only: k if_split) blast
    show "order_status (if ?k r then ?u r else r) \<in> {OrderProcessing, OrderSuccess}" if "?k r" for r
      using that by simp
  qed
  with assms show "taken req (UpdateSuccess f os (RequestID req) (BusinessType req) (BusinessNo req) v x)"
  proof (cases f)
    case (Some y)
    with \<open>taken req (update_where ?k ?u os)\<close> assms show ?thesis by (cases y) (simp_all add: UpdateSuccess_def)
  qed (simp add: UpdateSuccess_def)
  assume f: "f = None" and "GetByOrderKey (UpdateSuccess f os (RequestID req) (BusinessType req)
      (BusinessNo req) v x) (RequestID req) (BusinessType req) (BusinessNo req) = Some r"
  then have "r \<in> set (update_where ?k ?u os)" "?k r"
    unfolding GetByOrderKey_def UpdateSuccess_def by (auto dest: select_one_Some)
  then obtain y where "r = ?u y" unfolding set_update_where by (auto split: if_splits)
  with f show "order_status r = OrderSuccess \<and> order_voucher r = v \<and> extra_row r = Some (truncateExtra x)"
    by simp
qed

text \<open>A request whose order is taken is answered and runs nothing.\<close>

lemma taken_request_runs_nothing:
  assumes "taken req (orders b)" and r: "idempotentBooking digest env book req b = (r, b')"
  shows "b' = b"
proof -
  have "GetByOrderKey (orders b) (RequestID req) (BusinessType req) (BusinessNo req) \<noteq> None"
    using assms(1) by (auto simp: taken_def GetByOrderKey_def select_one_None)
  then obtain o1 where o: "GetByOrderKey (orders b) (RequestID req) (BusinessType req) (BusinessNo req) = Some o1"
    by blast
  with assms(1) have "order_status o1 \<in> {OrderProcessing, OrderSuccess}"
    by (auto simp: taken_def GetByOrderKey_def dest: select_one_Some)
  with o r show ?thesis
    by (auto simp: idempotentBooking_def numeral_eq_Suc existingOrder_def Let_def split: if_splits)
qed

text \<open>The loop ends in an answer that ran nothing, or in one execution on a taken order.\<close>

definition ran :: "order_env \<Rightarrow> booker \<Rightarrow> DoubleEntryBookingRequest \<Rightarrow> string \<Rightarrow> bank \<Rightarrow> booking_reply \<times> bank \<Rightarrow> bool" where
  "ran env book req h b out \<longleftrightarrow>
     (\<exists>v cd ids b1. out = executeAndRecord env book req h v cd ids b1 \<and> ledger b1 = ledger b \<and>
        taken req (orders b1) \<and> length ids = length (Entries req))"

definition answered :: "DoubleEntryBookingRequest \<Rightarrow> string \<Rightarrow> bank \<Rightarrow> booking_reply \<times> bank \<Rightarrow> bool" where
  "answered req h b out \<longleftrightarrow> ledger (snd out) = ledger b \<and>
     (\<forall>v ids. fst out = Reply v ids None \<longrightarrow>
        (\<exists>r. GetByOrderKey (orders (snd out)) (RequestID req) (BusinessType req) (BusinessNo req) = Some r \<and>
             order_status r = OrderSuccess \<and> order_voucher r = v \<and> TxIDs (parseOrderExtra (extra_row r)) = ids \<and>
             consistentRequest h (parseOrderExtra (extra_row r))))"

lemma claim_cases:
  assumes "length ids = length (Entries req)"
  shows "case claimAndExecute env book req h k old v cd ids b of
           Inl out \<Rightarrow> ran env book req h b out \<or> answered req h b out
         | Inr b' \<Rightarrow> ledger b' = ledger b"
proof (cases "claim_fails env k")
  case True
  then show ?thesis by (simp add: claimAndExecute_def Let_def answered_def)
next
  case False
  obtain n os where u: "UpdateToProcessing (before_claim env k (orders b)) (RequestID req) (BusinessType req)
      (BusinessNo req) = (n, os)" by fastforce
  show ?thesis
  proof (cases "n = 0")
    case True
    with False u show ?thesis by (simp add: claimAndExecute_def Let_def)
  next
    case n: False
    have "ran env book req h b (executeAndRecord env book req h v cd ids (b\<lparr>orders := os\<rparr>))"
      unfolding ran_def using claim_takes [OF u n] assms by (intro exI conjI) (rule refl, simp_all)
    with False u n show ?thesis by (simp add: claimAndExecute_def Let_def)
  qed
qed

lemma those_length: "those xs = Some ys \<Longrightarrow> length ys = length xs"
  by (induction xs arbitrary: ys) (auto split: option.splits)

lemma generateTransactionIDs_length:
  "generateTransactionIDs sh sq es = Some ids \<Longrightarrow> length ids = length es"
  by (auto simp: generateTransactionIDs_def dest: those_length)

lemma ensureIDs_length: "ensureIDs env k req x = Some (v, ids) \<Longrightarrow> length ids = length (Entries req)"
  by (auto simp: ensureIDs_def generateTransactionIDs_length split: option.splits if_splits)

lemma existing_cases:
  assumes "GetByOrderKey (orders b) (RequestID req) (BusinessType req) (BusinessNo req) = Some r"
  shows "case existingOrder env book req h k r b of
           Inl out \<Rightarrow> ran env book req h b out \<or> answered req h b out
         | Inr b' \<Rightarrow> ledger b' = ledger b"
proof -
  let ?x = "parseOrderExtra (extra_row r)"
  have c: "case claimAndExecute env book req h k old v cd ids b of
      Inl out \<Rightarrow> ran env book req h b out \<or> answered req h b out | Inr b' \<Rightarrow> ledger b' = ledger b"
    if "ensureIDs env k req ?x = Some (v, ids)" for old v cd ids
    using claim_cases [OF ensureIDs_length [OF that]] .
  show ?thesis
    using assms c by (cases "order_status r") (auto simp: existingOrder_def Let_def answered_def split: option.split)
qed

lemma fresh_cases:
  "case freshOrder env book req h k b of
     Inl out \<Rightarrow> ran env book req h b out \<or> answered req h b out
   | Inr b' \<Rightarrow> ledger b' = ledger b"
proof (cases "generateVoucherNo (shadow_flow env) (voucher_seq env k) (BusinessNo req)")
  case None
  then show ?thesis by (simp add: freshOrder_def answered_def)
next
  case v: (Some v)
  show ?thesis
  proof (cases "generateTransactionIDs (shadow_flow env) (tx_seq env k) (Entries req)")
    case None
    with v show ?thesis by (simp add: freshOrder_def answered_def)
  next
    case ids: (Some ids)
    have c: "case claimAndExecute env book req h k old v cd ids (b\<lparr>orders := os\<rparr>) of
        Inl out \<Rightarrow> ran env book req h b out \<or> answered req h b out | Inr b' \<Rightarrow> ledger b' = ledger b" for old cd os
      using claim_cases [OF generateTransactionIDs_length [OF ids], where env = env and book = book and h = h
          and k = k and old = old and v = v and cd = cd and b = "b\<lparr>orders := os\<rparr>"]
      by (auto simp: ran_def answered_def split: sum.splits)
    from v ids c show ?thesis
      by (auto simp: freshOrder_def Let_def answered_def split: prod.split option.split ledger_error.split)
  qed
qed

lemma loop_cases:
  "ran env book req h b (booking_loop env book req h k left b) \<or>
   answered req h b (booking_loop env book req h k left b)"
proof (induction left arbitrary: k b)
  case 0
  then show ?case by (simp add: answered_def)
next
  case (Suc left)
  define step where "step = (case GetByOrderKey (orders b) (RequestID req) (BusinessType req) (BusinessNo req) of
      Some r \<Rightarrow> existingOrder env book req h k r b | None \<Rightarrow> freshOrder env book req h k b)"
  have s: "case step of Inl out \<Rightarrow> ran env book req h b out \<or> answered req h b out
                | Inr b' \<Rightarrow> ledger b' = ledger b"
    unfolding step_def using existing_cases fresh_cases by (auto split: option.split)
  show ?case
  proof (cases "get_fails env k")
    case True
    then show ?thesis by (simp add: answered_def)
  next
    case False
    show ?thesis
    proof (cases step)
      case (Inl out)
      with False s show ?thesis by (simp add: step_def [symmetric])
    next
      case (Inr b')
      with s have "ledger b' = ledger b" by simp
      moreover have "booking_loop env book req h k (Suc left) b = booking_loop env book req h (Suc k) left b'"
        using False Inr by (simp add: step_def [symmetric])
      ultimately show ?thesis
        using Suc.IH [of b' "Suc k"] by (auto simp: ran_def answered_def)
    qed
  qed
qed

text \<open>A stored success is answered from the row alone.\<close>

lemma stored_success_replays:
  assumes "GetByOrderKey (orders b) (RequestID req) (BusinessType req) (BusinessNo req) = Some r"
    and "order_status r = OrderSuccess" "\<not> get_fails env 0"
    and "consistentRequest (computeRequestHash digest req) (parseOrderExtra (extra_row r))"
  shows "idempotentBooking digest env book req b =
         (Reply (order_voucher r) (TxIDs (parseOrderExtra (extra_row r))) None, b)"
  using assms by (simp add: idempotentBooking_def numeral_eq_Suc existingOrder_def Let_def)

lemma failed_read_keeps: "get_fails env 0 \<Longrightarrow> snd (idempotentBooking digest env book req b) = b"
  by (simp add: idempotentBooking_def numeral_eq_Suc)

lemma taken_row:
  assumes "taken req os"
  obtains r where "GetByOrderKey os (RequestID req) (BusinessType req) (BusinessNo req) = Some r"
  using assms by (cases "GetByOrderKey os (RequestID req) (BusinessType req) (BusinessNo req)")
    (auto simp: taken_def GetByOrderKey_def select_one_None)

section \<open>Properties\<close>

text \<open>
  C17. A call executes its booking at most once, whatever other clients write between its statements
  and whichever of its statements fail: afterwards the ledger is as before, or it is what one run of
  the booking with one transaction identifier per entry made of it. A success is the result of that
  run or the stored result of an order that succeeded before.
\<close>

theorem a_call_books_at_most_once:
  "case idempotentBooking digest env book req b of (r, b') \<Rightarrow>
     (\<exists>v cd ids. length ids = length (Entries req) \<and> ledger b' = snd (book req v cd ids (ledger b)) \<and>
        (\<forall>w is. r = Reply w is None \<longrightarrow> fst (book req v cd ids (ledger b)) = Inr (w, is))) \<or>
     (ledger b' = ledger b \<and>
        (\<forall>w is. r = Reply w is None \<longrightarrow>
           (\<exists>o1. GetByOrderKey (orders b') (RequestID req) (BusinessType req) (BusinessNo req) = Some o1 \<and>
                order_status o1 = OrderSuccess \<and> order_voucher o1 = w)))"
proof -
  obtain r b' where out: "idempotentBooking digest env book req b = (r, b')" by fastforce
  then have "ran env book req (computeRequestHash digest req) b (r, b') \<or>
      answered req (computeRequestHash digest req) b (r, b')"
    using loop_cases unfolding idempotentBooking_def by metis
  then show ?thesis
  proof
    assume "ran env book req (computeRequestHash digest req) b (r, b')"
    then obtain v cd ids b1 where x: "executeAndRecord env book req (computeRequestHash digest req) v cd ids b1 = (r, b')"
      "ledger b1 = ledger b" "length ids = length (Entries req)" unfolding ran_def by metis
    note e = executeAndRecord_cases [OF x(1), unfolded x(2)]
    have "fst (book req v cd ids (ledger b)) = Inr (w, is)" if "r = Reply w is None" for w "is"
      using e(2) that by (auto split: sum.splits)
    with e(1) x(3) show ?thesis
      unfolding out prod.case by (intro disjI1 exI [of _ v] exI [of _ cd] exI [of _ ids]) auto
  next
    assume "answered req (computeRequestHash digest req) b (r, b')"
    with out show ?thesis by (auto simp: answered_def)
  qed
qed

text \<open>The shop's request, a fresh order table and identifiers counted from one.\<close>

definition calm :: order_env where
  "calm = \<lparr>shadow_flow = False, get_fails = (\<lambda>_. False), voucher_seq = (\<lambda>_. Some 1),
     tx_seq = (\<lambda>_ i. Some (int i + 1)), before_create = (\<lambda>_ os. os), create_order_fault = (\<lambda>_. None),
     before_claim = (\<lambda>_ os. os), claim_fails = (\<lambda>_. False), success_fault = None,
     failed_fails = False, local_cut_date = ''2026-01-01'', error_text = (\<lambda>_. ''error'')\<rparr>"

definition shop_bank :: bank where
  "shop_bank = \<lparr>orders = [], ledger = shop_cluster\<rparr>"

definition shop_booker :: "faults \<Rightarrow> booker" where
  "shop_booker f = doBooking None (tccBooking shop_config f 0 ''2026-01-01'')"

definition order_request :: DoubleEntryBookingRequest where
  "order_request = shop_request\<lparr>BusinessNo := ''4200000001''\<rparr>"

definition shop_call :: "order_env \<Rightarrow> faults \<Rightarrow> bank \<Rightarrow> booking_reply \<times> bank" where
  "shop_call env f b = idempotentBooking (\<lambda>s. s) env (shop_booker f) order_request b"

lemma shop_call_replies:
  "fst (shop_call calm no_faults shop_bank) =
     Reply ''1010000000000001'' [''2010000000000001'', ''2370000000000002''] None"
  by code_simp

theorem a_call_books_at_most_once_witness:
  "\<exists>v cd ids. fst (shop_booker no_faults order_request v cd ids shop_cluster) =
     Inr (''1010000000000001'', [''2010000000000001'', ''2370000000000002''])"
proof -
  have "GetByOrderKey (orders (snd (shop_call calm no_faults shop_bank))) ''r1'' ''PAYMENT'' ''4200000001'' \<noteq> None"
    by code_simp
  have n: "ledger (snd (shop_call calm no_faults shop_bank)) \<noteq> ledger shop_bank"
  proof
    assume e: "ledger (snd (shop_call calm no_faults shop_bank)) = ledger shop_bank"
    have "journal (shards (ledger (snd (shop_call calm no_faults shop_bank))) (0, 1)) \<noteq>
        journal (shards (ledger shop_bank) (0, 1))" by code_simp
    with e show False by simp
  qed
  obtain b' where o: "shop_call calm no_faults shop_bank =
      (Reply ''1010000000000001'' [''2010000000000001'', ''2370000000000002''] None, b')"
    using shop_call_replies by (metis prod.collapse)
  have "ledger shop_bank = shop_cluster" by (simp add: shop_bank_def)
  with a_call_books_at_most_once [where digest = "\<lambda>s. s" and env = calm and book = "shop_booker no_faults"
      and req = order_request and b = shop_bank] n
  show ?thesis unfolding shop_call_def [symmetric] o by auto
qed



text \<open>Rows of a key that only the last row has.\<close>

lemma last_row:
  assumes "GetByOrderKey os no ty bno = None" "order_key no ty bno r"
  shows "GetByOrderKey (os @ [r]) no ty bno = Some r"
    and "update_where (\<lambda>x. order_key no ty bno x \<and> P x) f (os @ [r]) = os @ [if P r then f r else r]"
    and "count_where (\<lambda>x. order_key no ty bno x \<and> P x) (os @ [r]) = (if P r then 1 else 0)"
    and "update_where (order_key no ty bno) f (os @ [r]) = os @ [f r]"
proof -
  have n: "\<forall>x\<in>set os. \<not> order_key no ty bno x"
    using assms(1) by (simp add: GetByOrderKey_def select_one_None)
  have "List.find (order_key no ty bno) os = None"
    using assms(1) by (simp add: GetByOrderKey_def select_one_def)
  with assms(2) show "GetByOrderKey (os @ [r]) no ty bno = Some r"
    by (simp add: GetByOrderKey_def select_one_def find_append)
  have "map (\<lambda>x. if order_key no ty bno x \<and> P x then f x else x) os = os" for P
    using n by (intro map_idI) simp
  then show "update_where (\<lambda>x. order_key no ty bno x \<and> P x) f (os @ [r]) = os @ [if P r then f r else r]"
    using assms(2) by (simp add: update_where_def)
  have "map (\<lambda>x. if order_key no ty bno x then f x else x) os = os"
    using n by (intro map_idI) simp
  then show "update_where (order_key no ty bno) f (os @ [r]) = os @ [f r]"
    using assms(2) by (simp add: update_where_def)
  have "filter (\<lambda>x. order_key no ty bno x \<and> P x) os = []" using n by (simp add: filter_empty_conv)
  then show "count_where (\<lambda>x. order_key no ty bno x \<and> P x) (os @ [r]) = (if P r then 1 else 0)"
    using assms(2) by (simp add: count_where_def)
qed

lemma undisturbed_claim:
  assumes "GetByOrderKey os (RequestID req) (BusinessType req) (BusinessNo req) = None"
    and "order_key (RequestID req) (BusinessType req) (BusinessNo req) row"
    and "order_status row \<in> {OrderPending, OrderFailed}" "before_claim env k = id" "\<not> claim_fails env k"
  shows "claimAndExecute env book req h k old v cd ids (b\<lparr>orders := os @ [row]\<rparr>) =
    Inl (executeAndRecord env book req h v cd ids (b\<lparr>orders := os @ [row\<lparr>order_status := OrderProcessing\<rparr>]\<rparr>))"
  using last_row(2,3) [OF assms(1,2), of "\<lambda>r. order_status r \<in> {OrderPending, OrderFailed}"] assms(3-5)
  by (simp add: claimAndExecute_def UpdateToProcessing_def Let_def)



section \<open>Where a request is lost or booked twice\<close>

text \<open>
  The order row carries its voucher number from its creation, but \<open>ResetForRetry\<close> takes a voucher
  number for proof that a PROCESSING order was booked. Of a call that died after its claim, the
  administrator's retry makes a success: nothing was booked, and the client's next call is answered
  with the voucher as if it were.
\<close>

definition died_after_claim :: bank where
  "died_after_claim = (let os = orders (snd (shop_call (calm\<lparr>claim_fails := \<lambda>_. True\<rparr>) no_faults shop_bank))
     in shop_bank\<lparr>orders := snd (UpdateToProcessing os ''r1'' ''PAYMENT'' ''4200000001'')\<rparr>)"

lemma stuck_order_is_reset_to_success:
  "ledger died_after_claim = shop_cluster"
  "(let (act, os) = ResetForRetry (orders died_after_claim) ''r1'' ''PAYMENT'' ''4200000001'' False;
        (r, b') = shop_call calm no_faults (died_after_claim\<lparr>orders := os\<rparr>)
    in act = Inr PhantomFixed \<and>
       r = Reply ''1010000000000001'' [''2010000000000001'', ''2370000000000002''] None \<and>
       map balance (accounts (shards (ledger b') (0, 1))) = [5000])"
  by (simp add: died_after_claim_def Let_def shop_bank_def) code_simp

text \<open>
  The digest sorts the entries, the transaction identifiers go by position. A retry that sends the
  entries in another order has the same digest, but books each account under the other's identifier:
  Try finds no branch and opens new ones, and recovery confirms all of them. The payer pays twice.
\<close>

definition reordered_request :: DoubleEntryBookingRequest where
  "reordered_request = shop_request\<lparr>Entries := rev (Entries shop_request)\<rparr>"

definition reordered_retry :: cluster where
  "reordered_retry = snd (tccBooking shop_config no_faults 5 ''2026-01-01'' reordered_request ''9'' ''2026-01-01''
     [''t1'', ''t2''] half_confirmed)"

lemma reordered_retry_posts_twice:
  "requestPayload reordered_request = requestPayload shop_request"
  "let (err, c) = recoverOneConfirmingTcc [] 7 reordered_retry (hd (coordinators reordered_retry))
   in err = None \<and> map balance (accounts (shards c (0, 1))) = [2600] \<and>
      map balance (accounts (shards c (3, 37))) = [2400]"
  unfolding reordered_retry_def half_confirmed_def by code_simp+

end
