(* ===== verification/Freeze.thy ===== *)
theory Freeze
  imports Booking
begin

text \<open>
  Freezing funds: \<open>freeze_service.go\<close> (freeze, unfreeze and return, unfreeze and debit with its
  compensation), \<open>freeze_compensate_worker.go\<close> and the repositories they use. A freeze order lives in
  the shard of its account, so that the order and the account's columns change in one transaction;
  the credits of a debit are transactions of their own, undone one by one when one of them fails.
  Faults are arguments: a transaction that fails at some statement or at commit changes nothing.
\<close>

section \<open>State\<close>

record FreezeOrder =
  fo_order_no :: string
  fo_business_no :: string
  fo_amount :: string
  fo_currency :: string
  fo_status :: OrderStatus
  fo_account :: string
  fo_voucher :: string
  fo_error :: string

record AccountingVoucher =
  voucher_no :: string
  voucher_business_no :: string
  total_debit :: int
  total_credit :: int
  voucher_currency :: string
  voucher_date :: string

datatype CompensateStatus = CompensatePending | CompensateRunning | CompensateDone | CompensateFailed

record CompensateEntry =
  ce_account :: string
  ce_debit :: int
  ce_credit :: int
  ce_tx :: string

record CompensatePayload =
  cp_account :: string
  cp_amount :: int
  cp_business_no :: string
  cp_business_type :: string
  cp_currency :: string
  cp_date :: string
  cp_cut_date :: string
  cp_credits :: "CompensateEntry list"

record CompensateOutbox =
  co_voucher :: string
  co_order_no :: string
  co_payload :: CompensatePayload
  co_status :: CompensateStatus
  co_retries :: nat
  co_created :: int

record freeze_bank =
  books_of :: cluster
  freeze_orders :: "shard_id \<Rightarrow> FreezeOrder list"
  vouchers :: "shard_id \<Rightarrow> AccountingVoucher list"
  outbox :: "shard_id \<Rightarrow> CompensateOutbox list"

datatype freeze_error =
    InvalidFreeze string
  | FreezeNotFound string
  | FreezeInStatus OrderStatus
  | InsufficientFunds int int
  | BadAmount string
  | MixedEntry string
  | EmptyEntry string
  | NoFrozenDebit
  | SeveralFrozenDebits
  | EntriesUnbalanced int int
  | FreezeIdFailed
  | FreezeLedger ledger_error
  | CreditFailed ledger_error
  | CreditAndCompensationFailed ledger_error "ledger_error list"
  | Panicked

section \<open>The repositories\<close>

definition fo_key :: "string \<Rightarrow> string \<Rightarrow> FreezeOrder \<Rightarrow> bool" where
  "fo_key no bno r \<longleftrightarrow> fo_order_no r = no \<and> fo_business_no r = bno"

definition freezeCreate :: "FreezeOrder list \<Rightarrow> FreezeOrder \<Rightarrow> ledger_error + FreezeOrder list" where
  "freezeCreate os r =
     (if list_ex (fo_key (fo_order_no r) (fo_business_no r)) os then Inl (MySQLError 1062) else Inr (os @ [r]))"

definition freezeGetByKey :: "FreezeOrder list \<Rightarrow> string \<Rightarrow> string \<Rightarrow> FreezeOrder option" where
  "freezeGetByKey os no bno = select_one (fo_key no bno) os"

definition freezeUpdateToFrozen :: "FreezeOrder list \<Rightarrow> string \<Rightarrow> string \<Rightarrow> nat \<times> FreezeOrder list" where
  "freezeUpdateToFrozen os no bno =
     (let P = (\<lambda>r. fo_key no bno r \<and> fo_status r = OrderPending)
      in (count_where P os, update_where P (\<lambda>r. r\<lparr>fo_status := OrderProcessing\<rparr>) os))"

definition freezeUpdateSuccess :: "FreezeOrder list \<Rightarrow> string \<Rightarrow> string \<Rightarrow> string \<Rightarrow> FreezeOrder list" where
  "freezeUpdateSuccess os no bno v =
     update_where (fo_key no bno) (\<lambda>r. r\<lparr>fo_status := OrderSuccess, fo_voucher := v\<rparr>) os"

definition freezeUpdateFailed :: "FreezeOrder list \<Rightarrow> string \<Rightarrow> string \<Rightarrow> string \<Rightarrow> FreezeOrder list" where
  "freezeUpdateFailed os no bno msg =
     update_where (fo_key no bno) (\<lambda>r. r\<lparr>fo_status := OrderFailed, fo_error := msg\<rparr>) os"

definition voucherCreate :: "AccountingVoucher list \<Rightarrow> AccountingVoucher \<Rightarrow> ledger_error + AccountingVoucher list" where
  "voucherCreate vs v =
     (if list_ex (\<lambda>x. voucher_no x = voucher_no v) vs then Inl (MySQLError 1062) else Inr (vs @ [v]))"

text \<open>\<open>UPDATE account SET balance = balance + db, available_balance = available_balance + dv,
  frozen_balance = frozen_balance + df, version = version + 1\<close>.\<close>

definition shiftColumns :: "int \<Rightarrow> int \<Rightarrow> int \<Rightarrow> Account \<Rightarrow> Account option" where
  "shiftColumns db dv df a =
     (case (sql_add (balance a) db, sql_add (available_balance a) dv, sql_add (frozen_balance a) df,
            sql_add (version a) 1) of
        (Some b, Some v, Some f, Some ver) \<Rightarrow>
          Some (a\<lparr>balance := b, available_balance := v, frozen_balance := f, version := ver\<rparr>)
      | _ \<Rightarrow> None)"

text \<open>\<open>routeByVoucher\<close> reads a database digit and two table digits from the front of the number.\<close>

definition routeByVoucher :: "string \<Rightarrow> ledger_error + shard_id" where
  "routeByVoucher v =
     (if length v < 3 then Inl (DriverError ''voucher_no too short'')
      else case (parse_int (take 1 v), parse_int (take 2 (drop 1 v))) of
             (Some d, Some t) \<Rightarrow> Inr (d, t)
           | _ \<Rightarrow> Inl (DriverError ''parse voucher_no''))"

definition outboxInsert :: "int \<Rightarrow> freeze_bank \<Rightarrow> CompensateOutbox \<Rightarrow> ledger_error + freeze_bank" where
  "outboxInsert db b row =
     (case routeByVoucher (co_voucher row) of
        Inl e \<Rightarrow> Inl e
      | Inr (_, t) \<Rightarrow>
          if (db, t) \<notin> set (GetAllShards NewRouter) then Inl (MySQLError 1146)
          else Inr (b\<lparr>outbox := (outbox b)((db, t) := outbox b (db, t) @ [row])\<rparr>))"

definition casStatus :: "freeze_bank \<Rightarrow> string \<Rightarrow> CompensateStatus \<Rightarrow> CompensateStatus \<Rightarrow>
    (CompensateOutbox \<Rightarrow> CompensateOutbox) \<Rightarrow> ledger_error + (bool \<times> freeze_bank)" where
  "casStatus b v from to extra =
     (case routeByVoucher v of
        Inl e \<Rightarrow> Inl e
      | Inr sid \<Rightarrow>
          if sid \<notin> set (GetAllShards NewRouter) then Inl (MySQLError 1146)
          else let P = (\<lambda>r. co_voucher r = v \<and> co_status r = from)
               in Inr (count_where P (outbox b sid) > 0,
                       b\<lparr>outbox := (outbox b)(sid := update_where P (\<lambda>r. extra (r\<lparr>co_status := to\<rparr>)) (outbox b sid))\<rparr>))"

definition MarkDone :: "freeze_bank \<Rightarrow> string \<Rightarrow> ledger_error + (bool \<times> freeze_bank)" where
  "MarkDone b v = casStatus b v CompensatePending CompensateDone (\<lambda>r. r)"

definition ClaimPending :: "freeze_bank \<Rightarrow> string \<Rightarrow> ledger_error + (bool \<times> freeze_bank)" where
  "ClaimPending b v = casStatus b v CompensatePending CompensateRunning (\<lambda>r. r)"

definition MarkCompensated :: "freeze_bank \<Rightarrow> string \<Rightarrow> ledger_error + freeze_bank" where
  "MarkCompensated b v =
     (case casStatus b v CompensateRunning CompensateDone (\<lambda>r. r) of
        Inl e \<Rightarrow> Inl e
      | Inr (ok, b') \<Rightarrow> if ok then Inr b' else Inl (DriverError ''row not in COMPENSATING''))"

definition MarkFailed :: "freeze_bank \<Rightarrow> string \<Rightarrow> ledger_error + freeze_bank" where
  "MarkFailed b v =
     (case casStatus b v CompensateRunning CompensateFailed (\<lambda>r. r) of
        Inl e \<Rightarrow> Inl e
      | Inr (ok, b') \<Rightarrow> if ok then Inr b' else Inl (DriverError ''row not in COMPENSATING''))"

definition IncrementRetry :: "freeze_bank \<Rightarrow> string \<Rightarrow> ledger_error + freeze_bank" where
  "IncrementRetry b v =
     map_sum id snd (casStatus b v CompensateRunning CompensatePending (\<lambda>r. r\<lparr>co_retries := co_retries r + 1\<rparr>))"

fun collectPending :: "freeze_bank \<Rightarrow> int \<Rightarrow> nat \<Rightarrow> shard_id list \<Rightarrow> CompensateOutbox list \<Rightarrow> CompensateOutbox list" where
  "collectPending b cutoff limit [] acc = acc"
| "collectPending b cutoff limit (sid # sids) acc =
     (let acc = acc @ take limit (filter (\<lambda>r. co_status r = CompensatePending \<and> co_created r < cutoff) (outbox b sid))
      in if length acc \<ge> limit then take limit acc else collectPending b cutoff limit sids acc)"

definition ListPendingExpired :: "freeze_bank \<Rightarrow> int \<Rightarrow> int \<Rightarrow> nat \<Rightarrow> CompensateOutbox list" where
  "ListPendingExpired b now after limit = collectPending b (now - after) limit (GetAllShards NewRouter) []"

section \<open>Freeze and return\<close>

record FreezeBalanceRequest =
  fr_order_no :: string
  fr_account_no :: string
  fr_business_no :: string
  fr_amount :: int
  fr_currency :: string

record freeze_key =
  FreezeOrderNo :: string
  FreezeAccountNo :: string
  FreezeBusinessNo :: string
  FreezeBusinessType :: string

definition put_books :: "freeze_bank \<Rightarrow> shard_id \<Rightarrow> shard \<Rightarrow> freeze_bank" where
  "put_books b sid s = b\<lparr>books_of := put_shard (books_of b) sid s\<rparr>"

definition put_orders :: "freeze_bank \<Rightarrow> shard_id \<Rightarrow> FreezeOrder list \<Rightarrow> freeze_bank" where
  "put_orders b sid os = b\<lparr>freeze_orders := (freeze_orders b)(sid := os)\<rparr>"

definition freezeTx :: "FreezeBalanceRequest \<Rightarrow> freeze_bank \<Rightarrow> freeze_error + freeze_bank" where
  "freezeTx req b =
     (let sid = RouteByAccountNo NewRouter (fr_account_no req);
          no = fr_order_no req; bno = fr_business_no req; s = shards (books_of b) sid
      in case freezeCreate (freeze_orders b sid) \<lparr>fo_order_no = no, fo_business_no = bno,
                fo_amount = format_int (fr_amount req), fo_currency = fr_currency req, fo_status = OrderPending,
                fo_account = fr_account_no req, fo_voucher = [], fo_error = []\<rparr> of
           Inl e \<Rightarrow> Inl (FreezeLedger e)
         | Inr os \<Rightarrow>
             (case GetAccountForUpdate s (fr_account_no req) of
                None \<Rightarrow> Inl (FreezeLedger (AccountNotFound (fr_account_no req)))
              | Some a \<Rightarrow>
                  if available_balance a < fr_amount req
                  then Inl (InsufficientFunds (available_balance a) (fr_amount req))
                  else (case updateAccount s (\<lambda>x. acc_no x = fr_account_no req)
                               (shiftColumns 0 (- fr_amount req) (fr_amount req)) of
                          Inl e \<Rightarrow> Inl (FreezeLedger e)
                        | Inr (_, s') \<Rightarrow>
                            (let (n, os') = freezeUpdateToFrozen os no bno
                             in if n = 0 then Inl (FreezeLedger (DriverError ''concurrent update conflict''))
                                else Inr (put_orders (put_books b sid s') sid os')))))"

definition FreezeBalance :: "ledger_error option \<Rightarrow> FreezeBalanceRequest \<Rightarrow> freeze_bank \<Rightarrow>
    (freeze_error + string) \<times> freeze_bank" where
  "FreezeBalance fault req b =
     (if fr_amount req \<le> 0 then (Inl (InvalidFreeze ''amount must be positive''), b)
      else if fr_account_no req = [] \<or> fr_order_no req = [] \<or> fr_business_no req = []
        then (Inl (InvalidFreeze ''order_no, account_no and business_no are required''), b)
      else case freezeGetByKey (freeze_orders b (RouteByAccountNo NewRouter (fr_account_no req)))
                  (fr_order_no req) (fr_business_no req) of
             Some r \<Rightarrow>
               (case fo_status r of
                  OrderProcessing \<Rightarrow> (Inr (fo_order_no r), b)
                | OrderSuccess \<Rightarrow> (Inl (FreezeInStatus OrderSuccess), b)
                | OrderFailed \<Rightarrow> (Inl (FreezeInStatus OrderFailed), b)
                | OrderPending \<Rightarrow>
                    (case fault of Some e \<Rightarrow> (Inl (FreezeLedger e), b)
                     | None \<Rightarrow> (case freezeTx req b of Inl e \<Rightarrow> (Inl e, b) | Inr b' \<Rightarrow> (Inr (fr_order_no req), b'))))
           | None \<Rightarrow>
               (case fault of Some e \<Rightarrow> (Inl (FreezeLedger e), b)
                | None \<Rightarrow> (case freezeTx req b of Inl e \<Rightarrow> (Inl e, b) | Inr b' \<Rightarrow> (Inr (fr_order_no req), b'))))"

text \<open>The account of the order's extra row, or the request's when the row has none.\<close>

definition frozenAccount :: "freeze_key \<Rightarrow> FreezeOrder \<Rightarrow> string" where
  "frozenAccount k r = (if fo_account r = [] then FreezeAccountNo k else fo_account r)"

definition required :: "freeze_key \<Rightarrow> bool" where
  "required k \<longleftrightarrow> FreezeAccountNo k \<noteq> [] \<and> FreezeOrderNo k \<noteq> [] \<and> FreezeBusinessNo k \<noteq> []"

definition UnfreezeAndReturn :: "ledger_error option \<Rightarrow> freeze_key \<Rightarrow> freeze_bank \<Rightarrow>
    freeze_error option \<times> freeze_bank" where
  "UnfreezeAndReturn fault k b =
     (let sid = RouteByAccountNo NewRouter (FreezeAccountNo k); s = shards (books_of b) sid
      in if \<not> required k then (Some (InvalidFreeze ''freeze order, account and business_no are required''), b)
         else case freezeGetByKey (freeze_orders b sid) (FreezeOrderNo k) (FreezeBusinessNo k) of
                None \<Rightarrow> (Some (FreezeNotFound (FreezeOrderNo k)), b)
              | Some r \<Rightarrow>
                  (case fo_status r of
                     OrderFailed \<Rightarrow> (None, b)
                   | OrderSuccess \<Rightarrow> (Some (FreezeInStatus OrderSuccess), b)
                   | OrderPending \<Rightarrow> (Some (FreezeInStatus OrderPending), b)
                   | OrderProcessing \<Rightarrow>
                       (case parse_int (fo_amount r) of
                          None \<Rightarrow> (Some (BadAmount (fo_amount r)), b)
                        | Some amt \<Rightarrow>
                            (case fault of
                               Some e \<Rightarrow> (Some (FreezeLedger e), b)
                             | None \<Rightarrow>
                                 (case updateAccount s (\<lambda>x. acc_no x = frozenAccount k r) (shiftColumns 0 amt (- amt)) of
                                    Inl e \<Rightarrow> (Some (FreezeLedger e), b)
                                  | Inr (_, s') \<Rightarrow>
                                      (None, put_orders (put_books b sid s') sid
                                         (freezeUpdateFailed (freeze_orders b sid) (FreezeOrderNo k)
                                            (FreezeBusinessNo k) ''unfreeze and return'')))))))"

section \<open>Unfreeze and debit\<close>

record UnfreezeAndDebitRequest =
  fkey :: freeze_key
  ud_entries :: "AccountingEntry list"
  ud_currency :: string

fun unfreeze_loop :: "string \<Rightarrow> int \<Rightarrow> AccountingEntry list \<Rightarrow> int \<Rightarrow> int \<Rightarrow> nat \<Rightarrow>
    freeze_error + (int \<times> int \<times> nat)" where
  "unfreeze_loop n amt [] td tc k = Inr (td, tc, k)"
| "unfreeze_loop n amt (e # es) td tc k =
     (if DebitAmount e \<noteq> 0 \<and> CreditAmount e \<noteq> 0 then Inl (MixedEntry (AccountNo e))
      else if DebitAmount e = 0 \<and> CreditAmount e = 0 then Inl (EmptyEntry (AccountNo e))
      else unfreeze_loop n amt es (add64 td (DebitAmount e)) (add64 tc (CreditAmount e))
             (if AccountNo e = n \<and> DebitAmount e = amt then k + 1 else k))"

definition validateUnfreezeEntries :: "AccountingEntry list \<Rightarrow> string \<Rightarrow> int \<Rightarrow> freeze_error option" where
  "validateUnfreezeEntries es n amt =
     (case unfreeze_loop n amt es 0 0 0 of
        Inl e \<Rightarrow> Some e
      | Inr (td, tc, k) \<Rightarrow>
          if k = 0 then Some NoFrozenDebit
          else if k > 1 then Some SeveralFrozenDebits
          else if td \<noteq> tc then Some (EntriesUnbalanced td tc)
          else None)"

definition generateFreezeVoucherNo :: "bool \<Rightarrow> int option \<Rightarrow> int \<Rightarrow> string option" where
  "generateFreezeVoucherNo sh sq t =
     (case sq of None \<Rightarrow> None
      | Some n \<Rightarrow> (case EncodeIDStr sh 1 t n of Inl _ \<Rightarrow> None | Inr i \<Rightarrow> Some i))"

definition generateFreezeTxID :: "bool \<Rightarrow> int option \<Rightarrow> string \<Rightarrow> string option" where
  "generateFreezeTxID sh sq n =
     (case sq of None \<Rightarrow> None
      | Some i \<Rightarrow> (case EncodeIDStr sh 3 (snd (RouteByAccountNo NewRouter n)) i of Inl _ \<Rightarrow> None | Inr x \<Rightarrow> Some x))"

text \<open>What the parts of one call share: voucher, business key, currency and the day.\<close>

record debit_call =
  dc_voucher :: string
  dc_business_no :: string
  dc_business_type :: string
  dc_currency :: string
  dc_date :: string

definition freezeRow :: "debit_call \<Rightarrow> string \<Rightarrow> string \<Rightarrow> int \<Rightarrow> int \<Rightarrow> int \<Rightarrow> int \<Rightarrow> AccountTransaction" where
  "freezeRow dc tx n deb cred bef aft =
     \<lparr>transaction_id = tx, parent_transaction = dc_voucher dc, tx_account = n, tx_business_no = dc_business_no dc,
      tx_business_type = dc_business_type dc, debit_amount = deb, credit_amount = cred, balance_before = bef,
      balance_after = aft, booking_type = TransactionBookingTypeSync, tx_currency = dc_currency dc,
      transaction_date = dc_date dc, cut_date = dc_date dc\<rparr>"

text \<open>Lock the account, shift its columns, write the journal row: the body the three transactions
  below share.\<close>

definition shiftAndRecord :: "shard \<Rightarrow> string \<Rightarrow> int \<Rightarrow> int \<Rightarrow> int \<Rightarrow> (int \<Rightarrow> AccountTransaction) \<Rightarrow>
    ledger_error + shard" where
  "shiftAndRecord s n db dv df row =
     (case GetAccountForUpdate s n of
        None \<Rightarrow> Inl (AccountNotFound n)
      | Some a \<Rightarrow>
          (case updateAccount s (\<lambda>x. acc_no x = n) (shiftColumns db dv df) of
             Inl e \<Rightarrow> Inl e
           | Inr (_, s') \<Rightarrow> CreateTransaction s' (row (balance a))))"

definition inShard :: "ledger_error option \<Rightarrow> string \<Rightarrow> (shard \<Rightarrow> ledger_error + shard) \<Rightarrow> freeze_bank \<Rightarrow>
    ledger_error + freeze_bank" where
  "inShard fault n f b =
     (let sid = RouteByAccountNo NewRouter n
      in case fault of
           Some e \<Rightarrow> Inl e
         | None \<Rightarrow> map_sum id (put_books b sid) (f (shards (books_of b) sid)))"

definition applyCreditEntry :: "ledger_error option \<Rightarrow> debit_call \<Rightarrow> AccountingEntry \<Rightarrow> string \<Rightarrow> freeze_bank \<Rightarrow>
    ledger_error + freeze_bank" where
  "applyCreditEntry fault dc e tx b =
     inShard fault (AccountNo e) (\<lambda>s. shiftAndRecord s (AccountNo e) (CreditAmount e) (CreditAmount e) 0
       (\<lambda>bal. freezeRow dc tx (AccountNo e) 0 (CreditAmount e) bal (add64 bal (CreditAmount e)))) b"

text \<open>A duplicate reversal row means the reversal is done: the transaction is rolled back and counts
  as a success.\<close>

definition reversed_before :: "freeze_bank \<Rightarrow> ledger_error + freeze_bank \<Rightarrow> ledger_error + freeze_bank" where
  "reversed_before b r = (case r of Inl (MySQLError n) \<Rightarrow> if n = 1062 then Inr b else r | _ \<Rightarrow> r)"

definition compensateCreditEntry :: "ledger_error option \<Rightarrow> debit_call \<Rightarrow> AccountingEntry \<Rightarrow> string \<Rightarrow>
    freeze_bank \<Rightarrow> ledger_error + freeze_bank" where
  "compensateCreditEntry fault dc e tx b =
     (let d = (if CreditAmount e > 0 then CreditAmount e else neg64 (DebitAmount e))
      in case fault of
           Some err \<Rightarrow> Inl err
         | None \<Rightarrow> reversed_before b
             (inShard None (AccountNo e) (\<lambda>s. shiftAndRecord s (AccountNo e) (- d) (- d) 0
                (\<lambda>bal. freezeRow dc (tx @ ''-R'') (AccountNo e) (CreditAmount e) (DebitAmount e) bal (sub64 bal d))) b))"

definition compensateFrozenDebit :: "ledger_error option \<Rightarrow> debit_call \<Rightarrow> string \<Rightarrow> int \<Rightarrow> shard_id \<Rightarrow>
    freeze_bank \<Rightarrow> ledger_error + freeze_bank" where
  "compensateFrozenDebit fault dc n amt sid b =
     (case fault of
        Some err \<Rightarrow> Inl err
      | None \<Rightarrow> reversed_before b
          (map_sum id (put_books b sid) (shiftAndRecord (shards (books_of b) sid) n amt 0 amt
             (\<lambda>bal. freezeRow dc (dc_voucher dc @ ''-FR'') n 0 amt bal (add64 bal amt)))))"

section \<open>The debit, phase by phase\<close>

text \<open>
  Faults of one call, the credits' and their reversals' by entry index; \<open>outbox_on\<close> says whether the
  compensation outbox is wired.
\<close>

record debit_env =
  ud_shadow :: bool
  ud_voucher_seq :: "int option"
  ud_tx_seq :: "nat \<Rightarrow> int option"
  ud_today :: string
  ud_now :: int
  outbox_on :: bool
  phase1_fault :: "ledger_error option"
  credit_fault :: "nat \<Rightarrow> ledger_error option"
  undo_fault :: "nat \<Rightarrow> ledger_error option"
  undo_frozen_fault :: "ledger_error option"
  mark_fault :: "ledger_error option"

type_synonym indexed_entry = "nat \<times> AccountingEntry"

definition sortedEntries :: "AccountingEntry list \<Rightarrow> indexed_entry list" where
  "sortedEntries es = sort_key (\<lambda>(i, e). AccountNo e) (enumerate 0 es)"

definition indexOfEntry :: "AccountingEntry list \<Rightarrow> AccountingEntry \<Rightarrow> nat" where
  "indexOfEntry es t = length (takeWhile (\<lambda>e. \<not> (AccountNo e = AccountNo t \<and>
     DebitAmount e = DebitAmount t \<and> CreditAmount e = CreditAmount t)) es)"

definition compensatePayload :: "debit_call \<Rightarrow> string \<Rightarrow> int \<Rightarrow> AccountingEntry list \<Rightarrow> string list \<Rightarrow> CompensatePayload" where
  "compensatePayload dc n amt es txIDs =
     \<lparr>cp_account = n, cp_amount = amt, cp_business_no = dc_business_no dc, cp_business_type = dc_business_type dc,
      cp_currency = dc_currency dc, cp_date = dc_date dc, cp_cut_date = dc_date dc,
      cp_credits = map (\<lambda>e. \<lparr>ce_account = AccountNo e, ce_debit = DebitAmount e, ce_credit = CreditAmount e,
         ce_tx = txIDs ! indexOfEntry es e\<rparr>) (filter (\<lambda>e. AccountNo e \<noteq> n) es)\<rparr>"

definition debitPhase1 :: "debit_env \<Rightarrow> freeze_key \<Rightarrow> debit_call \<Rightarrow> string \<Rightarrow> int \<Rightarrow> string \<Rightarrow>
    AccountingEntry list \<Rightarrow> string list \<Rightarrow> freeze_bank \<Rightarrow> ledger_error + freeze_bank" where
  "debitPhase1 env k dc n amt tx es txIDs b =
     (let sid = RouteByAccountNo NewRouter (FreezeAccountNo k)
      in case phase1_fault env of
           Some e \<Rightarrow> Inl e
         | None \<Rightarrow>
             (case shiftAndRecord (shards (books_of b) sid) n (- amt) 0 (- amt)
                     (\<lambda>bal. freezeRow dc tx n amt 0 bal (sub64 bal amt)) of
                Inl e \<Rightarrow> Inl e
              | Inr s' \<Rightarrow>
                  (case voucherCreate (vouchers b sid)
                          \<lparr>voucher_no = dc_voucher dc, voucher_business_no = dc_business_no dc,
                           total_debit = foldl (\<lambda>t e. add64 t (DebitAmount e)) 0 es,
                           total_credit = foldl (\<lambda>t e. add64 t (CreditAmount e)) 0 es,
                           voucher_currency = dc_currency dc, voucher_date = dc_date dc\<rparr> of
                     Inl e \<Rightarrow> Inl e
                   | Inr vs \<Rightarrow>
                       (let b1 = put_orders (put_books b sid s') sid (freezeUpdateSuccess (freeze_orders b sid)
                                   (FreezeOrderNo k) (FreezeBusinessNo k) (dc_voucher dc));
                            b2 = b1\<lparr>vouchers := (vouchers b1)(sid := vs)\<rparr>
                        in if outbox_on env
                           then outboxInsert (fst sid) b2 \<lparr>co_voucher = dc_voucher dc, co_order_no = FreezeOrderNo k,
                                  co_payload = compensatePayload dc n amt es txIDs, co_status = CompensatePending,
                                  co_retries = 0, co_created = ud_now env\<rparr>
                           else Inr b2))))"

fun applyCredits :: "debit_env \<Rightarrow> debit_call \<Rightarrow> string \<Rightarrow> string list \<Rightarrow> indexed_entry list \<Rightarrow> indexed_entry list \<Rightarrow>
    freeze_bank \<Rightarrow> ledger_error option \<times> indexed_entry list \<times> freeze_bank" where
  "applyCredits env dc n txIDs [] done b = (None, done, b)"
| "applyCredits env dc n txIDs ((i, e) # es) done b =
     (if AccountNo e = n then applyCredits env dc n txIDs es done b
      else case applyCreditEntry (credit_fault env i) dc e (txIDs ! i) b of
             Inl err \<Rightarrow> (Some err, done, b)
           | Inr b' \<Rightarrow> applyCredits env dc n txIDs es (done @ [(i, e)]) b')"

fun undoCredits :: "debit_env \<Rightarrow> debit_call \<Rightarrow> string list \<Rightarrow> indexed_entry list \<Rightarrow> freeze_bank \<Rightarrow>
    ledger_error list \<times> freeze_bank" where
  "undoCredits env dc txIDs [] b = ([], b)"
| "undoCredits env dc txIDs ((i, e) # es) b =
     (case compensateCreditEntry (undo_fault env i) dc e (txIDs ! i) b of
        Inl err \<Rightarrow> (let (errs, b') = undoCredits env dc txIDs es b in (err # errs, b'))
      | Inr b' \<Rightarrow> undoCredits env dc txIDs es b')"

definition markDoneIgnored :: "debit_env \<Rightarrow> string \<Rightarrow> freeze_bank \<Rightarrow> freeze_bank" where
  "markDoneIgnored env v b =
     (if outbox_on env \<and> mark_fault env = None
      then (case MarkDone b v of Inl _ \<Rightarrow> b | Inr (_, b') \<Rightarrow> b') else b)"

definition settleCredits :: "debit_env \<Rightarrow> freeze_key \<Rightarrow> debit_call \<Rightarrow> string \<Rightarrow> int \<Rightarrow> string \<Rightarrow> AccountingEntry list \<Rightarrow>
    string list \<Rightarrow> freeze_bank \<Rightarrow> (freeze_error + (string \<times> string list)) \<times> freeze_bank" where
  "settleCredits env k dc n amt tx es txIDs b =
     (case applyCredits env dc n txIDs (sortedEntries es) [] b of
        (None, done, b') \<Rightarrow>
          (Inr (dc_voucher dc, tx # map (\<lambda>(i, e). txIDs ! i) done), markDoneIgnored env (dc_voucher dc) b')
      | (Some err, done, b') \<Rightarrow>
          (let (errs, b2) = undoCredits env dc txIDs done b';
               sid = RouteByAccountNo NewRouter (FreezeAccountNo k);
               (errs', b3) = (case compensateFrozenDebit (undo_frozen_fault env) dc n amt sid b2 of
                                Inl e \<Rightarrow> (errs @ [e], b2) | Inr b3 \<Rightarrow> (errs, b3))
           in if errs' \<noteq> [] then (Inl (CreditAndCompensationFailed err errs'), b3)
              else (Inl (CreditFailed err), markDoneIgnored env (dc_voucher dc) b3)))"

definition frozenDebitIndex :: "string \<Rightarrow> int \<Rightarrow> indexed_entry list \<Rightarrow> nat option" where
  "frozenDebitIndex n amt es = map_option fst (List.find (\<lambda>(i, e). AccountNo e = n \<and> DebitAmount e = amt) es)"

definition debitFrozenOrder :: "debit_env \<Rightarrow> UnfreezeAndDebitRequest \<Rightarrow> FreezeOrder \<Rightarrow> freeze_bank \<Rightarrow>
    (freeze_error + (string \<times> string list)) \<times> freeze_bank" where
  "debitFrozenOrder env req r b =
     (let k = fkey req; es = ud_entries req; n = frozenAccount k r;
          sid = RouteByAccountNo NewRouter (FreezeAccountNo k)
      in case parse_int (fo_amount r) of
           None \<Rightarrow> (Inl (BadAmount (fo_amount r)), b)
         | Some amt \<Rightarrow>
             (case validateUnfreezeEntries es n amt of
                Some e \<Rightarrow> (Inl e, b)
              | None \<Rightarrow>
                  (case (generateFreezeVoucherNo (ud_shadow env) (ud_voucher_seq env) (snd sid),
                         those (map (\<lambda>(i, e). generateFreezeTxID (ud_shadow env) (ud_tx_seq env i) (AccountNo e))
                                  (enumerate 0 es))) of
                     (Some v, Some txIDs) \<Rightarrow>
                       (case frozenDebitIndex n amt (sortedEntries es) of
                          None \<Rightarrow> (Inl Panicked, b)
                        | Some i \<Rightarrow>
                            (let dc = \<lparr>dc_voucher = v, dc_business_no = FreezeBusinessNo k,
                                       dc_business_type = FreezeBusinessType k, dc_currency = ud_currency req,
                                       dc_date = ud_today env\<rparr>
                             in case debitPhase1 env k dc n amt (txIDs ! i) es txIDs b of
                                  Inl e \<Rightarrow> (Inl (FreezeLedger e), b)
                                | Inr b' \<Rightarrow> settleCredits env k dc n amt (txIDs ! i) es txIDs b'))
                   | _ \<Rightarrow> (Inl FreezeIdFailed, b))))"

definition UnfreezeAndDebit :: "debit_env \<Rightarrow> UnfreezeAndDebitRequest \<Rightarrow> freeze_bank \<Rightarrow>
    (freeze_error + (string \<times> string list)) \<times> freeze_bank" where
  "UnfreezeAndDebit env req b =
     (let k = fkey req
      in if \<not> required k then (Inl (InvalidFreeze ''freeze order, account and business_no are required''), b)
         else if length (ud_entries req) < 2 then (Inl (InvalidFreeze ''at least 2 entries required''), b)
         else case freezeGetByKey (freeze_orders b (RouteByAccountNo NewRouter (FreezeAccountNo k)))
                     (FreezeOrderNo k) (FreezeBusinessNo k) of
                None \<Rightarrow> (Inl (FreezeNotFound (FreezeOrderNo k)), b)
              | Some r \<Rightarrow>
                  (case fo_status r of
                     OrderSuccess \<Rightarrow> (Inr (fo_voucher r, []), b)
                   | OrderFailed \<Rightarrow> (Inl (FreezeInStatus OrderFailed), b)
                   | OrderPending \<Rightarrow> (Inl (FreezeInStatus OrderPending), b)
                   | OrderProcessing \<Rightarrow> debitFrozenOrder env req r b))"

section \<open>The compensation worker\<close>

text \<open>\<open>GetTransactionByID\<close> routes a transaction identifier as if it were an account number.\<close>

definition GetTransactionByID :: "cluster \<Rightarrow> string \<Rightarrow> AccountTransaction option" where
  "GetTransactionByID c tx = select_one (\<lambda>r. transaction_id r = tx) (journal (shards c (RouteByAccountNo NewRouter tx)))"

record worker_env =
  lookup_fault :: "string \<Rightarrow> ledger_error option"
  reverse_fault :: "string \<Rightarrow> ledger_error option"
  frozen_fault :: "ledger_error option"

fun reverseCredits :: "worker_env \<Rightarrow> debit_call \<Rightarrow> CompensateEntry list \<Rightarrow> freeze_bank \<Rightarrow>
    ledger_error option \<times> freeze_bank" where
  "reverseCredits env dc [] b = (None, b)"
| "reverseCredits env dc (c # cs) b =
     (case lookup_fault env (ce_tx c) of
        Some e \<Rightarrow> (Some e, b)
      | None \<Rightarrow>
          if GetTransactionByID (books_of b) (ce_tx c) = None then reverseCredits env dc cs b
          else case compensateCreditEntry (reverse_fault env (ce_tx c)) dc
                      \<lparr>AccountNo = ce_account c, DebitAmount = ce_debit c, CreditAmount = ce_credit c,
                       EntryDescription = []\<rparr> (ce_tx c) b of
                 Inl e \<Rightarrow> (Some e, b)
               | Inr b' \<Rightarrow> reverseCredits env dc cs b')"

definition runCompensate :: "worker_env \<Rightarrow> CompensateOutbox \<Rightarrow> freeze_bank \<Rightarrow> ledger_error option \<times> freeze_bank" where
  "runCompensate env row b =
     (let p = co_payload row;
          dc = \<lparr>dc_voucher = co_voucher row, dc_business_no = cp_business_no p,
                dc_business_type = cp_business_type p, dc_currency = cp_currency p, dc_date = cp_date p\<rparr>
      in case reverseCredits env dc (cp_credits p) b of
           (Some e, b') \<Rightarrow> (Some e, b')
         | (None, b') \<Rightarrow>
             (case compensateFrozenDebit (frozen_fault env) dc (cp_account p) (cp_amount p)
                     (RouteByAccountNo NewRouter (cp_account p)) b' of
                Inl e \<Rightarrow> (Some e, b') | Inr b2 \<Rightarrow> (None, b2)))"

abbreviation (input) freezeCompensateMaxRetry :: nat where "freezeCompensateMaxRetry \<equiv> 5"

definition processOne :: "worker_env \<Rightarrow> freeze_bank \<Rightarrow> CompensateOutbox \<Rightarrow> freeze_bank" where
  "processOne env b row =
     (case ClaimPending b (co_voucher row) of
        Inl _ \<Rightarrow> b
      | Inr (claimed, b1) \<Rightarrow>
          if \<not> claimed then b1
          else if co_retries row \<ge> freezeCompensateMaxRetry
            then (case MarkFailed b1 (co_voucher row) of Inl _ \<Rightarrow> b1 | Inr b2 \<Rightarrow> b2)
          else (case runCompensate env row b1 of
                  (Some e, b2) \<Rightarrow> (case IncrementRetry b2 (co_voucher row) of Inl _ \<Rightarrow> b2 | Inr b3 \<Rightarrow> b3)
                | (None, b2) \<Rightarrow> (case MarkCompensated b2 (co_voucher row) of Inl _ \<Rightarrow> b2 | Inr b3 \<Rightarrow> b3)))"

abbreviation (input) freezeCompensatePendingThreshold :: int where "freezeCompensatePendingThreshold \<equiv> 60000000000"
abbreviation (input) freezeCompensateBatchSize :: nat where "freezeCompensateBatchSize \<equiv> 50"

definition scanOnce :: "worker_env \<Rightarrow> int \<Rightarrow> freeze_bank \<Rightarrow> freeze_bank" where
  "scanOnce env now b =
     foldl (processOne env) b (ListPendingExpired b now freezeCompensatePendingThreshold freezeCompensateBatchSize)"

end
