(* ===== verification/FreezeLaws.thy ===== *)
theory FreezeLaws
  imports Freeze
begin

text \<open>
  What freezing keeps and what it moves: the ledger invariants under every operation and fault; the
  frozen column equal to the open freeze orders; a successful debit moves exactly its entries and a
  compensated one puts every column back. The last section shows where the compensation goes wrong.
\<close>

section \<open>One shift of an account's columns\<close>

definition shifted :: "string \<Rightarrow> int \<Rightarrow> int \<Rightarrow> int \<Rightarrow> Account \<Rightarrow> Account" where
  "shifted n db dv df a = (if acc_no a = n
     then a\<lparr>balance := balance a + db, available_balance := available_balance a + dv,
            frozen_balance := frozen_balance a + df, version := version a + 1\<rparr> else a)"

lemma shifted_simps [simp]:
  "acc_no (shifted n db dv df a) = acc_no a" "acc_type (shifted n db dv df a) = acc_type a"
  "useBuffer cfg (shifted n db dv df a) = useBuffer cfg a"
  "hold (shifted n db dv df a) d = hold a d"
  "balance (shifted n db dv df a) = balance a + (if acc_no a = n then db else 0)"
  "available_balance (shifted n db dv df a) = available_balance a + (if acc_no a = n then dv else 0)"
  "frozen_balance (shifted n db dv df a) = frozen_balance a + (if acc_no a = n then df else 0)"
  by (simp_all add: shifted_def useBuffer_def hold_def)

lemma acc_no_shifted [simp]: "acc_no \<circ> shifted n db dv df = acc_no"
  by (simp add: fun_eq_iff)

lemma shiftColumns_Some:
  "shiftColumns db dv df a = Some a' \<Longrightarrow> acc_no a = n \<Longrightarrow> a' = shifted n db dv df a"
  by (auto simp: shiftColumns_def sql_add_def shifted_def split: option.splits if_splits)

lemma updateAccount_shifted:
  assumes "updateAccount s (\<lambda>a. acc_no a = n) (shiftColumns db dv df) = Inr (k, s')"
  shows "s' = s\<lparr>accounts := map (shifted n db dv df) (accounts s)\<rparr>"
proof -
  note u = updateAccount_Inr [OF assms]
  have "the (shiftColumns db dv df a) = shifted n db dv df a" if "a \<in> set (accounts s)" "acc_no a = n" for a
    using u(3) [OF that] shiftColumns_Some [OF _ that(2)] by auto
  then have "update_where (\<lambda>a. acc_no a = n) (\<lambda>a. the (shiftColumns db dv df a)) (accounts s)
        = map (shifted n db dv df) (accounts s)"
    by (auto simp: update_where_def shifted_def)
  with u(1) show ?thesis by simp
qed

lemma shiftAndRecord_Inr:
  assumes "shiftAndRecord s n db dv df row = Inr s'"
  obtains a where "GetAccountForUpdate s n = Some a"
    "s' = s\<lparr>accounts := map (shifted n db dv df) (accounts s), journal := journal s @ [row (balance a)]\<rparr>"
    "transaction_id (row (balance a)) \<notin> transaction_id ` set (journal s)"
proof -
  from assms obtain a k s1 where a: "GetAccountForUpdate s n = Some a"
    and up: "updateAccount s (\<lambda>x. acc_no x = n) (shiftColumns db dv df) = Inr (k, s1)"
    and cr: "CreateTransaction s1 (row (balance a)) = Inr s'"
    by (auto simp: shiftAndRecord_def split: option.splits sum.splits)
  from CreateTransaction_Inr [OF cr] updateAccount_shifted [OF up] a that show thesis by simp
qed

text \<open>A shift with \<open>db = dv + df\<close> keeps the invariants of the ledger.\<close>

lemma shifted_inv:
  assumes inv: "ledger_inv cfg s" and eq: "db = dv + df"
  shows "ledger_inv cfg (s\<lparr>accounts := map (shifted n db dv df) (accounts s)\<rparr>)"
proof -
  let ?s = "s\<lparr>accounts := map (shifted n db dv df) (accounts s)\<rparr>"
  have "keys_unique ?s" using inv by (simp add: ledger_inv_def keys_unique_def)
  moreover have "branches_held ?s" using inv by (auto simp: ledger_inv_def branches_held_def)
  moreover have "funds_covered cfg ?s"
    using inv eq by (auto simp: ledger_inv_def funds_covered_def account_balanced_def)
  ultimately show ?thesis by (simp add: ledger_inv_def)
qed

lemma recorded_inv:
  assumes "ledger_inv cfg s" "transaction_id r \<notin> transaction_id ` set (journal s)"
  shows "ledger_inv cfg (s\<lparr>journal := journal s @ [r]\<rparr>)"
  using assms
  by (simp add: ledger_inv_def keys_unique_def branches_held_def funds_covered_def account_balanced_def held_def)

lemma shiftAndRecord_inv [preserves]:
  assumes inv: "ledger_inv cfg s" and eq: "db = dv + df" and ok: "shiftAndRecord s n db dv df row = Inr s'"
  shows "ledger_inv cfg s'"
  using ok
proof (rule shiftAndRecord_Inr)
  fix a
  assume s': "s' = s\<lparr>accounts := map (shifted n db dv df) (accounts s), journal := journal s @ [row (balance a)]\<rparr>"
    and new: "transaction_id (row (balance a)) \<notin> transaction_id ` set (journal s)"
  from recorded_inv [OF shifted_inv [OF inv eq, of n], of "row (balance a)"] new s' show ?thesis by simp
qed

section \<open>The ledger invariants\<close>

definition sound_bank :: "buffer_config \<Rightarrow> freeze_bank \<Rightarrow> bool" where
  "sound_bank cfg b \<longleftrightarrow> (\<forall>sid. ledger_inv cfg (shards (books_of b) sid))"

lemma sound_bankD: "sound_bank cfg b \<Longrightarrow> ledger_inv cfg (shards (books_of b) sid)"
  by (simp add: sound_bank_def)

lemma books_of_put [simp]:
  "shards (books_of (put_books b sid s)) = (shards (books_of b))(sid := s)"
  "books_of (put_orders b sid os) = books_of b" "freeze_orders (put_books b sid s) = freeze_orders b"
  "freeze_orders (put_orders b sid os) = (freeze_orders b)(sid := os)"
  "outbox (put_books b sid s) = outbox b" "vouchers (put_books b sid s) = vouchers b"
  "vouchers (put_orders b sid os) = vouchers b"
  by (simp_all add: put_books_def put_orders_def)

lemma sound_put: "sound_bank cfg b \<Longrightarrow> ledger_inv cfg s \<Longrightarrow> sound_bank cfg (put_books b sid s)"
  by (simp add: sound_bank_def)

lemma sound_cong: "books_of b' = books_of b \<Longrightarrow> sound_bank cfg b' = sound_bank cfg b"
  by (simp add: sound_bank_def)

lemma sound_put_orders [simp]: "sound_bank cfg (put_orders b sid os) = sound_bank cfg b"
  by (simp add: sound_bank_def)

lemma casStatus_books: "casStatus b v from to f = Inr (ok, b') \<Longrightarrow> books_of b' = books_of b"
  by (auto simp: casStatus_def Let_def split: sum.splits prod.splits if_splits)

lemma outboxInsert_books: "outboxInsert db b r = Inr b' \<Longrightarrow> books_of b' = books_of b \<and> freeze_orders b' = freeze_orders b"
  by (auto simp: outboxInsert_def split: sum.splits prod.splits if_splits)

lemma inShard_Inr:
  assumes "inShard fault n f b = Inr b'"
  obtains s' where "f (shards (books_of b) (RouteByAccountNo NewRouter n)) = Inr s'"
    "b' = put_books b (RouteByAccountNo NewRouter n) s'"
  using assms by (cases "f (shards (books_of b) (RouteByAccountNo NewRouter n))")
    (auto simp: inShard_def Let_def split: option.splits)

lemma applyCreditEntry_sound [preserves]:
  "sound_bank cfg b \<Longrightarrow> applyCreditEntry fault dc e tx b = Inr b' \<Longrightarrow> sound_bank cfg b'"
  unfolding applyCreditEntry_def
  by (erule inShard_Inr) (auto intro!: sound_put elim!: shiftAndRecord_inv [rotated 2] dest: sound_bankD)

lemma reversed_before_Inr:
  "reversed_before b r = Inr b' \<Longrightarrow> r = Inr b' \<or> b' = b"
  by (auto simp: reversed_before_def split: sum.splits ledger_error.splits if_splits)

lemma compensateCreditEntry_sound [preserves]:
  assumes "sound_bank cfg b" "compensateCreditEntry fault dc e tx b = Inr b'"
  shows "sound_bank cfg b'"
proof -
  from assms(2) consider "b' = b" | d row where
    "inShard None (AccountNo e) (\<lambda>s. shiftAndRecord s (AccountNo e) (- d) (- d) 0 (row d)) b = Inr b'"
    by (auto simp: compensateCreditEntry_def Let_def split: option.splits dest!: reversed_before_Inr)
  then show ?thesis
  proof cases
    case 2
    then show ?thesis using assms(1)
      by (elim inShard_Inr) (auto intro!: sound_put elim!: shiftAndRecord_inv [rotated 2] dest: sound_bankD)
  qed (use assms in simp)
qed

lemma compensateFrozenDebit_Inr:
  assumes "compensateFrozenDebit fault dc n amt sid b = Inr b'"
  shows "b' = b \<or> (\<exists>s'. b' = put_books b sid s' \<and> shiftAndRecord (shards (books_of b) sid) n amt 0 amt
     (\<lambda>bal. freezeRow dc (dc_voucher dc @ ''-FR'') n 0 amt bal (add64 bal amt)) = Inr s')"
  using assms
  by (cases "shiftAndRecord (shards (books_of b) sid) n amt 0 amt
        (\<lambda>bal. freezeRow dc (dc_voucher dc @ ''-FR'') n 0 amt bal (add64 bal amt))")
    (auto simp: compensateFrozenDebit_def split: option.splits dest!: reversed_before_Inr)

lemma compensateFrozenDebit_sound [preserves]:
  "sound_bank cfg b \<Longrightarrow> compensateFrozenDebit fault dc n amt sid b = Inr b' \<Longrightarrow> sound_bank cfg b'"
  by (drule compensateFrozenDebit_Inr)
    (auto intro!: sound_put elim!: shiftAndRecord_inv [rotated 2] dest: sound_bankD)

lemma freezeTx_Inr:
  assumes "freezeTx req b = Inr b'" and "sid = RouteByAccountNo NewRouter (fr_account_no req)"
    and "row = \<lparr>fo_order_no = fr_order_no req, fo_business_no = fr_business_no req,
      fo_amount = format_int (fr_amount req), fo_currency = fr_currency req, fo_status = OrderPending,
      fo_account = fr_account_no req, fo_voucher = [], fo_error = []\<rparr>"
  obtains a where "GetAccountForUpdate (shards (books_of b) sid) (fr_account_no req) = Some a"
    "fr_amount req \<le> available_balance a"
    "freezeCreate (freeze_orders b sid) row = Inr (freeze_orders b sid @ [row])"
    "b' = put_orders (put_books b sid ((shards (books_of b) sid)\<lparr>accounts :=
        map (shifted (fr_account_no req) 0 (- fr_amount req) (fr_amount req)) (accounts (shards (books_of b) sid))\<rparr>))
      sid (snd (freezeUpdateToFrozen (freeze_orders b sid @ [row]) (fr_order_no req) (fr_business_no req)))"
proof -
  let ?s = "shards (books_of b) sid"
  note eq = assms(1) [unfolded freezeTx_def Let_def assms(2,3) [symmetric]]
  from eq have new: "freezeCreate (freeze_orders b sid) row = Inr (freeze_orders b sid @ [row])"
    by (auto simp: freezeCreate_def split: if_splits)
  with eq obtain a k s' where a: "GetAccountForUpdate ?s (fr_account_no req) = Some a"
    and av: "fr_amount req \<le> available_balance a"
    and up: "updateAccount ?s (\<lambda>x. acc_no x = fr_account_no req)
        (shiftColumns 0 (- fr_amount req) (fr_amount req)) = Inr (k, s')"
    and b': "b' = put_orders (put_books b sid s') sid
        (snd (freezeUpdateToFrozen (freeze_orders b sid @ [row]) (fr_order_no req) (fr_business_no req)))"
    by (auto simp: case_prod_unfold split: option.splits if_splits sum.splits)
  from updateAccount_shifted [OF up] b' have "b' = put_orders (put_books b sid (?s\<lparr>accounts :=
        map (shifted (fr_account_no req) 0 (- fr_amount req) (fr_amount req)) (accounts ?s)\<rparr>))
      sid (snd (freezeUpdateToFrozen (freeze_orders b sid @ [row]) (fr_order_no req) (fr_business_no req)))"
    by simp
  from that [OF a av new this] show thesis .
qed

text \<open>A freeze changes nothing unless it runs its transaction.\<close>

lemma FreezeBalance_cases:
  "snd (FreezeBalance fault req b) = b \<or>
   fr_amount req > 0 \<and> fr_account_no req \<noteq> [] \<and> fst (FreezeBalance fault req b) = Inr (fr_order_no req) \<and>
   freezeTx req b = Inr (snd (FreezeBalance fault req b))"
  by (auto simp: FreezeBalance_def split: option.splits OrderStatus.splits sum.splits)

lemma freezeTx_sound [preserves]:
  assumes "sound_bank cfg b" "freezeTx req b = Inr b'"
  shows "sound_bank cfg b'"
proof (rule freezeTx_Inr [OF assms(2) refl refl])
  let ?sid = "RouteByAccountNo NewRouter (fr_account_no req)"
  fix a os
  assume b': "b' = put_orders (put_books b ?sid ((shards (books_of b) ?sid)\<lparr>accounts :=
      map (shifted (fr_account_no req) 0 (- fr_amount req) (fr_amount req)) (accounts (shards (books_of b) ?sid))\<rparr>))
      ?sid os"
  from shifted_inv [OF sound_bankD [OF assms(1)], of 0 "- fr_amount req" "fr_amount req"]
  show ?thesis unfolding b' by (simp add: sound_put [OF assms(1)])
qed

lemma FreezeBalance_sound: "sound_bank cfg b \<Longrightarrow> sound_bank cfg (snd (FreezeBalance fault req b))"
  using FreezeBalance_cases [of fault req b] freezeTx_sound by auto

lemma UnfreezeAndReturn_cases:
  assumes "sid = RouteByAccountNo NewRouter (FreezeAccountNo k)"
  shows "snd (UnfreezeAndReturn fault k b) = b \<or>
   (\<exists>r amt. freezeGetByKey (freeze_orders b sid) (FreezeOrderNo k) (FreezeBusinessNo k) = Some r \<and>
      fo_status r = OrderProcessing \<and> parse_int (fo_amount r) = Some amt \<and>
      fst (UnfreezeAndReturn fault k b) = None \<and>
      snd (UnfreezeAndReturn fault k b) = put_orders (put_books b sid ((shards (books_of b) sid)\<lparr>accounts :=
          map (shifted (frozenAccount k r) 0 amt (- amt)) (accounts (shards (books_of b) sid))\<rparr>)) sid
        (freezeUpdateFailed (freeze_orders b sid) (FreezeOrderNo k) (FreezeBusinessNo k) ''unfreeze and return''))"
  unfolding UnfreezeAndReturn_def Let_def assms [symmetric]
  by (auto split: option.splits OrderStatus.splits sum.splits if_splits dest!: updateAccount_shifted)

lemma UnfreezeAndReturn_sound:
  assumes "sound_bank cfg b" shows "sound_bank cfg (snd (UnfreezeAndReturn fault k b))"
proof -
  let ?sid = "RouteByAccountNo NewRouter (FreezeAccountNo k)"
  from UnfreezeAndReturn_cases [OF refl, of fault k b] show ?thesis
  proof (elim disjE exE conjE)
    fix r amt
    assume b': "snd (UnfreezeAndReturn fault k b) = put_orders (put_books b ?sid ((shards (books_of b) ?sid)\<lparr>accounts :=
          map (shifted (frozenAccount k r) 0 amt (- amt)) (accounts (shards (books_of b) ?sid))\<rparr>)) ?sid
        (freezeUpdateFailed (freeze_orders b ?sid) (FreezeOrderNo k) (FreezeBusinessNo k) ''unfreeze and return'')"
    from shifted_inv [OF sound_bankD [OF assms], of 0 amt "- amt"]
    show ?thesis unfolding b' by (simp add: sound_put [OF assms])
  qed (use assms in simp)
qed

text \<open>The tables after the first transaction of a debit.\<close>

lemma debitPhase1_Inr:
  assumes "debitPhase1 env k dc n amt tx es txIDs b = Inr b'"
    and "sid = RouteByAccountNo NewRouter (FreezeAccountNo k)"
  obtains s' where
    "shiftAndRecord (shards (books_of b) sid) n (- amt) 0 (- amt)
       (\<lambda>bal. freezeRow dc tx n amt 0 bal (sub64 bal amt)) = Inr s'"
    "books_of b' = put_shard (books_of b) sid s'"
    "freeze_orders b' = (freeze_orders b)(sid := freezeUpdateSuccess (freeze_orders b sid) (FreezeOrderNo k)
       (FreezeBusinessNo k) (dc_voucher dc))"
  using assms
  by (auto simp: debitPhase1_def Let_def put_books_def put_orders_def split: option.splits sum.splits if_splits
      dest!: outboxInsert_books)

lemma debitPhase1_sound [preserves]:
  assumes "sound_bank cfg b" "debitPhase1 env k dc n amt tx es txIDs b = Inr b'"
  shows "sound_bank cfg b'"
proof (rule debitPhase1_Inr [OF assms(2) refl])
  let ?sid = "RouteByAccountNo NewRouter (FreezeAccountNo k)"
  fix s'
  assume s': "shiftAndRecord (shards (books_of b) ?sid) n (- amt) 0 (- amt)
       (\<lambda>bal. freezeRow dc tx n amt 0 bal (sub64 bal amt)) = Inr s'"
    and b': "books_of b' = put_shard (books_of b) ?sid s'"
  from shiftAndRecord_inv [OF sound_bankD [OF assms(1)] _ s'] assms(1) b'
  show ?thesis by (simp add: sound_bank_def)
qed

lemma applyCredits_sound:
  "sound_bank cfg b \<Longrightarrow> applyCredits env dc n txIDs es done b = (r, d, b') \<Longrightarrow> sound_bank cfg b'"
  by (induction env dc n txIDs es "done" b rule: applyCredits.induct)
    (auto split: if_splits sum.splits intro: applyCreditEntry_sound)

lemma undoCredits_sound:
  "sound_bank cfg b \<Longrightarrow> undoCredits env dc txIDs es b = (errs, b') \<Longrightarrow> sound_bank cfg b'"
  by (induction env dc txIDs es b arbitrary: errs rule: undoCredits.induct)
    (auto split: if_splits sum.splits prod.splits intro: compensateCreditEntry_sound)

lemma markDoneIgnored_books [simp]: "books_of (markDoneIgnored env v b) = books_of b"
  by (auto simp: markDoneIgnored_def MarkDone_def split: sum.splits dest: casStatus_books)

lemma sound_markDone [simp]: "sound_bank cfg (markDoneIgnored env v b) = sound_bank cfg b"
  by (simp add: sound_bank_def)

lemma settleCredits_sound:
  assumes "sound_bank cfg b" shows "sound_bank cfg (snd (settleCredits env k dc n amt tx es txIDs b))"
proof -
  obtain r d b1 where ap: "applyCredits env dc n txIDs (sortedEntries es) [] b = (r, d, b1)"
    by (cases "applyCredits env dc n txIDs (sortedEntries es) [] b")
  obtain errs b2 where un: "undoCredits env dc txIDs d b1 = (errs, b2)"
    by (cases "undoCredits env dc txIDs d b1")
  note s1 = applyCredits_sound [OF assms ap]
  note s2 = undoCredits_sound [OF s1 un]
  show ?thesis
  proof (cases r)
    case None
    with ap s1 show ?thesis by (simp add: settleCredits_def)
  next
    case (Some err)
    let ?fd = "compensateFrozenDebit (undo_frozen_fault env) dc n amt (RouteByAccountNo NewRouter (FreezeAccountNo k)) b2"
    from s2 have s3: "sound_bank cfg b3" if "?fd = Inr b3" for b3
      using compensateFrozenDebit_sound that by blast
    show ?thesis
    proof (cases ?fd)
      case (Inl e)
      with ap Some un s2 show ?thesis by (simp add: settleCredits_def)
    next
      case (Inr b3)
      with ap Some un s3 show ?thesis by (simp add: settleCredits_def)
    qed
  qed
qed

text \<open>A debit call either fails before its first transaction commits, or that transaction commits
  and the credits are settled.\<close>

definition debit_runs :: "debit_env \<Rightarrow> UnfreezeAndDebitRequest \<Rightarrow> FreezeOrder \<Rightarrow> freeze_bank \<Rightarrow> int \<Rightarrow> debit_call \<Rightarrow>
    string list \<Rightarrow> nat \<Rightarrow> freeze_bank \<Rightarrow> bool" where
  "debit_runs env req r b amt dc txIDs i b1 \<longleftrightarrow>
     parse_int (fo_amount r) = Some amt \<and>
     validateUnfreezeEntries (ud_entries req) (frozenAccount (fkey req) r) amt = None \<and>
     generateFreezeVoucherNo (ud_shadow env) (ud_voucher_seq env)
       (snd (RouteByAccountNo NewRouter (FreezeAccountNo (fkey req)))) = Some (dc_voucher dc) \<and>
     those (map (\<lambda>(i, e). generateFreezeTxID (ud_shadow env) (ud_tx_seq env i) (AccountNo e))
        (enumerate 0 (ud_entries req))) = Some txIDs \<and>
     frozenDebitIndex (frozenAccount (fkey req) r) amt (sortedEntries (ud_entries req)) = Some i \<and>
     debitPhase1 env (fkey req) dc (frozenAccount (fkey req) r) amt (txIDs ! i) (ud_entries req) txIDs b = Inr b1"

definition no_credit_error :: "freeze_error \<Rightarrow> bool" where
  "no_credit_error e \<longleftrightarrow> (\<forall>err. e \<noteq> CreditFailed err) \<and> (\<forall>err errs. e \<noteq> CreditAndCompensationFailed err errs)"

lemma unfreeze_loop_error: "unfreeze_loop n amt es td tc k = Inl e \<Longrightarrow> no_credit_error e"
  by (induction n amt es td tc k rule: unfreeze_loop.induct) (auto simp: no_credit_error_def split: if_splits)

lemma validateUnfreezeEntries_error: "validateUnfreezeEntries es n amt = Some e \<Longrightarrow> no_credit_error e"
  by (auto simp: validateUnfreezeEntries_def split: sum.splits if_splits dest: unfreeze_loop_error)
    (auto simp: no_credit_error_def)

definition untouched :: "freeze_bank \<Rightarrow> (freeze_error + 'a) \<times> freeze_bank \<Rightarrow> bool" where
  "untouched b res \<longleftrightarrow> (\<exists>e. res = (Inl e, b) \<and> no_credit_error e)"

lemma debitFrozenOrder_cases:
  obtains "untouched b (debitFrozenOrder env req r b)"
  | amt dc txIDs i b1 where "debit_runs env req r b amt dc txIDs i b1"
    "debitFrozenOrder env req r b = settleCredits env (fkey req) dc (frozenAccount (fkey req) r) amt (txIDs ! i)
        (ud_entries req) txIDs b1"
proof -
  let ?k = "fkey req" and ?es = "ud_entries req" and ?n = "frozenAccount (fkey req) r"
  let ?t = "snd (RouteByAccountNo NewRouter (FreezeAccountNo ?k))"
  let ?res = "debitFrozenOrder env req r b"
  define ids where "ids = those (map (\<lambda>(i, e). generateFreezeTxID (ud_shadow env) (ud_tx_seq env i) (AccountNo e))
        (enumerate 0 ?es))"
  note def = debitFrozenOrder_def [of env req r b] Let_def ids_def [symmetric]
  have no: "no_credit_error (BadAmount x)" "no_credit_error FreezeIdFailed" "no_credit_error Panicked"
    "no_credit_error (FreezeLedger e)" for x e by (simp_all add: no_credit_error_def)
  show thesis
  proof (cases "parse_int (fo_amount r)")
    case None
    with no have "untouched b ?res" by (simp add: def untouched_def)
    then show thesis by (rule that(1))
  next
    case amt: (Some amt)
    show thesis
    proof (cases "validateUnfreezeEntries ?es ?n amt")
      case (Some e)
      with amt validateUnfreezeEntries_error [OF Some] have "untouched b ?res" by (simp add: def untouched_def)
      then show thesis by (rule that(1))
    next
      case val: None
      show thesis
      proof (cases "generateFreezeVoucherNo (ud_shadow env) (ud_voucher_seq env) ?t")
        case None
        with amt val no have "untouched b ?res" by (simp add: def untouched_def)
        then show thesis by (rule that(1))
      next
        case v: (Some v)
        show thesis
        proof (cases ids)
          case None
          with amt val v no have "untouched b ?res" by (simp add: def untouched_def)
          then show thesis by (rule that(1))
        next
          case ids: (Some txIDs)
          show thesis
          proof (cases "frozenDebitIndex ?n amt (sortedEntries ?es)")
            case None
            with amt val v ids no have "untouched b ?res" by (simp add: def untouched_def)
            then show thesis by (rule that(1))
          next
            case i: (Some i)
            define dc where "dc = \<lparr>dc_voucher = v, dc_business_no = FreezeBusinessNo ?k,
                dc_business_type = FreezeBusinessType ?k, dc_currency = ud_currency req, dc_date = ud_today env\<rparr>"
            have dcv: "dc_voucher dc = v" by (simp add: dc_def)
            show thesis
            proof (cases "debitPhase1 env ?k dc ?n amt (txIDs ! i) ?es txIDs b")
              case (Inl e)
              with amt val v ids i no have "untouched b ?res" by (simp add: def untouched_def dc_def)
              then show thesis by (rule that(1))
            next
              case (Inr b1)
              with amt val v ids i have "debit_runs env req r b amt dc txIDs i b1"
                by (simp add: debit_runs_def ids_def dcv)
              moreover from Inr amt val v ids i have "?res = settleCredits env ?k dc ?n amt (txIDs ! i) ?es txIDs b1"
                by (simp add: def dc_def)
              ultimately show thesis by (rule that(2))
            qed
          qed
        qed
      qed
    qed
  qed
qed

lemma UnfreezeAndDebit_cases:
  assumes "sid = RouteByAccountNo NewRouter (FreezeAccountNo (fkey req))"
  obtains "untouched b (UnfreezeAndDebit env req b)"
  | r where "freezeGetByKey (freeze_orders b sid) (FreezeOrderNo (fkey req)) (FreezeBusinessNo (fkey req)) = Some r"
    "fo_status r = OrderSuccess" "UnfreezeAndDebit env req b = (Inr (fo_voucher r, []), b)"
  | r amt dc txIDs i b1 where
    "freezeGetByKey (freeze_orders b sid) (FreezeOrderNo (fkey req)) (FreezeBusinessNo (fkey req)) = Some r"
    "fo_status r = OrderProcessing" "debit_runs env req r b amt dc txIDs i b1"
    "UnfreezeAndDebit env req b = settleCredits env (fkey req) dc (frozenAccount (fkey req) r) amt (txIDs ! i)
        (ud_entries req) txIDs b1"
proof -
  let ?k = "fkey req"
  note def = UnfreezeAndDebit_def [of env req b] Let_def assms [symmetric]
  have no: "no_credit_error (InvalidFreeze x)" "no_credit_error (FreezeNotFound x)"
    "no_credit_error (FreezeInStatus st)" for x st by (simp_all add: no_credit_error_def)
  show thesis
  proof (cases "required ?k \<and> \<not> length (ud_entries req) < 2")
    case False
    with no have "untouched b (UnfreezeAndDebit env req b)" by (auto simp: def untouched_def)
    then show thesis by (rule that(1))
  next
    case ok: True
    show thesis
    proof (cases "freezeGetByKey (freeze_orders b sid) (FreezeOrderNo ?k) (FreezeBusinessNo ?k)")
      case None
      with ok no have "untouched b (UnfreezeAndDebit env req b)" by (simp add: def untouched_def)
      then show thesis by (rule that(1))
    next
      case r: (Some r)
      show thesis
      proof (cases "fo_status r")
        case OrderSuccess
        with ok r have "UnfreezeAndDebit env req b = (Inr (fo_voucher r, []), b)" by (simp add: def)
        with r OrderSuccess show thesis by (rule that(2))
      next
        case OrderProcessing
        with ok r have e: "UnfreezeAndDebit env req b = debitFrozenOrder env req r b" by (simp add: def)
        show thesis
          by (rule debitFrozenOrder_cases [of b env req r]) (use e that(1) that(3) [OF r OrderProcessing] in auto)
      next
        case OrderPending
        with ok r no have "untouched b (UnfreezeAndDebit env req b)" by (simp add: def untouched_def)
        then show thesis by (rule that(1))
      next
        case OrderFailed
        with ok r no have "untouched b (UnfreezeAndDebit env req b)" by (simp add: def untouched_def)
        then show thesis by (rule that(1))
      qed
    qed
  qed
qed

lemma UnfreezeAndDebit_sound:
  assumes "sound_bank cfg b" shows "sound_bank cfg (snd (UnfreezeAndDebit env req b))"
proof (rule UnfreezeAndDebit_cases [OF refl, of b env req])
  assume "untouched b (UnfreezeAndDebit env req b)"
  with assms show ?thesis by (auto simp: untouched_def)
next
  fix r
  assume "UnfreezeAndDebit env req b = (Inr (fo_voucher r, []), b)"
  with assms show ?thesis by simp
next
  fix r amt dc txIDs i b1
  assume "debit_runs env req r b amt dc txIDs i b1" and
    e: "UnfreezeAndDebit env req b = settleCredits env (fkey req) dc (frozenAccount (fkey req) r) amt (txIDs ! i)
        (ud_entries req) txIDs b1"
  then have "sound_bank cfg b1" using debitPhase1_sound [OF assms] by (auto simp: debit_runs_def)
  with e show ?thesis by (simp add: settleCredits_sound)
qed

lemma reverseCredits_sound:
  "sound_bank cfg b \<Longrightarrow> reverseCredits env dc cs b = (r, b') \<Longrightarrow> sound_bank cfg b'"
  by (induction env dc cs b rule: reverseCredits.induct)
    (auto split: option.splits if_splits sum.splits intro: compensateCreditEntry_sound)

lemma runCompensate_sound:
  assumes "sound_bank cfg b" "runCompensate env row b = (r, b')" shows "sound_bank cfg b'"
proof -
  obtain x b1 where rc: "reverseCredits env \<lparr>dc_voucher = co_voucher row, dc_business_no = cp_business_no (co_payload row),
      dc_business_type = cp_business_type (co_payload row), dc_currency = cp_currency (co_payload row),
      dc_date = cp_date (co_payload row)\<rparr> (cp_credits (co_payload row)) b = (x, b1)"
    by (rule prod.exhaust)
  from reverseCredits_sound [OF assms(1) rc] rc assms(2) show ?thesis
    by (auto simp: runCompensate_def Let_def split: option.splits sum.splits intro: compensateFrozenDebit_sound)
qed

lemma processOne_sound: assumes "sound_bank cfg b" shows "sound_bank cfg (processOne env b row)"
proof -
  have claim: "sound_bank cfg b1" if "ClaimPending b (co_voucher row) = Inr (ok, b1)" for ok b1
    using casStatus_books that assms unfolding ClaimPending_def sound_bank_def by metis
  have mark: "sound_bank cfg b3" if "sound_bank cfg b2" "MarkFailed b2 v = Inr b3 \<or> MarkCompensated b2 v = Inr b3 \<or>
      IncrementRetry b2 v = Inr b3" for b2 b3 v
  proof -
    from that(2) have "books_of b3 = books_of b2"
      by (auto simp: MarkFailed_def MarkCompensated_def IncrementRetry_def map_sum_def
          split: sum.splits if_splits dest: casStatus_books)
    with that(1) show ?thesis by (simp add: sound_bank_def)
  qed
  show ?thesis
  proof (cases "ClaimPending b (co_voucher row)")
    case (Inl e)
    with assms show ?thesis by (simp add: processOne_def)
  next
    case (Inr x)
    obtain ok b1 where x: "x = (ok, b1)" by (cases x)
    from claim Inr x have b1: "sound_bank cfg b1" by blast
    obtain r b2 where rc: "runCompensate env row b1 = (r, b2)" by (cases "runCompensate env row b1")
    from runCompensate_sound [OF b1 rc] have b2: "sound_bank cfg b2" .
    show ?thesis
      using Inr x rc b1 b2 mark [OF b1] mark [OF b2]
      by (cases r; simp add: processOne_def split: sum.splits; blast)
  qed
qed

lemma scanOnce_sound: "sound_bank cfg b \<Longrightarrow> sound_bank cfg (scanOnce env now b)"
proof -
  have "sound_bank cfg b \<Longrightarrow> sound_bank cfg (foldl (processOne env) b rows)" for rows
    by (induction rows arbitrary: b) (auto simp: processOne_sound)
  then show "sound_bank cfg b \<Longrightarrow> sound_bank cfg (scanOnce env now b)" by (simp add: scanOnce_def)
qed

text \<open>A history: any calls in any order, each with its own faults.\<close>

datatype freeze_op =
    OpFreeze "ledger_error option" FreezeBalanceRequest
  | OpReturn "ledger_error option" freeze_key
  | OpDebit debit_env UnfreezeAndDebitRequest
  | OpScan worker_env int

fun freeze_step :: "freeze_op \<Rightarrow> freeze_bank \<Rightarrow> freeze_bank" where
  "freeze_step (OpFreeze fault req) b = snd (FreezeBalance fault req b)"
| "freeze_step (OpReturn fault k) b = snd (UnfreezeAndReturn fault k b)"
| "freeze_step (OpDebit env req) b = snd (UnfreezeAndDebit env req b)"
| "freeze_step (OpScan env now) b = scanOnce env now b"

lemma freeze_step_sound: "sound_bank cfg b \<Longrightarrow> sound_bank cfg (freeze_step op b)"
  by (cases op) (simp_all add: FreezeBalance_sound UnfreezeAndReturn_sound UnfreezeAndDebit_sound scanOnce_sound)

section \<open>The frozen column and the open orders\<close>

text \<open>What the open freeze orders of a shard hold of an account.\<close>

definition order_amount :: "FreezeOrder \<Rightarrow> int" where
  "order_amount r = the (parse_int (fo_amount r))"

definition open_on :: "string \<Rightarrow> FreezeOrder \<Rightarrow> bool" where
  "open_on n r \<longleftrightarrow> fo_status r = OrderProcessing \<and> fo_account r = n"

definition key_of :: "FreezeOrder \<Rightarrow> string \<times> string" where
  "key_of r = (fo_order_no r, fo_business_no r)"

definition columns_cover :: "Account list \<Rightarrow> FreezeOrder list \<Rightarrow> bool" where
  "columns_cover as os \<longleftrightarrow> distinct (map acc_no as) \<and> distinct (map key_of os) \<and> [] \<notin> set (map fo_account os) \<and>
     (\<forall>a\<in>set as. frozen_balance a = sum_where (open_on (acc_no a)) order_amount os)"

definition frozen_covered :: "freeze_bank \<Rightarrow> shard_id \<Rightarrow> bool" where
  "frozen_covered b sid \<longleftrightarrow> columns_cover (accounts (shards (books_of b) sid)) (freeze_orders b sid)"

lemma cover_shift:
  assumes "columns_cover as os" "distinct (map key_of os')" "[] \<notin> set (map fo_account os')"
    and "\<And>x. sum_where (open_on x) order_amount os' =
              sum_where (open_on x) order_amount os + (if x = n then df else 0)"
  shows "columns_cover (map (shifted n db dv df) as) os'"
  using assms by (simp add: columns_cover_def)

lemma fo_key_key_of: "fo_key no bno = (\<lambda>r. key_of r = (no, bno))"
  by (auto simp: fo_key_def key_of_def fun_eq_iff)

lemma freezeCreate_new: "freezeCreate os r = Inr (os @ [r]) \<Longrightarrow> \<forall>x\<in>set os. key_of x \<noteq> key_of r"
  by (auto simp: freezeCreate_def list_ex_iff fo_key_def key_of_def split: if_splits)

lemma freezeGetByKey_Some:
  "freezeGetByKey os no bno = Some r \<Longrightarrow> r \<in> set os \<and> key_of r = (no, bno)"
  by (auto simp: freezeGetByKey_def fo_key_key_of dest: select_one_Some)

text \<open>Closing an open order takes its amount off its account's sum, as the shift does off the column.\<close>

lemma cover_close:
  assumes c: "columns_cover as os" and r: "r \<in> set os \<and> key_of r = k" "fo_status r = OrderProcessing"
    and f: "\<And>x. fo_status (f x) \<noteq> OrderProcessing" "\<And>x. key_of (f x) = key_of x" "\<And>x. fo_account (f x) = fo_account x"
  shows "columns_cover (map (shifted (fo_account r) db dv (- order_amount r)) as)
           (update_where (\<lambda>x. key_of x = k) f os)"
proof (rule cover_shift [OF c])
  have d: "distinct (map key_of os)" using c by (simp add: columns_cover_def)
  show "distinct (map key_of (update_where (\<lambda>x. key_of x = k) f os))"
    and "[] \<notin> set (map fo_account (update_where (\<lambda>x. key_of x = k) f os))"
    using c f by (simp_all add: columns_cover_def map_update_where del: set_map)
  show "sum_where (open_on x) order_amount (update_where (\<lambda>x. key_of x = k) f os) =
      sum_where (open_on x) order_amount os + (if x = fo_account r then - order_amount r else 0)" for x
    using sum_where_key_update [OF d, of r k "open_on x" order_amount f] r f by (simp add: open_on_def)
qed

lemma update_where_none: "\<forall>r\<in>set rows. \<not> P r \<Longrightarrow> update_where P f rows = rows"
  by (simp add: update_where_def map_idI)

lemma freezeTx_covered:
  assumes cov: "frozen_covered b sid'" and amt: "in64 (fr_amount req)" and n: "fr_account_no req \<noteq> []"
    and tx: "freezeTx req b = Inr b'"
  shows "frozen_covered b' sid'"
proof (rule freezeTx_Inr [OF tx refl refl])
  let ?sid = "RouteByAccountNo NewRouter (fr_account_no req)" and ?n = "fr_account_no req" and ?m = "fr_amount req"
  let ?row = "\<lparr>fo_order_no = fr_order_no req, fo_business_no = fr_business_no req,
      fo_amount = format_int ?m, fo_currency = fr_currency req, fo_status = OrderPending,
      fo_account = ?n, fo_voucher = [], fo_error = []\<rparr>"
  assume new: "freezeCreate (freeze_orders b ?sid) ?row = Inr (freeze_orders b ?sid @ [?row])"
    and b': "b' = put_orders (put_books b ?sid ((shards (books_of b) ?sid)\<lparr>accounts :=
        map (shifted ?n 0 (- ?m) ?m) (accounts (shards (books_of b) ?sid))\<rparr>))
      ?sid (snd (freezeUpdateToFrozen (freeze_orders b ?sid @ [?row]) (fr_order_no req) (fr_business_no req)))"
  show ?thesis
  proof (cases "sid' = ?sid")
    case False
    with cov b' show ?thesis by (simp add: frozen_covered_def)
  next
    case True
    note fresh = freezeCreate_new [OF new]
    have up: "snd (freezeUpdateToFrozen (freeze_orders b ?sid @ [?row]) (fr_order_no req) (fr_business_no req)) =
        freeze_orders b ?sid @ [?row\<lparr>fo_status := OrderProcessing\<rparr>]"
    proof -
      have "update_where (\<lambda>r. fo_key (fr_order_no req) (fr_business_no req) r \<and> fo_status r = OrderPending)
          (\<lambda>r. r\<lparr>fo_status := OrderProcessing\<rparr>) (freeze_orders b ?sid) = freeze_orders b ?sid"
        using fresh by (intro update_where_none) (auto simp: fo_key_def key_of_def)
      then show ?thesis by (simp add: freezeUpdateToFrozen_def Let_def update_where_def fo_key_def)
    qed
    let ?new = "?row\<lparr>fo_status := OrderProcessing\<rparr>"
    from cov True have c: "columns_cover (accounts (shards (books_of b) ?sid)) (freeze_orders b ?sid)"
      by (simp add: frozen_covered_def)
    have o: "order_amount ?new = ?m" using parse_format_int [OF amt] by (simp add: order_amount_def)
    have "key_of ?new \<notin> set (map key_of (freeze_orders b ?sid))" using fresh by (auto simp: key_of_def)
    with c n o have "columns_cover (map (shifted ?n 0 (- ?m) ?m) (accounts (shards (books_of b) ?sid)))
        (freeze_orders b ?sid @ [?new])"
      by (intro cover_shift [OF c]) (simp_all add: columns_cover_def open_on_def)
    with True show ?thesis by (simp add: frozen_covered_def b' up)
  qed
qed

lemma FreezeBalance_covered:
  assumes "frozen_covered b sid" "in64 (fr_amount req)"
  shows "frozen_covered (snd (FreezeBalance fault req b)) sid"
  using FreezeBalance_cases [of fault req b] freezeTx_covered [OF assms] assms(1) by auto

lemma frozenAccount_own: "fo_account r \<noteq> [] \<Longrightarrow> frozenAccount k r = fo_account r"
  by (simp add: frozenAccount_def)

lemma UnfreezeAndReturn_covered:
  assumes cov: "frozen_covered b sid'"
  shows "frozen_covered (snd (UnfreezeAndReturn fault k b)) sid'"
proof -
  let ?sid = "RouteByAccountNo NewRouter (FreezeAccountNo k)"
  let ?s = "shards (books_of b) ?sid"
  from UnfreezeAndReturn_cases [OF refl, of fault k b] show ?thesis
  proof (elim disjE exE conjE)
    fix r amt
    assume get: "freezeGetByKey (freeze_orders b ?sid) (FreezeOrderNo k) (FreezeBusinessNo k) = Some r"
      and st: "fo_status r = OrderProcessing" and amt: "parse_int (fo_amount r) = Some amt"
      and b': "snd (UnfreezeAndReturn fault k b) = put_orders (put_books b ?sid (?s\<lparr>accounts :=
          map (shifted (frozenAccount k r) 0 amt (- amt)) (accounts ?s)\<rparr>)) ?sid
        (freezeUpdateFailed (freeze_orders b ?sid) (FreezeOrderNo k) (FreezeBusinessNo k) ''unfreeze and return'')"
    show ?thesis
    proof (cases "sid' = ?sid")
      case False
      with cov b' show ?thesis by (simp add: frozen_covered_def)
    next
      case True
      with cov have c: "columns_cover (accounts ?s) (freeze_orders b ?sid)" by (simp add: frozen_covered_def)
      note g = freezeGetByKey_Some [OF get]
      have own: "frozenAccount k r = fo_account r"
        using c g by (intro frozenAccount_own) (force simp: columns_cover_def)
      have "columns_cover (map (shifted (fo_account r) 0 amt (- order_amount r)) (accounts ?s))
          (update_where (\<lambda>x. key_of x = (FreezeOrderNo k, FreezeBusinessNo k))
            (\<lambda>x. x\<lparr>fo_status := OrderFailed, fo_error := ''unfreeze and return''\<rparr>) (freeze_orders b ?sid))"
        by (rule cover_close [OF c g st]) (simp_all add: key_of_def)
      moreover have "order_amount r = amt" using amt by (simp add: order_amount_def)
      ultimately show ?thesis
        using True by (simp add: b' freezeUpdateFailed_def fo_key_key_of own frozen_covered_def)
    qed
  qed (use cov in simp)
qed

text \<open>A shift that leaves the frozen columns alone leaves the cover alone.\<close>

lemma cover_unfrozen [simp]: "columns_cover (map (shifted n db dv 0) as) os = columns_cover as os"
  by (simp add: columns_cover_def)

lemma shiftAndRecord_cover:
  assumes "shiftAndRecord s n db dv 0 row = Inr s'"
  shows "columns_cover (accounts s') os = columns_cover (accounts s) os"
  using assms by (rule shiftAndRecord_Inr) simp

lemma applyCreditEntry_covered:
  assumes "applyCreditEntry fault dc e tx b = Inr b'"
  shows "frozen_covered b' sid = frozen_covered b sid"
  using assms unfolding applyCreditEntry_def
  by (rule inShard_Inr) (simp add: frozen_covered_def shiftAndRecord_cover)

lemma applyCredits_covered:
  "applyCredits env dc n txIDs es done b = (r, d, b') \<Longrightarrow> frozen_covered b' sid = frozen_covered b sid"
  by (induction env dc n txIDs es "done" b rule: applyCredits.induct)
    (auto split: if_splits sum.splits simp: applyCreditEntry_covered)

lemma casStatus_orders: "casStatus b v from to f = Inr (ok, b') \<Longrightarrow> freeze_orders b' = freeze_orders b"
  by (auto simp: casStatus_def Let_def split: sum.splits prod.splits if_splits)

lemma markDoneIgnored_orders [simp]: "freeze_orders (markDoneIgnored env v b) = freeze_orders b"
  by (auto simp: markDoneIgnored_def MarkDone_def split: sum.splits dest: casStatus_orders)

lemma markDoneIgnored_covered [simp]: "frozen_covered (markDoneIgnored env v b) sid = frozen_covered b sid"
  by (simp add: frozen_covered_def)

lemma debitPhase1_covered:
  assumes cov: "frozen_covered b sid'"
    and get: "freezeGetByKey (freeze_orders b sid) (FreezeOrderNo k) (FreezeBusinessNo k) = Some r"
    and sid: "sid = RouteByAccountNo NewRouter (FreezeAccountNo k)" and st: "fo_status r = OrderProcessing"
    and amt: "parse_int (fo_amount r) = Some amt"
    and p1: "debitPhase1 env k dc (frozenAccount k r) amt tx es txIDs b = Inr b'"
  shows "frozen_covered b' sid'"
proof (rule debitPhase1_Inr [OF p1 sid])
  fix s'
  assume s': "shiftAndRecord (shards (books_of b) sid) (frozenAccount k r) (- amt) 0 (- amt)
       (\<lambda>bal. freezeRow dc tx (frozenAccount k r) amt 0 bal (sub64 bal amt)) = Inr s'"
    and books: "books_of b' = put_shard (books_of b) sid s'"
    and ord: "freeze_orders b' = (freeze_orders b)(sid := freezeUpdateSuccess (freeze_orders b sid) (FreezeOrderNo k)
       (FreezeBusinessNo k) (dc_voucher dc))"
  show ?thesis
  proof (cases "sid' = sid")
    case False
    with cov books ord show ?thesis by (simp add: frozen_covered_def)
  next
    case True
    with cov have c: "columns_cover (accounts (shards (books_of b) sid)) (freeze_orders b sid)"
      by (simp add: frozen_covered_def)
    note g = freezeGetByKey_Some [OF get]
    have own: "frozenAccount k r = fo_account r"
      using c g by (intro frozenAccount_own) (force simp: columns_cover_def)
    from s' have acc: "accounts s' = map (shifted (fo_account r) (- amt) 0 (- amt)) (accounts (shards (books_of b) sid))"
      by (rule shiftAndRecord_Inr) (simp add: own)
    have "columns_cover (map (shifted (fo_account r) (- amt) 0 (- order_amount r)) (accounts (shards (books_of b) sid)))
        (update_where (\<lambda>x. key_of x = (FreezeOrderNo k, FreezeBusinessNo k))
          (\<lambda>x. x\<lparr>fo_status := OrderSuccess, fo_voucher := dc_voucher dc\<rparr>) (freeze_orders b sid))"
      by (rule cover_close [OF c g st]) (simp_all add: key_of_def)
    moreover have "order_amount r = amt" using amt by (simp add: order_amount_def)
    ultimately show ?thesis
      using True books ord acc by (simp add: freezeUpdateSuccess_def fo_key_key_of frozen_covered_def)
  qed
qed

lemma UnfreezeAndDebit_covered:
  assumes cov: "frozen_covered b sid'"
    and no: "\<And>e. fst (UnfreezeAndDebit env req b) = Inl e \<Longrightarrow> no_credit_error e"
  shows "frozen_covered (snd (UnfreezeAndDebit env req b)) sid'"
proof (rule UnfreezeAndDebit_cases [OF refl, of b env req])
  assume "untouched b (UnfreezeAndDebit env req b)"
  with cov show ?thesis by (auto simp: untouched_def)
next
  fix r
  assume "UnfreezeAndDebit env req b = (Inr (fo_voucher r, []), b)"
  with cov show ?thesis by simp
next
  fix r amt dc txIDs i b1
  let ?n = "frozenAccount (fkey req) r" and ?k = "fkey req" and ?es = "ud_entries req"
  assume get: "freezeGetByKey (freeze_orders b (RouteByAccountNo NewRouter (FreezeAccountNo ?k)))
      (FreezeOrderNo ?k) (FreezeBusinessNo ?k) = Some r" and st: "fo_status r = OrderProcessing"
    and run: "debit_runs env req r b amt dc txIDs i b1"
    and e: "UnfreezeAndDebit env req b = settleCredits env ?k dc ?n amt (txIDs ! i) ?es txIDs b1"
  from run have c1: "frozen_covered b1 sid'"
    using debitPhase1_covered [OF cov get refl st] by (auto simp: debit_runs_def)
  obtain x d b2 where ap: "applyCredits env dc ?n txIDs (sortedEntries ?es) [] b1 = (x, d, b2)"
    by (metis prod.exhaust)
  note c2 = applyCredits_covered [OF ap, of sid']
  show ?thesis
  proof (cases x)
    case None
    with ap e c1 c2 show ?thesis by (simp add: settleCredits_def)
  next
    case (Some err)
    with ap e have "\<exists>e. fst (UnfreezeAndDebit env req b) = Inl e \<and> \<not> no_credit_error e"
      by (auto simp: settleCredits_def no_credit_error_def split: prod.splits sum.splits)
    with no show ?thesis by blast
  qed
qed

section \<open>What moves\<close>

text \<open>Two banks differ by \<open>B\<close>, \<open>V\<close> and \<open>F\<close> in the balance, available and frozen columns, whatever
  the row versions.\<close>

definition cols :: "freeze_bank \<Rightarrow> shard_id \<Rightarrow> Account list" where
  "cols b sid = map (\<lambda>a. a\<lparr>version := 0\<rparr>) (accounts (shards (books_of b) sid))"

type_synonym amounts = "shard_id \<Rightarrow> string \<Rightarrow> int"

definition drift :: "amounts \<Rightarrow> amounts \<Rightarrow> amounts \<Rightarrow> freeze_bank \<Rightarrow> freeze_bank \<Rightarrow> bool" where
  "drift B V F b b' \<longleftrightarrow> (\<forall>sid. cols b' sid = map (\<lambda>a. a\<lparr>balance := balance a + B sid (acc_no a),
     available_balance := available_balance a + V sid (acc_no a),
     frozen_balance := frozen_balance a + F sid (acc_no a)\<rparr>) (cols b sid))"

definition at :: "shard_id \<Rightarrow> string \<Rightarrow> int \<Rightarrow> amounts" where
  "at sid n d = (\<lambda>s m. if s = sid \<and> m = n then d else 0)"

abbreviation plus_at :: "amounts \<Rightarrow> amounts \<Rightarrow> amounts" where
  "plus_at D E \<equiv> \<lambda>s m. D s m + E s m"

abbreviation nothing :: amounts where "nothing \<equiv> \<lambda>s m. 0"

lemma drift_refl: "drift nothing nothing nothing b b"
  by (simp add: drift_def)

lemma drift_books: "drift B V F b b' \<Longrightarrow> books_of c = books_of b' \<Longrightarrow> drift B V F b c"
  by (simp add: drift_def cols_def)

lemma drift_trans:
  assumes "drift B V F b b1" "drift B' V' F' b1 b2"
  shows "drift (plus_at B B') (plus_at V V') (plus_at F F') b b2"
  using assms by (simp add: drift_def comp_def add.assoc)

lemma drift_shift:
  assumes "shards (books_of b') = (shards (books_of b))(sid := s')"
    and "accounts s' = map (shifted n db dv df) (accounts (shards (books_of b) sid))"
  shows "drift (at sid n db) (at sid n dv) (at sid n df) b b'"
  using assms by (auto simp: drift_def cols_def at_def shifted_def)

text \<open>The identifiers in a bank's journals.\<close>

definition tx_ids :: "freeze_bank \<Rightarrow> string set" where
  "tx_ids b = (\<Union>sid. transaction_id ` set (journal (shards (books_of b) sid)))"

lemma recorded_shift:
  assumes s': "shiftAndRecord (shards (books_of b) sid) n db dv df row = Inr s'"
    and b': "shards (books_of b') = (shards (books_of b))(sid := s')"
    and id: "\<And>bal. transaction_id (row bal) = x"
  shows "drift (at sid n db) (at sid n dv) (at sid n df) b b'" "tx_ids b' \<subseteq> insert x (tx_ids b)"
proof -
  from s' obtain a :: Account where s'': "s' = (shards (books_of b) sid)\<lparr>accounts := map (shifted n db dv df)
      (accounts (shards (books_of b) sid)), journal := journal (shards (books_of b) sid) @ [row (balance a)]\<rparr>"
    by (rule shiftAndRecord_Inr) blast
  show "drift (at sid n db) (at sid n dv) (at sid n df) b b'"
    by (rule drift_shift [OF b']) (simp add: s'')
  show "tx_ids b' \<subseteq> insert x (tx_ids b)"
  proof
    fix y assume "y \<in> tx_ids b'"
    then obtain sd where "y \<in> transaction_id ` set (journal (shards (books_of b') sd))" by (auto simp: tx_ids_def)
    then have "y = x \<or> y \<in> transaction_id ` set (journal (shards (books_of b) sd))"
      using id by (cases "sd = sid") (auto simp: b' s'')
    then show "y \<in> insert x (tx_ids b)" by (auto simp: tx_ids_def)
  qed
qed

definition route :: "string \<Rightarrow> shard_id" where
  "route n = RouteByAccountNo NewRouter n"

definition credit_at :: "AccountingEntry \<Rightarrow> int \<Rightarrow> amounts" where
  "credit_at e d = at (route (AccountNo e)) (AccountNo e) d"

lemma freezeRow_id [simp]: "transaction_id (freezeRow dc x n d c bal aft) = x"
  by (simp add: freezeRow_def)

lemma applyCreditEntry_drift:
  assumes "applyCreditEntry fault dc e x b = Inr b'"
  shows "drift (credit_at e (CreditAmount e)) (credit_at e (CreditAmount e)) nothing b b'"
    "tx_ids b' \<subseteq> insert x (tx_ids b)"
proof -
  from assms obtain s' where s': "shiftAndRecord (shards (books_of b) (route (AccountNo e))) (AccountNo e)
      (CreditAmount e) (CreditAmount e) 0 (\<lambda>bal. freezeRow dc x (AccountNo e) 0 (CreditAmount e) bal
        (add64 bal (CreditAmount e))) = Inr s'"
    and b': "b' = put_books b (route (AccountNo e)) s'"
    unfolding applyCreditEntry_def by (elim inShard_Inr) (auto simp: route_def)
  have "at sid n 0 = nothing" for sid n by (simp add: at_def)
  with recorded_shift [OF s', of b' x] b'
  show "drift (credit_at e (CreditAmount e)) (credit_at e (CreditAmount e)) nothing b b'"
    "tx_ids b' \<subseteq> insert x (tx_ids b)"
    by (simp_all add: credit_at_def)
qed

lemma updateAccount_no_duplicate [simp]: "updateAccount s P f \<noteq> Inl (MySQLError 1062)"
  by (simp add: updateAccount_def)

lemma shiftAndRecord_duplicate:
  assumes "shiftAndRecord s n db dv df row = Inl (MySQLError 1062)" "\<And>bal. transaction_id (row bal) = x"
  shows "x \<in> transaction_id ` set (journal s)"
proof -
  from assms(1) obtain a :: Account and k s1 where up: "updateAccount s (\<lambda>x. acc_no x = n) (shiftColumns db dv df) = Inr (k, s1)"
    and cr: "CreateTransaction s1 (row (balance a)) = Inl (MySQLError 1062)"
    by (auto simp: shiftAndRecord_def split: option.splits sum.splits)
  from updateAccount_Inr(1) [OF up] have "journal s1 = journal s" by simp
  with cr assms(2) show ?thesis by (auto simp: CreateTransaction_def list_ex_iff image_iff split: if_splits)
qed

text \<open>A reversal whose row is not there yet shifts the columns.\<close>

lemma reversal_drift:
  assumes r: "reversed_before b (map_sum id (put_books b sid) (shiftAndRecord (shards (books_of b) sid) n db dv df row)) = Inr b'"
    and id: "\<And>bal. transaction_id (row bal) = x" and new: "x \<notin> tx_ids b"
  shows "drift (at sid n db) (at sid n dv) (at sid n df) b b'" "tx_ids b' \<subseteq> insert x (tx_ids b)"
proof -
  let ?s = "shiftAndRecord (shards (books_of b) sid) n db dv df row"
  have "?s \<noteq> Inl (MySQLError 1062)"
    using shiftAndRecord_duplicate [of _ n db dv df row x] id new by (fastforce simp: tx_ids_def)
  with r obtain s' where s': "?s = Inr s'" and b': "b' = put_books b sid s'"
    by (cases ?s) (auto simp: reversed_before_def split: ledger_error.splits if_splits)
  from recorded_shift [OF s' _ id, of b'] b'
  show "drift (at sid n db) (at sid n dv) (at sid n df) b b'" "tx_ids b' \<subseteq> insert x (tx_ids b)" by simp_all
qed

lemma compensateCreditEntry_drift:
  assumes c: "compensateCreditEntry fault dc e x b = Inr b'" and pos: "0 < CreditAmount e"
    and new: "x @ ''-R'' \<notin> tx_ids b"
  shows "drift (credit_at e (- CreditAmount e)) (credit_at e (- CreditAmount e)) nothing b b'"
    "tx_ids b' \<subseteq> insert (x @ ''-R'') (tx_ids b)"
proof -
  let ?d = "CreditAmount e"
  from c pos have r: "reversed_before b (map_sum id (put_books b (route (AccountNo e)))
      (shiftAndRecord (shards (books_of b) (route (AccountNo e))) (AccountNo e) (- ?d) (- ?d) 0
        (\<lambda>bal. freezeRow dc (x @ ''-R'') (AccountNo e) ?d (DebitAmount e) bal (sub64 bal ?d)))) = Inr b'"
    by (auto simp: compensateCreditEntry_def inShard_def route_def Let_def split: option.splits)
  have z: "at sid n 0 = nothing" for sid n by (simp add: at_def)
  from reversal_drift [OF r freezeRow_id new] z
  show "drift (credit_at e (- CreditAmount e)) (credit_at e (- CreditAmount e)) nothing b b'"
    "tx_ids b' \<subseteq> insert (x @ ''-R'') (tx_ids b)" by (simp_all add: credit_at_def)
qed

text \<open>What a list of entries credits.\<close>

fun credits_of :: "indexed_entry list \<Rightarrow> amounts" where
  "credits_of [] = nothing"
| "credits_of ((i, e) # es) = plus_at (credit_at e (CreditAmount e)) (credits_of es)"

lemma credits_of_append: "credits_of (xs @ ys) = plus_at (credits_of xs) (credits_of ys)"
  by (induction xs) (auto simp: fun_eq_iff)

lemma applyCredits_drift:
  assumes "applyCredits env dc n txIDs es done b = (r, d, b')"
  shows "\<exists>new. d = done @ new \<and> drift (credits_of new) (credits_of new) nothing b b' \<and>
     tx_ids b' \<subseteq> (\<lambda>(i, e). txIDs ! i) ` set new \<union> tx_ids b \<and>
     (\<exists>rest. filter (\<lambda>(i, e). AccountNo e \<noteq> n) es = new @ rest) \<and>
     (r = None \<longrightarrow> new = filter (\<lambda>(i, e). AccountNo e \<noteq> n) es)"
  using assms
proof (induction env dc n txIDs es "done" b rule: applyCredits.induct)
  case (1 env dc n txIDs "done" b)
  then show ?case using drift_refl by auto
next
  case (2 env dc n txIDs i e es "done" b)
  show ?case
  proof (cases "AccountNo e = n")
    case True
    with 2 show ?thesis by auto
  next
    case False
    show ?thesis
    proof (cases "applyCreditEntry (credit_fault env i) dc e (txIDs ! i) b")
      case (Inl err)
      with False 2(3) show ?thesis using drift_refl by auto
    next
      case (Inr b1)
      note a = applyCreditEntry_drift [OF Inr]
      from 2(2) [OF False Inr] 2(3) False Inr obtain new rest where
        new: "d = (done @ [(i, e)]) @ new" "drift (credits_of new) (credits_of new) nothing b1 b'"
          "tx_ids b' \<subseteq> (\<lambda>(i, e). txIDs ! i) ` set new \<union> tx_ids b1"
          "filter (\<lambda>(i, e). AccountNo e \<noteq> n) es = new @ rest"
          "r = None \<longrightarrow> new = filter (\<lambda>(i, e). AccountNo e \<noteq> n) es"
        by auto
      from drift_trans [OF a(1) new(2)]
      have "drift (credits_of ((i, e) # new)) (credits_of ((i, e) # new)) nothing b b'" by simp
      then show ?thesis using new a(2) False by (intro exI [of _ "(i, e) # new"]) auto
    qed
  qed
qed

lemma undoCredits_drift:
  assumes "undoCredits env dc txIDs es b = ([], b')" "\<forall>(i, e)\<in>set es. 0 < CreditAmount e"
    and "distinct (map (\<lambda>(i, e). txIDs ! i) es)" "\<forall>(i, e)\<in>set es. (txIDs ! i) @ ''-R'' \<notin> tx_ids b"
  shows "\<exists>D. drift D D nothing b b' \<and> (\<forall>s m. D s m = - credits_of es s m) \<and>
     tx_ids b' \<subseteq> (\<lambda>(i, e). (txIDs ! i) @ ''-R'') ` set es \<union> tx_ids b"
  using assms
proof (induction env dc txIDs es b rule: undoCredits.induct)
  case (1 env dc txIDs b)
  then show ?case using drift_refl by (intro exI [of _ nothing]) auto
next
  case (2 env dc txIDs i e es b)
  from 2(3) obtain b1 where c: "compensateCreditEntry (undo_fault env i) dc e (txIDs ! i) b = Inr b1"
    and rest: "undoCredits env dc txIDs es b1 = ([], b')"
    by (auto split: sum.splits prod.splits)
  from 2 have "0 < CreditAmount e" "(txIDs ! i) @ ''-R'' \<notin> tx_ids b" by auto
  note a = compensateCreditEntry_drift [OF c this]
  have "\<forall>(j, x)\<in>set es. (txIDs ! j) @ ''-R'' \<notin> tx_ids b1" 
  proof (intro ballI, clarify)
    fix j x assume j: "(j, x) \<in> set es" "txIDs ! j @ ''-R'' \<in> tx_ids b1"
    with 2(5) have "txIDs ! j \<noteq> txIDs ! i" by (force simp: image_iff)
    moreover from j(1) 2(6) have "txIDs ! j @ ''-R'' \<notin> tx_ids b" by auto
    ultimately show False using j(2) a(2) by auto
  qed
  with 2(2) [OF c rest] 2(4,5) obtain D where D: "drift D D nothing b1 b'" "\<forall>s m. D s m = - credits_of es s m"
    "tx_ids b' \<subseteq> (\<lambda>(i, e). (txIDs ! i) @ ''-R'') ` set es \<union> tx_ids b1" by auto
  from drift_trans [OF a(1) D(1)]
  have "drift (plus_at (credit_at e (- CreditAmount e)) D) (plus_at (credit_at e (- CreditAmount e)) D) nothing b b'"
    by simp
  moreover have "plus_at (credit_at e (- CreditAmount e)) D s m = - credits_of ((i, e) # es) s m" for s m
    using D(2) by (simp add: credit_at_def at_def)
  ultimately show ?case using D(3) a(2) by (intro exI conjI) auto
qed

section \<open>The identifiers of one debit\<close>

definition debit_ids :: "debit_env \<Rightarrow> AccountingEntry list \<Rightarrow> string list option" where
  "debit_ids env es = those (map (\<lambda>(i, e). generateFreezeTxID (ud_shadow env) (ud_tx_seq env i) (AccountNo e))
     (enumerate 0 es))"

lemma those_Some: "those xs = Some ys \<Longrightarrow> xs = map Some ys"
  by (induction xs arbitrary: ys) (auto split: option.splits)

lemma debit_ids_Some:
  assumes "debit_ids env es = Some txIDs"
  shows "length txIDs = length es" "\<forall>x\<in>set txIDs. x \<noteq> [] \<and> is_digit (last x)"
proof -
  let ?f = "\<lambda>(i, e). generateFreezeTxID (ud_shadow env) (ud_tx_seq env i) (AccountNo e)"
  from assms have m: "map ?f (enumerate 0 es) = map Some txIDs" by (simp add: debit_ids_def those_Some)
  from arg_cong [OF this, of length] show "length txIDs = length es" by simp
  have dig: "x \<noteq> [] \<and> is_digit (last x)" if "generateFreezeTxID sh sq n = Some x" for sh sq n x
  proof -
    from that obtain i where "x = format_int i"
      by (auto simp: generateFreezeTxID_def EncodeIDStr_def split: option.splits sum.splits)
    moreover have "is_digit (last (dec k))" for k
      using dec_digits [of k] by (simp add: list_all_iff)
    ultimately show ?thesis by (simp add: format_int_def)
  qed
  show "\<forall>x\<in>set txIDs. x \<noteq> [] \<and> is_digit (last x)"
  proof
    fix x assume "x \<in> set txIDs"
    then have "Some x \<in> set (map ?f (enumerate 0 es))" by (simp add: m)
    then have "Some x \<in> ?f ` set (enumerate 0 es)" by simp
    then obtain p :: indexed_entry where "Some x = ?f p" by blast
    then show "x \<noteq> [] \<and> is_digit (last x)"
      using dig [of "ud_shadow env" "ud_tx_seq env (fst p)" "AccountNo (snd p)" x] by (simp add: case_prod_unfold)
  qed
qed

lemma sortedEntries_indices:
  "mset (sortedEntries es) = mset (enumerate 0 es)"
  "distinct (map fst (sortedEntries es))" "\<forall>(i, e)\<in>set (sortedEntries es). i < length es \<and> e \<in> set es"
proof -
  show m: "mset (sortedEntries es) = mset (enumerate 0 es)" by (simp add: sortedEntries_def)
  then have "mset (map fst (sortedEntries es)) = mset [0..<length es]"
    by (metis map_fst_enumerate mset_map add_0)
  then show "distinct (map fst (sortedEntries es))" by (metis distinct_upt mset_eq_imp_distinct_iff)
  from m have "set (sortedEntries es) = set (enumerate 0 es)" by (rule mset_eq_setD)
  then show "\<forall>(i, e)\<in>set (sortedEntries es). i < length es \<and> e \<in> set es"
    by (auto simp: in_set_enumerate_eq)
qed

text \<open>The credited entries carry distinct identifiers.\<close>

lemma credited_ids:
  assumes "debit_ids env es = Some txIDs" "distinct txIDs"
    and "filter (\<lambda>(i, e). AccountNo e \<noteq> n) (sortedEntries es) = new @ rest"
  shows "distinct (map (\<lambda>(i, e). txIDs ! i) new)" "(\<lambda>(i, e). txIDs ! i) ` set new \<subseteq> set txIDs"
    "\<forall>(i, e)\<in>set new. e \<in> set es \<and> AccountNo e \<noteq> n"
proof -
  let ?os = "filter (\<lambda>(i, e). AccountNo e \<noteq> n) (sortedEntries es)"
  have sub: "set new \<subseteq> set ?os" unfolding assms(3) by auto
  then have ok: "\<forall>(i, e)\<in>set new. i < length txIDs \<and> e \<in> set es \<and> AccountNo e \<noteq> n"
    using sortedEntries_indices(3) [of es] debit_ids_Some(1) [OF assms(1)] by fastforce
  then show "\<forall>(i, e)\<in>set new. e \<in> set es \<and> AccountNo e \<noteq> n"
    "(\<lambda>(i, e). txIDs ! i) ` set new \<subseteq> set txIDs" by auto
  have "distinct (map fst ?os)" using sortedEntries_indices(2) [of es] by (simp add: distinct_map_filter)
  then have d: "distinct (map fst new)" unfolding assms(3) by simp
  have "\<forall>j\<in>set (map fst new). j < length txIDs" using ok by auto
  then have "inj_on ((!) txIDs) (set (map fst new))"
    using assms(2) by (simp add: inj_on_def nth_eq_iff_index_eq)
  then have "distinct (map ((!) txIDs) (map fst new))" using d by (subst distinct_map) simp
  then show "distinct (map (\<lambda>(i, e). txIDs ! i) new)" by (simp add: case_prod_unfold comp_def del: distinct_map)
qed

lemma reversal_ids_new:
  assumes "is_digit (last y)" "y \<noteq> []"
  shows "x @ ''-R'' \<noteq> y" "x @ ''-FR'' \<noteq> y"
  using assms by (auto simp: is_digit_def)

lemma reversal_ids_differ: "x @ ''-R'' \<noteq> y @ ''-FR''"
proof
  assume "x @ ''-R'' = y @ ''-FR''"
  from arg_cong [OF this, of "\<lambda>s. last (butlast s)"] show False by (simp add: butlast_append)
qed

lemma debit_runs_phase1:
  assumes run: "debit_runs env req r b amt dc txIDs i b1" and n: "n = frozenAccount (fkey req) r"
  shows "drift (at (route (FreezeAccountNo (fkey req))) n (- amt)) nothing
           (at (route (FreezeAccountNo (fkey req))) n (- amt)) b b1"
    "tx_ids b1 \<subseteq> insert (txIDs ! i) (tx_ids b)"
    "debit_ids env (ud_entries req) = Some txIDs"
    "generateFreezeVoucherNo (ud_shadow env) (ud_voucher_seq env) (snd (route (FreezeAccountNo (fkey req)))) =
       Some (dc_voucher dc)"
    "parse_int (fo_amount r) = Some amt"
proof -
  let ?sid = "route (FreezeAccountNo (fkey req))"
  from run n have p1: "debitPhase1 env (fkey req) dc n amt (txIDs ! i) (ud_entries req) txIDs b = Inr b1"
    by (simp add: debit_runs_def)
  have z: "at sid m 0 = nothing" for sid m by (simp add: at_def)
  show "drift (at ?sid n (- amt)) nothing (at ?sid n (- amt)) b b1" "tx_ids b1 \<subseteq> insert (txIDs ! i) (tx_ids b)"
  proof -
    from debitPhase1_Inr [OF p1 refl] obtain s' where
      s': "shiftAndRecord (shards (books_of b) ?sid) n (- amt) 0 (- amt)
         (\<lambda>bal. freezeRow dc (txIDs ! i) n amt 0 bal (sub64 bal amt)) = Inr s'"
      and "books_of b1 = put_shard (books_of b) ?sid s'" by (metis route_def)
    then have "shards (books_of b1) = (shards (books_of b))(?sid := s')" by simp
    from recorded_shift [OF s' this freezeRow_id] z
    show "drift (at ?sid n (- amt)) nothing (at ?sid n (- amt)) b b1" "tx_ids b1 \<subseteq> insert (txIDs ! i) (tx_ids b)"
      by simp_all
  qed
qed (use run in \<open>simp_all add: debit_runs_def debit_ids_def route_def\<close>)

lemma frozenDebitIndex_Some:
  assumes "frozenDebitIndex n amt (sortedEntries es) = Some i"
  shows "i < length es"
proof -
  from assms obtain e where "List.find (\<lambda>(i, e). AccountNo e = n \<and> DebitAmount e = amt) (sortedEntries es) = Some (i, e)"
    by (auto simp: frozenDebitIndex_def)
  then have "(i, e) \<in> set (sortedEntries es)" by (metis find_Some_iff nth_mem)
  with sortedEntries_indices(3) [of es] show ?thesis by auto
qed

text \<open>When the credits fail and every reversal goes through, the columns are where they were before
  the first transaction.\<close>

lemma settleCredits_restores:
  assumes fail: "settleCredits env k dc n amt x es txIDs b1 = (Inl (CreditFailed err), b')"
    and d1: "drift (at (route (FreezeAccountNo k)) n (- amt)) nothing (at (route (FreezeAccountNo k)) n (- amt)) b b1"
    and t1: "tx_ids b1 \<subseteq> set txIDs \<union> tx_ids b"
    and ids: "debit_ids env es = Some txIDs" "distinct txIDs"
    and new: "\<forall>x\<in>set txIDs. x @ ''-R'' \<notin> tx_ids b" "dc_voucher dc @ ''-FR'' \<notin> tx_ids b"
    and pos: "\<forall>e\<in>set es. AccountNo e \<noteq> n \<longrightarrow> 0 < CreditAmount e"
  shows "drift nothing nothing nothing b b'"
proof -
  let ?sid = "route (FreezeAccountNo k)"
  obtain r ap b2 where ap: "applyCredits env dc n txIDs (sortedEntries es) [] b1 = (r, ap, b2)"
    by (metis prod.exhaust)
  obtain errs b3 where un: "undoCredits env dc txIDs ap b2 = (errs, b3)" by (metis prod.exhaust)
  from fail ap un obtain b4 where errs: "errs = []"
    and fd: "compensateFrozenDebit (undo_frozen_fault env) dc n amt ?sid b3 = Inr b4"
    and b': "books_of b' = books_of b4"
    by (auto simp: settleCredits_def route_def Let_def split: option.splits sum.splits if_splits)
  from applyCredits_drift [OF ap] obtain rest where
    d2: "drift (credits_of ap) (credits_of ap) nothing b1 b2" and
    t2: "tx_ids b2 \<subseteq> (\<lambda>(i, e). txIDs ! i) ` set ap \<union> tx_ids b1" and
    fl: "filter (\<lambda>(i, e). AccountNo e \<noteq> n) (sortedEntries es) = ap @ rest" by auto
  note c = credited_ids [OF ids fl]
  note dig = debit_ids_Some(2) [OF ids(1)]
  from t1 t2 c(2) have t2': "tx_ids b2 \<subseteq> set txIDs \<union> tx_ids b" by blast
  have fresh: "\<forall>(i, e)\<in>set ap. (txIDs ! i) @ ''-R'' \<notin> tx_ids b2"
  proof (intro ballI, clarify)
    fix i e assume "(i, e) \<in> set ap" "(txIDs ! i) @ ''-R'' \<in> tx_ids b2"
    moreover from this(1) c(2) have "txIDs ! i \<in> set txIDs" by auto
    ultimately show False using t2' new(1) dig reversal_ids_new(1) by blast
  qed
  have pos': "\<forall>(i, e)\<in>set ap. 0 < CreditAmount e" using c(3) pos by auto
  from undoCredits_drift [OF un [unfolded errs] pos' c(1) fresh] obtain D where
    d3: "drift D D nothing b2 b3" and D: "\<forall>s m. D s m = - credits_of ap s m" and
    t3: "tx_ids b3 \<subseteq> (\<lambda>(i, e). (txIDs ! i) @ ''-R'') ` set ap \<union> tx_ids b2" by blast
  have fr: "dc_voucher dc @ ''-FR'' \<notin> tx_ids b3"
    using t3 t2' new(2) dig reversal_ids_new(2) reversal_ids_differ by fastforce
  from fd have "reversed_before b3 (map_sum id (put_books b3 ?sid) (shiftAndRecord (shards (books_of b3) ?sid) n amt 0 amt
      (\<lambda>bal. freezeRow dc (dc_voucher dc @ ''-FR'') n 0 amt bal (add64 bal amt)))) = Inr b4"
    by (simp add: compensateFrozenDebit_def split: option.splits)
  note d4 = reversal_drift(1) [OF this freezeRow_id fr]
  from drift_trans [OF drift_trans [OF drift_trans [OF d1 d2] d3] drift_books [OF d4 b']]
  have "drift (plus_at (plus_at (plus_at (at ?sid n (- amt)) (credits_of ap)) D) (at ?sid n amt))
      (plus_at (plus_at (plus_at nothing (credits_of ap)) D) (at ?sid n 0))
      (plus_at (plus_at (plus_at (at ?sid n (- amt)) nothing) nothing) (at ?sid n amt)) b b'" .
  moreover have "plus_at (plus_at (plus_at (at ?sid n (- amt)) (credits_of ap)) D) (at ?sid n amt) = nothing"
    "plus_at (plus_at (plus_at nothing (credits_of ap)) D) (at ?sid n 0) = nothing"
    "plus_at (plus_at (plus_at (at ?sid n (- amt)) nothing) nothing) (at ?sid n amt) = nothing"
    by (simp_all add: fun_eq_iff at_def D)
  ultimately show ?thesis by simp
qed

lemma drift_nothing: "drift nothing nothing nothing b b' \<longleftrightarrow> (\<forall>sid. cols b' sid = cols b sid)"
  by (simp add: drift_def cong: map_cong)

section \<open>Totals\<close>

text \<open>A quantity of the bank that every credit changes by a fixed amount.\<close>

lemma applyCredits_measure:
  assumes "applyCredits env dc n txIDs es done b = (None, d, b')" "sound_bank cfg b"
    and "\<And>b e fault x b'. sound_bank cfg b \<Longrightarrow> applyCreditEntry fault dc e x b = Inr b' \<Longrightarrow>
           M (books_of b') = M (books_of b) + (w e :: int)"
  shows "M (books_of b') = M (books_of b) + (\<Sum>(i, e)\<leftarrow>filter (\<lambda>(i, e). AccountNo e \<noteq> n) es. w e)"
  using assms(1,2)
proof (induction es arbitrary: "done" b)
  case Nil
  then show ?case by simp
next
  case (Cons ie es)
  obtain i e where ie: "ie = (i, e)" by (cases ie)
  show ?case
  proof (cases "AccountNo e = n")
    case True
    with Cons ie show ?thesis by simp
  next
    case False
    with Cons.prems ie obtain b1 where b1: "applyCreditEntry (credit_fault env i) dc e (txIDs ! i) b = Inr b1"
      and rest: "applyCredits env dc n txIDs es (done @ [(i, e)]) b1 = (None, d, b')"
      by (auto split: sum.splits)
    from Cons.IH [OF rest applyCreditEntry_sound [OF Cons.prems(2) b1]] assms(3) [OF Cons.prems(2) b1] ie False
    show ?thesis by simp
  qed
qed

definition total :: "shard \<Rightarrow> int" where
  "total s = (\<Sum>a\<leftarrow>accounts s. balance a)"

lemma shiftAndRecord_total:
  assumes u: "keys_unique s" and ok: "shiftAndRecord s n db dv df row = Inr s'"
  shows "total s' = total s + db"
  using ok
proof (rule shiftAndRecord_Inr)
  fix a
  assume a: "GetAccountForUpdate s n = Some a"
    and s': "s' = s\<lparr>accounts := map (shifted n db dv df) (accounts s), journal := journal s @ [row (balance a)]\<rparr>"
  have "(\<Sum>x\<leftarrow>accounts s. balance (shifted n db dv df x)) =
      (\<Sum>x\<leftarrow>accounts s. balance x) + balance (shifted n db dv df a) - balance a"
    using sum_list_moved_key [of "accounts s" a n "\<lambda>x. balance (shifted n db dv df x)" balance] u GetAccount_Some [OF a]
    by (simp add: keys_unique_def)
  with GetAccount_Some [OF a] show ?thesis by (simp add: s' total_def comp_def)
qed

lemma shiftAndRecord_voucher_sum:
  assumes "shiftAndRecord s n db dv df row = Inr s'" "\<And>bal. g (row bal) = w" "\<And>bal. parent_transaction (row bal) = v"
  shows "voucher_sum g v s' = voucher_sum g v s + w"
  using assms(1) by (rule shiftAndRecord_Inr) (simp add: voucher_sum_def assms(2,3))

lemma route_places: "route n \<in> set places"
  by (simp add: route_def route_in_places)

lemma keys_of_sound: "sound_bank cfg b \<Longrightarrow> keys_unique (shards (books_of b) sid)"
  by (simp add: sound_bank_def ledger_inv_def)

lemma applyCreditEntry_totals:
  assumes "sound_bank cfg b" "applyCreditEntry fault dc e x b = Inr b'"
  shows "csum total (books_of b') = csum total (books_of b) + CreditAmount e"
    "csum (voucher_sum credit_amount (dc_voucher dc)) (books_of b') =
       csum (voucher_sum credit_amount (dc_voucher dc)) (books_of b) + CreditAmount e"
    "csum (voucher_sum debit_amount (dc_voucher dc)) (books_of b') =
       csum (voucher_sum debit_amount (dc_voucher dc)) (books_of b) + 0"
proof -
  from assms(2) obtain s' where s': "shiftAndRecord (shards (books_of b) (route (AccountNo e))) (AccountNo e)
      (CreditAmount e) (CreditAmount e) 0 (\<lambda>bal. freezeRow dc x (AccountNo e) 0 (CreditAmount e) bal
        (add64 bal (CreditAmount e))) = Inr s'"
    and b': "books_of b' = put_shard (books_of b) (route (AccountNo e)) s'"
    unfolding applyCreditEntry_def by (elim inShard_Inr) (auto simp: route_def put_books_def)
  note p = csum_put [OF route_places, of _ "books_of b" "AccountNo e" s']
  show "csum total (books_of b') = csum total (books_of b) + CreditAmount e"
    using shiftAndRecord_total [OF keys_of_sound [OF assms(1)] s'] by (simp add: b' p)
  show "csum (voucher_sum credit_amount (dc_voucher dc)) (books_of b') =
       csum (voucher_sum credit_amount (dc_voucher dc)) (books_of b) + CreditAmount e"
    using shiftAndRecord_voucher_sum [OF s', of credit_amount _ "dc_voucher dc"] by (simp add: b' p freezeRow_def)
  show "csum (voucher_sum debit_amount (dc_voucher dc)) (books_of b') =
       csum (voucher_sum debit_amount (dc_voucher dc)) (books_of b) + 0"
    using shiftAndRecord_voucher_sum [OF s', of debit_amount _ "dc_voucher dc"] by (simp add: b' p freezeRow_def)
qed

lemma debitPhase1_totals:
  assumes "sound_bank cfg b" "debitPhase1 env k dc n amt x es txIDs b = Inr b'"
  shows "csum total (books_of b') = csum total (books_of b) - amt"
    "csum (voucher_sum credit_amount (dc_voucher dc)) (books_of b') =
       csum (voucher_sum credit_amount (dc_voucher dc)) (books_of b)"
    "csum (voucher_sum debit_amount (dc_voucher dc)) (books_of b') =
       csum (voucher_sum debit_amount (dc_voucher dc)) (books_of b) + amt"
proof -
  let ?sid = "route (FreezeAccountNo k)"
  from debitPhase1_Inr [OF assms(2) refl] obtain s' where
    s': "shiftAndRecord (shards (books_of b) ?sid) n (- amt) 0 (- amt)
       (\<lambda>bal. freezeRow dc x n amt 0 bal (sub64 bal amt)) = Inr s'"
    and b': "books_of b' = put_shard (books_of b) ?sid s'" by (metis route_def)
  note p = csum_put [OF route_places, of _ "books_of b" "FreezeAccountNo k" s']
  show "csum total (books_of b') = csum total (books_of b) - amt"
    using shiftAndRecord_total [OF keys_of_sound [OF assms(1)] s'] by (simp add: b' p)
  show "csum (voucher_sum credit_amount (dc_voucher dc)) (books_of b') =
       csum (voucher_sum credit_amount (dc_voucher dc)) (books_of b)"
    using shiftAndRecord_voucher_sum [OF s', of credit_amount _ "dc_voucher dc"] by (simp add: b' p freezeRow_def)
  show "csum (voucher_sum debit_amount (dc_voucher dc)) (books_of b') =
       csum (voucher_sum debit_amount (dc_voucher dc)) (books_of b) + amt"
    using shiftAndRecord_voucher_sum [OF s', of debit_amount _ "dc_voucher dc"] by (simp add: b' p freezeRow_def)
qed

section \<open>Entries of the expected shape\<close>

text \<open>One debit of the frozen amount on the frozen account, credits everywhere else, totals in range.\<close>

definition debit_shape :: "AccountingEntry list \<Rightarrow> string \<Rightarrow> int \<Rightarrow> bool" where
  "debit_shape es n amt \<longleftrightarrow> 0 < amt \<and>
     list_all (\<lambda>e. if AccountNo e = n then DebitAmount e = amt \<and> CreditAmount e = 0
                   else DebitAmount e = 0 \<and> 0 < CreditAmount e) es \<and>
     sum_list (map DebitAmount es) \<le> max_int64 \<and> sum_list (map CreditAmount es) \<le> max_int64"

lemma unfreeze_loop_totals:
  assumes "unfreeze_loop n amt es td tc k = Inr (td', tc', k')"
    and "\<forall>e\<in>set es. 0 \<le> DebitAmount e \<and> 0 \<le> CreditAmount e" "0 \<le> td" "0 \<le> tc"
    and "td + sum_list (map DebitAmount es) \<le> max_int64" "tc + sum_list (map CreditAmount es) \<le> max_int64"
  shows "td' = td + sum_list (map DebitAmount es) \<and> tc' = tc + sum_list (map CreditAmount es) \<and>
         k' = k + length (filter (\<lambda>e. AccountNo e = n \<and> DebitAmount e = amt) es)"
  using assms
proof (induction es arbitrary: td tc k)
  case Nil
  then show ?case by simp
next
  case (Cons e es)
  have pos: "0 \<le> sum_list (map DebitAmount es)" "0 \<le> sum_list (map CreditAmount es)"
    using Cons.prems(2) by (auto intro!: sum_list_nonneg)
  with Cons.prems have adds: "add64 td (DebitAmount e) = td + DebitAmount e" "add64 tc (CreditAmount e) = tc + CreditAmount e"
    by (auto intro!: add64_exact simp: in64_iff)
  from Cons.prems(1) adds have "unfreeze_loop n amt es (td + DebitAmount e) (tc + CreditAmount e)
      (if AccountNo e = n \<and> DebitAmount e = amt then k + 1 else k) = Inr (td', tc', k')"
    by (auto split: if_splits)
  from Cons.IH [OF this] Cons.prems(2-) show ?case by auto
qed

lemma debit_shape_balanced:
  assumes v: "validateUnfreezeEntries es n amt = None" and sh: "debit_shape es n amt"
  shows "(\<Sum>(i, e)\<leftarrow>filter (\<lambda>(i, e). AccountNo e \<noteq> n) (sortedEntries es). CreditAmount e) = amt"
proof -
  have nn: "\<forall>e\<in>set es. 0 \<le> DebitAmount e \<and> 0 \<le> CreditAmount e"
    using sh by (auto simp: debit_shape_def list_all_iff split: if_splits)
  from v obtain td tc k where "unfreeze_loop n amt es 0 0 0 = Inr (td, tc, k)" and k: "k = 1" and eq: "td = tc"
    by (auto simp: validateUnfreezeEntries_def split: sum.splits if_splits)
  from unfreeze_loop_totals [OF this(1) nn] sh have t: "td = sum_list (map DebitAmount es)"
    "tc = sum_list (map CreditAmount es)" "k = length (filter (\<lambda>e. AccountNo e = n \<and> DebitAmount e = amt) es)"
    by (simp_all add: debit_shape_def)
  have all: "\<forall>e\<in>set es. (AccountNo e = n \<longrightarrow> DebitAmount e = amt \<and> CreditAmount e = 0) \<and>
      (AccountNo e \<noteq> n \<longrightarrow> DebitAmount e = 0)"
    using sh by (auto simp: debit_shape_def list_all_iff)
  then have "sum_list (map DebitAmount es) = amt * int (length (filter (\<lambda>e. AccountNo e = n \<and> DebitAmount e = amt) es))"
    by (induction es) (auto simp: algebra_simps)
  with t k have deb: "td = amt" by simp
  have cr: "(\<Sum>e\<leftarrow>filter (\<lambda>e. AccountNo e \<noteq> n) es. CreditAmount e) = sum_list (map CreditAmount es)"
    using all by (induction es) auto
  have "mset (map snd (sortedEntries es)) = mset es"
    using sortedEntries_indices(1) [of es] by (metis map_snd_enumerate mset_map)
  then have "mset (map CreditAmount (filter (\<lambda>e. AccountNo e \<noteq> n) (map snd (sortedEntries es)))) =
      mset (map CreditAmount (filter (\<lambda>e. AccountNo e \<noteq> n) es))" by (metis mset_filter mset_map)
  then have "(\<Sum>e\<leftarrow>filter (\<lambda>e. AccountNo e \<noteq> n) (map snd (sortedEntries es)). CreditAmount e) =
      (\<Sum>e\<leftarrow>filter (\<lambda>e. AccountNo e \<noteq> n) es. CreditAmount e)" by (metis sum_mset_sum_list)
  then show ?thesis using cr t(2) eq deb by (simp add: filter_map comp_def case_prod_unfold)
qed

section \<open>Properties\<close>

text \<open>A wallet with 5000 that freezes 300 for a merchant.\<close>

definition freeze_demo :: freeze_bank where
  "freeze_demo = \<lparr>books_of = shop_cluster, freeze_orders = (\<lambda>_. []), vouchers = (\<lambda>_. []), outbox = (\<lambda>_. [])\<rparr>"

definition freeze_req :: FreezeBalanceRequest where
  "freeze_req = \<lparr>fr_order_no = ''7'', fr_account_no = wallet_no, fr_business_no = ''8'', fr_amount = 300,
     fr_currency = ''PHP''\<rparr>"

definition demo_key :: freeze_key where
  "demo_key = \<lparr>FreezeOrderNo = ''7'', FreezeAccountNo = wallet_no, FreezeBusinessNo = ''8'', FreezeBusinessType = []\<rparr>"

definition debit_req :: UnfreezeAndDebitRequest where
  "debit_req = \<lparr>fkey = demo_key, ud_entries =
     [\<lparr>AccountNo = wallet_no, DebitAmount = 300, CreditAmount = 0, EntryDescription = []\<rparr>,
      \<lparr>AccountNo = shop_no, DebitAmount = 0, CreditAmount = 300, EntryDescription = []\<rparr>], ud_currency = ''PHP''\<rparr>"

definition debit_calm :: debit_env where
  "debit_calm = \<lparr>ud_shadow = False, ud_voucher_seq = Some 1, ud_tx_seq = (\<lambda>i. Some (2 + int i)),
     ud_today = ''2026-01-01'', ud_now = 0, outbox_on = False, phase1_fault = None, credit_fault = (\<lambda>_. None),
     undo_fault = (\<lambda>_. None), undo_frozen_fault = None, mark_fault = None\<rparr>"

definition demo_frozen :: freeze_bank where
  "demo_frozen = snd (FreezeBalance None freeze_req freeze_demo)"

lemma tx_ids_put:
  assumes "journal s = journal (shards (books_of b) sid)"
  shows "tx_ids (put_orders (put_books b sid s) sid' os) = tx_ids b"
proof -
  have "journal (((shards (books_of b))(sid := s)) x) = journal (shards (books_of b) x)" for x using assms by simp
  then show ?thesis by (simp add: tx_ids_def)
qed

lemma freezeTx_tx_ids: "freezeTx req b = Inr b' \<Longrightarrow> tx_ids b' = tx_ids b"
  by (erule freezeTx_Inr [OF _ refl refl]) (simp add: tx_ids_put)

lemma FreezeBalance_tx_ids: "tx_ids (snd (FreezeBalance fault req b)) = tx_ids b"
  using FreezeBalance_cases [of fault req b] freezeTx_tx_ids by auto

lemma demo_frozen_tx_ids [simp]: "tx_ids demo_frozen = {}"
proof -
  have "journal (shards shop_cluster sid) = []" for sid
    by (simp add: shop_cluster_def empty_shard_def)
  then show ?thesis unfolding demo_frozen_def FreezeBalance_tx_ids by (simp add: tx_ids_def freeze_demo_def)
qed

lemma freeze_demo_sound: "sound_bank [] freeze_demo"
proof -
  have "ledger_inv [] empty_shard" "ledger_inv [] (shards shop_cluster (0, 1))" "ledger_inv [] (shards shop_cluster (3, 37))"
    by code_simp+
  then show ?thesis by (simp add: sound_bank_def freeze_demo_def shop_cluster_def)
qed

text \<open>
  C23. Whatever sequence of freezes, returns, debits and compensation scans runs, with whatever faults
  in each, every shard keeps the ledger invariants: unique keys and, on every account booked
  directly, balance = available + frozen + what open TCC branches hold.
\<close>

theorem freezing_keeps_the_books:
  assumes "sound_bank cfg b"
  shows "sound_bank cfg (fold freeze_step ops b)"
  using assms by (induction ops arbitrary: b) (simp_all add: freeze_step_sound)

theorem freezing_keeps_the_books_witness:
  "sound_bank [] (fold freeze_step [OpFreeze None freeze_req, OpDebit debit_calm debit_req] freeze_demo)"
  by (rule freezing_keeps_the_books [OF freeze_demo_sound])





definition debit_broken :: debit_env where
  "debit_broken = debit_calm\<lparr>credit_fault := (\<lambda>_. Some (MySQLError 1213))\<rparr>"

lemma debit_broken_fails:
  "fst (UnfreezeAndDebit debit_broken debit_req demo_frozen) = Inl (CreditFailed (MySQLError 1213))"
  by code_simp

lemma demo_order:
  "freezeGetByKey (freeze_orders demo_frozen (route (FreezeAccountNo (fkey debit_req)))) (FreezeOrderNo (fkey debit_req))
     (FreezeBusinessNo (fkey debit_req)) = Some \<lparr>fo_order_no = ''7'', fo_business_no = ''8'', fo_amount = ''300'',
       fo_currency = ''PHP'', fo_status = OrderProcessing, fo_account = wallet_no, fo_voucher = [], fo_error = []\<rparr>"
  by code_simp


text \<open>
  C20. A successful first UnfreezeAndDebit with entries of the expected shape moves exactly its
  entries: the frozen amount leaves the balance and the frozen column of the frozen account, every
  other entry's account gains its credit in balance and available balance, no other column changes,
  the total of all balances is what it was, and the voucher's debits and credits grow by that amount.
\<close>

theorem debit_moves_exactly_its_entries:
  assumes sound: "sound_bank cfg b"
    and res: "UnfreezeAndDebit env req b = (Inr (v, txs), b')"
    and get: "freezeGetByKey (freeze_orders b sid) (FreezeOrderNo (fkey req)) (FreezeBusinessNo (fkey req)) = Some r"
    and sid: "sid = route (FreezeAccountNo (fkey req))"
    and st: "fo_status r = OrderProcessing" and amt: "parse_int (fo_amount r) = Some amt"
    and n: "n = frozenAccount (fkey req) r" and shape: "debit_shape (ud_entries req) n amt"
    and os: "os = filter (\<lambda>(i, e). AccountNo e \<noteq> n) (sortedEntries (ud_entries req))"
  shows "drift (plus_at (at sid n (- amt)) (credits_of os)) (credits_of os) (at sid n (- amt)) b b' \<and>
         csum total (books_of b') = csum total (books_of b) \<and>
         csum (voucher_sum debit_amount v) (books_of b') = csum (voucher_sum debit_amount v) (books_of b) + amt \<and>
         csum (voucher_sum credit_amount v) (books_of b') = csum (voucher_sum credit_amount v) (books_of b) + amt"
proof (rule UnfreezeAndDebit_cases [OF refl, of b env req])
  fix r'
  assume "freezeGetByKey (freeze_orders b (RouteByAccountNo NewRouter (FreezeAccountNo (fkey req))))
      (FreezeOrderNo (fkey req)) (FreezeBusinessNo (fkey req)) = Some r'" "fo_status r' = OrderSuccess"
  with get sid st show ?thesis by (simp add: route_def)
next
  fix r' amt' dc ids' i b1
  assume get': "freezeGetByKey (freeze_orders b (RouteByAccountNo NewRouter (FreezeAccountNo (fkey req))))
      (FreezeOrderNo (fkey req)) (FreezeBusinessNo (fkey req)) = Some r'"
    and run: "debit_runs env req r' b amt' dc ids' i b1"
    and e: "UnfreezeAndDebit env req b = settleCredits env (fkey req) dc (frozenAccount (fkey req) r') amt' (ids' ! i)
        (ud_entries req) ids' b1"
  from get get' sid have r': "r' = r" by (simp add: route_def)
  from run r' have n': "n = frozenAccount (fkey req) r'" by (simp add: n)
  note p = debit_runs_phase1 [OF run n']
  from p(5) r' amt have a': "amt' = amt" by simp
  have p1: "debitPhase1 env (fkey req) dc n amt (ids' ! i) (ud_entries req) ids' b = Inr b1"
    and val: "validateUnfreezeEntries (ud_entries req) n amt = None"
    using run by (simp_all add: debit_runs_def n' [symmetric] a')
  from e res n' a' obtain d b2 where
    ap: "applyCredits env dc n ids' (sortedEntries (ud_entries req)) [] b1 = (None, d, b2)"
    and b': "books_of b' = books_of b2" and v: "v = dc_voucher dc"
    by (auto simp: settleCredits_def split: prod.splits option.splits sum.splits if_splits)
  note s1 = debitPhase1_sound [OF sound p1] and t1 = debitPhase1_totals [OF sound p1]
  have bal: "(\<Sum>(i, e)\<leftarrow>os. CreditAmount e) = amt" using debit_shape_balanced [OF val shape] os by simp
  note m = applyCredits_measure [OF ap s1, folded os]
  have "csum total (books_of b2) = csum total (books_of b)"
    using m [of "csum total" CreditAmount] applyCreditEntry_totals(1) t1(1) bal by simp
  moreover have "csum (voucher_sum debit_amount v) (books_of b2) = csum (voucher_sum debit_amount v) (books_of b) + amt"
    using m [of "csum (voucher_sum debit_amount v)" "\<lambda>_. 0"] applyCreditEntry_totals(3) t1(3)
    by (simp add: v case_prod_unfold)
  moreover have "csum (voucher_sum credit_amount v) (books_of b2) = csum (voucher_sum credit_amount v) (books_of b) + amt"
    using m [of "csum (voucher_sum credit_amount v)" CreditAmount] applyCreditEntry_totals(2) t1(2) bal by (simp add: v)
  moreover have "drift (plus_at (at sid n (- amt)) (credits_of os)) (credits_of os) (at sid n (- amt)) b b2"
  proof -
    have "drift (credits_of os) (credits_of os) nothing b1 b2" using applyCredits_drift [OF ap] os by auto
    from drift_trans [OF p(1) this] show ?thesis by (simp add: a' sid)
  qed
  ultimately show ?thesis using b' drift_books by (metis (no_types))
qed (use res in \<open>auto simp: untouched_def\<close>)


theorem debit_moves_exactly_its_entries_witness:
  "csum total (books_of (snd (UnfreezeAndDebit debit_calm debit_req demo_frozen))) = csum total (books_of demo_frozen) \<and>
   map balance (accounts (shards (books_of (snd (UnfreezeAndDebit debit_calm debit_req demo_frozen))) (3, 37))) = [300]"
proof -
  let ?b = "snd (UnfreezeAndDebit debit_calm debit_req demo_frozen)"
  have "fst (UnfreezeAndDebit debit_calm debit_req demo_frozen) =
      Inr (''1010000000000001'', [''3010000000000002'', ''3370000000000003''])" by code_simp
  then have res: "UnfreezeAndDebit debit_calm debit_req demo_frozen =
      (Inr (''1010000000000001'', [''3010000000000002'', ''3370000000000003'']), ?b)" by (simp add: prod_eq_iff)
  let ?r = "\<lparr>fo_order_no = ''7'', fo_business_no = ''8'', fo_amount = ''300'', fo_currency = ''PHP'',
      fo_status = OrderProcessing, fo_account = wallet_no, fo_voucher = [], fo_error = []\<rparr>"
  have st: "fo_status ?r = OrderProcessing" "parse_int (fo_amount ?r) = Some 300" by code_simp+
  have shape: "debit_shape (ud_entries debit_req) (frozenAccount (fkey debit_req) ?r) 300" by code_simp
  have "map balance (accounts (shards (books_of ?b) (3, 37))) = [300]" by code_simp
  with debit_moves_exactly_its_entries [OF FreezeBalance_sound [OF freeze_demo_sound, of None freeze_req,
      folded demo_frozen_def] res demo_order refl st refl shape refl]
  show ?thesis by blast
qed

text \<open>
  C24. Returning a fresh freeze undoes it: the freeze succeeds, the return that follows succeeds too,
  and every account of every shard has its columns back (the row versions apart).
\<close>

theorem freeze_then_return_restores:
  assumes fz: "FreezeBalance None req b = (Inr no, b1)"
    and fresh: "freezeGetByKey (freeze_orders b (route (fr_account_no req))) (fr_order_no req) (fr_business_no req) = None"
    and range: "\<forall>a\<in>set (accounts (shards (books_of b) (route (fr_account_no req)))).
        in64 (balance a) \<and> in64 (available_balance a) \<and> in64 (frozen_balance a) \<and> in64 (version a + 1) \<and> in64 (version a + 2)"
    and m: "in64 (fr_amount req)"
    and k: "k = \<lparr>FreezeOrderNo = fr_order_no req, FreezeAccountNo = fr_account_no req,
        FreezeBusinessNo = fr_business_no req, FreezeBusinessType = ty\<rparr>"
  shows "\<exists>b2. UnfreezeAndReturn None k b1 = (None, b2) \<and> (\<forall>sid. cols b2 sid = cols b sid)"
proof -
  let ?n = "fr_account_no req" and ?m = "fr_amount req" and ?sid = "route (fr_account_no req)"
  let ?s = "shards (books_of b) ?sid"
  let ?s1 = "?s\<lparr>accounts := map (shifted ?n 0 (- ?m) ?m) (accounts ?s)\<rparr>"
  let ?row = "\<lparr>fo_order_no = fr_order_no req, fo_business_no = fr_business_no req,
      fo_amount = format_int ?m, fo_currency = fr_currency req, fo_status = OrderPending,
      fo_account = ?n, fo_voucher = [], fo_error = []\<rparr>"
  let ?new = "?row\<lparr>fo_status := OrderProcessing\<rparr>"
  have req: "required k" and tx: "freezeTx req b = Inr b1"
    using fz fresh by (auto simp: FreezeBalance_def required_def k route_def split: if_splits sum.splits)
  from freezeTx_Inr [OF tx refl refl] have b1: "b1 = put_orders (put_books b ?sid ?s1) ?sid
      (snd (freezeUpdateToFrozen (freeze_orders b ?sid @ [?row]) (fr_order_no req) (fr_business_no req)))"
    and create: "freezeCreate (freeze_orders b ?sid) ?row = Inr (freeze_orders b ?sid @ [?row])"
    by (auto simp: route_def)
  have up: "snd (freezeUpdateToFrozen (freeze_orders b ?sid @ [?row]) (fr_order_no req) (fr_business_no req)) =
      freeze_orders b ?sid @ [?new]"
  proof -
    have "update_where (\<lambda>r. fo_key (fr_order_no req) (fr_business_no req) r \<and> fo_status r = OrderPending)
        (\<lambda>r. r\<lparr>fo_status := OrderProcessing\<rparr>) (freeze_orders b ?sid) = freeze_orders b ?sid"
      using freezeCreate_new [OF create] by (intro update_where_none) (auto simp: fo_key_def key_of_def)
    then show ?thesis by (simp add: freezeUpdateToFrozen_def Let_def update_where_def fo_key_def)
  qed
  have get: "freezeGetByKey (freeze_orders b1 ?sid) (FreezeOrderNo k) (FreezeBusinessNo k) = Some ?new"
  proof -
    have "List.find P xs = None \<Longrightarrow> P y \<Longrightarrow> List.find P (xs @ [y]) = Some y" for P xs and y :: FreezeOrder
      by (induction xs) (auto split: if_splits)
    with fresh show ?thesis by (simp add: b1 up k freezeGetByKey_def select_one_def fo_key_def)
  qed
  have amt: "parse_int (fo_amount ?new) = Some ?m" using m by (simp add: parse_format_int)
  have "\<not> list_ex (\<lambda>a. acc_no a = ?n \<and> shiftColumns 0 ?m (- ?m) a = None) (accounts ?s1)"
    using range by (auto simp: list_ex_iff shiftColumns_def sql_add_def shifted_def add.assoc)
  then obtain c s2 where up2: "updateAccount ?s1 (\<lambda>x. acc_no x = ?n) (shiftColumns 0 ?m (- ?m)) = Inr (c, s2)"
    by (simp add: updateAccount_def)
  have own: "frozenAccount k ?new = ?n" by (simp add: frozenAccount_def k)
  have ret: "UnfreezeAndReturn None k b1 = (None, put_orders (put_books b1 ?sid s2) ?sid
      (freezeUpdateFailed (freeze_orders b1 ?sid) (FreezeOrderNo k) (FreezeBusinessNo k) ''unfreeze and return''))"
  proof -
    have "shards (books_of b1) ?sid = ?s1" by (simp add: b1)
    moreover have "RouteByAccountNo NewRouter (FreezeAccountNo k) = ?sid" by (simp add: k route_def)
    ultimately show ?thesis
      using req get amt up2 own by (simp add: UnfreezeAndReturn_def Let_def)
  qed
  have undone: "(\<lambda>a. (shifted ?n 0 ?m (- ?m) (shifted ?n 0 (- ?m) ?m a))\<lparr>version := 0\<rparr>) = (\<lambda>a. a\<lparr>version := 0\<rparr>)"
    by (auto simp: shifted_def fun_eq_iff)
  have "cols (put_orders (put_books b1 ?sid s2) ?sid os) sid = cols b sid" for os sid
    using undone by (simp add: cols_def b1 updateAccount_shifted [OF up2] comp_def)
  with ret show ?thesis by blast
qed

theorem freeze_then_return_restores_witness:
  "\<exists>b2. UnfreezeAndReturn None demo_key demo_frozen = (None, b2) \<and> (\<forall>sid. cols b2 sid = cols freeze_demo sid)"
proof (rule freeze_then_return_restores [where req = freeze_req and ty = "[]" and no = "''7''"])
  have "fst (FreezeBalance None freeze_req freeze_demo) = Inr ''7''" by code_simp
  then show "FreezeBalance None freeze_req freeze_demo = (Inr ''7'', demo_frozen)"
    by (simp add: demo_frozen_def prod_eq_iff)
qed code_simp+

section \<open>Where the compensation goes wrong\<close>

text \<open>After a compensated failure the money is frozen again but the order stays SUCCESS: a retry of
  the debit replays a success that never happened, and the funds can no longer be returned.\<close>

lemma compensated_order_stays_success:
  "(let b = snd (UnfreezeAndDebit debit_broken debit_req demo_frozen)
    in (map frozen_balance (accounts (shards (books_of b) (0, 1))), fst (UnfreezeAndDebit debit_calm debit_req b),
        fst (UnfreezeAndReturn None demo_key b)))
   = ([300], Inr (''1010000000000001'', []), Some (FreezeInStatus OrderSuccess))"
  by code_simp

text \<open>An entry that credits the frozen account itself passes validation and is skipped: 300 leave the
  wallet, the merchant gets 200, and the 100 the entries give back to the wallet are gone.\<close>

lemma credit_back_is_lost:
  "(let b = snd (UnfreezeAndDebit debit_calm (debit_req\<lparr>ud_entries :=
        [\<lparr>AccountNo = wallet_no, DebitAmount = 300, CreditAmount = 0, EntryDescription = []\<rparr>,
         \<lparr>AccountNo = wallet_no, DebitAmount = 0, CreditAmount = 100, EntryDescription = []\<rparr>,
         \<lparr>AccountNo = shop_no, DebitAmount = 0, CreditAmount = 200, EntryDescription = []\<rparr>]\<rparr>) demo_frozen)
    in (map balance (accounts (shards (books_of b) (0, 1))), map balance (accounts (shards (books_of b) (3, 37)))))
   = ([4700], [200])"
  by code_simp

text \<open>\<open>routeByVoucher\<close> takes the type digit for the database: the outbox row of a debit in database 0
  is looked for in database 1, which has no such table, and is neither marked done nor ever claimed.\<close>

lemma outbox_row_is_never_found:
  "(let b = snd (UnfreezeAndDebit (debit_calm\<lparr>outbox_on := True\<rparr>) debit_req demo_frozen)
    in (map co_status (outbox b (0, 1)), map_sum id fst (ClaimPending b ''1010000000000001'')))
   = ([CompensatePending], Inl (MySQLError 1146))"
  by code_simp

text \<open>The worker looks for a credit's row by routing the transaction identifier as an account number,
  and misses the row that is there: it skips the reversal of a credit that was applied.\<close>

lemma applied_credit_is_not_seen:
  "(let c = books_of (snd (UnfreezeAndDebit debit_calm debit_req demo_frozen))
    in (map transaction_id (journal (shards c (3, 37))), GetTransactionByID c ''3370000000000003''))
   = ([''3370000000000003''], None)"
  by code_simp

end
