(* ===== verification/GoText.thy ===== *)
theory GoText
  imports Prelude
begin

text \<open>
  What the services use of Go's \<open>strings\<close> package, on ASCII text (identifiers, codes and keys are
  ASCII; other runes are outside the model): case mapping, \<open>EqualFold\<close>, \<open>Contains\<close>, \<open>TrimSpace\<close>.
\<close>

definition upper_char :: "char \<Rightarrow> char" where
  "upper_char c = (let n = (of_char c :: int) in if 97 \<le> n \<and> n \<le> 122 then char_of (n - 32) else c)"

definition lower_char :: "char \<Rightarrow> char" where
  "lower_char c = (let n = (of_char c :: int) in if 65 \<le> n \<and> n \<le> 90 then char_of (n + 32) else c)"

definition ToUpper :: "string \<Rightarrow> string" where
  "ToUpper s = map upper_char s"

definition ToLower :: "string \<Rightarrow> string" where
  "ToLower s = map lower_char s"

definition EqualFold :: "string \<Rightarrow> string \<Rightarrow> bool" where
  "EqualFold s t \<longleftrightarrow> ToLower s = ToLower t"

fun HasPrefix :: "string \<Rightarrow> string \<Rightarrow> bool" where
  "HasPrefix s [] = True"
| "HasPrefix [] (p # ps) = False"
| "HasPrefix (c # cs) (p # ps) = (c = p \<and> HasPrefix cs ps)"

fun Contains :: "string \<Rightarrow> string \<Rightarrow> bool" where
  "Contains [] p = HasPrefix [] p"
| "Contains (c # cs) p = (HasPrefix (c # cs) p \<or> Contains cs p)"

definition is_space :: "char \<Rightarrow> bool" where
  "is_space c \<longleftrightarrow> c = CHR '' '' \<or> c = CHR 0x09 \<or> c = CHR 0x0A \<or> c = CHR 0x0B \<or> c = CHR 0x0C \<or> c = CHR 0x0D"

definition TrimSpace :: "string \<Rightarrow> string" where
  "TrimSpace s = rev (dropWhile is_space (rev (dropWhile is_space s)))"

lemma HasPrefix_iff: "HasPrefix s p \<longleftrightarrow> (\<exists>t. s = p @ t)"
  by (induction s p rule: HasPrefix.induct) auto

lemma Contains_iff: "Contains s p \<longleftrightarrow> (\<exists>u t. s = u @ p @ t)"
proof (induction s p rule: Contains.induct)
  case (1 p)
  then show ?case by (auto simp: HasPrefix_iff)
next
  case (2 c cs p)
  show ?case
  proof
    assume "Contains (c # cs) p"
    with 2 show "\<exists>u t. c # cs = u @ p @ t"
      by (auto simp: HasPrefix_iff intro: exI [of _ "[]"] exI [of _ "c # _"] simp flip: append_Cons)
        (metis append_Cons append_Nil)+
  next
    assume "\<exists>u t. c # cs = u @ p @ t"
    then obtain u t where u: "c # cs = u @ p @ t" by blast
    show "Contains (c # cs) p"
    proof (cases u)
      case Nil
      with u have "HasPrefix (c # cs) p" by (auto simp: HasPrefix_iff)
      then show ?thesis by simp
    next
      case (Cons a v)
      with u have "cs = v @ p @ t" by simp
      with 2 show ?thesis by auto
    qed
  qed
qed

lemma of_char_upper: "(of_char (upper_char c) :: int) =
    (if 97 \<le> (of_char c :: int) \<and> of_char c \<le> (122 :: int) then of_char c - 32 else of_char c)"
  by (simp add: upper_char_def Let_def take_bit_int_eq_self)

lemma upper_char_idem [simp]: "upper_char (upper_char c) = upper_char c"
proof (cases "97 \<le> (of_char c :: int) \<and> of_char c \<le> (122 :: int)")
  case True
  have "(of_char (upper_char c) :: int) < 97" using True by (simp add: of_char_upper)
  then show ?thesis by (simp add: upper_char_def Let_def)
next
  case False
  then have "upper_char c = c" by (auto simp: upper_char_def Let_def)
  then show ?thesis by simp
qed

lemma ToUpper_idem [simp]: "ToUpper (ToUpper s) = ToUpper s"
  by (simp add: ToUpper_def comp_def)

lemma ToUpper_Nil [simp]: "ToUpper [] = []" "ToUpper s = [] \<longleftrightarrow> s = []"
  by (simp_all add: ToUpper_def)

end
