(* ===== verification/Breaker.thy ===== *)
theory Breaker
  imports Prelude "HOL-Library.AList"
begin

text \<open>
  The circuit breaker of \<open>packages/payment-core/internal/circuitbreaker/breaker.go\<close>: one breaker per
  channel adapter, locked around every operation, so a breaker's history is a sequence of calls.
  Times are in nanoseconds; each call carries the time it reads. Metrics are not modelled.
\<close>

section \<open>The breaker\<close>

datatype breaker_state = Closed | Open | HalfOpen

record breaker_config =
  FailThreshold :: int
  OpenDuration :: int
  HalfOpenMax :: int

definition DefaultConfig :: breaker_config where
  "DefaultConfig = \<lparr>FailThreshold = 5, OpenDuration = 30000000000, HalfOpenMax = 1\<rparr>"

record breaker =
  cfg :: breaker_config
  breaker_state :: breaker_state
  failures :: int
  openSince :: int
  halfOpenReq :: int

definition newBreaker :: "breaker_config \<Rightarrow> breaker" where
  "newBreaker c =
     (let c = (if FailThreshold c \<le> 0 then c\<lparr>FailThreshold := FailThreshold DefaultConfig\<rparr> else c);
          c = (if OpenDuration c \<le> 0 then c\<lparr>OpenDuration := OpenDuration DefaultConfig\<rparr> else c);
          c = (if HalfOpenMax c \<le> 0 then c\<lparr>HalfOpenMax := HalfOpenMax DefaultConfig\<rparr> else c)
      in \<lparr>cfg = c, breaker_state = Closed, failures = 0, openSince = 0, halfOpenReq = 0\<rparr>)"

definition Allow :: "int \<Rightarrow> breaker \<Rightarrow> bool \<times> breaker" where
  "Allow now b =
     (case breaker_state b of
        Closed \<Rightarrow> (True, b)
      | Open \<Rightarrow>
          if now - openSince b \<ge> OpenDuration (cfg b)
          then (True, b\<lparr>breaker_state := HalfOpen, halfOpenReq := 1\<rparr>)
          else (False, b)
      | HalfOpen \<Rightarrow>
          if halfOpenReq b < HalfOpenMax (cfg b) then (True, b\<lparr>halfOpenReq := halfOpenReq b + 1\<rparr>)
          else (False, b))"

definition RecordSuccess :: "breaker \<Rightarrow> breaker" where
  "RecordSuccess b =
     (let b = b\<lparr>failures := 0\<rparr>
      in if breaker_state b = HalfOpen then b\<lparr>breaker_state := Closed\<rparr> else b)"

definition ResetBreaker :: "breaker \<Rightarrow> breaker" where
  "ResetBreaker b = b\<lparr>failures := 0, halfOpenReq := 0, openSince := 0, breaker_state := Closed\<rparr>"

definition RecordFailure :: "int \<Rightarrow> breaker \<Rightarrow> breaker" where
  "RecordFailure now b =
     (let b = b\<lparr>failures := failures b + 1\<rparr>
      in if breaker_state b = HalfOpen \<or> failures b \<ge> FailThreshold (cfg b)
         then b\<lparr>openSince := now, failures := 0, breaker_state := Open\<rparr> else b)"

definition StateOf :: "int \<Rightarrow> breaker \<Rightarrow> breaker_state" where
  "StateOf now b =
     (if breaker_state b = Open \<and> now - openSince b \<ge> OpenDuration (cfg b) then HalfOpen else breaker_state b)"

section \<open>The registry\<close>

record registry =
  breakers :: "(string \<times> breaker) list"
  registry_cfg :: breaker_config

definition Get :: "registry \<Rightarrow> string \<Rightarrow> breaker \<times> registry" where
  "Get r a =
     (case map_of (breakers r) a of
        Some b \<Rightarrow> (b, r)
      | None \<Rightarrow> (let b = newBreaker (registry_cfg r) in (b, r\<lparr>breakers := (a, b) # breakers r\<rparr>)))"

definition put_breaker :: "string \<Rightarrow> breaker \<Rightarrow> registry \<Rightarrow> registry" where
  "put_breaker a b r = r\<lparr>breakers := AList.update a b (breakers r)\<rparr>"

definition ResetAdapter :: "string \<Rightarrow> registry \<Rightarrow> bool \<times> registry" where
  "ResetAdapter a r =
     (case map_of (breakers r) a of
        None \<Rightarrow> (False, r)
      | Some b \<Rightarrow> (True, put_breaker a (ResetBreaker b) r))"

definition ResetAll :: "registry \<Rightarrow> nat \<times> registry" where
  "ResetAll r = (length (breakers r), r\<lparr>breakers := map (\<lambda>(a, b). (a, ResetBreaker b)) (breakers r)\<rparr>)"

definition States :: "int \<Rightarrow> registry \<Rightarrow> (string \<times> breaker_state) list" where
  "States now r = map (\<lambda>(a, b). (a, StateOf now b)) (breakers r)"

section \<open>Histories\<close>

datatype call = CallAllow int | CallSuccess | CallFailure int | CallReset

fun breaker_step :: "call \<Rightarrow> breaker \<Rightarrow> bool option \<times> breaker" where
  "breaker_step (CallAllow t) b = (let (ok, b') = Allow t b in (Some ok, b'))"
| "breaker_step CallSuccess b = (None, RecordSuccess b)"
| "breaker_step (CallFailure t) b = (None, RecordFailure t b)"
| "breaker_step CallReset b = (None, ResetBreaker b)"

fun breaker_run :: "call list \<Rightarrow> breaker \<Rightarrow> bool list \<times> breaker" where
  "breaker_run [] b = ([], b)"
| "breaker_run (c # cs) b =
     (let (r, b') = breaker_step c b; (rs, b'') = breaker_run cs b'
      in ((case r of None \<Rightarrow> rs | Some ok \<Rightarrow> ok # rs), b''))"

definition final :: "call list \<Rightarrow> breaker \<Rightarrow> breaker" where
  "final cs b = snd (breaker_run cs b)"

lemma final_Nil [simp]: "final [] b = b"
  by (simp add: final_def)

lemma final_Cons [simp]: "final (c # cs) b = final cs (snd (breaker_step c b))"
  by (simp add: final_def split: prod.split)

lemma final_append [simp]: "final (cs @ ds) b = final ds (final cs b)"
  by (induction cs arbitrary: b) simp_all

lemma answers_Cons: "fst (breaker_run (c # cs) b) =
    (case fst (breaker_step c b) of None \<Rightarrow> [] | Some ok \<Rightarrow> [ok]) @ fst (breaker_run cs (snd (breaker_step c b)))"
  by (simp split: prod.split option.split)

section \<open>The counters stay in range\<close>

definition breaker_ok :: "breaker \<Rightarrow> bool" where
  "breaker_ok b \<longleftrightarrow> 0 < FailThreshold (cfg b) \<and> 0 < OpenDuration (cfg b) \<and> 0 < HalfOpenMax (cfg b) \<and>
     0 \<le> failures b \<and> failures b < FailThreshold (cfg b) \<and>
     0 \<le> halfOpenReq b \<and> halfOpenReq b \<le> HalfOpenMax (cfg b) \<and>
     (breaker_state b = HalfOpen \<longrightarrow> 0 < halfOpenReq b)"

lemma newBreaker_ok: "breaker_ok (newBreaker c)"
  by (simp add: breaker_ok_def newBreaker_def Let_def DefaultConfig_def)

lemma breaker_step_ok: "breaker_ok b \<Longrightarrow> breaker_ok (snd (breaker_step c b)) \<and> cfg (snd (breaker_step c b)) = cfg b"
  by (cases c) (auto simp: breaker_ok_def Allow_def RecordSuccess_def RecordFailure_def ResetBreaker_def Let_def
      split: breaker_state.splits)

lemma final_ok: "breaker_ok b \<Longrightarrow> breaker_ok (final cs b) \<and> cfg (final cs b) = cfg b"
proof (induction cs arbitrary: b)
  case Nil
  then show ?case by simp
next
  case (Cons c cs)
  from Cons.IH [of "snd (breaker_step c b)"] breaker_step_ok [OF Cons.prems, of c] show ?case by simp
qed

section \<open>When it opens\<close>

text \<open>The failures at the end of a history, allowances aside.\<close>

fun streak :: "int \<Rightarrow> call list \<Rightarrow> int" where
  "streak n [] = n"
| "streak n (CallAllow t # cs) = streak n cs"
| "streak n (CallFailure t # cs) = streak (n + 1) cs"
| "streak n (CallSuccess # cs) = streak 0 cs"
| "streak n (CallReset # cs) = streak 0 cs"

lemma streak_append: "streak n (cs @ ds) = streak (streak n cs) ds"
  by (induction n cs rule: streak.induct) simp_all

lemma closed_counts:
  assumes "breaker_state b = Closed \<Longrightarrow> failures b = streak n cs0"
    and "breaker_state (final cs b) = Closed"
  shows "failures (final cs b) = streak n (cs0 @ cs)"
  using assms
proof (induction cs arbitrary: b cs0)
  case Nil
  then show ?case by simp
next
  case (Cons c cs)
  have "failures (snd (breaker_step c b)) = streak n (cs0 @ [c])" if "breaker_state (snd (breaker_step c b)) = Closed"
    using Cons.prems(1) that
    by (cases c) (auto simp: Allow_def RecordSuccess_def RecordFailure_def ResetBreaker_def Let_def streak_append
        split: breaker_state.splits if_splits)
  from Cons.IH [OF this] Cons.prems(2) show ?case by simp
qed



section \<open>What it lets through\<close>

text \<open>The times a history reads.\<close>

fun times :: "call list \<Rightarrow> int list" where
  "times [] = []"
| "times (CallAllow t # cs) = t # times cs"
| "times (CallFailure t # cs) = t # times cs"
| "times (c # cs) = times cs"

text \<open>
  C34. While the cool-down of an open breaker lasts, nothing gets through: whatever late successes and
  failures are recorded meanwhile, every request of that time is refused and the breaker stays open.
\<close>

theorem open_breaker_refuses:
  assumes "breaker_state b = Open" "CallReset \<notin> set cs"
    and "sorted (openSince b # times cs)" "\<forall>t\<in>set (times cs). t < openSince b + OpenDuration (cfg b)"
  shows "True \<notin> set (fst (breaker_run cs b)) \<and> breaker_state (final cs b) = Open"
  using assms
proof (induction cs arbitrary: b)
  case Nil
  then show ?case by simp
next
  case (Cons c cs)
  let ?b = "snd (breaker_step c b)"
  have o: "breaker_state ?b = Open \<and> cfg ?b = cfg b \<and> openSince b \<le> openSince ?b"
    and f: "fst (breaker_step c b) = None \<or> fst (breaker_step c b) = Some False"
    and s: "sorted (openSince ?b # times cs)"
    using Cons.prems
    by (cases c; auto simp: Allow_def RecordSuccess_def RecordFailure_def Let_def; fail)+
  have "\<forall>t\<in>set (times cs). t < openSince ?b + OpenDuration (cfg ?b)"
    using Cons.prems(4) o by (cases c) (auto intro: less_le_trans)
  with Cons.IH [of ?b] o s Cons.prems(2) have "True \<notin> set (fst (breaker_run cs ?b)) \<and> breaker_state (final cs ?b) = Open"
    by simp
  with f show ?case unfolding answers_Cons by auto
qed

theorem open_breaker_refuses_witness:
  "True \<notin> set (fst (breaker_run [CallAllow 10, CallSuccess, CallAllow 20]
      (final (replicate 5 (CallFailure 0)) (newBreaker DefaultConfig))))"
proof -
  let ?b = "final (replicate 5 (CallFailure 0)) (newBreaker DefaultConfig)"
  have b: "breaker_state ?b = Open" "openSince ?b = 0" "OpenDuration (cfg ?b) = 30000000000" by code_simp+
  have "sorted (openSince ?b # times [CallAllow 10, CallSuccess, CallAllow 20])"
    "\<forall>t\<in>set (times [CallAllow 10, CallSuccess, CallAllow 20]). t < openSince ?b + OpenDuration (cfg ?b)"
    unfolding b by simp_all
  from open_breaker_refuses [OF b(1) _ this] show ?thesis by simp
qed

lemma halfopen_probes:
  assumes "breaker_ok b" "breaker_state b = HalfOpen" "\<forall>c\<in>set cs. \<exists>t. c = CallAllow t"
  shows "int (length (filter id (fst (breaker_run cs b)))) \<le> HalfOpenMax (cfg b) - halfOpenReq b \<and>
         breaker_state (final cs b) = HalfOpen \<and> breaker_ok (final cs b)"
  using assms
proof (induction cs arbitrary: b)
  case Nil
  then show ?case by (simp add: breaker_ok_def)
next
  case (Cons c cs)
  then obtain t where c: "c = CallAllow t" by auto
  have ok: "breaker_ok (snd (breaker_step c b))" using breaker_step_ok [OF Cons.prems(1)] by blast
  show ?case
  proof (cases "halfOpenReq b < HalfOpenMax (cfg b)")
    case True
    with Cons.prems c have e: "breaker_step c b = (Some True, b\<lparr>halfOpenReq := halfOpenReq b + 1\<rparr>)"
      by (simp add: Allow_def)
    with Cons.IH [OF ok] Cons.prems show ?thesis unfolding answers_Cons by simp
  next
    case False
    with Cons.prems c have e: "breaker_step c b = (Some False, b)" by (simp add: Allow_def)
    with Cons.IH [OF ok] Cons.prems show ?thesis unfolding answers_Cons by simp
  qed
qed

lemma closed_allows:
  "breaker_state b = Closed \<Longrightarrow> \<forall>c\<in>set cs. (\<exists>t. c = CallAllow t) \<or> c = CallSuccess \<Longrightarrow>
   False \<notin> set (fst (breaker_run cs b)) \<and> breaker_state (final cs b) = Closed"
proof (induction cs arbitrary: b)
  case Nil
  then show ?case by simp
next
  case (Cons c cs)
  have "breaker_state (snd (breaker_step c b)) = Closed" "fst (breaker_step c b) \<noteq> Some False"
    using Cons.prems by (auto simp: Allow_def RecordSuccess_def Let_def)
  with Cons.IH [of "snd (breaker_step c b)"] Cons.prems(2) show ?case
    unfolding answers_Cons by (auto split: option.splits)
qed

text \<open>
  C29. Recovery: once the cool-down is over the next request gets through as a probe, at most
  HalfOpenMax requests do before an outcome is recorded, and a recorded success closes the breaker,
  after which every request gets through until the next failures.
\<close>

theorem breaker_recovers:
  assumes "breaker_ok b" "breaker_state b = Open" "now \<ge> openSince b + OpenDuration (cfg b)"
    and "\<forall>c\<in>set cs. \<exists>t. c = CallAllow t" "\<forall>c\<in>set ds. (\<exists>t. c = CallAllow t) \<or> c = CallSuccess"
    and "probing = final (CallAllow now # cs) b"
  shows "fst (Allow now b) \<and>
         int (length (filter id (fst (breaker_run (CallAllow now # cs) b)))) \<le> HalfOpenMax (cfg b) \<and>
         False \<notin> set (fst (breaker_run ds (RecordSuccess probing)))"
proof -
  let ?b = "b\<lparr>breaker_state := HalfOpen, halfOpenReq := 1\<rparr>"
  have e: "breaker_step (CallAllow now) b = (Some True, ?b)" using assms(2,3) by (simp add: Allow_def)
  have "breaker_ok ?b" using assms(1) by (auto simp: breaker_ok_def)
  note p = halfopen_probes [OF this _ assms(4)]
  have "breaker_state (RecordSuccess probing) = Closed"
    using p assms(6) e by (simp add: RecordSuccess_def Let_def)
  note d = closed_allows [OF this assms(5)]
  have "fst (Allow now b)" using assms(2,3) by (simp add: Allow_def)
  moreover have "int (length (filter id (fst (breaker_run (CallAllow now # cs) b)))) \<le> HalfOpenMax (cfg b)"
    using p e unfolding answers_Cons by simp
  ultimately show ?thesis using d by blast
qed

theorem breaker_recovers_witness:
  "fst (Allow 30000000000 (final (replicate 5 (CallFailure 0)) (newBreaker DefaultConfig)))"
proof -
  let ?b = "final (replicate 5 (CallFailure 0)) (newBreaker DefaultConfig)"
  have ok: "breaker_ok ?b" using final_ok [OF newBreaker_ok] by blast
  have "breaker_state ?b = Open" "(30000000000 :: int) \<ge> openSince ?b + OpenDuration (cfg ?b)" by code_simp+
  from breaker_recovers [OF ok this, of "[CallAllow 30000000001]" "[CallAllow 30000000002]", OF _ _ refl]
  show ?thesis by simp
qed

text \<open>
  The counters never leave their range in any history: fewer than FailThreshold failures and at
  most HalfOpenMax probes are ever on record, so neither overflows however long the breaker lives.
\<close>

theorem breaker_counters_bounded:
  "0 \<le> failures (final cs (newBreaker c)) \<and> failures (final cs (newBreaker c)) < FailThreshold (cfg (newBreaker c)) \<and>
   0 \<le> halfOpenReq (final cs (newBreaker c)) \<and> halfOpenReq (final cs (newBreaker c)) \<le> HalfOpenMax (cfg (newBreaker c))"
  using final_ok [OF newBreaker_ok [of c], of cs] unfolding breaker_ok_def by (metis (no_types))

section \<open>Probes that are never answered\<close>

text \<open>A probe whose outcome is not recorded is not given back: when the allowed probes are spent, every
  later request is refused, at whatever time it comes.\<close>

lemma spent_probes_block_for_ever:
  assumes "breaker_state b = HalfOpen" "halfOpenReq b \<ge> HalfOpenMax (cfg b)"
    and "\<forall>c\<in>set cs. \<exists>t. c = CallAllow t"
  shows "True \<notin> set (fst (breaker_run cs b)) \<and> final cs b = b"
  using assms(3)
proof (induction cs)
  case Nil
  then show ?case by simp
next
  case (Cons c cs)
  then obtain t where "c = CallAllow t" by auto
  with assms(1,2) have "breaker_step c b = (Some False, b)" by (simp add: Allow_def)
  with Cons show ?case unfolding answers_Cons by simp
qed

end
