(* ===== verification/Routing.thy ===== *)
theory Routing
  imports GoText "HOL-Library.Multiset"
begin

text \<open>
  Channel routing of \<open>packages/payment-core/internal/routing\<close>: the sorted rule set and the first match
  of \<open>router.go\<close>, and the fallback chains of \<open>fallback.go\<close>. An atomic pointer holds each rule set, so a
  request sees one whole set: the model passes it as a value.
\<close>

section \<open>Rules\<close>

record Rule =
  Priority :: int
  Merchant :: string
  Country :: string
  PaymentMethod :: string
  AmountMin :: int
  AmountMax :: int
  Adapter :: string

record compiledRule =
  rule :: Rule
  merchantUpper :: string
  countryUpper :: string
  methodUpper :: string

record MatchInput =
  mi_merchant :: string
  mi_country :: string
  mi_method :: string
  mi_amount :: int

definition specificity :: "Rule \<Rightarrow> int" where
  "specificity r = (if Merchant r \<noteq> [] then 4 else 0) + (if Country r \<noteq> [] then 1 else 0) +
     (if PaymentMethod r \<noteq> [] then 1 else 0) + (if AmountMin r > 0 then 1 else 0) + (if AmountMax r > 0 then 1 else 0)"

text \<open>The \<open>less\<close> function given to \<open>sort.SliceStable\<close>.\<close>

definition rule_less :: "Rule \<Rightarrow> Rule \<Rightarrow> bool" where
  "rule_less a b \<longleftrightarrow>
     (if (Merchant a \<noteq> []) \<noteq> (Merchant b \<noteq> []) then Merchant a \<noteq> []
      else if Priority a \<noteq> Priority b then Priority a < Priority b
      else specificity a > specificity b)"

text \<open>A stable insertion sort by a \<open>less\<close> function: an element goes before the first it is less than.\<close>

fun insert_stable :: "('a \<Rightarrow> 'a \<Rightarrow> bool) \<Rightarrow> 'a \<Rightarrow> 'a list \<Rightarrow> 'a list" where
  "insert_stable lt x [] = [x]"
| "insert_stable lt x (y # ys) = (if lt y x then y # insert_stable lt x ys else x # y # ys)"

definition sort_stable :: "('a \<Rightarrow> 'a \<Rightarrow> bool) \<Rightarrow> 'a list \<Rightarrow> 'a list" where
  "sort_stable lt xs = foldr (insert_stable lt) xs []"

definition compile :: "Rule list \<Rightarrow> compiledRule list" where
  "compile rs = map (\<lambda>r. \<lparr>rule = r, merchantUpper = ToUpper (Merchant r), countryUpper = ToUpper (Country r),
     methodUpper = ToUpper (PaymentMethod r)\<rparr>) rs"

definition ReplaceRules :: "Rule list \<Rightarrow> compiledRule list" where
  "ReplaceRules rs = compile (sort_stable rule_less rs)"

fun route_loop :: "string \<Rightarrow> string \<Rightarrow> string \<Rightarrow> int \<Rightarrow> compiledRule list \<Rightarrow> string option" where
  "route_loop m c p amt [] = None"
| "route_loop m c p amt (cr # crs) =
     (if merchantUpper cr \<noteq> [] \<and> merchantUpper cr \<noteq> m then route_loop m c p amt crs
      else if countryUpper cr \<noteq> [] \<and> countryUpper cr \<noteq> c then route_loop m c p amt crs
      else if methodUpper cr \<noteq> [] \<and> methodUpper cr \<noteq> p then route_loop m c p amt crs
      else if AmountMin (rule cr) > 0 \<and> amt < AmountMin (rule cr) then route_loop m c p amt crs
      else if AmountMax (rule cr) > 0 \<and> amt > AmountMax (rule cr) then route_loop m c p amt crs
      else Some (Adapter (rule cr)))"

text \<open>\<open>None\<close> is \<open>ErrNoMatch\<close>.\<close>

definition Route :: "compiledRule list \<Rightarrow> MatchInput \<Rightarrow> string option" where
  "Route crs i = route_loop (ToUpper (mi_merchant i)) (ToUpper (mi_country i)) (ToUpper (mi_method i)) (mi_amount i) crs"

definition Rules :: "compiledRule list \<Rightarrow> Rule list" where
  "Rules crs = map rule crs"

section \<open>Fallback chains\<close>

record FallbackRule =
  fb_country :: string
  fb_method :: string
  fb_bin :: string
  fb_currency :: string
  fb_priority :: "string list"

record FallbackInput =
  fi_country :: string
  fi_method :: string
  fi_bin :: string
  fi_currency :: string

definition fallback_matches :: "FallbackInput \<Rightarrow> FallbackRule \<Rightarrow> bool" where
  "fallback_matches i r \<longleftrightarrow> \<not> (fb_country r \<noteq> [] \<and> fb_country r \<noteq> fi_country i) \<and>
     \<not> (fb_method r \<noteq> [] \<and> fb_method r \<noteq> fi_method i) \<and>
     \<not> (fb_bin r \<noteq> [] \<and> fb_bin r \<noteq> fi_bin i) \<and>
     \<not> (fb_currency r \<noteq> [] \<and> fb_currency r \<noteq> fi_currency i)"

definition GetFallbackChain :: "FallbackRule list \<Rightarrow> string \<Rightarrow> FallbackInput \<Rightarrow> string list" where
  "GetFallbackChain rules primary i =
     (if primary = [] then []
      else case List.find (fallback_matches i) rules of
             None \<Rightarrow> []
           | Some r \<Rightarrow> primary # filter (\<lambda>a. a \<noteq> primary) (fb_priority r))"

section \<open>Sorting\<close>

text \<open>Laws of a \<open>less\<close> function that make the stable sort meaningful.\<close>

locale weak_order =
  fixes lt :: "'a \<Rightarrow> 'a \<Rightarrow> bool"
  assumes asym: "lt x y \<Longrightarrow> \<not> lt y x"
    and cotrans: "lt x z \<Longrightarrow> lt x y \<or> lt y z"
begin

lemma irrefl: "\<not> lt x x"
  using asym [of x x] by blast

lemma lt_trans: "lt x y \<Longrightarrow> lt y z \<Longrightarrow> lt x z"
  using cotrans [of x y z] asym [of y z] by blast

lemma mset_insert_stable: "mset (insert_stable lt x ys) = add_mset x (mset ys)"
  by (induction ys) auto

lemma mset_sort_stable: "mset (sort_stable lt xs) = mset xs"
  by (induction xs) (simp_all add: sort_stable_def mset_insert_stable)

lemma sorted_insert_stable:
  "sorted_wrt (\<lambda>a b. \<not> lt b a) ys \<Longrightarrow> sorted_wrt (\<lambda>a b. \<not> lt b a) (insert_stable lt x ys)"
proof (induction ys)
  case Nil
  then show ?case by simp
next
  case (Cons y ys)
  have s: "set (insert_stable lt x ys) = insert x (set ys)"
    using mset_insert_stable [of x ys] by (metis set_mset_add_mset_insert set_mset_mset)
  show ?case
  proof (cases "lt y x")
    case True
    with Cons s asym show ?thesis by auto
  next
    case False
    with Cons have "\<forall>z\<in>set (y # ys). \<not> lt z x" by (auto dest: cotrans [of _ x y])
    with False Cons show ?thesis by simp
  qed
qed

lemma sorted_sort_stable: "sorted_wrt (\<lambda>a b. \<not> lt b a) (sort_stable lt xs)"
  by (induction xs) (simp_all add: sort_stable_def sorted_insert_stable)

text \<open>Among the elements of a selection, the first of the sorted list is a least one.\<close>

lemma find_least:
  assumes "List.find P (sort_stable lt xs) = Some x"
  shows "x \<in> set xs \<and> P x \<and> (\<forall>y\<in>set xs. P y \<longrightarrow> \<not> lt y x)"
proof -
  have s: "set (sort_stable lt xs) = set xs" by (metis mset_sort_stable set_mset_mset)
  from assms obtain i where i: "i < length (sort_stable lt xs)" "P (sort_stable lt xs ! i)"
    "x = sort_stable lt xs ! i" "\<forall>j<i. \<not> P (sort_stable lt xs ! j)"
    by (auto simp: find_Some_iff)
  have "\<not> lt y x" if "y \<in> set xs" "P y" for y
  proof -
    from that(1) s obtain j where j: "j < length (sort_stable lt xs)" "y = sort_stable lt xs ! j"
      by (metis in_set_conv_nth)
    with i(4) that(2) have "i \<le> j" by (metis not_le)
    then show ?thesis
      using sorted_wrt_nth_less [OF sorted_sort_stable, of i j xs] j i irrefl by (cases "i = j") auto
  qed
  with i s show ?thesis by (metis nth_mem)
qed

end

interpretation rule_order: weak_order rule_less
  by unfold_locales (auto simp: rule_less_def split: if_splits)

section \<open>Routing picks the best rule\<close>

text \<open>A rule matches an input when every field it constrains agrees, case aside, and the amount is in range.\<close>

definition rule_matches :: "MatchInput \<Rightarrow> Rule \<Rightarrow> bool" where
  "rule_matches i r \<longleftrightarrow> (Merchant r = [] \<or> ToUpper (Merchant r) = ToUpper (mi_merchant i)) \<and>
     (Country r = [] \<or> ToUpper (Country r) = ToUpper (mi_country i)) \<and>
     (PaymentMethod r = [] \<or> ToUpper (PaymentMethod r) = ToUpper (mi_method i)) \<and>
     (AmountMin r > 0 \<longrightarrow> AmountMin r \<le> mi_amount i) \<and> (AmountMax r > 0 \<longrightarrow> mi_amount i \<le> AmountMax r)"

lemma Route_find: "Route (compile rs) i = map_option Adapter (List.find (rule_matches i) rs)"
proof -
  have "route_loop (ToUpper (mi_merchant i)) (ToUpper (mi_country i)) (ToUpper (mi_method i)) (mi_amount i) (compile rs)
      = map_option Adapter (List.find (rule_matches i) rs)"
    by (induction rs) (auto simp: compile_def rule_matches_def)
  then show ?thesis by (simp add: Route_def)
qed



text \<open>A chain starts with the primary adapter, which does not come again.\<close>

lemma GetFallbackChain_shape:
  "GetFallbackChain rules a i = [] \<or> (\<exists>as. GetFallbackChain rules a i = a # as \<and> a \<notin> set as)"
  by (auto simp: GetFallbackChain_def split: option.splits)

lemma GetFallbackChain_no_primary [simp]: "GetFallbackChain rules [] i = []"
  by (simp add: GetFallbackChain_def)

end
