(* ===== verification/Charge.thy ===== *)
theory Charge
  imports Breaker Routing
begin

text \<open>
  The payment orchestrator \<open>packages/payment-core/internal/service/payment_service.go\<close>: a charge passes
  risk screening, routing, the operators' switches and the circuit breaker, then makes one channel
  call; captures, voids, refunds and queries go to the adapter of the charge. The risk engine, the
  channel client, the rate limiter of \<open>golang.org/x/time/rate\<close>, the digest and the clock are
  arguments; metrics, logs and the goroutines that only report are outputs or left out.
\<close>

section \<open>Messages\<close>

type_synonym metadata = "(string \<times> string) list"

definition meta :: "metadata \<Rightarrow> string \<Rightarrow> string" where
  "meta m k = (case map_of m k of Some v \<Rightarrow> v | None \<Rightarrow> [])"

record PaymentRequest =
  pr_intent :: string
  pr_amount :: int
  pr_currency :: string
  pr_country :: string
  pr_method :: string
  pr_customer :: string
  pr_capture :: string
  pr_return :: string
  pr_notify :: string
  pr_description :: string
  pr_metadata :: metadata
  pr_extra :: metadata

record RequiredAction =
  action_type :: string
  action_details :: metadata
  challenge_ref :: string
  expires_at :: int

record PaymentResponse =
  ResultType :: string
  ExternalRefNo :: string
  AmountCaptured :: int
  RequiredAction :: "RequiredAction option"
  FailureCode :: string
  FailureMessage :: string
  RiskLevel :: string
  RiskScore :: int
  RawResponse :: metadata

definition response :: "string \<Rightarrow> string \<Rightarrow> string \<Rightarrow> PaymentResponse" where
  "response ty code msg = \<lparr>ResultType = ty, ExternalRefNo = [], AmountCaptured = 0, RequiredAction = None,
     FailureCode = code, FailureMessage = msg, RiskLevel = [], RiskScore = 0, RawResponse = []\<rparr>"

abbreviation (input) "ResultSucceeded \<equiv> ''succeeded''"
abbreviation (input) "ResultProcessing \<equiv> ''processing''"
abbreviation (input) "ResultRequiresAction \<equiv> ''requires_action''"
abbreviation (input) "ResultFailed \<equiv> ''failed''"

text \<open>Messages of the channel service: a charge call, its reply, and the action a reply may ask for.\<close>

record ChargeCall =
  cc_adapter :: string
  cc_intent :: string
  cc_key :: string
  cc_amount :: int
  cc_currency :: string
  cc_description :: string
  cc_return :: string
  cc_notify :: string
  cc_immediate :: bool
  cc_metadata :: metadata

record WireAction =
  wa_type :: string
  wa_redirect :: string
  wa_scheme :: string
  wa_return :: string
  wa_qr_url :: string
  wa_qr_image :: string
  wa_poll :: int
  wa_otp_masked :: string
  wa_otp_channel :: string
  wa_otp_length :: int
  wa_expires :: int
  wa_extra :: metadata

record ChannelReply =
  cr_result :: string
  cr_ref :: string
  cr_action :: "WireAction option"
  cr_failure :: string
  cr_message :: string
  cr_raw :: metadata

text \<open>An error of a call: what \<open>errors.Is\<close> finds in it, and its text.\<close>

record call_error =
  is_deadline :: bool
  is_canceled :: bool
  err_text :: string

datatype service_error =
    NoRoute MatchInput
  | ChannelError call_error
  | RefundIdRequired
  | AdapterRequired string

definition isUnknownResultErr :: "call_error option \<Rightarrow> bool" where
  "isUnknownResultErr e =
     (case e of
        None \<Rightarrow> False
      | Some x \<Rightarrow>
          if is_deadline x \<or> is_canceled x then True
          else (let msg = ToLower (err_text x)
                in Contains msg ''context deadline exceeded'' \<or> Contains msg ''context canceled'' \<or>
                   Contains msg ''timeout'' \<or> Contains msg ''unavailable'' \<or> Contains msg ''canceled''))"

section \<open>Failure codes\<close>

definition canonical_codes :: "string list" where
  "canonical_codes = [''card_declined'', ''insufficient_funds'', ''risk_blocked'', ''auth_failed'', ''expired'',
     ''channel_unavailable'', ''unknown'']"

definition NormalizeFailure :: "string \<Rightarrow> string" where
  "NormalizeFailure code =
     (if code \<in> set canonical_codes then code
      else let k = ToUpper code
           in if Contains k ''INSUFFICIENT'' \<or> Contains k ''NSF'' then ''insufficient_funds''
              else if Contains k ''RISK'' \<or> Contains k ''FRAUD'' then ''risk_blocked''
              else if Contains k ''EXPIRED'' \<or> Contains k ''TIMEOUT'' then ''expired''
              else if Contains k ''AUTH'' \<or> Contains k ''OTP'' \<or> Contains k ''3DS'' then ''auth_failed''
              else if Contains k ''UNAVAILABLE'' \<or> Contains k ''MAINTENANCE'' then ''channel_unavailable''
              else if Contains k ''DECLINED'' \<or> Contains k ''REFUSED'' \<or> Contains k ''REJECTED'' then ''card_declined''
              else ''unknown'')"

section \<open>Idempotency keys\<close>

text \<open>What is digested: the fields with a NUL after each but the last.\<close>

definition idemSep :: string where
  "idemSep = [CHR 0x00]"

definition idem_text :: "string \<Rightarrow> string \<Rightarrow> int \<Rightarrow> string \<Rightarrow> string" where
  "idem_text pi action amount currency = pi @ idemSep @ action @ idemSep @ format_int amount @ idemSep @ currency"

definition refund_text :: "string \<Rightarrow> string \<Rightarrow> int \<Rightarrow> string \<Rightarrow> string" where
  "refund_text pi refund amount currency =
     pi @ idemSep @ refund @ idemSep @ format_int amount @ idemSep @ currency @ idemSep @ ''refund''"

definition IdempotencyKey :: "(string \<Rightarrow> string) \<Rightarrow> string \<Rightarrow> string \<Rightarrow> int \<Rightarrow> string \<Rightarrow> string" where
  "IdempotencyKey sha256 pi action amount currency = sha256 (idem_text pi action amount currency)"

definition RefundIdempotencyKey :: "(string \<Rightarrow> string) \<Rightarrow> string \<Rightarrow> string \<Rightarrow> int \<Rightarrow> string \<Rightarrow> string" where
  "RefundIdempotencyKey sha256 pi refund amount currency = sha256 (refund_text pi refund amount currency)"

section \<open>The operators' switches\<close>

record ChannelConfig =
  Enabled :: bool
  RPS :: int
  Burst :: int

type_synonym channel_ops = "(string \<times> ChannelConfig) list"

definition SetConfig :: "string \<Rightarrow> ChannelConfig \<Rightarrow> channel_ops \<Rightarrow> channel_ops" where
  "SetConfig a c m = AList.update a c m"

definition IsEnabled :: "channel_ops \<Rightarrow> string \<Rightarrow> bool" where
  "IsEnabled m a = (case map_of m a of None \<Rightarrow> True | Some c \<Rightarrow> Enabled c)"

definition DisableChannel :: "string \<Rightarrow> channel_ops \<Rightarrow> channel_ops" where
  "DisableChannel a m =
     (case map_of m a of
        None \<Rightarrow> AList.update a \<lparr>Enabled = False, RPS = 0, Burst = 0\<rparr> m
      | Some c \<Rightarrow> AList.update a (c\<lparr>Enabled := False\<rparr>) m)"

definition EnableChannel :: "string \<Rightarrow> channel_ops \<Rightarrow> channel_ops" where
  "EnableChannel a m =
     (case map_of m a of
        None \<Rightarrow> AList.update a \<lparr>Enabled = True, RPS = 0, Burst = 0\<rparr> m
      | Some c \<Rightarrow> AList.update a (c\<lparr>Enabled := True\<rparr>) m)"

section \<open>The service\<close>

record payment_service =
  svc_rules :: "compiledRule list"
  svc_fallback :: "FallbackRule list"
  riskFailClose :: bool
  riskReviewStepUp :: bool
  riskReviewStepUpMethods :: "string list"
  riskTimeoutDefault :: int
  riskTimeoutByMerchant :: "(string \<times> int) list"
  maintenance :: bool
  svc_breakers :: registry
  channelOps :: channel_ops

definition SetRiskReviewStepUp :: "bool \<Rightarrow> string list \<Rightarrow> payment_service \<Rightarrow> payment_service" where
  "SetRiskReviewStepUp enabled methods s =
     (let s = s\<lparr>riskReviewStepUp := enabled\<rparr>
      in if methods = [] then s else s\<lparr>riskReviewStepUpMethods := map (\<lambda>x. ToUpper (TrimSpace x)) methods\<rparr>)"

abbreviation (input) minRiskTimeoutFloor :: int where "minRiskTimeoutFloor \<equiv> 3000000000"

definition SetRiskTimeoutDefault :: "int \<Rightarrow> payment_service \<Rightarrow> payment_service" where
  "SetRiskTimeoutDefault d s =
     s\<lparr>riskTimeoutDefault := (if d < minRiskTimeoutFloor then minRiskTimeoutFloor else d)\<rparr>"

definition SetRiskTimeoutByMerchant :: "(string \<times> int) list \<Rightarrow> payment_service \<Rightarrow> payment_service" where
  "SetRiskTimeoutByMerchant m s =
     s\<lparr>riskTimeoutByMerchant := map (\<lambda>(k, v). (k, if v < minRiskTimeoutFloor then minRiskTimeoutFloor else v)) m\<rparr>"

definition riskTimeoutFor :: "payment_service \<Rightarrow> string \<Rightarrow> int" where
  "riskTimeoutFor s merchant =
     (if merchant = [] then riskTimeoutDefault s
      else case map_of (riskTimeoutByMerchant s) merchant of Some d \<Rightarrow> d | None \<Rightarrow> riskTimeoutDefault s)"

text \<open>The breaker of an adapter: looked up or made, then used.\<close>

definition breaker_of :: "payment_service \<Rightarrow> string \<Rightarrow> breaker" where
  "breaker_of s a = fst (Get (svc_breakers s) a)"

definition set_breaker :: "string \<Rightarrow> breaker \<Rightarrow> payment_service \<Rightarrow> payment_service" where
  "set_breaker a b s = s\<lparr>svc_breakers := put_breaker a b (svc_breakers s)\<rparr>"

definition allow_adapter :: "int \<Rightarrow> string \<Rightarrow> payment_service \<Rightarrow> bool \<times> payment_service" where
  "allow_adapter now a s = (let (ok, b) = Allow now (breaker_of s a) in (ok, set_breaker a b s))"

definition record_success :: "string \<Rightarrow> payment_service \<Rightarrow> payment_service" where
  "record_success a s = set_breaker a (RecordSuccess (breaker_of s a)) s"

definition record_failure :: "int \<Rightarrow> string \<Rightarrow> payment_service \<Rightarrow> payment_service" where
  "record_failure now a s = set_breaker a (RecordFailure now (breaker_of s a)) s"

text \<open>
  What one call sees of the outside: the risk engine's answer (\<open>None\<close> is a service without a risk
  client), the limiter, the channel, the digest, whether a retry queue is set, the time of its checks
  and the time its outcome is recorded.
\<close>

datatype risk_answer = RiskFails | RiskSays int int string string string

record charge_env =
  risk :: "risk_answer option"
  limiter :: "string \<Rightarrow> bool"
  channel_charge :: "ChargeCall \<Rightarrow> call_error + ChannelReply"
  digest :: "string \<Rightarrow> string"
  queue_set :: bool
  t_check :: int
  t_done :: int

abbreviation (input) Deny :: int where "Deny \<equiv> 2"
abbreviation (input) Review :: int where "Review \<equiv> 3"

definition callerIsProbeAuthorized :: bool where
  "callerIsProbeAuthorized = False"

record RetryTask =
  task_id :: string
  task_intent :: string
  task_key :: string
  task_amount :: int
  task_currency :: string
  task_method :: string
  task_country :: string
  task_bin :: string
  FailedAdapter :: string
  task_reason :: string
  Attempt :: int
  NextRetryAt :: int
  LastErrorMsg :: string
  task_metadata :: metadata

definition Backoffs :: "int list" where
  "Backoffs = [30000000000, 120000000000, 900000000000, 7200000000000]"

definition NextRetryTime :: "int \<Rightarrow> int \<Rightarrow> int" where
  "NextRetryTime now attempt =
     now + (if 0 \<le> attempt \<and> attempt < int (length Backoffs) then Backoffs ! nat attempt else last Backoffs)"

record charge_out =
  answer :: "service_error + PaymentResponse"
  service :: payment_service
  calls :: "ChargeCall list"
  reports :: "(string \<times> string) list"
  queued :: "RetryTask list"

section \<open>Risk screening\<close>

text \<open>\<open>Some\<close> response ends the charge here.\<close>

definition riskStage :: "charge_env \<Rightarrow> PaymentRequest \<Rightarrow> payment_service \<Rightarrow>
    PaymentResponse option \<times> (string \<times> string) list \<times> payment_service" where
  "riskStage env req s =
     (case risk env of
        None \<Rightarrow> (None, [], s)
      | Some r \<Rightarrow>
          (let (ok, s1) = allow_adapter (t_check env) ''risk-manage'' s
           in if \<not> ok then
                (if riskFailClose s1 then Some (response ResultFailed ''risk_unavailable''
                     ''risk engine breaker open; transaction denied (fail-close policy)'') else None, [], s1)
              else (case r of
                      RiskFails \<Rightarrow>
                        (if riskFailClose s1 then Some (response ResultFailed ''risk_unavailable''
                             ''risk engine unreachable; transaction denied (fail-close policy)'') else None, [],
                         record_failure (t_check env) ''risk-manage'' s1)
                    | RiskSays decision score level reason decisionID \<Rightarrow>
                        (let s2 = record_success ''risk-manage'' s1
                         in if decision = Deny then
                              (Some ((response ResultFailed ''risk_blocked''
                                   (''transaction denied by risk engine: '' @ reason))
                                 \<lparr>RiskLevel := level, RiskScore := score,
                                  RawResponse := [(''risk_decision_id'', decisionID)]\<rparr>),
                               [(''payment.denied'', ''risk_blocked'')], s2)
                            else if decision = Review \<and> riskReviewStepUp s2 \<and>
                                    ToUpper (pr_method req) \<in> set (riskReviewStepUpMethods s2) then
                              (Some ((response ResultRequiresAction [] [])
                                 \<lparr>RequiredAction := Some \<lparr>action_type = ''three_d_secure'',
                                    action_details = [(''reason'', ''risk_review_step_up''),
                                      (''risk_decision_id'', decisionID), (''risk_level'', level)],
                                    challenge_ref = [], expires_at = 0\<rparr>,
                                  RiskLevel := level, RiskScore := score,
                                  RawResponse := [(''risk_decision_id'', decisionID)]\<rparr>),
                               [(''payment.review'', [])], s2)
                            else (None, [], s2)))))"

section \<open>Fallback adapters and the retry queue\<close>

text \<open>The first adapter of the chain, the failed one aside, whose breaker lets a request through and
  which is enabled. An adapter that is not enabled has already been asked.\<close>

fun try_chain :: "int \<Rightarrow> string \<Rightarrow> string list \<Rightarrow> payment_service \<Rightarrow> string option \<times> payment_service" where
  "try_chain now failed [] s = (None, s)"
| "try_chain now failed (a # as) s =
     (if a = failed then try_chain now failed as s
      else let (ok, s') = allow_adapter now a s
           in if \<not> ok then try_chain now failed as s'
              else if \<not> IsEnabled (channelOps s') a then try_chain now failed as s'
              else (Some a, s'))"

definition tryFallbackAdapter :: "int \<Rightarrow> string \<Rightarrow> PaymentRequest \<Rightarrow> payment_service \<Rightarrow>
    string option \<times> payment_service" where
  "tryFallbackAdapter now failed req s =
     try_chain now failed (GetFallbackChain (svc_fallback s) failed
       \<lparr>fi_country = pr_country req, fi_method = pr_method req, fi_bin = meta (pr_metadata req) ''bin'',
        fi_currency = pr_currency req\<rparr>) s"

definition enqueueRetry :: "charge_env \<Rightarrow> PaymentRequest \<Rightarrow> string \<Rightarrow> string \<Rightarrow> RetryTask list" where
  "enqueueRetry env req adapter reason =
     (if \<not> queue_set env then []
      else [\<lparr>task_id = ''retry_'' @ pr_intent req @ ''_'' @ format_int (t_check env), task_intent = pr_intent req,
             task_key = IdempotencyKey (digest env) (pr_intent req) ''charge'' (pr_amount req) (pr_currency req),
             task_amount = pr_amount req, task_currency = pr_currency req, task_method = pr_method req,
             task_country = pr_country req, task_bin = meta (pr_metadata req) ''bin'', FailedAdapter = adapter,
             task_reason = reason, Attempt = 0, NextRetryAt = NextRetryTime (t_check env) 0, LastErrorMsg = [],
             task_metadata = pr_metadata req\<rparr>])"

section \<open>Charge\<close>

definition chargeCall :: "charge_env \<Rightarrow> PaymentRequest \<Rightarrow> string \<Rightarrow> ChargeCall" where
  "chargeCall env req adapter =
     (let m = pr_metadata req;
          m = (if EqualFold (pr_method req) ''GCASH_MINIPROGRAM'' \<and> map_of m ''gcash_flow'' = None
               then AList.update ''gcash_flow'' ''miniprogram'' m else m);
          m = (if pr_customer req \<noteq> [] then AList.update ''customer_id'' (pr_customer req) m else m)
      in \<lparr>cc_adapter = adapter, cc_intent = pr_intent req,
          cc_key = IdempotencyKey (digest env) (pr_intent req) ''charge'' (pr_amount req) (pr_currency req),
          cc_amount = pr_amount req, cc_currency = pr_currency req, cc_description = pr_description req,
          cc_return = pr_return req, cc_notify = pr_notify req,
          cc_immediate = (\<not> EqualFold (pr_capture req) ''manual''), cc_metadata = m\<rparr>)"

definition orDefault :: "string \<Rightarrow> string \<Rightarrow> string" where
  "orDefault v d = (if v \<noteq> [] then v else d)"

definition detail :: "bool \<Rightarrow> string \<Rightarrow> string \<Rightarrow> metadata \<Rightarrow> metadata" where
  "detail c k v m = (if c then AList.update k v m else m)"

abbreviation (input) fifteen_minutes :: int where "fifteen_minutes \<equiv> 900000000000"

definition proto2Action :: "int \<Rightarrow> WireAction \<Rightarrow> string \<Rightarrow> RequiredAction" where
  "proto2Action now a returnURL =
     (let ty = wa_type a; ru = orDefault (wa_return a) returnURL;
          d = (if ty = ''app_redirect'' then
                 detail (ru \<noteq> []) ''return_url'' ru (detail (wa_scheme a \<noteq> []) ''scheme'' (wa_scheme a)
                   (detail True ''redirect_url'' (wa_redirect a) (wa_extra a)))
               else if ty = ''qrcode'' then
                 detail (wa_poll a > 0) ''poll_interval_ms'' (format_int (wa_poll a))
                   (detail (wa_qr_image a \<noteq> []) ''qrcode_image_base64'' (wa_qr_image a)
                     (detail (wa_qr_url a \<noteq> []) ''qrcode_url'' (wa_qr_url a) (wa_extra a)))
               else if ty = ''otp'' then
                 detail (wa_otp_length a > 0) ''length'' (format_int (wa_otp_length a))
                   (detail (wa_otp_channel a \<noteq> []) ''channel'' (wa_otp_channel a)
                     (detail (wa_otp_masked a \<noteq> []) ''recipient_masked'' (wa_otp_masked a) (wa_extra a)))
               else if ty = ''three_d_secure'' then
                 detail (ru \<noteq> []) ''return_url'' ru (detail True ''redirect_url'' (wa_redirect a) (wa_extra a))
               else wa_extra a)
      in \<lparr>action_type = ty, action_details = d, challenge_ref = wa_redirect a,
          expires_at = (if wa_expires a = 0 then now + fifteen_minutes else wa_expires a * 1000000000)\<rparr>)"

definition mapChargeResp :: "int \<Rightarrow> PaymentRequest \<Rightarrow> ChannelReply \<Rightarrow> PaymentResponse" where
  "mapChargeResp now req r =
     (response (cr_result r) (NormalizeFailure (cr_failure r)) (cr_message r))
       \<lparr>ExternalRefNo := cr_ref r, RawResponse := cr_raw r,
        RequiredAction := map_option (\<lambda>a. proto2Action now a (pr_return req)) (cr_action r)\<rparr>"

definition unknownResult :: "call_error \<Rightarrow> PaymentResponse" where
  "unknownResult e = response ResultProcessing ''result_unknown''
     (''downstream timeout/unavailable; result unknown, query to reconcile: '' @ err_text e)"

text \<open>The channel call of a charge and the record of its outcome: \<open>cb\<close> names the breaker taken before the
  fallback, \<open>adapter\<close> the adapter called.\<close>

definition callChannel :: "charge_env \<Rightarrow> PaymentRequest \<Rightarrow> bool \<Rightarrow> string \<Rightarrow> string \<Rightarrow> payment_service \<Rightarrow>
    (string \<times> string) list \<Rightarrow> charge_out" where
  "callChannel env req isProbe cb adapter s reps =
     (let c = chargeCall env req adapter
      in case channel_charge env c of
           Inl e \<Rightarrow>
             \<lparr>answer = (if isUnknownResultErr (Some e) then Inr (unknownResult e) else Inl (ChannelError e)),
              service = (if isProbe then s else record_failure (t_done env) cb s), calls = [c], reports = reps,
              queued = []\<rparr>
         | Inr r \<Rightarrow>
             \<lparr>answer = Inr (mapChargeResp (t_done env) req r),
              service = (if isProbe then s
                         else if cr_failure r = ''channel_unavailable'' then record_failure (t_done env) cb s
                         else record_success cb s),
              calls = [c],
              reports = (if risk env = None then reps
                         else reps @ [if cr_result r = ''succeeded'' then (''payment.succeeded'', [])
                                      else if cr_result r = ''failed'' then (''payment.failed'', cr_failure r)
                                      else (''payment.processing'', [])]),
              queued = []\<rparr>)"

definition refuse :: "payment_service \<Rightarrow> (string \<times> string) list \<Rightarrow> PaymentResponse \<Rightarrow> charge_out" where
  "refuse s reps r = \<lparr>answer = Inr r, service = s, calls = [], reports = reps, queued = []\<rparr>"

definition routeStage :: "charge_env \<Rightarrow> PaymentRequest \<Rightarrow> payment_service \<Rightarrow> (string \<times> string) list \<Rightarrow> charge_out" where
  "routeStage env req s reps =
     (let i = \<lparr>mi_merchant = [], mi_country = pr_country req, mi_method = pr_method req, mi_amount = pr_amount req\<rparr>
      in case Route (svc_rules s) i of
           None \<Rightarrow> \<lparr>answer = Inl (NoRoute i), service = s, calls = [], reports = reps, queued = []\<rparr>
         | Some adapter \<Rightarrow>
             if \<not> IsEnabled (channelOps s) adapter then
               refuse s reps (response ResultFailed ''channel_disabled'' (''adapter '' @ adapter @ '' is disabled by ops''))
             else if \<not> limiter env adapter then
               refuse s reps (response ResultFailed ''channel_rate_limited'' (''adapter '' @ adapter @ '' rate limit exceeded''))
             else
               (let isProbe = (meta (pr_extra req) ''probe'' = ''true'' \<and> callerIsProbeAuthorized)
                in if isProbe then callChannel env req True adapter adapter s reps
                   else (let (ok, s1) = allow_adapter (t_check env) adapter s
                         in if ok then callChannel env req False adapter adapter s1 reps
                            else (case tryFallbackAdapter (t_check env) adapter req s1 of
                                    (Some adapter', s2) \<Rightarrow> callChannel env req False adapter adapter' s2 reps
                                  | (None, s2) \<Rightarrow>
                                      \<lparr>answer = Inr (response ResultProcessing ''processing''
                                         ''primary adapter unavailable, enqueued for async retry''),
                                       service = s2, calls = [], reports = reps,
                                       queued = enqueueRetry env req [] ''circuit_open''\<rparr>))))"

definition Charge :: "charge_env \<Rightarrow> PaymentRequest \<Rightarrow> payment_service \<Rightarrow> charge_out" where
  "Charge env req s =
     (if maintenance s then
        refuse s [] (response ResultFailed ''maintenance'' ''system is in maintenance mode, please retry later'')
      else case riskStage env req s of
             (Some r, reps, s1) \<Rightarrow> refuse s1 reps r
           | (None, reps, s1) \<Rightarrow> routeStage env req s1 reps)"

section \<open>Capture, void, refund, query\<close>

record op_request =
  op_intent :: string
  op_refund :: string
  op_ref :: string
  op_amount :: int
  op_currency :: string
  op_reason :: string
  op_extra :: metadata

text \<open>The adapter, the key and the request the channel gets.\<close>

type_synonym op_call = "string \<times> string \<times> op_request"

definition adapterForOp :: "op_request \<Rightarrow> service_error + string" where
  "adapterForOp req =
     (let a = meta (op_extra req) ''adapter'' in if a \<noteq> [] then Inr a else Inl (AdapterRequired (op_intent req)))"

definition op_response :: "op_request \<Rightarrow> call_error + ChannelReply \<Rightarrow> service_error + PaymentResponse" where
  "op_response req out =
     (case out of
        Inl e \<Rightarrow> if isUnknownResultErr (Some e) then Inr (unknownResult e) else Inl (ChannelError e)
      | Inr r \<Rightarrow> Inr ((response (cr_result r) (NormalizeFailure (cr_failure r)) (cr_message r))\<lparr>ExternalRefNo := cr_ref r\<rparr>))"

definition Capture :: "(string \<Rightarrow> string) \<Rightarrow> (op_call \<Rightarrow> call_error + ChannelReply) \<Rightarrow> op_request \<Rightarrow>
    service_error + PaymentResponse" where
  "Capture sha chan req =
     (case adapterForOp req of
        Inl e \<Rightarrow> Inl e
      | Inr a \<Rightarrow>
          (case chan (a, IdempotencyKey sha (op_intent req) ''capture'' (op_amount req) [], req) of
             Inl e \<Rightarrow> op_response req (Inl e)
           | Inr r \<Rightarrow> map_sum id (\<lambda>x. x\<lparr>AmountCaptured := op_amount req\<rparr>) (op_response req (Inr r))))"

definition Void :: "(string \<Rightarrow> string) \<Rightarrow> (op_call \<Rightarrow> call_error + ChannelReply) \<Rightarrow> op_request \<Rightarrow>
    service_error + PaymentResponse" where
  "Void sha chan req =
     (case adapterForOp req of
        Inl e \<Rightarrow> Inl e
      | Inr a \<Rightarrow> op_response req (chan (a, IdempotencyKey sha (op_intent req) ''void'' 0 [], req)))"

definition Refund :: "(string \<Rightarrow> string) \<Rightarrow> (op_call \<Rightarrow> call_error + ChannelReply) \<Rightarrow> op_request \<Rightarrow>
    service_error + PaymentResponse" where
  "Refund sha chan req =
     (if op_refund req = [] then Inl RefundIdRequired
      else case adapterForOp req of
             Inl e \<Rightarrow> Inl e
           | Inr a \<Rightarrow> op_response req (chan (a, RefundIdempotencyKey sha (op_intent req) (op_refund req)
                        (op_amount req) (op_currency req), req)))"

text \<open>A query passes errors on: it is how an unknown result is resolved.\<close>

definition Query :: "(op_call \<Rightarrow> call_error + ChannelReply) \<Rightarrow> op_request \<Rightarrow> service_error + PaymentResponse" where
  "Query chan req =
     (case adapterForOp req of
        Inl e \<Rightarrow> Inl e
      | Inr a \<Rightarrow>
          (case chan (a, [], req) of
             Inl e \<Rightarrow> Inl (ChannelError e)
           | Inr r \<Rightarrow> Inr ((response (cr_result r) [] [])\<lparr>ExternalRefNo := cr_ref r, RawResponse := cr_raw r\<rparr>)))"

section \<open>Retries\<close>

record retry_out =
  retry_done :: bool
  retry_msg :: string
  retry_service :: payment_service
  retry_calls :: "ChargeCall list"

definition Execute :: "charge_env \<Rightarrow> RetryTask \<Rightarrow> payment_service \<Rightarrow> retry_out" where
  "Execute env t s =
     (if Attempt t \<ge> int (length Backoffs)
      then \<lparr>retry_done = True, retry_msg = ''exhausted'', retry_service = s, retry_calls = []\<rparr>
      else case try_chain (t_check env) (FailedAdapter t)
                  (GetFallbackChain (svc_fallback s) (FailedAdapter t)
                     \<lparr>fi_country = task_country t, fi_method = task_method t, fi_bin = task_bin t,
                      fi_currency = task_currency t\<rparr>) s of
             (None, s1) \<Rightarrow>
               \<lparr>retry_done = True, retry_msg = ''no_fallback_available'', retry_service = s1, retry_calls = []\<rparr>
           | (Some a, s1) \<Rightarrow>
               if a = [] then
                 \<lparr>retry_done = True, retry_msg = ''no_fallback_available'', retry_service = s1, retry_calls = []\<rparr>
               else
               (let c = \<lparr>cc_adapter = a, cc_intent = task_intent t, cc_key = task_key t, cc_amount = task_amount t,
                         cc_currency = task_currency t, cc_description = [], cc_return = [], cc_notify = [],
                         cc_immediate = False, cc_metadata = task_metadata t\<rparr>
                in case channel_charge env c of
                     Inl e \<Rightarrow> \<lparr>retry_done = False, retry_msg = ''transport_error: '' @ err_text e,
                              retry_service = record_failure (t_done env) a s1, retry_calls = [c]\<rparr>
                   | Inr r \<Rightarrow>
                       if cr_failure r = ''channel_unavailable''
                       then \<lparr>retry_done = False, retry_msg = ''channel_unavailable'',
                             retry_service = record_failure (t_done env) a s1, retry_calls = [c]\<rparr>
                       else \<lparr>retry_done = True, retry_msg = [], retry_service = record_success a s1,
                             retry_calls = [c]\<rparr>))"

end
