(* ===== verification/RetryQueue.thy ===== *)
theory RetryQueue
  imports Charge
begin

text \<open>
  The retry queue of \<open>packages/payment-core/internal/routing\<close>: the interface of \<open>fallback.go\<close> as a locale,
  its two implementations (\<open>retry_queue.go\<close> in memory, \<open>db_retry_queue.go\<close> on a MySQL table) and the
  worker that drains it. \<open>Inl\<close> is an error the Go method returns; a connection error is an argument
  of the database operations.
\<close>

section \<open>The queue in memory\<close>

text \<open>A map from task ids to tasks; Go ranges over it in some order, here the order of the list.\<close>

type_synonym memory_queue = "(string \<times> RetryTask) list"

definition memEnqueue :: "RetryTask \<Rightarrow> memory_queue \<Rightarrow> string + memory_queue" where
  "memEnqueue t q = (if task_id t = [] then Inl ''invalid task'' else Inr (AList.update (task_id t) t q))"

definition memDequeue :: "int \<Rightarrow> nat \<Rightarrow> memory_queue \<Rightarrow> RetryTask list" where
  "memDequeue now limit q = take limit (filter (\<lambda>t. NextRetryAt t \<le> now) (map snd q))"

definition retried :: "int \<Rightarrow> int \<Rightarrow> string \<Rightarrow> RetryTask \<Rightarrow> RetryTask" where
  "retried attempt next msg t = t\<lparr>Attempt := attempt, NextRetryAt := next, LastErrorMsg := msg\<rparr>"

definition memMarkRetry :: "string \<Rightarrow> int \<Rightarrow> int \<Rightarrow> string \<Rightarrow> memory_queue \<Rightarrow> string + memory_queue" where
  "memMarkRetry i attempt next msg q =
     (case map_of q i of
        None \<Rightarrow> Inl ''task not found''
      | Some t \<Rightarrow> Inr (AList.update i (retried attempt next msg t) q))"

definition memMarkSuccess :: "string \<Rightarrow> memory_queue \<Rightarrow> string + memory_queue" where
  "memMarkSuccess i q =
     (case map_of q i of None \<Rightarrow> Inl ''task not found'' | Some _ \<Rightarrow> Inr (AList.delete i q))"

section \<open>The queue in the database\<close>

datatype row_state = RowPending | RowLeased | RowDone

record queue_row =
  row_task :: RetryTask
  row_state :: row_state
  lease_owner :: string
  lease_expires :: int
  row_updated :: int

type_synonym queue_table = "queue_row list"

abbreviation (input) LeaseDuration :: int where "LeaseDuration \<equiv> 300000000000"

definition row_id :: "queue_row \<Rightarrow> string" where
  "row_id r = task_id (row_task r)"

text \<open>\<open>INSERT .. ON DUPLICATE KEY UPDATE updated_at = NOW()\<close>: a row with the primary key or with the same
  intent and key keeps everything else. A zero time is written as \<open>0\<close>.\<close>

definition dbEnqueue :: "int \<Rightarrow> RetryTask \<Rightarrow> queue_table \<Rightarrow> string + queue_table" where
  "dbEnqueue now t rows =
     (if task_id t = [] \<or> task_key t = [] then Inl ''invalid task: id and idempotency_key required''
      else let t = (if NextRetryAt t = 0 then t\<lparr>NextRetryAt := now + 30000000000\<rparr> else t);
               same = (\<lambda>r. row_id r = task_id t \<or> (task_intent (row_task r) = task_intent t \<and>
                            task_key (row_task r) = task_key t))
           in if list_ex same rows then Inr (update_where same (\<lambda>r. r\<lparr>row_updated := now\<rparr>) rows)
              else Inr (rows @ [\<lparr>row_task = t, row_state = RowPending, lease_owner = [], lease_expires = 0,
                                 row_updated = now\<rparr>]))"

definition reclaim :: "int \<Rightarrow> queue_table \<Rightarrow> queue_table" where
  "reclaim now rows = update_where (\<lambda>r. row_state r = RowLeased \<and> lease_expires r < now)
     (\<lambda>r. r\<lparr>row_state := RowPending, lease_owner := [], lease_expires := 0\<rparr>) rows"

text \<open>\<open>UPDATE .. ORDER BY next_retry_at LIMIT ?\<close>: the first \<open>limit\<close> due rows by retry time.\<close>

definition due_ids :: "int \<Rightarrow> nat \<Rightarrow> queue_table \<Rightarrow> string list" where
  "due_ids now limit rows = take limit (map row_id
     (sort_key (\<lambda>r. NextRetryAt (row_task r))
       (filter (\<lambda>r. row_state r = RowPending \<and> NextRetryAt (row_task r) \<le> now) rows)))"

definition lease :: "string \<Rightarrow> int \<Rightarrow> nat \<Rightarrow> queue_table \<Rightarrow> queue_table" where
  "lease owner now limit rows = update_where (\<lambda>r. row_id r \<in> set (due_ids now limit rows))
     (\<lambda>r. r\<lparr>row_state := RowLeased, lease_owner := owner, lease_expires := now + LeaseDuration,
           row_updated := now\<rparr>) rows"

definition dbDequeue :: "string \<Rightarrow> int \<Rightarrow> int \<Rightarrow> queue_table \<Rightarrow> RetryTask list \<times> queue_table" where
  "dbDequeue owner now limit rows =
     (let k = nat (if limit \<le> 0 \<or> limit > 1000 then 100 else limit);
          rows1 = reclaim now rows; rows2 = lease owner now k rows1
      in if due_ids now k rows1 = [] then ([], rows2)
         else (take k (map row_task (sort_key (\<lambda>r. NextRetryAt (row_task r))
                  (filter (\<lambda>r. row_state r = RowLeased \<and> lease_owner r = owner) rows2))), rows2))"

definition truncate_msg :: "string \<Rightarrow> string" where
  "truncate_msg m = (if length m > 1024 then take 1021 m @ ''...'' else m)"

definition open_row :: "string \<Rightarrow> queue_row \<Rightarrow> bool" where
  "open_row i r \<longleftrightarrow> row_id r = i \<and> row_state r \<in> {RowLeased, RowPending}"

definition dbMarkRetry :: "int \<Rightarrow> string \<Rightarrow> int \<Rightarrow> int \<Rightarrow> string \<Rightarrow> queue_table \<Rightarrow> string + queue_table" where
  "dbMarkRetry now i attempt next msg rows =
     (if count_where (open_row i) rows = 0 then Inl ''task not found or state mismatch''
      else Inr (update_where (open_row i) (\<lambda>r. r\<lparr>row_task := retried attempt next (truncate_msg msg) (row_task r),
             row_state := RowPending, lease_owner := [], lease_expires := 0, row_updated := now\<rparr>) rows))"

definition dbMarkSuccess :: "int \<Rightarrow> string \<Rightarrow> queue_table \<Rightarrow> string + queue_table" where
  "dbMarkSuccess now i rows =
     (if count_where (open_row i) rows = 0 then Inl ''task not found or state mismatch''
      else Inr (update_where (open_row i) (\<lambda>r. r\<lparr>row_state := RowDone, lease_owner := [], lease_expires := 0,
             row_updated := now\<rparr>) rows))"

definition PurgeDoneOlderThan :: "int \<Rightarrow> int \<Rightarrow> queue_table \<Rightarrow> queue_table" where
  "PurgeDoneOlderThan now age rows = filter (\<lambda>r. \<not> (row_state r = RowDone \<and> row_updated r < now - age)) rows"

section \<open>The worker\<close>

text \<open>
  \<open>retryTask\<close> over any queue: the executor is given the task and answers whether it is done; the errors
  of the two marks are dropped, as in the code.
\<close>

definition retryTask :: "(string \<Rightarrow> int \<Rightarrow> int \<Rightarrow> string \<Rightarrow> 'q \<Rightarrow> string + 'q) \<Rightarrow> (string \<Rightarrow> 'q \<Rightarrow> string + 'q) \<Rightarrow>
    int \<Rightarrow> (bool \<times> string) option \<Rightarrow> RetryTask \<Rightarrow> 'q \<Rightarrow> 'q" where
  "retryTask MarkRetry MarkSuccess now res t q =
     (let again = (\<lambda>msg. case MarkRetry (task_id t) (Attempt t + 1) (NextRetryTime now (Attempt t + 1)) msg q of
                           Inl _ \<Rightarrow> q | Inr q' \<Rightarrow> q')
      in case res of
           None \<Rightarrow> again ''executor not configured''
         | Some (fin, msg) \<Rightarrow>
             if fin then (case MarkSuccess (task_id t) q of Inl _ \<Rightarrow> q | Inr q' \<Rightarrow> q') else again msg)"

text \<open>One poll: the executor sees the service state the task before it left.\<close>

fun work_off :: "(string \<Rightarrow> int \<Rightarrow> int \<Rightarrow> string \<Rightarrow> 'q \<Rightarrow> string + 'q) \<Rightarrow> (string \<Rightarrow> 'q \<Rightarrow> string + 'q) \<Rightarrow>
    (RetryTask \<Rightarrow> 's \<Rightarrow> (bool \<times> string) \<times> 's) \<Rightarrow> int \<Rightarrow> RetryTask list \<Rightarrow> 's \<Rightarrow> 'q \<Rightarrow> 's \<times> 'q" where
  "work_off MarkRetry MarkSuccess exec now [] s q = (s, q)"
| "work_off MarkRetry MarkSuccess exec now (t # ts) s q =
     (let (res, s') = exec t s
      in work_off MarkRetry MarkSuccess exec now ts s' (retryTask MarkRetry MarkSuccess now (Some res) t q))"

definition executor :: "charge_env \<Rightarrow> RetryTask \<Rightarrow> payment_service \<Rightarrow> (bool \<times> string) \<times> payment_service" where
  "executor env t s = (let r = Execute env t s in ((retry_done r, retry_msg r), retry_service r))"

text \<open>A sequence of polls, each with its time and executor; the tasks each poll returned come out.\<close>

fun drain :: "(int \<Rightarrow> 'q \<Rightarrow> RetryTask list \<times> 'q) \<Rightarrow> (string \<Rightarrow> int \<Rightarrow> int \<Rightarrow> string \<Rightarrow> 'q \<Rightarrow> string + 'q) \<Rightarrow>
    (string \<Rightarrow> 'q \<Rightarrow> string + 'q) \<Rightarrow> (int \<times> (RetryTask \<Rightarrow> 's \<Rightarrow> (bool \<times> string) \<times> 's)) list \<Rightarrow> 's \<Rightarrow> 'q \<Rightarrow>
    RetryTask list list \<times> 's \<times> 'q" where
  "drain poll MarkRetry MarkSuccess [] s q = ([], s, q)"
| "drain poll MarkRetry MarkSuccess ((now, exec) # rs) s q =
     (let (ts, q1) = poll now q; (s', q2) = work_off MarkRetry MarkSuccess exec now ts s q1;
          (tss, r) = drain poll MarkRetry MarkSuccess rs s' q2
      in (ts # tss, r))"

section \<open>The interface\<close>

text \<open>What the worker relies on: the open tasks by id, kept by a poll, advanced by one mark and removed by
  the other.\<close>

locale retry_queue =
  fixes live :: "'q \<Rightarrow> string \<Rightarrow> RetryTask option"
    and ok :: "'q \<Rightarrow> bool"
    and poll :: "int \<Rightarrow> 'q \<Rightarrow> RetryTask list \<times> 'q"
    and MarkRetry :: "string \<Rightarrow> int \<Rightarrow> int \<Rightarrow> string \<Rightarrow> 'q \<Rightarrow> string + 'q"
    and MarkSuccess :: "string \<Rightarrow> 'q \<Rightarrow> string + 'q"
  assumes poll_keeps: "ok q \<Longrightarrow> ok (snd (poll now q)) \<and> live (snd (poll now q)) = live q"
    and poll_tasks: "ok q \<Longrightarrow> t \<in> set (fst (poll now q)) \<Longrightarrow> live q (task_id t) = Some t"
    and poll_distinct: "ok q \<Longrightarrow> distinct (map task_id (fst (poll now q)))"
    and retry_live: "ok q \<Longrightarrow> live q i = Some t \<Longrightarrow>
      \<exists>q' m. MarkRetry i a n msg q = Inr q' \<and> ok q' \<and> live q' = (live q)(i \<mapsto> retried a n m t)"
    and success_live: "ok q \<Longrightarrow> live q i = Some t \<Longrightarrow>
      \<exists>q'. MarkSuccess i q = Inr q' \<and> ok q' \<and> live q' = (live q)(i := None)"
begin

text \<open>What a task becomes when it is worked off: gone, or tried once more.\<close>

definition advanced :: "RetryTask \<Rightarrow> bool \<Rightarrow> RetryTask option \<Rightarrow> bool" where
  "advanced t fin x \<longleftrightarrow> (if fin then x = None else \<exists>n m. x = Some (retried (Attempt t + 1) n m t))"

lemma retryTask_live:
  assumes "ok q" "live q (task_id t) = Some t"
  shows "ok (retryTask MarkRetry MarkSuccess now (Some (fin, msg)) t q) \<and>
    (\<exists>x. advanced t fin x \<and>
      live (retryTask MarkRetry MarkSuccess now (Some (fin, msg)) t q) = (live q)(task_id t := x))"
proof (cases fin)
  case True
  from success_live [OF assms] obtain q' where "MarkSuccess (task_id t) q = Inr q'" "ok q'"
    "live q' = (live q)(task_id t := None)" by blast
  with True show ?thesis by (simp add: retryTask_def advanced_def)
next
  case False
  from retry_live [OF assms, of "Attempt t + 1" "NextRetryTime now (Attempt t + 1)" msg] obtain q' m where
    "MarkRetry (task_id t) (Attempt t + 1) (NextRetryTime now (Attempt t + 1)) msg q = Inr q'" "ok q'"
    "live q' = (live q)(task_id t \<mapsto> retried (Attempt t + 1) (NextRetryTime now (Attempt t + 1)) m t)" by blast
  with False show ?thesis
    by (auto simp: retryTask_def advanced_def Let_def)
qed

lemma work_off_live:
  assumes "ok q" "\<forall>t\<in>set ts. live q (task_id t) = Some t" "distinct (map task_id ts)"
    and "\<forall>t s. Attempt t \<ge> k \<longrightarrow> fst (fst (exec t s))"
    and "work_off MarkRetry MarkSuccess exec now ts s q = (s', q')"
  shows "ok q' \<and> (\<forall>i. i \<notin> task_id ` set ts \<longrightarrow> live q' i = live q i) \<and>
    (\<forall>t\<in>set ts. \<exists>fin. advanced t fin (live q' (task_id t)) \<and> (Attempt t \<ge> k \<longrightarrow> fin))"
  using assms
proof (induction ts arbitrary: s q)
  case Nil
  then show ?case by simp
next
  case (Cons t ts)
  obtain fin msg s1 where e: "exec t s = ((fin, msg), s1)" by (metis prod.exhaust)
  let ?q = "retryTask MarkRetry MarkSuccess now (Some (fin, msg)) t q"
  from retryTask_live [OF Cons.prems(1), of t now fin msg] Cons.prems(2) obtain x where
    ok: "ok ?q" and adv: "advanced t fin x" and lv: "live ?q = (live q)(task_id t := x)" by auto
  have "\<forall>u\<in>set ts. task_id u \<noteq> task_id t" using Cons.prems(3) by (auto simp: image_iff)
  then have "\<forall>u\<in>set ts. live ?q (task_id u) = Some u" using Cons.prems(2) lv by simp
  with Cons.IH [OF ok this _ Cons.prems(4), of s1] Cons.prems(3,5) e
  have r: "ok q'" "\<forall>i. i \<notin> task_id ` set ts \<longrightarrow> live q' i = live ?q i"
    "\<forall>u\<in>set ts. \<exists>fin. advanced u fin (live q' (task_id u)) \<and> (Attempt u \<ge> k \<longrightarrow> fin)" by simp_all
  have "task_id t \<notin> task_id ` set ts" using Cons.prems(3) by simp
  with r(2) lv have "live q' (task_id t) = x" by simp
  moreover have "Attempt t \<ge> k \<longrightarrow> fin" using Cons.prems(4) e by (metis fst_conv)
  ultimately show ?case using r lv adv by auto
qed

text \<open>
  Every task leaves the queue: with executors that finish a task from attempt \<open>k\<close> on, a task still
  there has been polled at most \<open>k\<close> times, and its attempt counts the polls.
\<close>

lemma drain_ends:
  assumes "ok q" "\<forall>(now, exec)\<in>set rs. \<forall>t s. Attempt t \<ge> k \<longrightarrow> fst (fst (exec t s))"
    and "drain poll MarkRetry MarkSuccess rs s q = (tss, s', q')"
    and "n = int (length (filter (\<lambda>ts. i \<in> task_id ` set ts) tss))"
  shows "ok q' \<and> (case live q i of None \<Rightarrow> live q' i = None \<and> n = 0
    | Some t \<Rightarrow> live q' i = None \<and> n \<le> max 0 (k - Attempt t) + 1 \<or>
        (\<exists>t'. live q' i = Some t' \<and> Attempt t' = Attempt t + n \<and> (n > 0 \<longrightarrow> Attempt t' \<le> k)))"
  using assms
proof (induction rs arbitrary: s q tss n)
  case Nil
  then show ?case by (auto split: option.splits)
next
  case (Cons r rs)
  obtain now exec where r: "r = (now, exec)" by (cases r)
  obtain ts q1 where p: "poll now q = (ts, q1)" by (cases "poll now q")
  obtain s1 q2 where w: "work_off MarkRetry MarkSuccess exec now ts s q1 = (s1, q2)"
    by (cases "work_off MarkRetry MarkSuccess exec now ts s q1")
  from Cons.prems(3) r p w obtain tss' where d: "drain poll MarkRetry MarkSuccess rs s1 q2 = (tss', s', q')"
    and tss: "tss = ts # tss'" by (auto split: prod.splits)
  from poll_keeps [OF Cons.prems(1), of now] p have ok1: "ok q1" and l1: "live q1 = live q" by simp_all
  from poll_tasks [OF Cons.prems(1), of _ now] poll_distinct [OF Cons.prems(1), of now] p l1
  have t: "\<forall>t\<in>set ts. live q1 (task_id t) = Some t" "distinct (map task_id ts)" by simp_all
  have ex: "\<forall>t s. Attempt t \<ge> k \<longrightarrow> fst (fst (exec t s))" using Cons.prems(2) r by simp
  note wo = work_off_live [OF ok1 t ex w]
  let ?m = "int (length (filter (\<lambda>ts. i \<in> task_id ` set ts) tss'))"
  from wo have ok2: "ok q2" by blast
  have rest: "\<forall>(now, exec)\<in>set rs. \<forall>t s. Attempt t \<ge> k \<longrightarrow> fst (fst (exec t s))" using Cons.prems(2) by simp
  note ih = Cons.IH [OF ok2 rest d refl]
  show ?case
  proof (cases "i \<in> task_id ` set ts")
    case False
    with wo l1 have l2: "live q2 i = live q i" by simp
    have n: "n = ?m" using False tss Cons.prems(4) by simp
    from ih show ?thesis unfolding l2 n by simp
  next
    case True
    then obtain u where u: "u \<in> set ts" "task_id u = i" by auto
    with t l1 have lu: "live q i = Some u" by auto
    from wo u obtain fin where adv: "advanced u fin (live q2 i)" and fin: "Attempt u \<ge> k \<longrightarrow> fin" by blast
    have n: "n = ?m + 1" using True tss Cons.prems(4) by simp
    show ?thesis
    proof (cases fin)
      case True
      with adv have "live q2 i = None" by (simp add: advanced_def)
      with ih n lu show ?thesis by simp
    next
      case False
      with adv obtain nx m where l2: "live q2 i = Some (retried (Attempt u + 1) nx m u)" by (auto simp: advanced_def)
      with False fin have "Attempt u < k" by auto
      with ih l2 n lu show ?thesis by (auto simp: retried_def)
    qed
  qed
qed

end

section \<open>Both queues keep the interface\<close>

definition memory_ok :: "memory_queue \<Rightarrow> bool" where
  "memory_ok q \<longleftrightarrow> distinct (map fst q) \<and> (\<forall>(i, t)\<in>set q. task_id t = i)"

definition memPoll :: "int \<Rightarrow> memory_queue \<Rightarrow> RetryTask list \<times> memory_queue" where
  "memPoll now q = (memDequeue now 100 q, q)"

lemma memory_ok_ids: "memory_ok q \<Longrightarrow> map task_id (map snd q) = map fst q"
  by (auto simp: memory_ok_def)

lemma memDequeue_sub: "t \<in> set (memDequeue now k q) \<Longrightarrow> t \<in> snd ` set q"
  by (auto simp: memDequeue_def dest!: in_set_takeD)

lemma memDequeue_distinct:
  assumes "memory_ok q" shows "distinct (map task_id (memDequeue now k q))"
proof -
  have "distinct (map task_id (map snd q))" using assms by (simp only: memory_ok_ids) (simp add: memory_ok_def)
  then have "distinct (map task_id (filter (\<lambda>t. NextRetryAt t \<le> now) (map snd q)))" by (rule distinct_map_filter)
  then show ?thesis by (simp add: memDequeue_def take_map [symmetric] del: distinct_map)
qed

lemma memory_ok_update:
  assumes "memory_ok q" "task_id t = i" shows "memory_ok (AList.update i t q)"
proof -
  have "set (AList.update i t q) \<subseteq> insert (i, t) (set q)" by (induction q) auto
  with assms show ?thesis by (auto simp: memory_ok_def distinct_update)
qed

lemma memory_ok_delete:
  assumes "memory_ok q" shows "memory_ok (AList.delete i q)"
proof -
  have "set (AList.delete i q) \<subseteq> set q" by (simp add: AList.delete_eq)
  moreover have "distinct (map fst (AList.delete i q))" using assms by (simp add: memory_ok_def distinct_delete)
  ultimately show ?thesis using assms by (auto simp: memory_ok_def)
qed

interpretation mem: retry_queue map_of memory_ok memPoll memMarkRetry memMarkSuccess
proof
  fix q :: memory_queue and now t i a n msg
  assume ok: "memory_ok q"
  show "memory_ok (snd (memPoll now q)) \<and> map_of (snd (memPoll now q)) = map_of q" using ok by (simp add: memPoll_def)
  show "distinct (map task_id (fst (memPoll now q)))" using memDequeue_distinct [OF ok] by (simp add: memPoll_def)
  show "map_of q (task_id t) = Some t" if "t \<in> set (fst (memPoll now q))"
  proof -
    from that memDequeue_sub obtain i where i: "(i, t) \<in> set q" by (force simp: memPoll_def)
    with ok have "task_id t = i" "distinct (map fst q)" by (auto simp: memory_ok_def)
    with i show ?thesis by simp
  qed
  assume l: "map_of q i = Some t"
  with ok have "task_id t = i" by (auto simp: memory_ok_def dest: map_of_SomeD)
  with ok have "memory_ok (AList.update i (retried a n msg t) q)" by (intro memory_ok_update) (simp_all add: retried_def)
  then show "\<exists>q' m. memMarkRetry i a n msg q = Inr q' \<and> memory_ok q' \<and> map_of q' = (map_of q)(i \<mapsto> retried a n m t)"
    using l by (auto simp: memMarkRetry_def update_conv')
  show "\<exists>q'. memMarkSuccess i q = Inr q' \<and> memory_ok q' \<and> map_of q' = (map_of q)(i := None)"
    using l memory_ok_delete [OF ok] by (auto simp: memMarkSuccess_def delete_conv')
qed

definition table_ok :: "queue_table \<Rightarrow> bool" where
  "table_ok rows \<longleftrightarrow> distinct (map row_id rows)"

definition table_live :: "queue_table \<Rightarrow> string \<Rightarrow> RetryTask option" where
  "table_live rows i = map_option row_task (select_one (open_row i) rows)"

lemma row_id_simps [simp]:
  "row_id (r\<lparr>row_state := s\<rparr>) = row_id r" "row_id (r\<lparr>lease_owner := w\<rparr>) = row_id r"
  "row_id (r\<lparr>lease_expires := e\<rparr>) = row_id r" "row_id (r\<lparr>row_updated := u\<rparr>) = row_id r"
  by (simp_all add: row_id_def)

lemma table_live_iff:
  assumes "table_ok rows"
  shows "table_live rows i = Some t \<longleftrightarrow> (\<exists>r\<in>set rows. open_row i r \<and> row_task r = t)"
proof -
  have uniq: "r = r'" if "r \<in> set rows" "r' \<in> set rows" "row_id r = row_id r'" for r r'
    using assms that by (auto simp: table_ok_def distinct_map inj_on_def)
  show ?thesis
  proof (cases "select_one (open_row i) rows")
    case None
    then have "\<forall>r\<in>set rows. \<not> open_row i r" by (simp add: select_one_None)
    with None show ?thesis by (auto simp: table_live_def)
  next
    case (Some r)
    then have r: "r \<in> set rows" "open_row i r" by (auto dest: select_one_Some)
    have same: "r' = r" if "r' \<in> set rows" "open_row i r'" for r'
      using uniq [OF that(1) r(1)] that(2) r(2) by (simp add: open_row_def)
    have live: "table_live rows i = Some (row_task r)" by (simp add: table_live_def Some)
    show ?thesis
    proof
      assume "table_live rows i = Some t"
      with live r show "\<exists>r\<in>set rows. open_row i r \<and> row_task r = t" by auto
    next
      assume "\<exists>r\<in>set rows. open_row i r \<and> row_task r = t"
      then obtain r' where "r' \<in> set rows" "open_row i r'" "row_task r' = t" by blast
      with same live show "table_live rows i = Some t" by blast
    qed
  qed
qed

lemma bex_image: "(\<exists>x\<in>g ` A. Q x) \<longleftrightarrow> (\<exists>x\<in>A. Q (g x))"
  by blast

text \<open>Updates that keep ids, tasks and openness keep the view.\<close>

lemma update_where_ids:
  "(\<And>r. row_id (f r) = row_id r) \<Longrightarrow> table_ok (update_where P f rows) = table_ok rows"
  by (simp add: table_ok_def map_update_where)

lemma option_eqI: "(\<And>t. x = Some t \<longleftrightarrow> y = Some t) \<Longrightarrow> x = y"
  by (cases x; cases y) auto

lemma table_keep:
  assumes ok: "table_ok rows" and t: "\<And>r. row_task (f r) = row_task r"
    and st: "\<And>r. r \<in> set rows \<Longrightarrow> P r \<Longrightarrow> row_state r \<in> {RowLeased, RowPending} \<and> row_state (f r) \<in> {RowLeased, RowPending}"
  shows "table_ok (update_where P f rows) \<and> table_live (update_where P f rows) = table_live rows"
proof -
  have ok': "table_ok (update_where P f rows)" using ok t by (simp add: update_where_ids row_id_def)
  have same: "open_row i (if P r then f r else r) = open_row i r \<and> row_task (if P r then f r else r) = row_task r"
    if "r \<in> set rows" for r i
    using st [OF that] t by (auto simp: open_row_def row_id_def)
  have "(\<exists>r\<in>set (update_where P f rows). open_row i r \<and> row_task r = t) \<longleftrightarrow>
        (\<exists>r\<in>set rows. open_row i r \<and> row_task r = t)" for i t
    unfolding set_update_where bex_image using same by (intro bex_cong refl) simp
  then have "table_live (update_where P f rows) i = table_live rows i" for i
    by (intro option_eqI) (simp only: table_live_iff [OF ok'] table_live_iff [OF ok])
  with ok' show ?thesis by auto
qed

lemma table_unique: "table_ok rows \<Longrightarrow> r \<in> set rows \<Longrightarrow> r' \<in> set rows \<Longrightarrow> row_id r = row_id r' \<Longrightarrow> r = r'"
  by (auto simp: table_ok_def distinct_map inj_on_def)

lemma due_pending:
  assumes "table_ok rows" "r \<in> set rows" "row_id r \<in> set (due_ids now k rows)"
  shows "row_state r = RowPending"
proof -
  from assms(3) obtain r' where "r' \<in> set rows" "row_state r' = RowPending" "row_id r' = row_id r"
    by (auto simp: due_ids_def dest!: in_set_takeD)
  with table_unique [OF assms(1)] assms(2) show ?thesis by metis
qed

lemma reclaim_keep: "table_ok rows \<Longrightarrow> table_ok (reclaim now rows) \<and> table_live (reclaim now rows) = table_live rows"
  unfolding reclaim_def by (rule table_keep) auto

lemma lease_keep:
  "table_ok rows \<Longrightarrow> table_ok (lease w now k rows) \<and> table_live (lease w now k rows) = table_live rows"
  unfolding lease_def by (rule table_keep) (auto dest: due_pending)

text \<open>A mark on an open row changes the view at its id only.\<close>

lemma table_mark:
  assumes ok: "table_ok rows" and l: "table_live rows i = Some t" and f: "\<And>r. row_id (f r) = row_id r"
  shows "count_where (open_row i) rows \<noteq> 0" "table_ok (update_where (open_row i) f rows)"
    "j \<noteq> i \<Longrightarrow> table_live (update_where (open_row i) f rows) j = table_live rows j"
    "(\<And>r. row_task r = t \<Longrightarrow> row_task (f r) = t' \<and> row_state (f r) \<in> {RowLeased, RowPending}) \<Longrightarrow>
       table_live (update_where (open_row i) f rows) i = Some t'"
    "(\<And>r. row_state (f r) = RowDone) \<Longrightarrow> table_live (update_where (open_row i) f rows) i = None"
proof -
  let ?u = "update_where (open_row i) f rows"
  from l obtain r where r: "r \<in> set rows" "open_row i r" "row_task r = t" by (auto simp: table_live_iff [OF ok])
  then show "count_where (open_row i) rows \<noteq> 0" by (auto simp: count_where_def filter_empty_conv)
  show ok': "table_ok ?u" using ok f by (simp add: update_where_ids)
  have j: "open_row j (if open_row i x then f x else x) = open_row j x \<and> (open_row j x \<longrightarrow> (if open_row i x then f x else x) = x)"
    if "j \<noteq> i" for j x using that f by (auto simp: open_row_def)
  show "table_live ?u j = table_live rows j" if "j \<noteq> i"
  proof (rule option_eqI)
    fix t
    show "table_live ?u j = Some t \<longleftrightarrow> table_live rows j = Some t"
      unfolding table_live_iff [OF ok'] table_live_iff [OF ok] set_update_where bex_image
      using j [OF that] by (intro bex_cong refl) metis
  qed
  show "table_live ?u i = Some t'"
    if "\<And>r. row_task r = t \<Longrightarrow> row_task (f r) = t' \<and> row_state (f r) \<in> {RowLeased, RowPending}"
  proof -
    have "open_row i (f r)" "row_task (f r) = t'" using that [OF r(3)] r(2) f by (auto simp: open_row_def)
    then show ?thesis unfolding table_live_iff [OF ok'] set_update_where bex_image using r by auto
  qed
  show "table_live ?u i = None" if "\<And>r. row_state (f r) = RowDone"
  proof (rule ccontr)
    assume "table_live ?u i \<noteq> None"
    then obtain t' where "table_live ?u i = Some t'" by auto
    then obtain x where "open_row i (if open_row i x then f x else x)"
      unfolding table_live_iff [OF ok'] set_update_where bex_image by blast
    with that [of x] show False by (auto simp: open_row_def split: if_splits)
  qed
qed

lemma distinct_map_sort_key: "distinct (map g xs) \<Longrightarrow> distinct (map g (sort_key f xs))"
  by (metis mset_map mset_sort mset_eq_imp_distinct_iff)

lemma dbDequeue_tasks:
  assumes "table_ok rows" "dbDequeue w now n rows = (ts, rows')"
  shows "distinct (map task_id ts)" "t \<in> set ts \<Longrightarrow> table_live rows' (task_id t) = Some t"
proof -
  define k where "k = nat (if n \<le> 0 \<or> n > 1000 then 100 else n)"
  let ?r = "lease w now k (reclaim now rows)"
  have ok: "table_ok ?r" using reclaim_keep [OF assms(1)] lease_keep by blast
  let ?ls = "sort_key (\<lambda>r. NextRetryAt (row_task r)) (filter (\<lambda>r. row_state r = RowLeased \<and> lease_owner r = w) ?r)"
  from assms(2) have r: "rows' = ?r" and ts: "ts = [] \<or> ts = take k (map row_task ?ls)"
    by (auto simp: dbDequeue_def Let_def k_def split: if_splits)
  have "distinct (map row_id ?ls)"
    using ok by (intro distinct_map_sort_key distinct_map_filter) (simp add: table_ok_def)
  moreover have "map row_id ?ls = map task_id (map row_task ?ls)" by (simp add: row_id_def)
  ultimately have d: "distinct (map task_id (map row_task ?ls))" by simp
  show "distinct (map task_id ts)"
    using ts distinct_take [OF d, of k] by (auto simp: take_map simp del: map_map distinct_map)
  assume "t \<in> set ts"
  with ts have "t \<in> set (map row_task ?ls)" by (auto dest: in_set_takeD)
  then obtain x where x: "x \<in> set ?r" "row_state x = RowLeased" "row_task x = t" by auto
  then have "open_row (task_id t) x" by (simp add: open_row_def row_id_def)
  with x ok r show "table_live rows' (task_id t) = Some t" by (auto simp: table_live_iff)
qed

lemma dbDequeue_keeps:
  assumes "table_ok rows" "dbDequeue w now n rows = (ts, rows')"
  shows "table_ok rows' \<and> table_live rows' = table_live rows"
proof -
  have "rows' = lease w now (nat (if n \<le> 0 \<or> n > 1000 then 100 else n)) (reclaim now rows)"
    using assms(2) by (auto simp: dbDequeue_def Let_def split: if_splits)
  with reclaim_keep [OF assms(1), of now] lease_keep [of "reclaim now rows"] show ?thesis by simp
qed

interpretation db: retry_queue table_live table_ok "\<lambda>now. dbDequeue w now 100" "dbMarkRetry stamp" "dbMarkSuccess stamp"
  for w stamp
proof
  fix q :: queue_table and now t i a n msg
  assume ok: "table_ok q"
  obtain ts q' where dq: "dbDequeue w now 100 q = (ts, q')" by (cases "dbDequeue w now 100 q")
  show "table_ok (snd (dbDequeue w now 100 q)) \<and> table_live (snd (dbDequeue w now 100 q)) = table_live q"
    using dbDequeue_keeps [OF ok dq] dq by simp
  show "distinct (map task_id (fst (dbDequeue w now 100 q)))" using dbDequeue_tasks(1) [OF ok dq] dq by simp
  show "table_live q (task_id t) = Some t" if "t \<in> set (fst (dbDequeue w now 100 q))"
    using that dbDequeue_tasks(2) [OF ok dq] dbDequeue_keeps [OF ok dq] dq by simp
  assume l: "table_live q i = Some t"
  let ?f = "\<lambda>r. r\<lparr>row_task := retried a n (truncate_msg msg) (row_task r), row_state := RowPending, lease_owner := [],
      lease_expires := 0, row_updated := stamp\<rparr>"
  have "row_id (?f r) = row_id r" for r by (simp add: row_id_def retried_def)
  note m = table_mark [OF ok l, of ?f, OF this]
  have "table_live (update_where (open_row i) ?f q) = (table_live q)(i \<mapsto> retried a n (truncate_msg msg) t)"
    using m(3) m(4) [of "retried a n (truncate_msg msg) t"] by (auto simp: fun_eq_iff)
  then show "\<exists>q' m. dbMarkRetry stamp i a n msg q = Inr q' \<and> table_ok q' \<and> table_live q' = (table_live q)(i \<mapsto> retried a n m t)"
    using m(1,2) by (auto simp: dbMarkRetry_def)
  let ?g = "\<lambda>r. r\<lparr>row_state := RowDone, lease_owner := [], lease_expires := 0, row_updated := stamp\<rparr>"
  have "row_id (?g r) = row_id r" for r by (simp add: row_id_def)
  note m = table_mark [OF ok l, of ?g, OF this]
  have "table_live (update_where (open_row i) ?g q) = (table_live q)(i := None)"
    using m(3,5) by (auto simp: fun_eq_iff)
  then show "\<exists>q'. dbMarkSuccess stamp i q = Inr q' \<and> table_ok q' \<and> table_live q' = (table_live q)(i := None)"
    using m(1,2) by (auto simp: dbMarkSuccess_def)
qed

end
