(* ===== verification/ChargeLaws.thy ===== *)
theory ChargeLaws
  imports RetryQueue
begin

text \<open>
  What the orchestrator guarantees: which charges reach a channel, how unknown results are reported,
  what the idempotency keys tell apart, and that retries come to an end. The last section holds what
  goes wrong between the fallback, the breakers and the retry queue.
\<close>

section \<open>Breakers of other adapters\<close>

lemma breaker_of_set [simp]:
  "breaker_of (set_breaker a b s) a' = (if a' = a then b else breaker_of s a')"
  by (auto simp: breaker_of_def set_breaker_def put_breaker_def Get_def Let_def update_conv' split: option.splits)

lemma set_breaker_other [simp]:
  "channelOps (set_breaker a b s) = channelOps s" "svc_rules (set_breaker a b s) = svc_rules s"
  "svc_fallback (set_breaker a b s) = svc_fallback s" "maintenance (set_breaker a b s) = maintenance s"
  "riskFailClose (set_breaker a b s) = riskFailClose s" "riskReviewStepUp (set_breaker a b s) = riskReviewStepUp s"
  "riskReviewStepUpMethods (set_breaker a b s) = riskReviewStepUpMethods s"
  by (simp_all add: set_breaker_def)

text \<open>An adapter whose breaker is open and cooling down at the time.\<close>

definition cooling :: "int \<Rightarrow> payment_service \<Rightarrow> string \<Rightarrow> bool" where
  "cooling now s a \<longleftrightarrow> breaker_state (breaker_of s a) = Open \<and>
     now < openSince (breaker_of s a) + OpenDuration (cfg (breaker_of s a))"

lemma cooling_refuses: "cooling now s a \<Longrightarrow> Allow now (breaker_of s a) = (False, breaker_of s a)"
  by (simp add: cooling_def Allow_def)

lemma allow_adapter_keeps:
  assumes "allow_adapter now a s = (ok, s')"
  shows "channelOps s' = channelOps s" "svc_rules s' = svc_rules s" "svc_fallback s' = svc_fallback s"
    "riskFailClose s' = riskFailClose s" "riskReviewStepUp s' = riskReviewStepUp s"
    "riskReviewStepUpMethods s' = riskReviewStepUpMethods s"
    "cooling now s a' \<Longrightarrow> cooling now s' a'" "cooling now s a \<Longrightarrow> \<not> ok"
proof -
  from assms have s': "s' = set_breaker a (snd (Allow now (breaker_of s a))) s" and ok: "ok = fst (Allow now (breaker_of s a))"
    by (simp_all add: allow_adapter_def case_prod_unfold Let_def)
  show "channelOps s' = channelOps s" "svc_rules s' = svc_rules s" "svc_fallback s' = svc_fallback s"
    "riskFailClose s' = riskFailClose s" "riskReviewStepUp s' = riskReviewStepUp s"
    "riskReviewStepUpMethods s' = riskReviewStepUpMethods s" by (simp_all add: s')
  show "cooling now s a \<Longrightarrow> \<not> ok" by (simp add: ok cooling_refuses)
  show "cooling now s' a'" if "cooling now s a'"
  proof (cases "a' = a")
    case True
    with that show ?thesis by (simp add: cooling_def s' cooling_refuses)
  next
    case False
    with that show ?thesis by (simp add: cooling_def s')
  qed
qed

lemma try_chain_keeps:
  assumes "try_chain now f as s = (r, s')"
  shows "channelOps s' = channelOps s \<and> (cooling now s x \<longrightarrow> cooling now s' x) \<and>
    (case r of None \<Rightarrow> True | Some a \<Rightarrow> a \<in> set as \<and> a \<noteq> f \<and> IsEnabled (channelOps s) a \<and> \<not> cooling now s a)"
  using assms
proof (induction now f as s rule: try_chain.induct)
  case (1 now f s)
  then show ?case by simp
next
  case (2 now f a as s)
  show ?case
  proof (cases "a = f")
    case True
    with 2 show ?thesis by (auto split: option.splits)
  next
    case False
    obtain ok s1 where al: "allow_adapter now a s = (ok, s1)" by (cases "allow_adapter now a s")
    note k = allow_adapter_keeps [OF al]
    show ?thesis
    proof (cases "ok \<and> IsEnabled (channelOps s1) a")
      case True
      with False al 2(4) k show ?thesis by auto
    next
      case no: False
      with False al 2(4) have "try_chain now f as s1 = (r, s')" by (auto split: if_splits)
      moreover from no have "channelOps s' = channelOps s1 \<and> (cooling now s1 x \<longrightarrow> cooling now s' x) \<and>
          (case r of None \<Rightarrow> True | Some a \<Rightarrow> a \<in> set as \<and> a \<noteq> f \<and> IsEnabled (channelOps s1) a \<and> \<not> cooling now s1 a)"
        using 2(2) [OF False al [symmetric] refl] 2(3) [OF False al [symmetric] refl] calculation by auto
      ultimately show ?thesis using k by (auto split: option.splits)
    qed
  qed
qed

definition same_but :: "string \<Rightarrow> payment_service \<Rightarrow> payment_service \<Rightarrow> bool" where
  "same_but a s s' \<longleftrightarrow> channelOps s' = channelOps s \<and> svc_rules s' = svc_rules s \<and> svc_fallback s' = svc_fallback s \<and>
     riskFailClose s' = riskFailClose s \<and> (\<forall>x. x \<noteq> a \<longrightarrow> breaker_of s' x = breaker_of s x)"

lemma same_but_refl [simp]: "same_but a s s"
  by (simp add: same_but_def)

lemma same_but_set [simp]: "same_but a s (set_breaker a b s') = same_but a s s'"
  by (simp add: same_but_def)

lemma riskStage_same:
  assumes "riskStage env req s = (r, reps, s')"
  shows "same_but ''risk-manage'' s s'"
  using assms
  by (auto simp: riskStage_def allow_adapter_def record_success_def record_failure_def case_prod_unfold Let_def
      split: option.splits risk_answer.splits if_splits)

lemma same_but_cooling: "same_but a s s' \<Longrightarrow> x \<noteq> a \<Longrightarrow> cooling now s' x = cooling now s x"
  by (simp add: same_but_def cooling_def)

section \<open>Which charges reach a channel\<close>

lemma callChannel_calls [simp]: "calls (callChannel env req p cb a s reps) = [chargeCall env req a]"
  by (simp add: callChannel_def Let_def split: sum.split)

lemma chargeCall_simps [simp]:
  "cc_adapter (chargeCall env req a) = a" "cc_amount (chargeCall env req a) = pr_amount req"
  "cc_currency (chargeCall env req a) = pr_currency req" "cc_intent (chargeCall env req a) = pr_intent req"
  "cc_key (chargeCall env req a) = IdempotencyKey (digest env) (pr_intent req) ''charge'' (pr_amount req) (pr_currency req)"
  by (simp_all add: chargeCall_def Let_def)

lemma callerIsProbeAuthorized [simp]: "\<not> callerIsProbeAuthorized"
  by (simp add: callerIsProbeAuthorized_def)

text \<open>A route stage either calls nothing, or calls one adapter that is enabled and whose breaker was not
  cooling down.\<close>

lemma routeStage_calls:
  "calls (routeStage env req s reps) = [] \<or>
   (\<exists>a. calls (routeStage env req s reps) = [chargeCall env req a] \<and> IsEnabled (channelOps s) a \<and>
        \<not> cooling (t_check env) s a)"
proof -
  define i where "i = \<lparr>mi_merchant = [], mi_country = pr_country req, mi_method = pr_method req, mi_amount = pr_amount req\<rparr>"
  show ?thesis
  proof (cases "Route (svc_rules s) i")
    case None
    then show ?thesis by (simp add: routeStage_def i_def)
  next
    case (Some a)
    obtain ok s1 where al: "allow_adapter (t_check env) a s = (ok, s1)" by (cases "allow_adapter (t_check env) a s")
    note k = allow_adapter_keeps [OF al]
    obtain r s2 where fb: "tryFallbackAdapter (t_check env) a req s1 = (r, s2)"
      by (cases "tryFallbackAdapter (t_check env) a req s1")
    note f = try_chain_keeps [OF fb [unfolded tryFallbackAdapter_def]]
    show ?thesis
    proof (cases "IsEnabled (channelOps s) a \<and> limiter env a")
      case False
      with Some show ?thesis by (auto simp: routeStage_def i_def refuse_def)
    next
      case en: True
      show ?thesis
      proof (cases ok)
        case True
        with en Some al k(8) show ?thesis by (auto simp: routeStage_def i_def)
      next
        case False
        show ?thesis
        proof (cases r)
          case None
          with False en Some al fb show ?thesis by (simp add: routeStage_def i_def)
        next
          case (Some b)
          with f k(1,7) have "IsEnabled (channelOps s) b" "\<not> cooling (t_check env) s b" by auto
          with Some False en \<open>Route (svc_rules s) i = Some a\<close> al fb show ?thesis
            by (intro disjI2 exI [of _ b]) (simp add: routeStage_def i_def)
        qed
      qed
    qed
  qed
qed

text \<open>
  C25. A charge calls at most one channel once, with the request's amount, currency and idempotency
  key; the adapter it calls is enabled and, the risk engine's own breaker aside, its breaker is not in
  its cool-down. In maintenance, or when the risk engine denies the payment, it calls nothing.
\<close>

theorem charge_respects_its_guards:
  assumes "out = Charge env req s"
  shows "length (calls out) \<le> 1 \<and>
    (\<forall>c\<in>set (calls out). cc_amount c = pr_amount req \<and> cc_currency c = pr_currency req \<and>
       cc_key c = IdempotencyKey (digest env) (pr_intent req) ''charge'' (pr_amount req) (pr_currency req) \<and>
       IsEnabled (channelOps s) (cc_adapter c) \<and>
       (cooling (t_check env) s (cc_adapter c) \<longrightarrow> cc_adapter c = ''risk-manage'')) \<and>
    (maintenance s \<longrightarrow> calls out = []) \<and>
    (\<forall>score level reason i. risk env = Some (RiskSays Deny score level reason i) \<and>
       fst (Allow (t_check env) (breaker_of s ''risk-manage'')) \<longrightarrow> calls out = [])"
proof (cases "maintenance s")
  case True
  then show ?thesis by (simp add: assms Charge_def refuse_def)
next
  case False
  obtain r reps s1 where rs: "riskStage env req s = (r, reps, s1)" by (metis prod.exhaust)
  note same = riskStage_same [OF rs]
  have deny: "r \<noteq> None" if "risk env = Some (RiskSays Deny score level reason i)"
    "fst (Allow (t_check env) (breaker_of s ''risk-manage''))" for score level reason i
    using rs that by (auto simp: riskStage_def allow_adapter_def case_prod_unfold Let_def)
  show ?thesis
  proof (cases r)
    case (Some x)
    with False rs show ?thesis by (simp add: assms Charge_def refuse_def)
  next
    case None
    with False rs have out: "out = routeStage env req s1 reps" by (simp add: assms Charge_def)
    have ch: "channelOps s1 = channelOps s" using same by (simp add: same_but_def)
    have denied: "\<not> (risk env = Some (RiskSays Deny score level reason i) \<and>
        fst (Allow (t_check env) (breaker_of s ''risk-manage'')))" for score level reason i
      using deny None by blast
    from routeStage_calls [of env req s1 reps] show ?thesis
    proof (elim disjE exE conjE)
      assume "calls (routeStage env req s1 reps) = []"
      with denied show ?thesis by (simp add: out)
    next
      fix a
      assume "calls (routeStage env req s1 reps) = [chargeCall env req a]" "IsEnabled (channelOps s1) a"
        "\<not> cooling (t_check env) s1 a"
      moreover from this(3) have "cooling (t_check env) s a \<longrightarrow> a = ''risk-manage''"
        using same_but_cooling [OF same, of a] by blast
      ultimately show ?thesis using denied \<open>\<not> maintenance s\<close> by (simp add: out ch)
    qed
  qed
qed

section \<open>Unknown results\<close>

lemma op_response_unknown: "isUnknownResultErr (Some e) \<Longrightarrow> op_response req (Inl e) = Inr (unknownResult e)"
  by (simp add: op_response_def)

text \<open>
  C26. A channel call that ends in a timeout, a cancellation or an unreachable peer is never reported as
  an error or a failure: charge, capture, void and refund then answer \<open>processing\<close> with the failure
  code \<open>result_unknown\<close>, so that the caller queries instead of paying twice. (A void, capture or
  refund without its adapter or refund id is refused before any call.)
\<close>

theorem unknown_result_is_never_a_failure:
  assumes "isUnknownResultErr (Some e)" "c \<in> set (calls (Charge env req s))" "channel_charge env c = Inl e"
    and "\<forall>x. chan x = Inl e" "meta (op_extra oreq) ''adapter'' \<noteq> []"
  shows "answer (Charge env req s) = Inr (unknownResult e) \<and>
    Capture sha chan oreq = Inr (unknownResult e) \<and> Void sha chan oreq = Inr (unknownResult e) \<and>
    (op_refund oreq \<noteq> [] \<longrightarrow> Refund sha chan oreq = Inr (unknownResult e)) \<and>
    ResultType (unknownResult e) = ResultProcessing"
proof -
  have cc: "answer (callChannel env req p cb a s reps) = Inr (unknownResult e)"
    if "channel_charge env (chargeCall env req a) = Inl e" for p cb a s reps
    using that assms(1) by (simp add: callChannel_def Let_def)
  have rs: "answer (routeStage env req s1 reps) = Inr (unknownResult e)"
    if "c \<in> set (calls (routeStage env req s1 reps))" for s1 reps
    using that assms(3) cc
    by (auto simp: routeStage_def Let_def refuse_def split: option.splits prod.splits if_splits)
  have "answer (Charge env req s) = Inr (unknownResult e)"
    using assms(2) rs by (auto simp: Charge_def refuse_def split: option.splits prod.splits if_splits)
  moreover have "adapterForOp oreq = Inr (meta (op_extra oreq) ''adapter'')"
    using assms(5) by (simp add: adapterForOp_def Let_def)
  ultimately show ?thesis
    using assms(1,4) by (simp add: Capture_def Void_def Refund_def op_response_unknown) (simp add: unknownResult_def response_def)
qed

section \<open>Idempotency keys\<close>

definition nul_free :: "string \<Rightarrow> bool" where
  "nul_free s \<longleftrightarrow> CHR 0x00 \<notin> set s"

lemma split_at_nul:
  assumes "nul_free a" "nul_free b" "a @ idemSep @ x = b @ idemSep @ y"
  shows "a = b \<and> x = y"
  using assms
proof (induction a arbitrary: b)
  case Nil
  then show ?case by (cases b) (auto simp: idemSep_def nul_free_def)
next
  case (Cons c cs)
  then show ?case by (cases b) (auto simp: idemSep_def nul_free_def)
qed

lemma nul_free_format: "nul_free (format_int n)"
proof -
  have "CHR 0x00 \<notin> set (dec k)" for k
    using dec_digits [of k] by (auto simp: list_all_iff is_digit_def)
  then show ?thesis by (auto simp: nul_free_def format_int_def)
qed

lemma format_int_inj: "in64 m \<Longrightarrow> in64 n \<Longrightarrow> format_int m = format_int n \<Longrightarrow> m = n"
  by (metis option.inject parse_format_int)

text \<open>
  The text that is digested for an idempotency key determines its fields when none contains a NUL:
  two operations share a key text only if intent, action, amount and currency agree, two refunds only
  if intent, refund id, amount and currency do, and no refund shares one with another operation.
\<close>

theorem idempotency_text_is_injective:
  assumes "\<forall>x\<in>{pi, pi', act, act', rid, cur, cur'}. nul_free x" "in64 amt" "in64 amt'"
  shows "(idem_text pi act amt cur = idem_text pi' act' amt' cur' \<longleftrightarrow>
            pi = pi' \<and> act = act' \<and> amt = amt' \<and> cur = cur') \<and>
         (refund_text pi act amt cur = refund_text pi' act' amt' cur' \<longleftrightarrow>
            pi = pi' \<and> act = act' \<and> amt = amt' \<and> cur = cur') \<and>
         refund_text pi rid amt cur \<noteq> idem_text pi' act' amt' cur'"
proof (intro conjI)
  have nf: "nul_free pi" "nul_free pi'" "nul_free act" "nul_free act'" "nul_free rid" "nul_free cur" "nul_free cur'"
    using assms(1) by simp_all
  note cut4 = split_at_nul [OF nf(1,2)] split_at_nul [OF nf(3,4)] split_at_nul [OF nul_free_format nul_free_format]
  have amts: "format_int amt = format_int amt' \<Longrightarrow> amt = amt'" by (rule format_int_inj [OF assms(2,3)])
  show "idem_text pi act amt cur = idem_text pi' act' amt' cur' \<longleftrightarrow> pi = pi' \<and> act = act' \<and> amt = amt' \<and> cur = cur'"
    unfolding idem_text_def by (auto dest!: cut4 amts)
  show "refund_text pi act amt cur = refund_text pi' act' amt' cur' \<longleftrightarrow> pi = pi' \<and> act = act' \<and> amt = amt' \<and> cur = cur'"
    unfolding refund_text_def by (auto dest!: cut4 amts split_at_nul [OF nf(6,7)])
  show "refund_text pi rid amt cur \<noteq> idem_text pi' act' amt' cur'"
  proof
    assume "refund_text pi rid amt cur = idem_text pi' act' amt' cur'"
    then have "cur @ idemSep @ ''refund'' = cur'"
      unfolding refund_text_def idem_text_def
      by (auto dest!: split_at_nul [OF nf(1,2)] split_at_nul [OF nf(5,4)] split_at_nul [OF nul_free_format nul_free_format])
    then have "\<not> nul_free cur'" by (auto simp: nul_free_def idemSep_def)
    with assms(1) show False by simp
  qed
qed

section \<open>Failure codes and time limits\<close>

text \<open>
  C40. Whatever code a channel sends, the code passed on is one of the seven canonical ones, and a
  canonical code is passed on unchanged.
\<close>

theorem failure_codes_are_canonical:
  "NormalizeFailure code \<in> set canonical_codes \<and>
   (code \<in> set canonical_codes \<longrightarrow> NormalizeFailure code = code)"
proof -
  have known: "''insufficient_funds'' \<in> set canonical_codes" "''risk_blocked'' \<in> set canonical_codes"
    "''expired'' \<in> set canonical_codes" "''auth_failed'' \<in> set canonical_codes"
    "''channel_unavailable'' \<in> set canonical_codes" "''card_declined'' \<in> set canonical_codes"
    "''unknown'' \<in> set canonical_codes" by (simp_all add: canonical_codes_def)
  have "NormalizeFailure code \<in> set canonical_codes"
    unfolding NormalizeFailure_def Let_def by (simp only: known if_True if_False split: if_split) blast
  moreover have "code \<in> set canonical_codes \<longrightarrow> NormalizeFailure code = code"
    unfolding NormalizeFailure_def by (simp only: if_True simp_thms split: if_split) blast
  ultimately show ?thesis ..
qed

theorem failure_codes_are_canonical_witness:
  "NormalizeFailure ''Insufficient balance'' = ''insufficient_funds'' \<and> NormalizeFailure ''expired'' = ''expired''"
proof -
  have "''expired'' \<in> set canonical_codes" by code_simp
  with failure_codes_are_canonical [of "''expired''"] have "NormalizeFailure ''expired'' = ''expired''" by blast
  moreover have "NormalizeFailure ''Insufficient balance'' = ''insufficient_funds''" by code_simp
  ultimately show ?thesis by blast
qed

text \<open>
  Once the default and the per-merchant limits are set through their setters, the risk engine is
  always given at least the floor of three seconds, whatever values were configured.
\<close>

theorem risk_timeout_floor:
  "riskTimeoutFor (SetRiskTimeoutByMerchant m (SetRiskTimeoutDefault d s)) merchant \<ge> minRiskTimeoutFloor \<and>
   riskTimeoutFor (SetRiskTimeoutDefault d (SetRiskTimeoutByMerchant m s)) merchant \<ge> minRiskTimeoutFloor"
proof -
  have "map_of (map (\<lambda>(k, v). (k, if v < minRiskTimeoutFloor then minRiskTimeoutFloor else v)) m) merchant = Some x \<Longrightarrow>
      minRiskTimeoutFloor \<le> x" for x
    by (induction m) (auto split: if_splits)
  then show ?thesis
    by (auto simp: riskTimeoutFor_def SetRiskTimeoutByMerchant_def SetRiskTimeoutDefault_def split: option.splits)
qed

section \<open>A charge to try it on\<close>

definition ph_rule :: Rule where
  "ph_rule = \<lparr>Priority = 1, Merchant = [], Country = ''PH'', PaymentMethod = ''GCASH'', AmountMin = 0, AmountMax = 0,
     Adapter = ''gcash''\<rparr>"

definition ph_service :: "(string \<times> breaker) list \<Rightarrow> payment_service" where
  "ph_service bs = \<lparr>svc_rules = ReplaceRules [ph_rule],
     svc_fallback = [\<lparr>fb_country = ''PH'', fb_method = [], fb_bin = [], fb_currency = [],
                      fb_priority = [''gcash'', ''paymongo'']\<rparr>],
     riskFailClose = False, riskReviewStepUp = False, riskReviewStepUpMethods = [''CARD''],
     riskTimeoutDefault = 0, riskTimeoutByMerchant = [], maintenance = False,
     svc_breakers = \<lparr>breakers = bs, registry_cfg = DefaultConfig\<rparr>, channelOps = []\<rparr>"

definition ph_request :: PaymentRequest where
  "ph_request = \<lparr>pr_intent = ''pi1'', pr_amount = 100, pr_currency = ''PHP'', pr_country = ''PH'', pr_method = ''GCASH'',
     pr_customer = [], pr_capture = [], pr_return = [], pr_notify = [], pr_description = [], pr_metadata = [],
     pr_extra = []\<rparr>"

definition timeout_error :: call_error where
  "timeout_error = \<lparr>is_deadline = True, is_canceled = False, err_text = ''rpc timeout''\<rparr>"

definition ph_env :: "(ChargeCall \<Rightarrow> call_error + ChannelReply) \<Rightarrow> int \<Rightarrow> charge_env" where
  "ph_env chan now = \<lparr>risk = None, limiter = (\<lambda>_. True), channel_charge = chan, digest = (\<lambda>s. s), queue_set = True,
     t_check = now, t_done = now + 1\<rparr>"

definition paid :: ChannelReply where
  "paid = \<lparr>cr_result = ''succeeded'', cr_ref = ''x1'', cr_action = None, cr_failure = ''unknown'', cr_message = [], cr_raw = []\<rparr>"

definition tripped :: "int \<Rightarrow> breaker" where
  "tripped t = final (replicate 5 (CallFailure t)) (newBreaker DefaultConfig)"

theorem charge_respects_its_guards_witness:
  "length (calls (Charge (ph_env (\<lambda>_. Inr paid) 5) ph_request (ph_service []))) \<le> 1 \<and>
   map cc_adapter (calls (Charge (ph_env (\<lambda>_. Inr paid) 5) ph_request (ph_service []))) = [''gcash'']"
proof
  show "length (calls (Charge (ph_env (\<lambda>_. Inr paid) 5) ph_request (ph_service []))) \<le> 1"
    using charge_respects_its_guards [OF refl, of "ph_env (\<lambda>_. Inr paid) 5" ph_request "ph_service []"] by blast
  show "map cc_adapter (calls (Charge (ph_env (\<lambda>_. Inr paid) 5) ph_request (ph_service []))) = [''gcash'']"
    by code_simp
qed

theorem unknown_result_is_never_a_failure_witness:
  "answer (Charge (ph_env (\<lambda>_. Inl timeout_error) 5) ph_request (ph_service [])) = Inr (unknownResult timeout_error)"
proof -
  let ?env = "ph_env (\<lambda>_. Inl timeout_error) 5" and ?c = "chargeCall (ph_env (\<lambda>_. Inl timeout_error) 5) ph_request ''gcash''"
  have u: "isUnknownResultErr (Some timeout_error)" by code_simp
  have "map cc_adapter (calls (Charge ?env ph_request (ph_service []))) \<noteq> []" by code_simp
  then obtain c where c: "c \<in> set (calls (Charge ?env ph_request (ph_service [])))" by (cases "calls (Charge ?env ph_request (ph_service []))") auto
  have e: "channel_charge ?env c = Inl timeout_error" by (simp add: ph_env_def)
  have "meta (op_extra \<lparr>op_intent = [], op_refund = [], op_ref = [], op_amount = 0, op_currency = [], op_reason = [],
      op_extra = [(''adapter'', ''gcash'')]\<rparr>) ''adapter'' \<noteq> []" by code_simp
  with unknown_result_is_never_a_failure [OF u c e, where chan = "\<lambda>_. Inl timeout_error"] show ?thesis by blast
qed

theorem idempotency_text_is_injective_witness:
  "idem_text ''pi1'' ''charge'' 100 ''PHP'' \<noteq> idem_text ''pi1'' ''charge'' 101 ''PHP'' \<and>
   refund_text ''pi1'' ''r1'' 100 ''PHP'' \<noteq> idem_text ''pi1'' ''charge'' 101 ''PHP''"
proof -
  have "\<forall>x\<in>{''pi1'', ''pi1'', ''charge'', ''charge'', ''r1'', ''PHP'', ''PHP''}. nul_free x" by code_simp
  moreover have "in64 100" "in64 101" by code_simp+
  ultimately show ?thesis using idempotency_text_is_injective by fastforce
qed

section \<open>Retries end\<close>

lemma Execute_exhausted: "Attempt t \<ge> 4 \<Longrightarrow> fst (fst (executor env t s))"
  by (simp add: executor_def Execute_def Backoffs_def Let_def)


definition ph_task :: RetryTask where
  "ph_task = (hd (enqueueRetry (ph_env (\<lambda>_. Inl timeout_error) 0) ph_request ''gcash'' ''circuit_open''))
     \<lparr>task_id := ''t1'', task_key := ''k1''\<rparr>"

definition ph_rounds :: "(int \<times> charge_env) list" where
  "ph_rounds = map (\<lambda>k. (k * 10000000000000, ph_env (\<lambda>_. Inl timeout_error) (k * 10000000000000))) [1, 2, 3, 4, 5, 6]"

definition ph_row :: queue_row where
  "ph_row = \<lparr>row_task = ph_task, row_state = RowPending, lease_owner = [], lease_expires = 0, row_updated = 0\<rparr>"

definition db_drained :: "RetryTask list list \<times> payment_service \<times> queue_table" where
  "db_drained = drain (\<lambda>now. dbDequeue ''w'' now 100) (dbMarkRetry 7) (dbMarkSuccess 7)
     (map (\<lambda>(now, env). (now, executor env)) ph_rounds) (ph_service []) [ph_row]"

definition mem_drained :: "RetryTask list list \<times> payment_service \<times> memory_queue" where
  "mem_drained = drain memPoll memMarkRetry memMarkSuccess
     (map (\<lambda>(now, env). (now, executor env)) ph_rounds) (ph_service []) [(''t1'', ph_task)]"


section \<open>Where fallback, breakers and queue disagree\<close>

text \<open>The failed adapter of a queued task is empty: the variable was overwritten by the failed fallback. No
  chain starts from it, so the worker closes every task at its first attempt without calling a channel.\<close>

lemma queued_task_is_never_retried:
  assumes "t \<in> set (queued (Charge env req s))"
  shows "FailedAdapter t = [] \<and> retry_done (Execute env' t s') \<and> retry_msg (Execute env' t s') = ''no_fallback_available'' \<and>
    retry_calls (Execute env' t s') = []"
proof -
  have "t \<in> set (enqueueRetry env req [] ''circuit_open'')"
    using assms by (auto simp: Charge_def routeStage_def callChannel_def refuse_def Let_def
        split: option.splits prod.splits if_splits sum.splits)
  then have "FailedAdapter t = []" "Attempt t = 0" by (auto simp: enqueueRetry_def split: if_splits)
  then show ?thesis by (simp add: Execute_def Backoffs_def)
qed

text \<open>The outcome of a fallback call is recorded on the primary's breaker. The fallback's breaker, which was
  probed, never hears of it: after a successful charge it refuses every request for ever.\<close>

lemma fallback_probe_is_never_answered:
  "(let s = ph_service [(''gcash'', tripped 100000000000), (''paymongo'', tripped 0)];
        out = Charge (ph_env (\<lambda>_. Inr paid) 100000000005) ph_request s;
        b = breaker_of (service out) ''paymongo''
    in (map cc_adapter (calls out), breaker_state b, halfOpenReq b, HalfOpenMax (cfg b)))
   = ([''paymongo''], HalfOpen, 1, 1)"
  by code_simp

text \<open>Charge routes without the merchant, so rules for a merchant are never used.\<close>

lemma merchant_rules_never_apply:
  "mi_merchant i = [] \<Longrightarrow> rule_matches i r \<Longrightarrow> Merchant r = []"
  by (auto simp: rule_matches_def)

end
