(* ===== verification/OrderShard.thy ===== *)
theory OrderShard
  imports Sharding
begin

text \<open>
  Where an order lives: \<open>packages/order-core/internal/sharding\<close>. A payment intent's shard is hashed
  from its business key and written into its id; charges, refunds and every other row of the order
  take the shard of that id. \<open>router_v2.go\<close> is the layout prepared for more shards.
\<close>

section \<open>Layout V1\<close>

text \<open>\<open>hash/fnv\<close>'s 64-bit FNV-1a, without the sign bit.\<close>

definition fnv64a :: "string \<Rightarrow> 64 word" where
  "fnv64a s = foldl (\<lambda>h c. (h XOR of_nat (of_char c)) * 1099511628211) 14695981039346656037 s"

definition RouteByString :: "router \<Rightarrow> string \<Rightarrow> shard_id" where
  "RouteByString r s =
     (if s = [] then (0, 0) else RouteByID r (uint (fnv64a s AND 0x7fffffffffffffff)))"

text \<open>What follows the first underscore; an underscore at the very end is not one.\<close>

definition id_body :: "string \<Rightarrow> string" where
  "id_body i = (let rest = dropWhile (\<lambda>c. c \<noteq> CHR ''_'') i in if length rest \<le> 1 then i else tl rest)"

definition RouteByPrefixedID :: "router \<Rightarrow> string \<Rightarrow> shard_id" where
  "RouteByPrefixedID r i =
     (let body = id_body i; total = dbCount r * tablePerDB r
      in if length body < 3 then RouteByString r i
         else case parse_int (take 1 body) of
           None \<Rightarrow> RouteByString r i
         | Some db \<Rightarrow>
             (case parse_int (take 2 (drop 1 body)) of
                None \<Rightarrow> RouteByString r i
              | Some tbl \<Rightarrow>
                  if db < dbCount r \<and> tbl < total \<and> quot64 tbl (tablePerDB r) = db then (db, tbl)
                  else if tbl < total then (quot64 tbl (tablePerDB r), tbl)
                  else RouteByString r i))"

definition FormatID :: "string \<Rightarrow> shard_id \<Rightarrow> int \<Rightarrow> string" where
  "FormatID pre sh seq = pre @ ''_'' @ format_int (fst sh) @ pad_int 2 (snd sh) @ format_int seq"

section \<open>Layout V2\<close>

datatype layout_version = LayoutV1 | LayoutV2

definition LayoutVersionOfID :: "string \<Rightarrow> layout_version" where
  "LayoutVersionOfID i =
     (if take 4 (dropWhile (\<lambda>c. c \<noteq> CHR ''_'') i) = ''_v2_'' then LayoutV2 else LayoutV1)"

definition NewRouterV2 :: router where
  "NewRouterV2 = \<lparr>dbCount = 100, tablePerDB = 1000\<rparr>"

text \<open>\<open>strings.Index\<close> for the marker: the rest after its first occurrence.\<close>

fun after_marker :: "string \<Rightarrow> string option" where
  "after_marker [] = None"
| "after_marker (c # cs) = (if take 4 (c # cs) = ''_v2_'' then Some (drop 3 cs) else after_marker cs)"

definition RouteByPrefixedIDV2 :: "router \<Rightarrow> string \<Rightarrow> shard_id" where
  "RouteByPrefixedIDV2 r i =
     (if LayoutVersionOfID i \<noteq> LayoutV2 then RouteByString r i
      else case after_marker i of
        None \<Rightarrow> RouteByString r i
      | Some body \<Rightarrow>
          if length body < 5 then RouteByString r i
          else case (parse_int (take 2 body), parse_int (take 3 (drop 2 body))) of
            (Some db, Some tbl) \<Rightarrow>
              if db < 0 \<or> db \<ge> dbCount r \<or> tbl < 0 \<or> tbl \<ge> tablePerDB r then RouteByString r i else (db, tbl)
          | _ \<Rightarrow> RouteByString r i)"

definition FormatIDV2 :: "string \<Rightarrow> shard_id \<Rightarrow> int \<Rightarrow> string" where
  "FormatIDV2 pre sh seq = pre @ ''_v2_'' @ pad_int 2 (fst sh) @ pad_int 3 (snd sh) @ ''_'' @ format_int seq"

section \<open>An id remembers its shard\<close>

lemma RouteByString_in_shards: "RouteByString NewRouter s \<in> set (GetAllShards NewRouter)"
proof (cases "s = []")
  case True
  then show ?thesis by (simp add: RouteByString_def GetAllShards_production)
next
  case False
  let ?h = "fnv64a s AND 0x7fffffffffffffff"
  have "?h \<le> 0x7fffffffffffffff" by (rule word_and_le1)
  then have "uint ?h \<le> uint (0x7fffffffffffffff :: 64 word)" by (simp only: word_le_def)
  then have "uint ?h \<le> 9223372036854775807" by simp
  moreover have "0 \<le> uint ?h" by simp
  ultimately have "in64 (uint ?h)" "uint ?h \<noteq> min_int64" unfolding in64_iff by linarith+
  from RouteByID_in_shards [OF this] False show ?thesis by (simp add: RouteByString_def)
qed

lemma dropWhile_prefix: "CHR ''_'' \<notin> set pre \<Longrightarrow> dropWhile (\<lambda>c. c \<noteq> CHR ''_'') (pre @ CHR ''_'' # t) = CHR ''_'' # t"
  by (induction pre) auto

lemma dec_digit: "n < 10 \<Longrightarrow> dec n = [digit_char n]"
  by (subst dec.simps) simp

lemma parse_one_digit:
  assumes "n < 10" shows "parse_int [digit_char n] = Some (int n)"
proof -
  have "format_int (int n) = [digit_char n]" using assms by (simp add: format_int_def dec_digit)
  moreover have "in64 (int n)" using assms by (simp add: in64_def)
  ultimately show ?thesis using parse_format_int [of "int n"] by simp
qed

lemma pad_two:
  assumes "0 \<le> t" "t < 100"
  shows "pad_int 2 t = [digit_char (nat (t div 10)), digit_char (nat (t mod 10))]"
proof (cases "t < 10")
  case True
  with assms have "dec (nat t) = [digit_char (nat t)]" by (intro dec_digit) simp
  moreover have "digit_char 0 = CHR ''0''" by code_simp
  ultimately show ?thesis using True assms by (simp add: pad_int_nonneg)
next
  case False
  then have "dec (nat t) = dec (nat t div 10) @ [digit_char (nat t mod 10)]" by (subst dec.simps) simp
  moreover have "dec (nat t div 10) = [digit_char (nat t div 10)]" using assms by (intro dec_digit) simp
  ultimately show ?thesis using assms by (simp add: pad_int_nonneg nat_div_distrib nat_mod_distrib)
qed

lemma two_digits: "0 \<le> t \<Longrightarrow> 10 * nat (t div 10) + nat (t mod 10) = nat t"
  by (cases t rule: int_cases) (auto simp: zdiv_int [symmetric] nat_div_distrib nat_mod_distrib)

lemma parse_two_digits:
  assumes "0 \<le> t" "t < 100"
  shows "parse_int [digit_char (nat (t div 10)), digit_char (nat (t mod 10))] = Some t"
proof -
  let ?s = "[digit_char (nat (t div 10)), digit_char (nat (t mod 10))]"
  have d: "nat (t div 10) < 10" "nat (t mod 10) < 10" using assms by auto
  have n: "10 * nat (t div 10) + nat (t mod 10) = nat t" using assms(1) by (rule two_digits)
  from d have "list_all is_digit ?s" by (simp add: is_digit_def of_digit_char)
  moreover have "digits_val 0 ?s = nat t" using d n by (simp add: of_digit_char)
  ultimately have "parse_digits ?s = Some (nat t)" by (simp add: parse_digits_def)
  from parse_int_sign(1) [OF this] assms show ?thesis by (simp add: in64_def)
qed

lemma pad_int_code [code]:
  "pad_int w n = (let s = dec_int \<bar>n\<bar>; sg = (if n < 0 then ''-'' else [])
                  in sg @ replicate (w - length sg - length s) (CHR ''0'') @ s)"
  using dec_int_dec [of "nat \<bar>n\<bar>"] by (simp add: pad_int_def)

lemma shard_shape:
  assumes "sh \<in> set (GetAllShards NewRouter)"
  obtains t where "sh = (t div 10, t)" "0 \<le> t" "t < 100"
proof -
  obtain d t where sh: "sh = (d, t)" by (cases sh)
  with assms have "0 \<le> t \<and> t < 100 \<and> d = t div 10" by (simp only: GetAllShards_production)
  with that sh show ?thesis by blast
qed

lemma RouteByPrefixedID_FormatID:
  assumes "sh \<in> set (GetAllShards NewRouter)" "CHR ''_'' \<notin> set pre"
  shows "RouteByPrefixedID NewRouter (FormatID pre sh seq) = sh"
proof -
  obtain t where t: "sh = (t div 10, t)" "0 \<le> t" "t < 100" by (rule shard_shape [OF assms(1)])
  have d: "nat (t div 10) < 10" using t by auto
  then have db: "format_int (t div 10) = [digit_char (nat (t div 10))]" using t by (simp add: format_int_def dec_digit)
  let ?tail = "[digit_char (nat (t div 10)), digit_char (nat (t div 10)), digit_char (nat (t mod 10))] @ format_int seq"
  have id: "FormatID pre sh seq = pre @ CHR ''_'' # ?tail" using t by (simp add: FormatID_def db pad_two)
  have body: "id_body (FormatID pre sh seq) = ?tail"
    unfolding id_body_def id by (simp add: dropWhile_prefix [OF assms(2)])
  have q: "quot64 t 10 = t div 10" using t by (intro quot64_nonneg) (simp_all add: in64_def)
  show ?thesis
    unfolding RouteByPrefixedID_def body
    using t d parse_one_digit [OF d] parse_two_digits [OF t(2,3)] q by (simp add: NewRouter_def)
qed

text \<open>
  C36. The id of an order names the shard its business key hashes to, and the ids of its charges, refunds
  and actions name the same one: looking up by key, by order id or by charge id reaches the same tables,
  which exist.
\<close>

theorem order_rows_share_a_shard:
  assumes "pre \<in> {''pi'', ''ch'', ''re'', ''act''}" "pi = FormatID ''pi'' (RouteByString NewRouter key) seq"
  shows "RouteByPrefixedID NewRouter pi = RouteByString NewRouter key \<and>
    RouteByPrefixedID NewRouter (FormatID pre (RouteByPrefixedID NewRouter pi) seq') = RouteByString NewRouter key \<and>
    RouteByString NewRouter key \<in> set (GetAllShards NewRouter)"
proof -
  have "CHR ''_'' \<notin> set ''pi''" "CHR ''_'' \<notin> set pre" using assms(1) by auto
  then show ?thesis
    using RouteByString_in_shards [of key] by (simp add: assms(2) RouteByPrefixedID_FormatID)
qed

lemmas hash_simps = RouteByString_def fnv64a_def RouteByID_def rem64_def quot64_def i64_def of_char_def

theorem order_rows_share_a_shard_witness:
  "FormatID ''pi'' (RouteByString NewRouter ''merchant1'') 77 = ''pi_00877'' \<and>
   RouteByPrefixedID NewRouter (FormatID ''ch'' (RouteByPrefixedID NewRouter ''pi_00877'') 5) = (0, 8)"
proof -
  have r: "RouteByString NewRouter ''merchant1'' = (0, 8)" by (simp add: hash_simps NewRouter_def)
  have e: "FormatID ''pi'' (0, 8) 77 = ''pi_00877''" by code_simp
  from order_rows_share_a_shard [of "''ch''", OF _ refl, of "''merchant1''" 77 5] show ?thesis
    by (auto simp: r e)
qed

text \<open>The layout for more shards hashes to the global table index but writes and reads an index within the
  database: the order of this key is not looked up where it was stored.\<close>

lemma v2_id_is_misrouted:
  "RouteByString NewRouterV2 ''merchant1'' = (52, 52108) \<and>
   RouteByPrefixedIDV2 NewRouterV2 (FormatIDV2 ''pi'' (RouteByString NewRouterV2 ''merchant1'') 77) = (52, 521)"
proof -
  have r: "RouteByString NewRouterV2 ''merchant1'' = (52, 52108)" by (simp add: hash_simps NewRouterV2_def)
  have f: "FormatIDV2 ''pi'' (52, 52108) 77 = ''pi_v2_5252108_77''"
    "LayoutVersionOfID ''pi_v2_5252108_77'' = LayoutV2"
    "after_marker ''pi_v2_5252108_77'' = Some ''5252108_77''"
    "parse_int ''52'' = Some 52" "parse_int ''521'' = Some 521" by code_simp+
  show ?thesis unfolding r by (simp add: f RouteByPrefixedIDV2_def NewRouterV2_def)
qed

end
