(* ===== verification/OrderStore.thy ===== *)
theory OrderStore
  imports OrderShard "HOL-Library.State_Monad" "HOL-Library.AList"
begin

text \<open>
  The data of \<open>packages/order-core\<close> (\<open>internal/domain\<close>) and its tables (\<open>internal/repo\<close>). An operation
  is a computation of the state monad over the store, whose result is an error or a value; every
  SQL statement may fail, as the store's list of faults says. Ids of rows are strings with the shard in
  them; \<open>UPDATE\<close> counts changed rows only, as the MySQL driver does without \<open>clientFoundRows\<close>.
\<close>

section \<open>Payment intents, charges, refunds\<close>

datatype pi_status = PICreated | PIRequiresAction | PIProcessing | PISucceeded | PIFailed | PICanceled

definition PIValidTransitions :: "pi_status \<Rightarrow> pi_status list" where
  "PIValidTransitions s =
     (case s of PICreated \<Rightarrow> [PIRequiresAction, PIProcessing, PICanceled]
      | PIRequiresAction \<Rightarrow> [PIProcessing, PIRequiresAction, PICanceled]
      | PIProcessing \<Rightarrow> [PISucceeded, PIFailed]
      | PISucceeded \<Rightarrow> [] | PIFailed \<Rightarrow> [] | PICanceled \<Rightarrow> [])"

definition CanTransition :: "pi_status \<Rightarrow> pi_status \<Rightarrow> bool" where
  "CanTransition s t = (if s = t then s = PIRequiresAction else t \<in> set (PIValidTransitions s))"

datatype refund_phase = PhaseNone | PhaseRefunding | PhasePartiallyRefunded | PhaseFullyRefunded | PhaseRefundFailed

definition RefundPhaseTransitions :: "refund_phase \<Rightarrow> refund_phase list" where
  "RefundPhaseTransitions p =
     (case p of PhaseNone \<Rightarrow> [PhaseRefunding]
      | PhaseRefunding \<Rightarrow> [PhasePartiallyRefunded, PhaseFullyRefunded, PhaseRefundFailed]
      | PhasePartiallyRefunded \<Rightarrow> [PhaseRefunding]
      | PhaseRefundFailed \<Rightarrow> [PhaseRefunding]
      | PhaseFullyRefunded \<Rightarrow> [])"

definition CanRefundPhaseTransition :: "refund_phase \<Rightarrow> refund_phase \<Rightarrow> bool" where
  "CanRefundPhaseTransition p q = (p \<noteq> q \<and> q \<in> set (RefundPhaseTransitions p))"

datatype charge_status = ChPending | ChSucceeded | ChFailed | ChExpired
datatype refund_status = RfPending | RfSucceeded | RfFailed
datatype action_status = PaPending | PaSucceeded | PaFailed | PaExpired

type_synonym metadata = "(string \<times> string) list"

definition meta_of :: "metadata \<Rightarrow> string \<Rightarrow> string" where
  "meta_of m k = (case map_of m k of Some v \<Rightarrow> v | None \<Rightarrow> [])"

text \<open>Columns that are stored and shown but that no operation reads.\<close>

record intent_details =
  id_description :: string
  id_order_no :: string
  id_previous :: string
  id_confirmation :: string
  id_methods :: "string list"
  id_descriptor :: string
  id_livemode :: bool
  id_created :: int
  id_updated :: int

record PaymentIntent =
  pi_id :: string
  pi_amount :: int
  pi_currency :: string
  pi_status :: pi_status
  pi_phase :: refund_phase
  pi_customer :: string
  pi_mch :: string
  pi_business :: string
  pi_idem :: string
  pi_capture :: string
  pi_secret :: string
  pi_method :: string
  pi_active :: "string list"
  pi_capturable :: int
  pi_received :: int
  pi_return :: string
  pi_notify :: string
  pi_metadata :: metadata
  pi_expires :: "int option"
  pi_canceled :: "int option"
  pi_reason :: string
  pi_details :: intent_details

record OrderCharge =
  ch_id :: string
  ch_pi :: string
  ch_amount :: int
  ch_got :: int
  ch_back :: int
  ch_currency :: string
  ch_status :: charge_status
  ch_method :: string
  ch_captured :: bool
  ch_paid :: bool
  ch_refunded :: bool
  ch_risk_level :: string
  ch_risk_score :: int
  ch_failure :: "string \<times> string"
  ch_balance_tx :: string
  ch_expires :: "int option"
  ch_completed :: "int option"
  ch_created :: int

record OrderRefund =
  rf_id :: string
  rf_charge :: string
  rf_pi :: string
  rf_idem :: string
  rf_amount :: int
  rf_currency :: string
  rf_status :: refund_status
  rf_reason :: string
  rf_failure :: string
  rf_metadata :: metadata
  rf_auto :: bool
  rf_retries :: int
  rf_next :: "int option"
  rf_created :: int

record PayAction =
  pa_id :: string
  pa_pi :: string
  pa_charge :: string
  pa_type :: string
  pa_status :: action_status
  pa_payload :: metadata
  pa_secret :: string
  pa_attempts :: int
  pa_max :: int
  pa_failure :: string
  pa_expires :: "int option"
  pa_completed :: "int option"

datatype accounting_event = EventChargeSucceeded | EventRefundSucceeded
datatype owner_type = OwnerUser | OwnerMerchant
datatype outbox_status = OutboxPending | OutboxSent | OutboxFailed

record AccountingOutbox =
  ob_id :: string
  ob_request :: string
  ob_event :: accounting_event
  ob_pi :: string
  ob_charge :: string
  ob_refund :: string
  ob_owner_type :: owner_type
  ob_owner :: string
  ob_method :: string
  ob_amount :: int
  ob_currency :: string
  ob_metadata :: metadata
  ob_status :: outbox_status
  ob_attempts :: int
  ob_next :: int
  ob_error :: string
  ob_sent :: "int option"
  ob_token :: string
  ob_created :: int

datatype webhook_status = WebhookPending | WebhookSucceeded

record InboundWebhook =
  iw_channel :: string
  iw_event :: string
  iw_pi :: string
  iw_status :: webhook_status

section \<open>The store\<close>

datatype order_error =
    Validation string
  | PaymentIntentNotFound
  | ChargeNotFound
  | RefundNotFound
  | PayActionNotFound
  | PayActionNotPending
  | InvalidTransition
  | RefundAmountExceeded
  | OutboxDuplicate
  | DuplicateKey
  | DBError
  | IDError
  | ChannelRPC string
  | ChannelRefused string
  | NilPointer

text \<open>What was asked of the payment channels, in order: the operation, the intent, the charge or refund, the
  amount.\<close>

datatype channel_call =
    CalledCharge string string int
  | CalledCapture string string int
  | CalledVoid string string
  | CalledRefund string string int
  | CalledQuery string string

record order_db =
  intents :: "PaymentIntent list"
  charges :: "OrderCharge list"
  refunds :: "OrderRefund list"
  actions :: "PayAction list"
  outbox :: "AccountingOutbox list"
  inbound :: "InboundWebhook list"
  sequence_of :: "string \<Rightarrow> int"
  faults :: "bool list"
  channel_log :: "channel_call list"
  dedup :: "string list"

type_synonym 'a op = "(order_db, order_error + 'a) state"

text \<open>One statement: it fails when the next fault says so.\<close>

definition sql :: "(order_db \<Rightarrow> (order_error + 'a) \<times> order_db) \<Rightarrow> 'a op" where
  "sql f = State (\<lambda>s. case faults s of
     [] \<Rightarrow> f s
   | b # bs \<Rightarrow> if b then (Inl DBError, s\<lparr>faults := bs\<rparr>) else f (s\<lparr>faults := bs\<rparr>))"

definition fail :: "order_error \<Rightarrow> 'a op" where
  "fail e = State_Monad.return (Inl e)"

definition done_with :: "'a \<Rightarrow> 'a op" where
  "done_with x = State_Monad.return (Inr x)"

text \<open>\<open>if err != nil { return err }\<close>.\<close>

definition on_ok :: "'a op \<Rightarrow> ('a \<Rightarrow> 'b op) \<Rightarrow> 'b op" where
  "on_ok m k = do { r \<leftarrow> m; case r of Inl e \<Rightarrow> fail e | Inr x \<Rightarrow> k x }"

text \<open>\<open>_, _ = m\<close>: the error is dropped.\<close>

definition ignoring :: "'a op \<Rightarrow> 'b op \<Rightarrow> 'b op" where
  "ignoring m k = do { _ \<leftarrow> m; k }"

fun each :: "('a \<Rightarrow> unit op) \<Rightarrow> 'a list \<Rightarrow> unit op" where
  "each f [] = done_with ()"
| "each f (x # xs) = ignoring (f x) (each f xs)"

definition note_call :: "channel_call \<Rightarrow> unit op" where
  "note_call c = State (\<lambda>s. (Inr (), s\<lparr>channel_log := channel_log s @ [c]\<rparr>))"

text \<open>The id generator, one sequence per business tag; it fails with a fault of its own.\<close>

definition NextID :: "string \<Rightarrow> int op" where
  "NextID tag = State (\<lambda>s. case faults s of
     [] \<Rightarrow> (Inr (sequence_of s tag + 1), s\<lparr>sequence_of := (sequence_of s)(tag := sequence_of s tag + 1)\<rparr>)
   | b # bs \<Rightarrow> if b then (Inl IDError, s\<lparr>faults := bs\<rparr>)
               else (Inr (sequence_of s tag + 1),
                     s\<lparr>faults := bs, sequence_of := (sequence_of s)(tag := sequence_of s tag + 1)\<rparr>))"

abbreviation (input) "tagPI \<equiv> ''order.payment_intent''"
abbreviation (input) "tagCharge \<equiv> ''order.charge''"
abbreviation (input) "tagRefund \<equiv> ''order.refund''"
abbreviation (input) "tagOutbox \<equiv> ''order.accounting_outbox''"

abbreviation (input) "shardOf i \<equiv> RouteByPrefixedID NewRouter i"

section \<open>Payment intents\<close>

text \<open>A table's primary key is the id, its unique key merchant and idempotency key, which is the empty
  string, not \<open>NULL\<close>, when none was given.\<close>

definition pi_clash :: "PaymentIntent \<Rightarrow> PaymentIntent \<Rightarrow> bool" where
  "pi_clash p q = (shardOf (pi_id p) = shardOf (pi_id q) \<and>
     (pi_id p = pi_id q \<or> pi_mch p = pi_mch q \<and> pi_idem p = pi_idem q))"

definition piCreate :: "PaymentIntent \<Rightarrow> unit op" where
  "piCreate p = sql (\<lambda>s. if list_ex (pi_clash p) (intents s) then (Inl DuplicateKey, s)
     else (Inr (), s\<lparr>intents := intents s @ [p]\<rparr>))"

definition find_pi :: "string \<Rightarrow> order_db \<Rightarrow> PaymentIntent option" where
  "find_pi i s = select_one (\<lambda>p. pi_id p = i) (intents s)"

definition piGet :: "string \<Rightarrow> PaymentIntent op" where
  "piGet i = sql (\<lambda>s. case find_pi i s of None \<Rightarrow> (Inl PaymentIntentNotFound, s) | Some p \<Rightarrow> (Inr p, s))"

definition piGetByIdempotencyKey :: "string \<Rightarrow> string \<Rightarrow> string \<Rightarrow> PaymentIntent op" where
  "piGetByIdempotencyKey mch business key =
     (if key = [] then fail PaymentIntentNotFound
      else let sh = RouteByString NewRouter (if business = [] then mch else business)
           in sql (\<lambda>s. case select_one (\<lambda>p. shardOf (pi_id p) = sh \<and> pi_mch p = mch \<and> pi_idem p = key) (intents s) of
                None \<Rightarrow> (Inl PaymentIntentNotFound, s) | Some p \<Rightarrow> (Inr p, s)))"

definition put_pi :: "PaymentIntent \<Rightarrow> order_db \<Rightarrow> order_db" where
  "put_pi p s = s\<lparr>intents := update_where (\<lambda>q. pi_id q = pi_id p) (\<lambda>_. p) (intents s)\<rparr>"

text \<open>The transition in one transaction; \<open>None\<close> is the empty \<open>from\<close>. Of the fields \<open>mutate\<close> sets, only those
  in the list of updated columns are written; the returned value has them all.\<close>

definition written_columns :: "PaymentIntent \<Rightarrow> PaymentIntent \<Rightarrow> PaymentIntent" where
  "written_columns old new = old\<lparr>pi_status := pi_status new, pi_method := pi_method new,
     pi_received := pi_received new, pi_capturable := pi_capturable new, pi_active := pi_active new,
     pi_phase := pi_phase new\<rparr>"

definition piUpdateStatus :: "string \<Rightarrow> pi_status option \<Rightarrow> pi_status \<Rightarrow> (PaymentIntent \<Rightarrow> PaymentIntent) \<Rightarrow>
    PaymentIntent op" where
  "piUpdateStatus i expected target mutate = sql (\<lambda>s. case find_pi i s of
     None \<Rightarrow> (Inl PaymentIntentNotFound, s)
   | Some p \<Rightarrow>
       if (case expected of Some e \<Rightarrow> pi_status p \<noteq> e | None \<Rightarrow> False) then (Inl InvalidTransition, s)
       else if \<not> CanTransition (pi_status p) target then (Inl InvalidTransition, s)
       else let q = mutate (p\<lparr>pi_status := target\<rparr>)
            in (Inr q, put_pi (written_columns p q) s))"

text \<open>An \<open>UPDATE\<close> of columns the life cycle does not depend on, then a read.\<close>

definition piUpdateFields :: "string \<Rightarrow> (PaymentIntent \<Rightarrow> PaymentIntent) \<Rightarrow> PaymentIntent op" where
  "piUpdateFields i f = on_ok
     (sql (\<lambda>s. case find_pi i s of
        None \<Rightarrow> (Inl PaymentIntentNotFound, s)
      | Some p \<Rightarrow> if f p = p then (Inl PaymentIntentNotFound, s) else (Inr (), put_pi (f p) s)))
     (\<lambda>_. piGet i)"

definition piListExpired :: "int \<Rightarrow> int \<Rightarrow> PaymentIntent list op" where
  "piListExpired now limit =
     (let k = nat (if limit \<le> 0 \<or> limit > 1000 then 200 else limit)
      in sql (\<lambda>s. (Inr (take k (filter (\<lambda>p. (case pi_expires p of Some t \<Rightarrow> t < now | None \<Rightarrow> False) \<and>
           pi_status p \<in> {PICreated, PIRequiresAction, PIProcessing}) (intents s))), s)))"

section \<open>Charges\<close>

definition chargeCreate :: "OrderCharge \<Rightarrow> unit op" where
  "chargeCreate c =
     (if ch_pi c = [] then fail (Validation ''payment_intent_id required'')
      else sql (\<lambda>s. if list_ex (\<lambda>d. shardOf (ch_pi d) = shardOf (ch_pi c) \<and> ch_id d = ch_id c) (charges s)
        then (Inl DuplicateKey, s) else (Inr (), s\<lparr>charges := charges s @ [c]\<rparr>)))"

definition is_charge :: "string \<Rightarrow> string \<Rightarrow> OrderCharge \<Rightarrow> bool" where
  "is_charge i c d = (ch_pi d = i \<and> ch_id d = c)"

definition find_charge :: "string \<Rightarrow> string \<Rightarrow> order_db \<Rightarrow> OrderCharge option" where
  "find_charge i c s = select_one (is_charge i c) (charges s)"

definition chargeGet :: "string \<Rightarrow> string \<Rightarrow> OrderCharge op" where
  "chargeGet i c = sql (\<lambda>s. case find_charge i c s of None \<Rightarrow> (Inl ChargeNotFound, s) | Some d \<Rightarrow> (Inr d, s))"

definition GetByChargeID :: "string \<Rightarrow> OrderCharge op" where
  "GetByChargeID c =
     (if c = [] then fail (Validation ''charge_id required'')
      else sql (\<lambda>s. case select_one (\<lambda>d. shardOf (ch_pi d) = shardOf c \<and> ch_id d = c) (charges s) of
        None \<Rightarrow> (Inl ChargeNotFound, s) | Some d \<Rightarrow> (Inr d, s)))"

text \<open>Oldest first; rows are appended as they are created.\<close>

definition chargeListByPI :: "string \<Rightarrow> OrderCharge list op" where
  "chargeListByPI i = sql (\<lambda>s. (Inr (filter (\<lambda>d. ch_pi d = i) (charges s)), s))"

definition put_charges :: "string \<Rightarrow> string \<Rightarrow> (OrderCharge \<Rightarrow> OrderCharge) \<Rightarrow> order_db \<Rightarrow> order_db" where
  "put_charges i c f s = s\<lparr>charges := update_where (is_charge i c) f (charges s)\<rparr>"

definition chargeUpdateFields :: "string \<Rightarrow> string \<Rightarrow> (OrderCharge \<Rightarrow> OrderCharge) \<Rightarrow> OrderCharge op" where
  "chargeUpdateFields i c f = on_ok
     (sql (\<lambda>s. case find_charge i c s of
        None \<Rightarrow> (Inl ChargeNotFound, s)
      | Some d \<Rightarrow> if f d = d then (Inl ChargeNotFound, s) else (Inr (), put_charges i c f s)))
     (\<lambda>_. chargeGet i c)"

text \<open>The flag is whether this call made the transition.\<close>

definition chargeCASUpdateStatus :: "string \<Rightarrow> string \<Rightarrow> charge_status \<Rightarrow> charge_status \<Rightarrow>
    (OrderCharge \<Rightarrow> OrderCharge) \<Rightarrow> (OrderCharge \<times> bool) op" where
  "chargeCASUpdateStatus i c old new f = on_ok
     (sql (\<lambda>s. case find_charge i c s of
        None \<Rightarrow> (Inr False, s)
      | Some d \<Rightarrow> if ch_status d = old then (Inr True, put_charges i c (\<lambda>d. (f d)\<lparr>ch_status := new\<rparr>) s)
                  else (Inr False, s)))
     (\<lambda>won. on_ok (chargeGet i c) (\<lambda>d. done_with (d, won)))"

definition chargeListExpired :: "int \<Rightarrow> int \<Rightarrow> OrderCharge list op" where
  "chargeListExpired now limit =
     (let k = nat (if limit \<le> 0 \<or> limit > 1000 then 200 else limit)
      in sql (\<lambda>s. (Inr (take k (filter (\<lambda>c. ch_status c = ChPending \<and>
           (case ch_expires c of Some t \<Rightarrow> t < now | None \<Rightarrow> False)) (charges s))), s)))"

definition ListPendingForReconcile :: "int \<Rightarrow> int \<Rightarrow> OrderCharge list op" where
  "ListPendingForReconcile cutoff limit =
     (let k = nat (if limit \<le> 0 \<or> limit > 1000 then 200 else limit)
      in sql (\<lambda>s. (Inr (take k (filter (\<lambda>c. ch_status c = ChPending \<and> ch_created c < cutoff) (charges s))), s)))"

section \<open>Refunds\<close>

text \<open>Unique: the id, and intent with idempotency key, again with the empty string for no key.\<close>

definition refund_clash :: "OrderRefund \<Rightarrow> OrderRefund \<Rightarrow> bool" where
  "refund_clash r q = (shardOf (rf_pi r) = shardOf (rf_pi q) \<and>
     (rf_id r = rf_id q \<or> rf_pi r = rf_pi q \<and> rf_idem r = rf_idem q))"

definition refundCreate :: "OrderRefund \<Rightarrow> unit op" where
  "refundCreate r =
     (if rf_pi r = [] then fail (Validation ''payment_intent_id required'')
      else sql (\<lambda>s. if list_ex (refund_clash r) (refunds s) then (Inl DuplicateKey, s)
        else (Inr (), s\<lparr>refunds := refunds s @ [r]\<rparr>)))"

definition is_refund :: "string \<Rightarrow> string \<Rightarrow> OrderRefund \<Rightarrow> bool" where
  "is_refund i r q = (rf_pi q = i \<and> rf_id q = r)"

definition find_refund :: "string \<Rightarrow> string \<Rightarrow> order_db \<Rightarrow> OrderRefund option" where
  "find_refund i r s = select_one (is_refund i r) (refunds s)"

definition refundGet :: "string \<Rightarrow> string \<Rightarrow> OrderRefund op" where
  "refundGet i r = sql (\<lambda>s. case find_refund i r s of None \<Rightarrow> (Inl RefundNotFound, s) | Some q \<Rightarrow> (Inr q, s))"

definition refundGetByIdempotencyKey :: "string \<Rightarrow> string \<Rightarrow> OrderRefund op" where
  "refundGetByIdempotencyKey i key =
     (if i = [] \<or> key = [] then fail RefundNotFound
      else sql (\<lambda>s. case select_one (\<lambda>q. rf_pi q = i \<and> rf_idem q = key) (refunds s) of
        None \<Rightarrow> (Inl RefundNotFound, s) | Some q \<Rightarrow> (Inr q, s)))"

text \<open>Newest first.\<close>

definition refundListByPI :: "string \<Rightarrow> OrderRefund list op" where
  "refundListByPI i = sql (\<lambda>s. (Inr (rev (filter (\<lambda>q. rf_pi q = i) (refunds s))), s))"

definition is_active :: "string \<Rightarrow> string \<Rightarrow> OrderRefund \<Rightarrow> bool" where
  "is_active i c q = (rf_pi q = i \<and> rf_charge q = c \<and> rf_status q \<in> {RfPending, RfSucceeded})"

definition SumActiveByCharge :: "string \<Rightarrow> string \<Rightarrow> int op" where
  "SumActiveByCharge i c = sql (\<lambda>s.
     let t = sum_where (is_active i c) rf_amount (refunds s) in (if in64 t then Inr t else Inl DBError, s))"

definition put_refunds :: "string \<Rightarrow> string \<Rightarrow> (OrderRefund \<Rightarrow> OrderRefund) \<Rightarrow> order_db \<Rightarrow> order_db" where
  "put_refunds i r f s = s\<lparr>refunds := update_where (is_refund i r) f (refunds s)\<rparr>"

definition refundUpdateFields :: "string \<Rightarrow> string \<Rightarrow> (OrderRefund \<Rightarrow> OrderRefund) \<Rightarrow> OrderRefund op" where
  "refundUpdateFields i r f = on_ok
     (sql (\<lambda>s. case find_refund i r s of
        None \<Rightarrow> (Inl RefundNotFound, s)
      | Some q \<Rightarrow> if f q = q then (Inl RefundNotFound, s) else (Inr (), put_refunds i r f s)))
     (\<lambda>_. refundGet i r)"

definition refundCASUpdateStatus :: "string \<Rightarrow> string \<Rightarrow> refund_status \<Rightarrow> refund_status \<Rightarrow>
    (OrderRefund \<Rightarrow> OrderRefund) \<Rightarrow> (OrderRefund \<times> bool) op" where
  "refundCASUpdateStatus i r old new f = on_ok
     (sql (\<lambda>s. case find_refund i r s of
        None \<Rightarrow> (Inr False, s)
      | Some q \<Rightarrow> if rf_status q = old then (Inr True, put_refunds i r (\<lambda>q. (f q)\<lparr>rf_status := new\<rparr>) s)
                  else (Inr False, s)))
     (\<lambda>won. on_ok (refundGet i r) (\<lambda>q. done_with (q, won)))"

definition ListRetryDue :: "int \<Rightarrow> int \<Rightarrow> OrderRefund list op" where
  "ListRetryDue now limit =
     (let k = nat (if limit \<le> 0 \<or> limit > 1000 then 200 else limit);
          due = (\<lambda>q. case rf_next q of None \<Rightarrow> True | Some t \<Rightarrow> t \<le> now)
      in sql (\<lambda>s. (Inr (take k (filter (\<lambda>q. rf_status q = RfPending \<and> due q \<or>
           rf_status q = RfFailed \<and> rf_auto q \<and> due q) (refunds s))), s)))"

section \<open>User actions\<close>

definition actionCreate :: "PayAction \<Rightarrow> unit op" where
  "actionCreate a =
     (if pa_pi a = [] then fail (Validation ''payment_intent_id required'')
      else sql (\<lambda>s. if list_ex (\<lambda>b. shardOf (pa_pi b) = shardOf (pa_pi a) \<and> pa_id b = pa_id a) (actions s)
        then (Inl DuplicateKey, s) else (Inr (), s\<lparr>actions := actions s @ [a]\<rparr>)))"

definition is_action :: "string \<Rightarrow> string \<Rightarrow> PayAction \<Rightarrow> bool" where
  "is_action i a b = (pa_pi b = i \<and> pa_id b = a)"

definition actionGet :: "string \<Rightarrow> string \<Rightarrow> PayAction op" where
  "actionGet i a = sql (\<lambda>s. case select_one (is_action i a) (actions s) of
     None \<Rightarrow> (Inl PayActionNotFound, s) | Some b \<Rightarrow> (Inr b, s))"

definition actionUpdateFields :: "string \<Rightarrow> string \<Rightarrow> (PayAction \<Rightarrow> PayAction) \<Rightarrow> PayAction op" where
  "actionUpdateFields i a f = on_ok
     (sql (\<lambda>s. case select_one (is_action i a) (actions s) of
        None \<Rightarrow> (Inl PayActionNotFound, s)
      | Some b \<Rightarrow> if f b = b then (Inl PayActionNotFound, s)
                  else (Inr (), s\<lparr>actions := update_where (is_action i a) f (actions s)\<rparr>)))
     (\<lambda>_. actionGet i a)"

definition IncrementAttempt :: "string \<Rightarrow> string \<Rightarrow> unit op" where
  "IncrementAttempt i a = sql (\<lambda>s. (Inr (), s\<lparr>actions :=
     update_where (is_action i a) (\<lambda>b. b\<lparr>pa_attempts := pa_attempts b + 1\<rparr>) (actions s)\<rparr>))"

section \<open>Inbound webhooks and the accounting outbox\<close>

text \<open>The table of a webhook row: the order's, or, when the event names no order, hashed from channel and event.
  The hash yields a table number below ten for every database, but a database only has its own ten tables.\<close>

definition inbound_table :: "InboundWebhook \<Rightarrow> shard_id" where
  "inbound_table w =
     (if iw_pi w \<noteq> [] then shardOf (iw_pi w)
      else let h = uint (fnv64a (iw_channel w @ ''|'' @ iw_event w)) in (h mod 10, (h div 10) mod 10))"

definition same_event :: "InboundWebhook \<Rightarrow> InboundWebhook \<Rightarrow> bool" where
  "same_event w v = (inbound_table v = inbound_table w \<and> iw_channel v = iw_channel w \<and> iw_event v = iw_event w)"

text \<open>The row that is there already, with the flag that this is a duplicate.\<close>

definition inboundInsert :: "InboundWebhook \<Rightarrow> (InboundWebhook \<times> bool) op" where
  "inboundInsert w =
     (if iw_channel w = [] \<or> iw_event w = [] then fail (Validation ''channel_name and event_id required'')
      else on_ok
        (sql (\<lambda>s. if inbound_table w \<notin> set (GetAllShards NewRouter) then (Inl DBError, s)
           else if list_ex (same_event w) (inbound s) then (Inr False, s)
           else (Inr True, s\<lparr>inbound := inbound s @ [w]\<rparr>)))
        (\<lambda>new. if new then done_with (w, False)
               else on_ok (sql (\<lambda>s. case select_one (same_event w) (inbound s) of
                      None \<Rightarrow> (Inl DBError, s) | Some v \<Rightarrow> (Inr v, s))) (\<lambda>v. done_with (v, True))))"

definition MarkProcessed :: "InboundWebhook \<Rightarrow> unit op" where
  "MarkProcessed w = sql (\<lambda>s. (Inr (), s\<lparr>inbound := update_where (same_event w)
     (\<lambda>v. v\<lparr>iw_status := WebhookSucceeded\<rparr>) (inbound s)\<rparr>))"

definition acctOutboxInsert :: "int \<Rightarrow> AccountingOutbox \<Rightarrow> unit op" where
  "acctOutboxInsert now o' =
     (if ob_pi o' = [] \<or> ob_request o' = [] then fail (Validation ''payment_intent_id and request_id required'')
      else on_ok
        (sql (\<lambda>s. if list_ex (\<lambda>r. shardOf (ob_pi r) = shardOf (ob_pi o') \<and>
               (ob_id r = ob_id o' \<or> ob_request r = ob_request o')) (outbox s)
           then (Inr False, s)
           else (Inr True, s\<lparr>outbox := outbox s @ [o'\<lparr>ob_status := OutboxPending, ob_next := now\<rparr>]\<rparr>)))
        (\<lambda>new. if new then done_with () else on_ok (sql (\<lambda>s.
           if list_ex (\<lambda>r. shardOf (ob_pi r) = shardOf (ob_pi o') \<and> ob_request r = ob_request o') (outbox s)
           then (Inr (), s) else (Inl DBError, s))) (\<lambda>_. fail OutboxDuplicate)))"

end
