(* ===== verification/OrderPay.thy ===== *)
theory OrderPay
  imports OrderStore GoText
begin

text \<open>
  \<open>packages/order-core/internal/service\<close>: the life of a payment intent (\<open>services.go\<close>), user actions
  (\<open>pay_action.go\<close>) and the accounting outbox's producer (\<open>accounting_outbox_service.go\<close>). Channels, the
  clock, random secrets, the URL guard, action providers and the accounting client are the
  environment; what channels are asked is logged in the store.
\<close>

section \<open>The environment\<close>

datatype pay_result = ResSucceeded | ResAuthorized | ResProcessing | ResRequiresAction | ResFailed | ResOther

record required_action =
  ra_type :: string
  ra_details :: metadata
  ra_ref :: string
  ra_expires :: "int option"

record channel_reply =
  rp_result :: pay_result
  rp_ref :: string
  rp_captured :: int
  rp_action :: "required_action option"
  rp_code :: string
  rp_message :: string
  rp_risk_level :: string
  rp_risk_score :: int

text \<open>\<open>env_registry\<close>: the channel registry is set; \<open>env_channel\<close>: it has the default channel.\<close>

record service_env =
  env_now :: int
  env_rand :: string
  env_url_ok :: "string \<Rightarrow> bool"
  env_registry :: bool
  env_channel :: "(channel_call \<Rightarrow> string + channel_reply) option"
  env_accounting :: bool
  env_inline :: "(AccountingOutbox \<Rightarrow> bool) option"
  env_verify :: "PayAction \<Rightarrow> metadata \<Rightarrow> (string + (bool \<times> string)) option"

section \<open>Lists of ids\<close>

definition appendUnique :: "string list \<Rightarrow> string \<Rightarrow> string list" where
  "appendUnique l i = (if i \<in> set l then l else l @ [i])"

definition removeID :: "string list \<Rightarrow> string \<Rightarrow> string list" where
  "removeID l i = filter (\<lambda>x. x \<noteq> i) l"

fun appendChargeIDs :: "string list \<Rightarrow> OrderCharge list \<Rightarrow> string list" where
  "appendChargeIDs l [] = l"
| "appendChargeIDs l (c # cs) = appendChargeIDs (appendUnique l (ch_id c)) cs"

section \<open>Filling the accounting outbox\<close>

definition owner_of :: "PaymentIntent \<Rightarrow> (owner_type \<times> string) option" where
  "owner_of p = (if pi_customer p \<noteq> [] then Some (OwnerUser, pi_customer p)
                 else if pi_mch p \<noteq> [] then Some (OwnerMerchant, pi_mch p) else None)"

definition charge_request :: "string \<Rightarrow> string \<Rightarrow> string" where
  "charge_request i c = i @ '':charge_succeeded:'' @ c"

definition refund_request :: "string \<Rightarrow> string \<Rightarrow> string" where
  "refund_request i r = i @ '':refund_succeeded:'' @ r"

definition buildChargeRow :: "PaymentIntent \<Rightarrow> string \<Rightarrow> int \<Rightarrow> AccountingOutbox option" where
  "buildChargeRow p c amount = map_option (\<lambda>(ty, i).
     \<lparr>ob_id = [], ob_request = charge_request (pi_id p) c, ob_event = EventChargeSucceeded, ob_pi = pi_id p,
      ob_charge = c, ob_refund = [], ob_owner_type = ty, ob_owner = i, ob_method = pi_method p,
      ob_amount = amount, ob_currency = pi_currency p, ob_metadata = [(''mch_id'', pi_mch p)],
      ob_status = OutboxPending, ob_attempts = 0, ob_next = 0, ob_error = [], ob_sent = None, ob_token = [],
      ob_created = 0\<rparr>) (owner_of p)"

definition buildRefundRow :: "PaymentIntent \<Rightarrow> OrderRefund \<Rightarrow> AccountingOutbox option" where
  "buildRefundRow p r = map_option (\<lambda>(ty, i).
     \<lparr>ob_id = [], ob_request = refund_request (pi_id p) (rf_id r), ob_event = EventRefundSucceeded, ob_pi = pi_id p,
      ob_charge = rf_charge r, ob_refund = rf_id r, ob_owner_type = ty, ob_owner = i, ob_method = pi_method p,
      ob_amount = rf_amount r, ob_currency = (if rf_currency r = [] then pi_currency p else rf_currency r),
      ob_metadata = [(''mch_id'', pi_mch p)], ob_status = OutboxPending, ob_attempts = 0, ob_next = 0,
      ob_error = [], ob_sent = None, ob_token = [], ob_created = 0\<rparr>) (owner_of p)"

text \<open>A fresh row has no claim token, so it is found by its id alone.\<close>

definition inlineMarkSent :: "int \<Rightarrow> AccountingOutbox \<Rightarrow> unit op" where
  "inlineMarkSent now o' = sql (\<lambda>s.
     let mine = (\<lambda>r. shardOf (ob_pi r) = shardOf (ob_pi o') \<and> ob_id r = ob_id o')
     in if list_ex mine (outbox s)
        then (Inr (), s\<lparr>outbox := update_where mine
               (\<lambda>r. r\<lparr>ob_status := OutboxSent, ob_sent := Some now, ob_token := []\<rparr>) (outbox s)\<rparr>)
        else (Inl DBError, s))"

definition tryInlineDeliver :: "service_env \<Rightarrow> AccountingOutbox \<Rightarrow> unit op" where
  "tryInlineDeliver env o' = (case env_inline env of
     None \<Rightarrow> done_with ()
   | Some book \<Rightarrow> if book o' then ignoring (inlineMarkSent (env_now env) o') (done_with ()) else done_with ())"

definition enqueue :: "service_env \<Rightarrow> AccountingOutbox \<Rightarrow> unit op" where
  "enqueue env o' = on_ok (NextID tagOutbox) (\<lambda>seq. case EncodeIDStr False 113 0 seq of
     Inl _ \<Rightarrow> fail IDError
   | Inr i \<Rightarrow> do {
       r \<leftarrow> acctOutboxInsert (env_now env) (o'\<lparr>ob_id := i, ob_created := env_now env\<rparr>);
       case r of
         Inr _ \<Rightarrow> tryInlineDeliver env (o'\<lparr>ob_id := i\<rparr>)
       | Inl e \<Rightarrow> if e = OutboxDuplicate then done_with () else fail e })"

definition EnqueueChargeSucceeded :: "service_env \<Rightarrow> PaymentIntent \<Rightarrow> string \<Rightarrow> int \<Rightarrow> unit op" where
  "EnqueueChargeSucceeded env p c amount =
     (if pi_id p = [] then fail (Validation ''pi required'')
      else case buildChargeRow p c amount of None \<Rightarrow> done_with () | Some o' \<Rightarrow> enqueue env o')"

definition EnqueueRefundSucceeded :: "service_env \<Rightarrow> PaymentIntent \<Rightarrow> OrderRefund \<Rightarrow> unit op" where
  "EnqueueRefundSucceeded env p r =
     (if pi_id p = [] \<or> rf_id r = [] then fail (Validation ''pi and refund required'')
      else case buildRefundRow p r of None \<Rightarrow> done_with () | Some o' \<Rightarrow> enqueue env o')"

section \<open>Outcomes of a payment\<close>

definition RequireAction :: "string \<Rightarrow> PaymentIntent op" where
  "RequireAction i = piUpdateStatus i None PIRequiresAction id"

definition drop_active :: "string \<Rightarrow> PaymentIntent \<Rightarrow> PaymentIntent" where
  "drop_active c p = (if c = [] then p else p\<lparr>pi_active := removeID (pi_active p) c\<rparr>)"

definition capture_row :: "int \<Rightarrow> OrderCharge \<Rightarrow> OrderCharge" where
  "capture_row amount d = d\<lparr>ch_got := amount, ch_captured := True, ch_paid := True\<rparr>"

text \<open>Whether this call won the charge is not looked at.\<close>

definition PIMarkSucceeded :: "service_env \<Rightarrow> string \<Rightarrow> string \<Rightarrow> int \<Rightarrow> PaymentIntent op" where
  "PIMarkSucceeded env i c amount =
     ignoring (if c = [] then done_with ()
               else ignoring (chargeCASUpdateStatus i c ChPending ChSucceeded (capture_row amount)) (done_with ()))
     (on_ok (piUpdateStatus i (Some PIProcessing) PISucceeded (\<lambda>p. (drop_active c p)\<lparr>pi_received := amount\<rparr>))
        (\<lambda>p. ignoring (if env_accounting env \<and> c \<noteq> [] then EnqueueChargeSucceeded env p c amount else done_with ())
               (done_with p)))"

definition PIMarkFailed :: "string \<Rightarrow> string \<Rightarrow> string \<times> string \<Rightarrow> PaymentIntent op" where
  "PIMarkFailed i c failure =
     ignoring (if c = [] then done_with ()
               else ignoring (chargeCASUpdateStatus i c ChPending ChFailed (\<lambda>d. d\<lparr>ch_failure := failure\<rparr>)) (done_with ()))
     (piUpdateStatus i (Some PIProcessing) PIFailed (drop_active c))"

section \<open>Creating an intent\<close>

record create_input =
  in_amount :: int
  in_currency :: string
  in_customer :: string
  in_mch :: string
  in_business :: string
  in_idem :: string
  in_capture :: string
  in_return :: string
  in_notify :: string
  in_metadata :: metadata
  in_expires :: int
  in_details :: intent_details

text \<open>\<open>urlguard\<close> lets an empty URL pass; that is the environment's answer.\<close>

definition CreateIntent :: "service_env \<Rightarrow> create_input \<Rightarrow> PaymentIntent op" where
  "CreateIntent env x =
     (if in_amount x \<le> 0 then fail (Validation ''amount must be > 0'')
      else if in_currency x = [] then fail (Validation ''currency required'')
      else if in_mch x = [] then fail (Validation ''mch_id required'')
      else if \<not> env_url_ok env (in_return x) then fail (Validation ''return_url'')
      else if \<not> env_url_ok env (in_notify x) then fail (Validation ''notify_url'')
      else do {
        seen \<leftarrow> (if in_idem x = [] then fail PaymentIntentNotFound
                else piGetByIdempotencyKey (in_mch x) (in_business x) (in_idem x));
        case seen of
          Inr p \<Rightarrow> done_with p
        | Inl e \<Rightarrow>
            if e \<noteq> PaymentIntentNotFound then fail e
            else on_ok (NextID tagPI) (\<lambda>seq.
              let sh = RouteByString NewRouter (if in_business x = [] then in_mch x else in_business x);
                  i = FormatID ''pi'' sh seq; d = in_details x;
                  p = \<lparr>pi_id = i, pi_amount = in_amount x, pi_currency = in_currency x, pi_status = PICreated,
                       pi_phase = PhaseNone, pi_customer = in_customer x, pi_mch = in_mch x,
                       pi_business = in_business x, pi_idem = in_idem x,
                       pi_capture = (if in_capture x = [] then ''automatic'' else in_capture x),
                       pi_secret = i @ ''_secret_'' @ env_rand env, pi_method = [], pi_active = [],
                       pi_capturable = 0, pi_received = 0, pi_return = in_return x, pi_notify = in_notify x,
                       pi_metadata = in_metadata x,
                       pi_expires = (if in_expires x > 0 then Some (env_now env + in_expires x) else None),
                       pi_canceled = None, pi_reason = [],
                       pi_details = d\<lparr>id_confirmation := (if id_confirmation d = [] then ''automatic'' else id_confirmation d),
                                      id_created := env_now env, id_updated := env_now env\<rparr>\<rparr>
              in do {
                r \<leftarrow> piCreate p;
                case r of
                  Inr _ \<Rightarrow> done_with p
                | Inl e \<Rightarrow>
                    if e = DuplicateKey \<and> in_idem x \<noteq> []
                    then do { g \<leftarrow> piGetByIdempotencyKey (in_mch x) (in_business x) (in_idem x);
                              case g of Inr q \<Rightarrow> done_with q | Inl _ \<Rightarrow> fail e }
                    else fail e }) })"

definition Retrieve :: "string \<Rightarrow> PaymentIntent op" where
  "Retrieve i = (if i = [] then fail (Validation ''id required'') else piGet i)"

definition UpdateIntent :: "string \<Rightarrow> string \<Rightarrow> metadata option \<Rightarrow> PaymentIntent op" where
  "UpdateIntent i description m =
     (if description = [] \<and> m = None then piGet i
      else piUpdateFields i (\<lambda>p. p\<lparr>pi_details := (pi_details p)\<lparr>id_description :=
             (if description = [] then id_description (pi_details p) else description)\<rparr>,
             pi_metadata := (case m of None \<Rightarrow> pi_metadata p | Some m \<Rightarrow> m)\<rparr>))"

section \<open>Confirming\<close>

definition new_charge :: "service_env \<Rightarrow> PaymentIntent \<Rightarrow> string \<Rightarrow> string \<Rightarrow> int \<Rightarrow> OrderCharge" where
  "new_charge env p i method amount =
     \<lparr>ch_id = i, ch_pi = pi_id p, ch_amount = amount, ch_got = 0, ch_back = 0, ch_currency = pi_currency p,
      ch_status = ChPending, ch_method = method, ch_captured = False, ch_paid = False, ch_refunded = False,
      ch_risk_level = [], ch_risk_score = 0, ch_failure = ([], []), ch_balance_tx = [], ch_expires = None,
      ch_completed = None, ch_created = env_now env\<rparr>"

definition createCharge :: "service_env \<Rightarrow> PaymentIntent \<Rightarrow> string \<Rightarrow> OrderCharge op" where
  "createCharge env p method = on_ok (NextID tagCharge) (\<lambda>seq.
     let c = new_charge env p (FormatID ''ch'' (shardOf (pi_id p)) seq) method (pi_amount p)
     in on_ok (chargeCreate c) (\<lambda>_. done_with c))"

text \<open>The challenge is stored and the intent asked to wait for it; both are tried, the second's failure
  is only logged.\<close>

definition createActionFromChannel :: "service_env \<Rightarrow> PaymentIntent \<Rightarrow> OrderCharge \<Rightarrow> required_action \<Rightarrow> unit op" where
  "createActionFromChannel env p c ra = on_ok (NextID tagPI) (\<lambda>seq.
     ignoring (actionCreate \<lparr>pa_id = FormatID ''act'' (shardOf (pi_id p)) seq, pa_pi = pi_id p, pa_charge = ch_id c,
         pa_type = ra_type ra, pa_status = PaPending, pa_payload = ra_details ra, pa_secret = ra_ref ra,
         pa_attempts = 0, pa_max = 3, pa_failure = [], pa_expires = ra_expires ra, pa_completed = None\<rparr>)
       (ignoring (RequireAction (pi_id p)) (done_with ())))"

definition rpc_error :: "string \<Rightarrow> string \<Rightarrow> OrderCharge \<Rightarrow> OrderCharge" where
  "rpc_error what msg d = d\<lparr>ch_failure := (''channel_rpc_error'',
     what @ ''RPC error: '' @ msg @ '' (channel state unknown, awaiting reconcile)'')\<rparr>"

definition settle_reply :: "service_env \<Rightarrow> PaymentIntent \<Rightarrow> OrderCharge \<Rightarrow> channel_reply \<Rightarrow> unit op" where
  "settle_reply env p c r = (case rp_result r of
     ResSucceeded \<Rightarrow>
       (let amount = (if rp_captured r \<le> 0 then ch_amount c else rp_captured r)
        in do {
          u \<leftarrow> PIMarkSucceeded env (pi_id p) (ch_id c) amount;
          case u of
            Inl _ \<Rightarrow> done_with ()
          | Inr q \<Rightarrow> if env_accounting env then ignoring (EnqueueChargeSucceeded env q (ch_id c) amount) (done_with ())
                    else done_with () })
   | ResFailed \<Rightarrow> ignoring (PIMarkFailed (pi_id p) (ch_id c) (rp_code r, rp_message r)) (done_with ())
   | ResRequiresAction \<Rightarrow> (case rp_action r of None \<Rightarrow> done_with ()
                          | Some ra \<Rightarrow> ignoring (createActionFromChannel env p c ra) (done_with ()))
   | _ \<Rightarrow> done_with ())"

definition invokeChannelForCharge :: "service_env \<Rightarrow> PaymentIntent \<Rightarrow> OrderCharge \<Rightarrow> unit op" where
  "invokeChannelForCharge env p c = (case env_channel env of
     None \<Rightarrow> done_with ()
   | Some ask \<Rightarrow> ignoring (note_call (CalledCharge (pi_id p) (ch_id c) (ch_amount c)))
       (case ask (CalledCharge (pi_id p) (ch_id c) (ch_amount c)) of
          Inl msg \<Rightarrow> ignoring (chargeUpdateFields (pi_id p) (ch_id c) (rpc_error [] msg)) (done_with ())
        | Inr r \<Rightarrow> ignoring (chargeUpdateFields (pi_id p) (ch_id c) (\<lambda>d. d\<lparr>ch_balance_tx := rp_ref r,
              ch_risk_level := (if rp_risk_level r = [] then ch_risk_level d else rp_risk_level r),
              ch_risk_score := (if rp_risk_score r > 0 then rp_risk_score r else ch_risk_score d)\<rparr>))
            (settle_reply env p c r)))"

text \<open>The intent and its charge as they are after the channel answered.\<close>

definition reload :: "PaymentIntent \<Rightarrow> OrderCharge \<Rightarrow> (PaymentIntent option \<times> OrderCharge) op" where
  "reload v c = do {
     l \<leftarrow> piGet (pi_id v);
     let v' = (case l of Inr x \<Rightarrow> x | Inl _ \<Rightarrow> v);
     d \<leftarrow> chargeGet (pi_id v') (ch_id c);
     done_with (Some v', case d of Inr x \<Rightarrow> x | Inl _ \<Rightarrow> c) }"

text \<open>When the intent cannot be updated there is none to go on with, and asking a channel panics.\<close>

definition attach_charge :: "service_env \<Rightarrow> string \<Rightarrow> PaymentIntent \<Rightarrow> OrderCharge \<Rightarrow> (PaymentIntent option \<times> OrderCharge) op" where
  "attach_charge env i u c = do {
     w \<leftarrow> piUpdateFields i (\<lambda>p. p\<lparr>pi_active := appendUnique (pi_active u) (ch_id c)\<rparr>);
     case w of
       Inl _ \<Rightarrow> if env_registry env then fail NilPointer else done_with (None, c)
     | Inr v \<Rightarrow> if env_registry env then do { _ \<leftarrow> invokeChannelForCharge env v c; reload v c }
               else done_with (Some v, c) }"

definition confirmFresh :: "service_env \<Rightarrow> string \<Rightarrow> string \<Rightarrow> PaymentIntent \<Rightarrow> (PaymentIntent option \<times> OrderCharge) op" where
  "confirmFresh env i method p =
     on_ok (piUpdateStatus i (Some (pi_status p)) PIProcessing (\<lambda>p. p\<lparr>pi_method := method\<rparr>)) (\<lambda>u. do {
       made \<leftarrow> createCharge env u method;
       case made of
         Inl e \<Rightarrow> ignoring (piUpdateStatus i (Some PIProcessing) PIFailed
             (\<lambda>p. p\<lparr>pi_reason := ''charge_creation_failed''\<rparr>)) (fail e)
       | Inr c \<Rightarrow> attach_charge env i u c })"

definition Confirm :: "service_env \<Rightarrow> string \<Rightarrow> string \<Rightarrow> string \<Rightarrow> (PaymentIntent option \<times> OrderCharge) op" where
  "Confirm env i method secret =
     (if i = [] \<or> method = [] then fail (Validation ''id and payment_method required'')
      else on_ok (piGet i) (\<lambda>p.
        if secret \<noteq> [] \<and> pi_secret p \<noteq> secret then fail (Validation ''invalid client_secret'')
        else if pi_status p \<in> {PICanceled, PIFailed} then fail InvalidTransition
        else if pi_status p \<in> {PIProcessing, PISucceeded} \<and> pi_method p \<noteq> [] \<and> pi_method p \<noteq> method
        then fail InvalidTransition
        else if pi_status p \<in> {PIProcessing, PISucceeded} \<and> pi_active p \<noteq> []
        then do {
          r \<leftarrow> chargeGet (pi_id p) (last (pi_active p));
          case r of Inr c \<Rightarrow> done_with (Some p, c) | Inl _ \<Rightarrow> confirmFresh env i method p }
        else confirmFresh env i method p))"

section \<open>Combined payments\<close>

fun sum_splits :: "int \<Rightarrow> (string \<times> int) list \<Rightarrow> int option" where
  "sum_splits acc [] = Some acc"
| "sum_splits acc ((method, amount) # sps) =
     (if method = [] \<or> amount \<le> 0 then None else sum_splits (add64 acc amount) sps)"

definition rollbackPartialCharges :: "string \<Rightarrow> OrderCharge list \<Rightarrow> unit op" where
  "rollbackPartialCharges i cs = each (\<lambda>c. ignoring (chargeUpdateFields i (ch_id c)
     (\<lambda>d. d\<lparr>ch_status := ChFailed, ch_failure := (''combined_rollback'', ''partial combined charge rollback'')\<rparr>))
     (done_with ())) cs"

text \<open>\<open>cs\<close> are the charges made so far.\<close>

fun create_splits :: "service_env \<Rightarrow> PaymentIntent \<Rightarrow> OrderCharge list \<Rightarrow> (string \<times> int) list \<Rightarrow> OrderCharge list op" where
  "create_splits env p cs [] = done_with cs"
| "create_splits env p cs ((method, amount) # sps) = do {
     made \<leftarrow> on_ok (NextID tagCharge) (\<lambda>seq.
       let c = new_charge env p (FormatID ''ch'' (shardOf (pi_id p)) seq) method amount
       in on_ok (chargeCreate c) (\<lambda>_. done_with c));
     case made of
       Inr c \<Rightarrow> create_splits env p (cs @ [c]) sps
     | Inl e \<Rightarrow> ignoring (rollbackPartialCharges (pi_id p) cs)
         (ignoring (piUpdateStatus (pi_id p) (Some PIProcessing) PIFailed (\<lambda>p. p\<lparr>pi_reason := ''combined charge failed''\<rparr>))
           (fail e)) }"

definition ConfirmCombined :: "service_env \<Rightarrow> string \<Rightarrow> string \<Rightarrow> (string \<times> int) list \<Rightarrow>
    (PaymentIntent \<times> OrderCharge list) op" where
  "ConfirmCombined env i secret splits =
     (if i = [] then fail (Validation ''id required'')
      else if splits = [] then fail (Validation ''at least one payment method required'')
      else on_ok (piGet i) (\<lambda>p.
        if secret \<noteq> [] \<and> pi_secret p \<noteq> secret then fail (Validation ''invalid client_secret'')
        else case sum_splits 0 splits of
          None \<Rightarrow> fail (Validation ''each split requires payment_method + positive amount'')
        | Some tot \<Rightarrow>
            if tot \<noteq> pi_amount p then fail (Validation ''sum(splits.amount) != pi.amount'')
            else on_ok (piUpdateStatus i (Some (pi_status p)) PIProcessing (\<lambda>p. p\<lparr>pi_method := ''COMBINED''\<rparr>)) (\<lambda>u.
              on_ok (create_splits env p [] splits) (\<lambda>cs.
                on_ok (piUpdateFields i (\<lambda>p. p\<lparr>pi_active := appendChargeIDs (pi_active u) cs,
                         pi_details := (pi_details p)\<lparr>id_methods := map fst splits\<rparr>\<rparr>))
                  (\<lambda>v. done_with (v, cs))))))"

section \<open>Capture and cancel\<close>

definition finish_capture :: "service_env \<Rightarrow> string \<Rightarrow> OrderCharge \<Rightarrow> int \<Rightarrow> (PaymentIntent \<times> OrderCharge) op" where
  "finish_capture env i c amount = on_ok (PIMarkSucceeded env i (ch_id c) amount) (\<lambda>p. do {
     d \<leftarrow> chargeGet i (ch_id c);
     done_with (p, case d of Inr x \<Rightarrow> x | Inl _ \<Rightarrow> c) })"

definition CaptureIntent :: "service_env \<Rightarrow> string \<Rightarrow> int \<Rightarrow> (PaymentIntent \<times> OrderCharge) op" where
  "CaptureIntent env i amount = on_ok (piGet i) (\<lambda>p.
     if pi_capture p \<noteq> ''manual'' then fail (Validation ''capture requires capture_method=manual'')
     else if amount < 0 \<or> amount > pi_amount p then fail (Validation ''amount_to_capture out of range'')
     else let amount = (if amount = 0 then pi_amount p else amount) in do {
       found \<leftarrow> (if pi_active p = [] then fail ChargeNotFound else chargeGet i (last (pi_active p)));
       case found of
         Inl _ \<Rightarrow> fail (Validation ''no active charge to capture'')
       | Inr c \<Rightarrow>
           (case (if env_registry env then env_channel env else None) of
              None \<Rightarrow> finish_capture env i c amount
            | Some ask \<Rightarrow> ignoring (note_call (CalledCapture i (ch_id c) amount))
                (case ask (CalledCapture i (ch_id c) amount) of
                   Inl msg \<Rightarrow> ignoring (chargeUpdateFields i (ch_id c) (rpc_error ''Capture '' msg)) (fail (ChannelRPC msg))
                 | Inr r \<Rightarrow>
                     (case rp_result r of
                        ResFailed \<Rightarrow> ignoring (PIMarkFailed i (ch_id c) (rp_code r, rp_message r))
                                       (fail (ChannelRefused (rp_message r)))
                      | ResSucceeded \<Rightarrow> finish_capture env i c (if rp_captured r > 0 then rp_captured r else amount)
                      | _ \<Rightarrow> done_with (p, c)))) })"

definition cancel_row :: "string \<Rightarrow> int \<Rightarrow> string \<Rightarrow> PaymentIntent op" where
  "cancel_row i now reason = piUpdateStatus i None PICanceled (\<lambda>p. p\<lparr>pi_canceled := Some now, pi_reason := reason\<rparr>)"

definition CancelIntent :: "service_env \<Rightarrow> string \<Rightarrow> string \<Rightarrow> PaymentIntent op" where
  "CancelIntent env i reason =
     (if i = [] then fail (Validation ''id required'')
      else on_ok (piGet i) (\<lambda>p.
        case (if pi_status p = PIProcessing \<and> pi_active p \<noteq> [] \<and> env_registry env then env_channel env else None) of
          None \<Rightarrow> cancel_row i (env_now env) reason
        | Some ask \<Rightarrow>
            (let c = last (pi_active p)
             in ignoring (chargeGet i c)
                (ignoring (note_call (CalledVoid i c))
                  (case ask (CalledVoid i c) of
                     Inl msg \<Rightarrow> fail (ChannelRPC msg)
                   | Inr r \<Rightarrow>
                       if rp_result r = ResFailed then fail (Validation ''channel rejected void'')
                       else ignoring (chargeUpdateFields i c (\<lambda>d. d\<lparr>ch_status := ChFailed, ch_failure :=
                              (''canceled'', ''canceled by user before capture (channel auth voided)'')\<rparr>))
                            (cancel_row i (env_now env) reason))))))"

text \<open>The number of intents closed.\<close>

fun cancel_each :: "service_env \<Rightarrow> PaymentIntent list \<Rightarrow> int op" where
  "cancel_each env [] = done_with 0"
| "cancel_each env (p # ps) = do {
     r \<leftarrow> CancelIntent env (pi_id p) ''expired'';
     on_ok (cancel_each env ps) (\<lambda>n. done_with (case r of Inl _ \<Rightarrow> n | Inr _ \<Rightarrow> n + 1)) }"

definition ExpireOverdue :: "service_env \<Rightarrow> int \<Rightarrow> int op" where
  "ExpireOverdue env limit = on_ok (piListExpired (env_now env) limit) (cancel_each env)"

section \<open>Answering a user action\<close>

text \<open>After a failed action the intent is first taken back to processing, then failed.\<close>

definition expireAction :: "service_env \<Rightarrow> string \<Rightarrow> PayAction \<Rightarrow> string \<Rightarrow> PaymentIntent op" where
  "expireAction env i a reason =
     ignoring (actionUpdateFields i (pa_id a) (\<lambda>b. b\<lparr>pa_status := PaExpired, pa_failure := reason,
         pa_completed := Some (env_now env)\<rparr>))
     (ignoring (piUpdateStatus i (Some PIRequiresAction) PIProcessing id)
       (PIMarkFailed i (pa_charge a) (''action_expired'', reason)))"

definition Submit :: "service_env \<Rightarrow> string \<Rightarrow> string \<Rightarrow> metadata \<Rightarrow> PaymentIntent op" where
  "Submit env i a given = on_ok (actionGet i a) (\<lambda>act.
     if pa_status act \<noteq> PaPending then fail PayActionNotPending
     else if (case pa_expires act of Some t \<Rightarrow> env_now env > t | None \<Rightarrow> False)
     then expireAction env i act ''expired before submit''
     else case env_verify env act given of
       None \<Rightarrow> fail (Validation ''no provider'')
     | Some (Inl msg) \<Rightarrow> fail (ChannelRPC msg)
     | Some (Inr (good, reason)) \<Rightarrow> ignoring (IncrementAttempt i a)
         (if good then
            ignoring (actionUpdateFields i a (\<lambda>b. b\<lparr>pa_status := PaSucceeded, pa_completed := Some (env_now env)\<rparr>))
              (PIMarkSucceeded env i (pa_charge act) 0)
          else do {
            again \<leftarrow> actionGet i a;
            case again of
              Inl _ \<Rightarrow> fail NilPointer
            | Inr b \<Rightarrow>
                if pa_max b > 0 \<and> pa_attempts b \<ge> pa_max b then
                  ignoring (actionUpdateFields i a (\<lambda>b. b\<lparr>pa_status := PaFailed,
                      pa_failure := ''max attempts reached: '' @ reason, pa_completed := Some (env_now env)\<rparr>))
                  (ignoring (piUpdateStatus i (Some PIRequiresAction) PIProcessing id)
                    (PIMarkFailed i (pa_charge act) (''action_failed'', reason)))
                else fail (Validation reason) }))"

section \<open>The status report\<close>

record status_report =
  sr_active :: "OrderCharge list"
  sr_final :: "OrderCharge list"
  sr_all_succeeded :: bool
  sr_any_failed :: bool
  sr_any_pending :: bool
  sr_captured :: int

fun report_charges :: "OrderCharge list \<Rightarrow> status_report \<Rightarrow> status_report" where
  "report_charges [] r = r"
| "report_charges (c # cs) r = report_charges cs (case ch_status c of
     ChPending \<Rightarrow> r\<lparr>sr_any_pending := True, sr_all_succeeded := False, sr_active := sr_active r @ [c]\<rparr>
   | ChSucceeded \<Rightarrow> r\<lparr>sr_captured := add64 (sr_captured r) (ch_got c), sr_final := sr_final r @ [c]\<rparr>
   | _ \<Rightarrow> r\<lparr>sr_any_failed := True, sr_all_succeeded := False, sr_final := sr_final r @ [c]\<rparr>)"

definition GetStatusReport :: "string \<Rightarrow> (PaymentIntent \<times> status_report) op" where
  "GetStatusReport i = on_ok (piGet i) (\<lambda>p. on_ok (chargeListByPI i) (\<lambda>cs.
     done_with (p, report_charges cs \<lparr>sr_active = [], sr_final = [], sr_all_succeeded = True, sr_any_failed = False,
       sr_any_pending = False, sr_captured = 0\<rparr>)))"

end
