(* ===== verification/OrderRefund.thy ===== *)
theory OrderRefund
  imports OrderPay
begin

text \<open>
  \<open>packages/order-core/internal/service\<close>, continued: refunds (\<open>services.go\<close>), late results and their
  automatic refunds (\<open>refund_reconcile.go\<close>), the charge workers (\<open>charge_workers.go\<close>) and the webhooks
  payment-core forwards (\<open>webhook_service.go\<close>).
\<close>

section \<open>Asking for a refund\<close>

record refund_input =
  ri_pi :: string
  ri_charge :: string
  ri_amount :: int
  ri_reason :: string
  ri_metadata :: metadata
  ri_idem :: string

definition ensureRefundable :: "PaymentIntent \<Rightarrow> order_error option" where
  "ensureRefundable p =
     (if pi_status p \<noteq> PISucceeded then Some InvalidTransition
      else if pi_phase p = PhaseFullyRefunded then Some RefundAmountExceeded
      else if pi_phase p = PhaseRefunding then Some InvalidTransition else None)"

definition set_phase :: "refund_phase \<Rightarrow> PaymentIntent \<Rightarrow> PaymentIntent" where
  "set_phase ph p = p\<lparr>pi_phase := ph\<rparr>"

text \<open>What can be given back of a charge: what was captured, or its amount when that was not filled in.\<close>

definition capacity :: "OrderCharge \<Rightarrow> int" where
  "capacity c = (if ch_got c \<le> 0 then ch_amount c else ch_got c)"

definition new_refund :: "service_env \<Rightarrow> string \<Rightarrow> string \<Rightarrow> string \<Rightarrow> int \<Rightarrow> string \<Rightarrow> refund_input \<Rightarrow> OrderRefund" where
  "new_refund env r i c amount currency x =
     \<lparr>rf_id = r, rf_charge = c, rf_pi = i, rf_idem = ri_idem x, rf_amount = amount, rf_currency = currency,
      rf_status = RfPending, rf_reason = ri_reason x, rf_failure = [], rf_metadata = ri_metadata x,
      rf_auto = False, rf_retries = 0, rf_next = None, rf_created = env_now env\<rparr>"

definition insert_refund :: "service_env \<Rightarrow> PaymentIntent \<Rightarrow> string \<Rightarrow> int \<Rightarrow> refund_input \<Rightarrow> OrderRefund op" where
  "insert_refund env p c amount x = on_ok (NextID tagRefund) (\<lambda>seq.
     let r = new_refund env (FormatID ''re'' (shardOf (ri_pi x)) seq) (ri_pi x) c amount (pi_currency p) x
     in do {
       made \<leftarrow> refundCreate r;
       case made of
         Inr _ \<Rightarrow> ignoring (piUpdateFields (ri_pi x) (set_phase PhaseRefunding)) (done_with r)
       | Inl e \<Rightarrow>
           if ri_idem x \<noteq> [] \<and> e = DuplicateKey
           then do { g \<leftarrow> refundGetByIdempotencyKey (ri_pi x) (ri_idem x);
                     case g of Inr q \<Rightarrow> done_with q | Inl _ \<Rightarrow> fail e }
           else fail e })"

definition refund_on :: "service_env \<Rightarrow> PaymentIntent \<Rightarrow> string \<Rightarrow> refund_input \<Rightarrow> OrderRefund op" where
  "refund_on env p c x =
     (if c = [] then fail (Validation ''no charge to refund'')
      else on_ok (chargeGet (ri_pi x) c) (\<lambda>ch.
        let refundable = sub64 (capacity ch) (ch_back ch);
            amount = (if ri_amount x \<le> 0 then refundable else ri_amount x)
        in if refundable \<le> 0 \<or> amount > refundable then fail RefundAmountExceeded
           else on_ok (SumActiveByCharge (ri_pi x) c) (\<lambda>active.
             if add64 active amount > capacity ch then fail RefundAmountExceeded
             else insert_refund env p c amount x)))"

definition CreateRefund :: "service_env \<Rightarrow> refund_input \<Rightarrow> OrderRefund op" where
  "CreateRefund env x =
     (if ri_pi x = [] \<and> ri_charge x = [] then fail (Validation ''payment_intent_id or charge_id required'')
      else do {
        seen \<leftarrow> (if ri_idem x \<noteq> [] \<and> ri_pi x \<noteq> [] then refundGetByIdempotencyKey (ri_pi x) (ri_idem x)
                else fail RefundNotFound);
        case seen of
          Inr q \<Rightarrow> done_with q
        | Inl e \<Rightarrow>
            if e \<noteq> RefundNotFound then fail e
            else if ri_charge x \<noteq> [] \<and> ri_pi x = []
            then fail (Validation ''please supply payment_intent_id together with charge_id'')
            else on_ok (piGet (ri_pi x)) (\<lambda>p. case ensureRefundable p of
              Some e \<Rightarrow> fail e
            | None \<Rightarrow>
                if ri_charge x \<noteq> [] then refund_on env p (ri_charge x) x
                else do {
                  l \<leftarrow> chargeListByPI (ri_pi x);
                  let c = (case l of Inl _ \<Rightarrow> [] | Inr cs \<Rightarrow>
                       (case List.find (\<lambda>d. ch_status d = ChSucceeded) (rev cs) of None \<Rightarrow> [] | Some d \<Rightarrow> ch_id d));
                  refund_on env p c x }) })"

section \<open>A refund over all charges\<close>

text \<open>The charges with something left, and how much.\<close>

fun bundle_slots :: "string \<Rightarrow> OrderCharge list \<Rightarrow> (OrderCharge \<times> int) list op" where
  "bundle_slots i [] = done_with []"
| "bundle_slots i (c # cs) =
     (if ch_status c \<noteq> ChSucceeded then bundle_slots i cs
      else do {
        a \<leftarrow> SumActiveByCharge i (ch_id c);
        let rem = sub64 (capacity c) (case a of Inr n \<Rightarrow> n | Inl _ \<Rightarrow> ch_back c);
        if rem \<le> 0 then bundle_slots i cs
        else on_ok (bundle_slots i cs) (\<lambda>sl. done_with ((c, rem) # sl)) })"

definition slot_total :: "(OrderCharge \<times> int) list \<Rightarrow> int" where
  "slot_total sl = foldl (\<lambda>t cr. add64 t (snd cr)) 0 sl"

text \<open>The shares: in proportion, rounded down, the rest to the last slot; a share that is not positive is left
  out.\<close>

fun allocations :: "int \<Rightarrow> int \<Rightarrow> int \<Rightarrow> (OrderCharge \<times> int) list \<Rightarrow> (OrderCharge \<times> int) list" where
  "allocations amount tot remaining [] = []"
| "allocations amount tot remaining ((c, rem) # sl) =
     (let alloc = (if sl = [] then remaining else quot64 (mul64 amount rem) tot)
      in if alloc \<le> 0 then allocations amount tot remaining sl
         else (c, alloc) # allocations amount tot (sub64 remaining alloc) sl)"

text \<open>The refunds made until the first error, which comes second.\<close>

fun insert_bundle :: "service_env \<Rightarrow> PaymentIntent \<Rightarrow> refund_input \<Rightarrow> (OrderCharge \<times> int) list \<Rightarrow>
    (OrderRefund list \<times> order_error option) op" where
  "insert_bundle env p x [] = done_with ([], None)"
| "insert_bundle env p x ((c, alloc) # sl) = do {
     made \<leftarrow> on_ok (NextID tagRefund) (\<lambda>seq.
       let r = new_refund env (FormatID ''re'' (shardOf (pi_id p)) seq) (pi_id p) (ch_id c) alloc (ch_currency c)
                 (x\<lparr>ri_idem := []\<rparr>)
       in on_ok (refundCreate r) (\<lambda>_. done_with r));
     case made of
       Inl e \<Rightarrow> done_with ([], Some e)
     | Inr r \<Rightarrow> on_ok (insert_bundle env p x sl) (\<lambda>(rs, e). done_with (r # rs, e)) }"

definition CreateBundle :: "service_env \<Rightarrow> refund_input \<Rightarrow> (OrderRefund list \<times> order_error option) op" where
  "CreateBundle env x =
     (if ri_pi x = [] then fail (Validation ''payment_intent_id required'')
      else on_ok (piGet (ri_pi x)) (\<lambda>p. case ensureRefundable p of
        Some e \<Rightarrow> fail e
      | None \<Rightarrow> on_ok (chargeListByPI (ri_pi x)) (\<lambda>cs. on_ok (bundle_slots (pi_id p) cs) (\<lambda>sl.
          let tot = slot_total sl; amount = (if ri_amount x \<le> 0 then tot else ri_amount x)
          in if sl = [] \<or> tot \<le> 0 \<or> amount > tot then fail RefundAmountExceeded
             else insert_bundle env p x (allocations amount tot amount sl)))))"

section \<open>Outcomes of a refund\<close>

text \<open>\<open>amount_refunded = amount_refunded + ?\<close>, which the database refuses to overflow.\<close>

definition give_back :: "int \<Rightarrow> OrderCharge \<Rightarrow> OrderCharge" where
  "give_back amount d = d\<lparr>ch_back := ch_back d + amount\<rparr>"

definition chargeAddRefunded :: "string \<Rightarrow> string \<Rightarrow> int \<Rightarrow> OrderCharge op" where
  "chargeAddRefunded i c amount = on_ok
     (sql (\<lambda>s. case find_charge i c s of
        None \<Rightarrow> (Inl ChargeNotFound, s)
      | Some d \<Rightarrow> if \<not> in64 (ch_back d + amount) then (Inl DBError, s)
                  else if amount = 0 then (Inl ChargeNotFound, s)
                  else (Inr (), put_charges i c (give_back amount) s)))
     (\<lambda>_. chargeGet i c)"

text \<open>Only the call that took the refund out of pending goes on; its further writes may fail unnoticed.\<close>

definition add_to_charge :: "string \<Rightarrow> OrderRefund \<Rightarrow> unit op" where
  "add_to_charge i q = ignoring (chargeAddRefunded i (rf_charge q) (rf_amount q))
     (do { r \<leftarrow> chargeGet i (rf_charge q);
           case r of
             Inr c \<Rightarrow> if ch_back c \<ge> ch_amount c
                     then ignoring (chargeUpdateFields i (rf_charge q) (\<lambda>d. d\<lparr>ch_refunded := True\<rparr>)) (done_with ())
                     else done_with ()
           | Inl _ \<Rightarrow> done_with () })"

definition phase_of :: "OrderCharge \<Rightarrow> refund_phase" where
  "phase_of c = (if ch_back c \<ge> ch_got c \<or> ch_back c \<ge> ch_amount c then PhaseFullyRefunded else PhasePartiallyRefunded)"

definition update_phase :: "string \<Rightarrow> OrderRefund \<Rightarrow> unit op" where
  "update_phase i q = do {
     r \<leftarrow> chargeGet i (rf_charge q);
     case r of Inr c \<Rightarrow> ignoring (piUpdateFields i (set_phase (phase_of c))) (done_with ())
             | Inl _ \<Rightarrow> done_with () }"

definition RefundMarkSucceeded :: "service_env \<Rightarrow> string \<Rightarrow> string \<Rightarrow> OrderRefund op" where
  "RefundMarkSucceeded env i r = on_ok (refundCASUpdateStatus i r RfPending RfSucceeded id) (\<lambda>(q, won).
     if \<not> won then done_with q
     else ignoring (if rf_charge q = [] then done_with () else add_to_charge i q)
       (ignoring (if rf_charge q = [] then done_with () else update_phase i q)
         (ignoring (if env_accounting env then on_ok (piGet i) (\<lambda>p. EnqueueRefundSucceeded env p q) else done_with ())
           (done_with q))))"

definition RefundMarkFailed :: "string \<Rightarrow> string \<Rightarrow> string \<Rightarrow> OrderRefund op" where
  "RefundMarkFailed i r reason = on_ok (refundCASUpdateStatus i r RfPending RfFailed (\<lambda>q. q\<lparr>rf_failure := reason\<rparr>))
     (\<lambda>(q, won). if \<not> won then done_with q
        else ignoring (piUpdateFields i (set_phase PhaseRefundFailed)) (done_with q))"

section \<open>Late results\<close>

definition late_row :: "int \<Rightarrow> int \<Rightarrow> OrderCharge \<Rightarrow> OrderCharge" where
  "late_row now amount d = (capture_row amount d)\<lparr>ch_status := ChSucceeded, ch_completed := Some now\<rparr>"

definition compensated :: "OrderRefund \<Rightarrow> bool" where
  "compensated q = (meta_of (rf_metadata q) ''reconcile'' = ''late_charge_success'')"

definition OnLateChargeSuccess :: "service_env \<Rightarrow> string \<Rightarrow> string \<Rightarrow> int \<Rightarrow> unit op" where
  "OnLateChargeSuccess env i c amount =
     ignoring (chargeUpdateFields i c (late_row (env_now env) amount))
     (do {
       u \<leftarrow> PIMarkSucceeded env i c amount;
       _ \<leftarrow> (case u of Inr p \<Rightarrow> if env_accounting env then EnqueueChargeSucceeded env p c amount else done_with ()
                    | Inl _ \<Rightarrow> done_with ());
       on_ok (refundListByPI i) (\<lambda>rs.
         if list_ex compensated rs then done_with ()
         else let missing = foldl (\<lambda>t q. if rf_status q = RfFailed then add64 t (rf_amount q) else t) 0 rs
              in if missing \<le> 0 then done_with ()
                 else on_ok (CreateBundle env \<lparr>ri_pi = i, ri_charge = [], ri_amount = missing,
                       ri_reason = ''requested_by_customer'', ri_metadata = [(''reconcile'', ''late_charge_success'')],
                       ri_idem = []\<rparr>)
                   (\<lambda>(made, e). case e of
                      Some e \<Rightarrow> fail e
                    | None \<Rightarrow> each (\<lambda>q. ignoring (refundUpdateFields i (rf_id q)
                        (\<lambda>q. q\<lparr>rf_auto := True, rf_next := Some (env_now env)\<rparr>)) (done_with ())) made)) })"

section \<open>Workers\<close>

text \<open>The replies of the channel's query; \<open>None\<close> when no channel is registered.\<close>

definition ask_channel :: "service_env \<Rightarrow> channel_call \<Rightarrow> (string + channel_reply) op" where
  "ask_channel env call = (case env_channel env of
     None \<Rightarrow> done_with (Inl ''no channel'')
   | Some ask \<Rightarrow> ignoring (note_call call) (done_with (ask call)))"

definition expire_row :: "service_env \<Rightarrow> OrderCharge \<Rightarrow> unit op" where
  "expire_row env c = on_ok (chargeCASUpdateStatus (ch_pi c) (ch_id c) ChPending ChExpired
       (\<lambda>d. d\<lparr>ch_failure := (''charge_expired'', ''charge expired before terminal''), ch_completed := Some (env_now env)\<rparr>))
     (\<lambda>(_, won). if won then ignoring (PIMarkFailed (ch_pi c) (ch_id c) (''charge_expired'', ''auto expired'')) (done_with ())
                 else done_with ())"

definition expireOne :: "service_env \<Rightarrow> OrderCharge \<Rightarrow> unit op" where
  "expireOne env c = on_ok (ask_channel env (CalledQuery (ch_pi c) (ch_id c))) (\<lambda>r. case r of
     Inl _ \<Rightarrow> expire_row env c
   | Inr q \<Rightarrow>
       if rp_result q = ResSucceeded then
         ignoring (OnLateChargeSuccess env (ch_pi c) (ch_id c) (rp_captured q)) (done_with ())
       else if rp_result q = ResProcessing then done_with ()
       else expire_row env c)"

definition ExpireCharges :: "service_env \<Rightarrow> int \<Rightarrow> unit op" where
  "ExpireCharges env limit = on_ok (chargeListExpired (env_now env) limit) (each (expireOne env))"

definition reconcileOne :: "service_env \<Rightarrow> OrderCharge \<Rightarrow> unit op" where
  "reconcileOne env c = on_ok (ask_channel env (CalledQuery (ch_pi c) (ch_id c))) (\<lambda>r. case r of
     Inl _ \<Rightarrow> done_with ()
   | Inr q \<Rightarrow>
       if rp_result q = ResSucceeded then
         ignoring (OnLateChargeSuccess env (ch_pi c) (ch_id c) (rp_captured q)) (done_with ())
       else if rp_result q = ResFailed then
         ignoring (PIMarkFailed (ch_pi c) (ch_id c) (rp_code q, rp_message q)) (done_with ())
       else done_with ())"

definition ReconcileCharges :: "service_env \<Rightarrow> int \<Rightarrow> int \<Rightarrow> unit op" where
  "ReconcileCharges env staleAfter limit = on_ok (ListPendingForReconcile (env_now env - staleAfter) limit)
     (\<lambda>cs. if env_channel env = None then done_with () else each (reconcileOne env) cs)"

text \<open>\<open>60 * 2 ^ min(retries, 6)\<close> seconds, an hour at most.\<close>

definition refund_backoff :: "int \<Rightarrow> int" where
  "refund_backoff retries =
     (if retries < 0 then 0 else min (60 * 2 ^ nat (min retries 6)) 3600 * 1000000000)"

definition scheduleNext :: "service_env \<Rightarrow> OrderRefund \<Rightarrow> string \<Rightarrow> unit op" where
  "scheduleNext env r reason = ignoring (refundUpdateFields (rf_pi r) (rf_id r)
     (\<lambda>q. q\<lparr>rf_retries := rf_retries r + 1, rf_next := Some (env_now env + refund_backoff (rf_retries r)),
           rf_failure := reason\<rparr>)) (done_with ())"

definition tryOne :: "service_env \<Rightarrow> OrderRefund \<Rightarrow> unit op" where
  "tryOne env r = on_ok (ask_channel env (CalledRefund (rf_pi r) (rf_id r) (rf_amount r))) (\<lambda>ans. case ans of
     Inl msg \<Rightarrow> scheduleNext env r (''channel error: '' @ msg)
   | Inr q \<Rightarrow>
       (case rp_result q of
          ResSucceeded \<Rightarrow> ignoring (RefundMarkSucceeded env (rf_pi r) (rf_id r)) (done_with ())
        | ResProcessing \<Rightarrow> scheduleNext env r ''channel processing''
        | ResFailed \<Rightarrow> ignoring (RefundMarkFailed (rf_pi r) (rf_id r) (rp_message q))
                        (if rf_auto r then scheduleNext env r (rp_message q) else done_with ())
        | _ \<Rightarrow> done_with ()))"

definition sweep :: "service_env \<Rightarrow> int \<Rightarrow> unit op" where
  "sweep env limit = on_ok (ListRetryDue (env_now env) limit)
     (\<lambda>rs. if rs = [] then done_with ()
           else if env_channel env = None then fail (Validation ''payment channel not registered'')
           else each (tryOne env) rs)"

section \<open>Webhooks\<close>

datatype event_type = EvChargeSucceeded | EvChargeFailed | EvRefundSucceeded | EvRefundFailed | EvRequiresAction | EvOther

record webhook_event =
  we_channel :: string
  we_id :: string
  we_type :: event_type
  we_pi :: string
  we_charge :: string
  we_refund :: string
  we_amount :: int

definition isLatePayment :: "string \<Rightarrow> bool op" where
  "isLatePayment i = do {
     r \<leftarrow> piGet i;
     done_with (case r of Inl _ \<Rightarrow> False | Inr p \<Rightarrow> pi_status p = PICanceled \<or> pi_status p = PIFailed) }"

definition dispatch :: "service_env \<Rightarrow> webhook_event \<Rightarrow> unit op" where
  "dispatch env ev = (case we_type ev of
     EvChargeSucceeded \<Rightarrow> on_ok (isLatePayment (we_pi ev)) (\<lambda>late.
       if late then ignoring (OnLateChargeSuccess env (we_pi ev) (we_charge ev) (we_amount ev)) (done_with ())
       else do {
         u \<leftarrow> PIMarkSucceeded env (we_pi ev) (we_charge ev) (we_amount ev);
         case u of
           Inl _ \<Rightarrow> done_with ()
         | Inr p \<Rightarrow> if env_accounting env
                   then ignoring (EnqueueChargeSucceeded env p (we_charge ev) (we_amount ev)) (done_with ())
                   else done_with () })
   | EvChargeFailed \<Rightarrow> ignoring (PIMarkFailed (we_pi ev) (we_charge ev) ([], ''channel reported failure'')) (done_with ())
   | EvRefundSucceeded \<Rightarrow>
       if we_refund ev = [] then done_with ()
       else do {
         u \<leftarrow> RefundMarkSucceeded env (we_pi ev) (we_refund ev);
         case u of
           Inl _ \<Rightarrow> done_with ()
         | Inr q \<Rightarrow> if env_accounting env
                   then ignoring (on_ok (piGet (we_pi ev)) (\<lambda>p. EnqueueRefundSucceeded env p q)) (done_with ())
                   else done_with () }
   | EvRefundFailed \<Rightarrow>
       if we_refund ev = [] then done_with ()
       else ignoring (RefundMarkFailed (we_pi ev) (we_refund ev) ''channel reported refund failure'') (done_with ())
   | EvRequiresAction \<Rightarrow> ignoring (RequireAction (we_pi ev)) (done_with ())
   | EvOther \<Rightarrow> done_with ())"

text \<open>Whether the event id was seen by this process before; if not, it is now.\<close>

definition LoadOrStore :: "string \<Rightarrow> bool op" where
  "LoadOrStore i = State (\<lambda>s. if i \<in> set (dedup s) then (Inr True, s) else (Inr False, s\<lparr>dedup := i # dedup s\<rparr>))"

definition recordInbound :: "webhook_event \<Rightarrow> (InboundWebhook \<times> bool) op" where
  "recordInbound ev = on_ok (NextID ''order.inbound_webhook'') (\<lambda>seq. case EncodeIDStr False 112 0 seq of
     Inl _ \<Rightarrow> fail IDError
   | Inr _ \<Rightarrow> inboundInsert
       \<lparr>iw_channel = we_channel ev, iw_event = we_id ev, iw_pi = we_pi ev, iw_status = WebhookPending\<rparr>)"

text \<open>The parsed event comes in; every outcome but a duplicate marks the recorded row as processed.\<close>

definition Ingest :: "service_env \<Rightarrow> webhook_event \<Rightarrow> unit op" where
  "Ingest env ev =
     (if we_channel ev = [] then fail (Validation ''channel_name required'')
      else do {
        rec \<leftarrow> (if we_id ev = [] then fail InvalidTransition else recordInbound ev);
        let row = (case rec of Inr (w, _) \<Rightarrow> Some w | Inl _ \<Rightarrow> None);
        if (case rec of Inr (w, dup) \<Rightarrow> dup \<and> iw_status w = WebhookSucceeded | Inl _ \<Rightarrow> False) then done_with ()
        else on_ok (if we_id ev = [] then done_with False else LoadOrStore (we_id ev)) (\<lambda>seen.
          if seen then done_with ()
          else ignoring (dispatch env ev)
            (case row of None \<Rightarrow> done_with () | Some w \<Rightarrow> ignoring (MarkProcessed w) (done_with ()))) })"

end
