(* ===== verification/OrderOutbox.thy ===== *)
theory OrderOutbox
  imports OrderRefund
begin

text \<open>
  The consumer of \<open>order-core\<close>'s accounting outbox (\<open>service/accounting_outbox_worker.go\<close>,
  \<open>repo/accounting_outbox.go\<close>): due rows are claimed under a fresh token, booked, and marked sent, to be
  retried later, or failed. The accounting client is a function from a row to its error, if any; the
  rows of a batch are processed in the order they are read.
\<close>

section \<open>Statements\<close>

definition table_of :: "AccountingOutbox \<Rightarrow> shard_id" where
  "table_of r = shardOf (ob_pi r)"

definition claimable :: "int \<Rightarrow> shard_id \<Rightarrow> AccountingOutbox \<Rightarrow> bool" where
  "claimable now sh r = (table_of r = sh \<and> ob_status r = OutboxPending \<and> ob_next r \<le> now \<and> ob_token r = [])"

text \<open>\<open>UPDATE .. ORDER BY next_attempt_at, created LIMIT n\<close> on one table.\<close>

definition claim_table :: "int \<Rightarrow> int \<Rightarrow> string \<Rightarrow> int \<Rightarrow> shard_id \<Rightarrow> int op" where
  "claim_table now n token lease sh = sql (\<lambda>s.
     let due = sort_key ob_next (sort_key ob_created (filter (claimable now sh) (outbox s)));
         picked = take (nat n) due
     in (Inr (int (length picked)), s\<lparr>outbox := update_where (\<lambda>r. claimable now sh r \<and> ob_id r \<in> ob_id ` set picked)
           (\<lambda>r. r\<lparr>ob_token := token, ob_next := now + lease\<rparr>) (outbox s)\<rparr>))"

fun claim_tables :: "int \<Rightarrow> int \<Rightarrow> string \<Rightarrow> int \<Rightarrow> shard_id list \<Rightarrow> int op" where
  "claim_tables now n token lease [] = done_with 0"
| "claim_tables now n token lease (sh # shs) =
     on_ok (claim_table now n token lease sh) (\<lambda>k. on_ok (claim_tables now n token lease shs) (\<lambda>m. done_with (k + m)))"

definition ClaimBatch :: "string \<Rightarrow> int \<Rightarrow> int \<Rightarrow> int \<Rightarrow> int op" where
  "ClaimBatch token now n lease = claim_tables now (if n \<le> 0 then 50 else n) token
     (if lease \<le> 0 then 300000000000 else lease) (GetAllShards NewRouter)"

fun claimed_rows :: "string \<Rightarrow> shard_id list \<Rightarrow> AccountingOutbox list op" where
  "claimed_rows token [] = done_with []"
| "claimed_rows token (sh # shs) =
     on_ok (sql (\<lambda>s. (Inr (filter (\<lambda>r. table_of r = sh \<and> ob_token r = token) (outbox s)), s)))
       (\<lambda>rs. on_ok (claimed_rows token shs) (\<lambda>qs. done_with (rs @ qs)))"

definition ListByClaimToken :: "string \<Rightarrow> AccountingOutbox list op" where
  "ListByClaimToken token = (if token = [] then done_with [] else claimed_rows token (GetAllShards NewRouter))"

definition markCondition :: "AccountingOutbox \<Rightarrow> AccountingOutbox \<Rightarrow> bool" where
  "markCondition o' r = (table_of r = table_of o' \<and> ob_id r = ob_id o' \<and> (ob_token o' \<noteq> [] \<longrightarrow> ob_token r = ob_token o'))"

definition mark_row :: "(AccountingOutbox \<Rightarrow> AccountingOutbox) \<Rightarrow> AccountingOutbox \<Rightarrow> unit op" where
  "mark_row f o' = sql (\<lambda>s. if list_ex (markCondition o') (outbox s)
     then (Inr (), s\<lparr>outbox := update_where (markCondition o') f (outbox s)\<rparr>) else (Inl DBError, s))"

definition MarkSent :: "int \<Rightarrow> AccountingOutbox \<Rightarrow> unit op" where
  "MarkSent now = mark_row (\<lambda>r. r\<lparr>ob_status := OutboxSent, ob_sent := Some now, ob_token := []\<rparr>)"

definition outboxMarkRetry :: "int \<Rightarrow> string \<Rightarrow> AccountingOutbox \<Rightarrow> unit op" where
  "outboxMarkRetry next msg =
     mark_row (\<lambda>r. r\<lparr>ob_attempts := ob_attempts r + 1, ob_next := next, ob_error := msg, ob_token := []\<rparr>)"

definition outboxMarkFailed :: "string \<Rightarrow> AccountingOutbox \<Rightarrow> unit op" where
  "outboxMarkFailed msg = mark_row (\<lambda>r. r\<lparr>ob_status := OutboxFailed, ob_error := msg, ob_token := []\<rparr>)"

section \<open>The worker\<close>

record outbox_config =
  oc_batch :: int
  oc_poll :: int
  oc_max_attempts :: int
  oc_base :: int
  oc_max_backoff :: int

definition NewAccountingOutboxWorker :: "outbox_config \<Rightarrow> outbox_config" where
  "NewAccountingOutboxWorker c = c\<lparr>
     oc_batch := (if oc_batch c \<le> 0 then 100 else oc_batch c),
     oc_poll := (if oc_poll c \<le> 0 then 5000000000 else oc_poll c),
     oc_max_attempts := (if oc_max_attempts c \<le> 0 then 10 else oc_max_attempts c),
     oc_base := (if oc_base c \<le> 0 then 2000000000 else oc_base c),
     oc_max_backoff := (if oc_max_backoff c \<le> 0 then 300000000000 else oc_max_backoff c)\<rparr>"

definition perTableClaimLimit :: "outbox_config \<Rightarrow> int" where
  "perTableClaimLimit c = (let per = quot64 (oc_batch c) 100 in if per < 1 then 1 else per)"

fun backoff_loop :: "nat \<Rightarrow> int \<Rightarrow> int \<Rightarrow> int" where
  "backoff_loop 0 limit b = b"
| "backoff_loop (Suc n) limit b = (let c = mul64 b 2 in if c > limit then limit else backoff_loop n limit c)"

definition process :: "outbox_config \<Rightarrow> int \<Rightarrow> (AccountingOutbox \<Rightarrow> string option) \<Rightarrow> AccountingOutbox \<Rightarrow> unit op" where
  "process c now book row = (case book row of
     None \<Rightarrow> ignoring (MarkSent now row) (done_with ())
   | Some msg \<Rightarrow>
       (let attempts = ob_attempts row + 1
        in if attempts \<ge> oc_max_attempts c then ignoring (outboxMarkFailed msg row) (done_with ())
           else ignoring (outboxMarkRetry (now + backoff_loop (nat attempts) (oc_max_backoff c) (oc_base c)) msg row)
                  (done_with ())))"

text \<open>The number of rows fetched. Without a client the rows stay claimed.\<close>

definition outboxTick :: "outbox_config \<Rightarrow> string \<Rightarrow> int \<Rightarrow> (AccountingOutbox \<Rightarrow> string option) option \<Rightarrow> int op" where
  "outboxTick c token now client = do {
     r \<leftarrow> ClaimBatch token now (perTableClaimLimit c) 300000000000;
     case r of
       Inl _ \<Rightarrow> done_with 0
     | Inr claimed \<Rightarrow>
         if claimed = 0 then done_with 0
         else do {
           l \<leftarrow> ListByClaimToken token;
           case l of
             Inl _ \<Rightarrow> done_with claimed
           | Inr rows \<Rightarrow>
               (case client of
                  None \<Rightarrow> done_with (int (length rows))
                | Some book \<Rightarrow> ignoring (each (process c now book) rows) (done_with (int (length rows)))) } }"

text \<open>The wait before the next round: none after a full batch, the poll interval after a partial one, doubled
  to at most ten seconds when nothing was due. The flag is whether to go on at once.\<close>

definition next_interval :: "outbox_config \<Rightarrow> int \<Rightarrow> int \<Rightarrow> int \<times> bool" where
  "next_interval c interval fetched =
     (if fetched \<ge> oc_batch c then (oc_poll c, True)
      else if fetched > 0 then (oc_poll c, False)
      else (min (mul64 interval 2) 10000000000, False))"

section \<open>The archiver\<close>

fun purge_first :: "nat \<Rightarrow> (AccountingOutbox \<Rightarrow> bool) \<Rightarrow> AccountingOutbox list \<Rightarrow> AccountingOutbox list" where
  "purge_first n P [] = []"
| "purge_first n P (r # rs) =
     (if P r then (case n of 0 \<Rightarrow> r # rs | Suc m \<Rightarrow> purge_first m P rs) else r # purge_first n P rs)"

definition purgeable :: "int \<Rightarrow> shard_id \<Rightarrow> AccountingOutbox \<Rightarrow> bool" where
  "purgeable limit sh r = (table_of r = sh \<and> ob_status r = OutboxSent \<and> (case ob_sent r of Some t \<Rightarrow> t < limit | None \<Rightarrow> False))"

fun purge_tables :: "int \<Rightarrow> nat \<Rightarrow> shard_id list \<Rightarrow> int op" where
  "purge_tables limit n [] = done_with 0"
| "purge_tables limit n (sh # shs) =
     on_ok (sql (\<lambda>s. let left = purge_first n (purgeable limit sh) (outbox s)
         in (Inr (int (length (outbox s)) - int (length left)), s\<lparr>outbox := left\<rparr>)))
       (\<lambda>k. on_ok (purge_tables limit n shs) (\<lambda>m. done_with (k + m)))"

definition PurgeSentBefore :: "int \<Rightarrow> int \<Rightarrow> int op" where
  "PurgeSentBefore limit n = purge_tables limit (nat (if n \<le> 0 then 1000 else n)) (GetAllShards NewRouter)"

text \<open>The numbers deleted and dead only feed the log.\<close>

definition archiveTick :: "int \<Rightarrow> int \<Rightarrow> int \<Rightarrow> unit op" where
  "archiveTick now retain batch = ignoring (PurgeSentBefore (now - retain) batch) (done_with ())"

end
