(* ===== verification/OrderFrame.thy ===== *)
theory OrderFrame
  imports OrderRefund
begin

text \<open>
  How the operations of \<open>order-core\<close> are reasoned about. A relation between stores that every statement
  respects is respected by every operation made of them (locale \<open>statement_relation\<close>, a client of the
  library's \<open>state_io_rel\<close>); pre- and postconditions are composed with \<open>ensures\<close>.
\<close>

section \<open>Running an operation\<close>

lemma run_done_with [simp]: "run_state (done_with x) s = (Inr x, s)"
  by (simp add: done_with_def)

lemma run_fail [simp]: "run_state (fail e) s = (Inl e, s)"
  by (simp add: fail_def)

lemma run_on_ok:
  "run_state (on_ok m k) s =
     (case run_state m s of (Inl e, s') \<Rightarrow> (Inl e, s') | (Inr x, s') \<Rightarrow> run_state (k x) s')"
  by (auto simp: on_ok_def split: prod.splits sum.splits)

lemma run_ignoring [simp]: "run_state (ignoring m k) s = run_state k (snd (run_state m s))"
  by (simp add: ignoring_def case_prod_beta)

lemma run_note_call [simp]:
  "run_state (note_call c) s = (Inr (), s\<lparr>channel_log := channel_log s @ [c]\<rparr>)"
  by (simp add: note_call_def)

lemma run_sql:
  "run_state (sql f) s = (case faults s of [] \<Rightarrow> f s
     | b # bs \<Rightarrow> if b then (Inl DBError, s\<lparr>faults := bs\<rparr>) else f (s\<lparr>faults := bs\<rparr>))"
  by (simp add: sql_def)

section \<open>Relations that statements respect\<close>

locale statement_relation =
  fixes R :: "order_db \<Rightarrow> order_db \<Rightarrow> bool"
  assumes refl: "R s s"
    and trans: "R s t \<Longrightarrow> R t u \<Longrightarrow> R s u"
    and of_faults: "R s (s\<lparr>faults := fs\<rparr>)"
    and of_sequence: "R s (s\<lparr>sequence_of := g\<rparr>)"
begin

abbreviation obeys :: "(order_db, 'a) state \<Rightarrow> bool" where
  "obeys m \<equiv> state_io_rel R m"

lemma obeysI: "(\<And>s. R s (snd (run_state m s))) \<Longrightarrow> obeys m"
  by (simp add: state_io_rel_def)

lemma obeysD: "obeys m \<Longrightarrow> R s (snd (run_state m s))"
  by (simp add: state_io_rel_def)

lemma r_return: "obeys (State_Monad.return x)"
  by (rule obeysI) (simp add: refl)

lemma r_done: "obeys (done_with x)"
  by (rule obeysI) (simp add: refl)

lemma r_fail: "obeys (fail e)"
  by (rule obeysI) (simp add: refl)

lemma r_bind: "obeys m \<Longrightarrow> (\<And>x. obeys (f x)) \<Longrightarrow> obeys (State_Monad.bind m f)"
  by (rule obeysI) (auto simp: case_prod_beta intro: trans dest: obeysD)

lemma r_on_ok: "obeys m \<Longrightarrow> (\<And>x. obeys (k x)) \<Longrightarrow> obeys (on_ok m k)"
  unfolding on_ok_def by (rule r_bind) (auto split: sum.split simp: r_fail)

lemma r_ignoring: "obeys m \<Longrightarrow> obeys k \<Longrightarrow> obeys (ignoring m k)"
  unfolding ignoring_def by (rule r_bind)

lemma r_each: "(\<And>x. obeys (f x)) \<Longrightarrow> obeys (each f xs)"
  by (induction xs) (auto intro: r_done r_ignoring)

lemma r_sql: "(\<And>s. R s (snd (f s))) \<Longrightarrow> obeys (sql f)"
  by (rule obeysI) (auto simp: run_sql of_faults split: list.split intro: trans [OF of_faults])

lemma r_read: "(\<And>s. snd (f s) = s) \<Longrightarrow> obeys (sql f)"
  by (rule r_sql) (simp add: refl)

lemma r_NextID: "obeys (NextID tag)"
proof (rule obeysI)
  fix s
  have "R s (s\<lparr>faults := bs, sequence_of := g\<rparr>)" for bs g
    using trans [OF of_faults [of s bs] of_sequence [of "s\<lparr>faults := bs\<rparr>" g]] by simp
  then show "R s (snd (run_state (NextID tag) s))"
    using of_faults [of s] of_sequence [of s] by (simp add: NextID_def split: list.split)
qed

lemma r_if: "(b \<Longrightarrow> obeys m) \<Longrightarrow> (\<not> b \<Longrightarrow> obeys n) \<Longrightarrow> obeys (if b then m else n)"
  by simp

lemma r_option: "obeys m \<Longrightarrow> (\<And>x. obeys (k x)) \<Longrightarrow> obeys (case x of None \<Rightarrow> m | Some x \<Rightarrow> k x)"
  by (simp split: option.split)

lemma r_sum: "(\<And>e. obeys (l e)) \<Longrightarrow> (\<And>x. obeys (k x)) \<Longrightarrow> obeys (case x of Inl e \<Rightarrow> l e | Inr x \<Rightarrow> k x)"
  by (simp split: sum.split)

lemma r_prod: "(\<And>x y. obeys (k x y)) \<Longrightarrow> obeys (case p of (x, y) \<Rightarrow> k x y)"
  by (simp split: prod.split)

lemma r_Let: "(\<And>x. obeys (f x)) \<Longrightarrow> obeys (Let x f)"
  by simp

lemmas r_structure = r_return r_done r_fail r_on_ok r_ignoring r_each r_NextID r_if r_option r_sum r_prod r_Let r_bind

text \<open>Reads respect every relation.\<close>

lemma r_reads:
  "obeys (piGet i)" "obeys (piGetByIdempotencyKey m b k)" "obeys (chargeGet i c)" "obeys (chargeListByPI i)"
  "obeys (refundGet i r)" "obeys (refundGetByIdempotencyKey i k)" "obeys (refundListByPI i)"
  "obeys (SumActiveByCharge i c)" "obeys (actionGet i a)" "obeys (piListExpired now limit)"
  "obeys (chargeListExpired now limit)" "obeys (ListPendingForReconcile now limit)" "obeys (ListRetryDue now limit)"
  by (auto simp: piGet_def piGetByIdempotencyKey_def chargeGet_def chargeListByPI_def refundGet_def
      refundGetByIdempotencyKey_def refundListByPI_def SumActiveByCharge_def actionGet_def piListExpired_def
      chargeListExpired_def ListPendingForReconcile_def ListRetryDue_def Let_def r_fail
      intro!: r_read split: option.splits)

end

section \<open>Pre- and postconditions\<close>

definition ensures :: "(order_db \<Rightarrow> bool) \<Rightarrow> (order_db, 'a) state \<Rightarrow> ('a \<Rightarrow> order_db \<Rightarrow> bool) \<Rightarrow> bool" where
  "ensures P m Q = (\<forall>s. P s \<longrightarrow> Q (fst (run_state m s)) (snd (run_state m s)))"

lemma ensuresI: "(\<And>s. P s \<Longrightarrow> Q (fst (run_state m s)) (snd (run_state m s))) \<Longrightarrow> ensures P m Q"
  by (simp add: ensures_def)

lemma ensuresD: "ensures P m Q \<Longrightarrow> P s \<Longrightarrow> Q (fst (run_state m s)) (snd (run_state m s))"
  by (simp add: ensures_def)

lemma ensures_weaken:
  "ensures P m Q \<Longrightarrow> (\<And>s. P' s \<Longrightarrow> P s) \<Longrightarrow> (\<And>x s. Q x s \<Longrightarrow> Q' x s) \<Longrightarrow> ensures P' m Q'"
  by (simp add: ensures_def)

lemma ensures_return: "ensures (Q x) (State_Monad.return x) Q"
  by (simp add: ensures_def)

lemma ensures_done: "ensures (Q (Inr x)) (done_with x) Q"
  by (simp add: ensures_def)

lemma ensures_fail: "ensures (Q (Inl e)) (fail e) Q"
  by (simp add: ensures_def)

lemma ensures_bind: "ensures P m M \<Longrightarrow> (\<And>x. ensures (M x) (f x) Q) \<Longrightarrow> ensures P (State_Monad.bind m f) Q"
  by (simp add: ensures_def case_prod_beta)

lemma ensures_on_ok:
  assumes m: "ensures P m M" and err: "\<And>e s. M (Inl e) s \<Longrightarrow> Q (Inl e) s"
    and k: "\<And>x. ensures (M (Inr x)) (k x) Q"
  shows "ensures P (on_ok m k) Q"
proof (rule ensuresI)
  fix s assume "P s"
  then have r: "M (fst (run_state m s)) (snd (run_state m s))"
    by (rule ensuresD [OF m])
  show "Q (fst (run_state (on_ok m k) s)) (snd (run_state (on_ok m k) s))"
  proof (cases "run_state m s")
    case (Pair r t)
    with r show ?thesis
      by (cases r) (simp_all add: run_on_ok err ensuresD [OF k])
  qed
qed

lemma ensures_ignoring: "ensures P m (\<lambda>_. M) \<Longrightarrow> ensures M k Q \<Longrightarrow> ensures P (ignoring m k) Q"
  unfolding ignoring_def by (rule ensures_bind)

text \<open>A stable predicate is kept.\<close>

definition keeps :: "(order_db \<Rightarrow> bool) \<Rightarrow> (order_db, 'a) state \<Rightarrow> bool" where
  "keeps P m = ensures P m (\<lambda>_. P)"

lemma keeps_by_relation:
  "state_io_rel R m \<Longrightarrow> (\<And>s t. R s t \<Longrightarrow> P s \<Longrightarrow> P t) \<Longrightarrow> keeps P m"
  by (auto simp: keeps_def ensures_def state_io_rel_def)

lemma keeps_ensures: "keeps P m \<Longrightarrow> ensures P m (\<lambda>_. P)"
  by (simp add: keeps_def)

lemma ensures_if: "(b \<Longrightarrow> ensures P m Q) \<Longrightarrow> (\<not> b \<Longrightarrow> ensures P n Q) \<Longrightarrow> ensures P (if b then m else n) Q"
  by simp

lemma keeps_rules:
  "keeps P (State_Monad.return x)" "keeps P (done_with y)" "keeps P (fail e)"
  "keeps P m \<Longrightarrow> (\<And>x. keeps P (f x)) \<Longrightarrow> keeps P (State_Monad.bind m f)"
  "keeps P n \<Longrightarrow> (\<And>x. keeps P (k x)) \<Longrightarrow> keeps P (on_ok n k)"
  "keeps P n \<Longrightarrow> keeps P l \<Longrightarrow> keeps P (ignoring n l)"
  unfolding keeps_def
  by (auto intro: ensures_return ensures_done ensures_fail ensures_bind ensures_on_ok ensures_ignoring)

lemma keeps_each: "(\<And>x. keeps P (f x)) \<Longrightarrow> keeps P (each f xs)"
  by (induction xs) (auto intro: keeps_rules)

lemma ensures_sql:
  assumes "\<And>s bs. P s \<Longrightarrow> P (s\<lparr>faults := bs\<rparr>)" "\<And>s. P s \<Longrightarrow> Q (Inl DBError) s"
    "\<And>s. P s \<Longrightarrow> Q (fst (f s)) (snd (f s))"
  shows "ensures P (sql f) Q"
  by (rule ensuresI) (use assms in \<open>auto simp: run_sql split: list.split\<close>)

lemma keeps_cases:
  "(b \<Longrightarrow> keeps P m) \<Longrightarrow> (\<not> b \<Longrightarrow> keeps P n) \<Longrightarrow> keeps P (if b then m else n)"
  "keeps P m \<Longrightarrow> (\<And>x. keeps P (k x)) \<Longrightarrow> keeps P (case x of None \<Rightarrow> m | Some x \<Rightarrow> k x)"
  "(\<And>e. keeps P (l e)) \<Longrightarrow> (\<And>x. keeps P (k' x)) \<Longrightarrow> keeps P (case y of Inl e \<Rightarrow> l e | Inr x \<Rightarrow> k' x)"
  "(\<And>x y. keeps P (g x y)) \<Longrightarrow> keeps P (case p of (x, y) \<Rightarrow> g x y)"
  by (simp_all split: option.split sum.split prod.split)

lemma keeps_result:
  "\<lbrakk>keeps P a; keeps P b; keeps P c; keeps P d; keeps P e; keeps P f\<rbrakk> \<Longrightarrow> keeps P (case x of ResSucceeded \<Rightarrow> a
     | ResAuthorized \<Rightarrow> b | ResProcessing \<Rightarrow> c | ResRequiresAction \<Rightarrow> d | ResFailed \<Rightarrow> e | ResOther \<Rightarrow> f)"
  by (cases x) simp_all

lemmas keeps_basic = keeps_rules(2,3,5,6) keeps_cases keeps_result keeps_rules(4) keeps_each

end
