(* ===== verification/OrderLife.thy ===== *)
theory OrderLife
  imports OrderFrame OrderOutbox "HOL-Library.Sublist"
begin

text \<open>
  What every operation of \<open>order-core\<close> may do to an order. The requests of the service and the ticks of
  its workers are one datatype, a history a list of them; a relation that the writes of \<open>internal/repo\<close>
  respect is respected by every history (locales \<open>order_relation\<close> and \<open>service_relation\<close>). On the model
  this gives the refinement of the abstract life of an order.
\<close>

section \<open>The service\<close>

datatype service_request =
    ReqCreate create_input
  | ReqUpdate string string "metadata option"
  | ReqConfirm string string string
  | ReqCombined string string "(string \<times> int) list"
  | ReqCapture string int
  | ReqCancel string string
  | ReqSubmit string string metadata
  | ReqRefund refund_input
  | ReqBundle refund_input
  | ReqWebhook webhook_event
  | TickIntents int
  | TickCharges int
  | TickReconcile int int
  | TickRefunds int
  | TickOutbox outbox_config string "(AccountingOutbox \<Rightarrow> string option) option"
  | TickArchive int int

fun serve :: "service_env \<Rightarrow> service_request \<Rightarrow> unit op" where
  "serve env (ReqCreate x) = ignoring (CreateIntent env x) (done_with ())"
| "serve env (ReqUpdate i d m) = ignoring (UpdateIntent i d m) (done_with ())"
| "serve env (ReqConfirm i method secret) = ignoring (Confirm env i method secret) (done_with ())"
| "serve env (ReqCombined i secret splits) = ignoring (ConfirmCombined env i secret splits) (done_with ())"
| "serve env (ReqCapture i amount) = ignoring (CaptureIntent env i amount) (done_with ())"
| "serve env (ReqCancel i reason) = ignoring (CancelIntent env i reason) (done_with ())"
| "serve env (ReqSubmit i a given) = ignoring (Submit env i a given) (done_with ())"
| "serve env (ReqRefund x) = ignoring (CreateRefund env x) (done_with ())"
| "serve env (ReqBundle x) = ignoring (CreateBundle env x) (done_with ())"
| "serve env (ReqWebhook ev) = Ingest env ev"
| "serve env (TickIntents n) = ignoring (ExpireOverdue env n) (done_with ())"
| "serve env (TickCharges n) = ExpireCharges env n"
| "serve env (TickReconcile stale n) = ReconcileCharges env stale n"
| "serve env (TickRefunds n) = sweep env n"
| "serve env (TickOutbox c token client) = ignoring (outboxTick c token (env_now env) client) (done_with ())"
| "serve env (TickArchive retain n) = archiveTick (env_now env) retain n"

text \<open>A history, each request with the environment it met.\<close>

fun serve_all :: "(service_env \<times> service_request) list \<Rightarrow> order_db \<Rightarrow> order_db" where
  "serve_all [] s = s"
| "serve_all ((env, q) # h) s = serve_all h (snd (run_state (serve env q) s))"

text \<open>An empty store, with the faults it will meet.\<close>

definition order_start :: "bool list \<Rightarrow> order_db" where
  "order_start fs = \<lparr>intents = [], charges = [], refunds = [], actions = [], outbox = [], inbound = [],
     sequence_of = (\<lambda>_. 0), faults = fs, channel_log = [], dedup = []\<rparr>"

section \<open>The writes\<close>

definition row_update :: "PaymentIntent \<Rightarrow> PaymentIntent \<Rightarrow> bool" where
  "row_update p q = (pi_id q = pi_id p \<and> pi_mch q = pi_mch p \<and> pi_idem q = pi_idem p \<and>
     (pi_status q = pi_status p \<and> pi_received q = pi_received p \<or> CanTransition (pi_status p) (pi_status q)))"

definition minor :: "(PaymentIntent \<Rightarrow> PaymentIntent) \<Rightarrow> bool" where
  "minor f = (\<forall>p. pi_id (f p) = pi_id p \<and> pi_mch (f p) = pi_mch p \<and> pi_idem (f p) = pi_idem p \<and>
     pi_status (f p) = pi_status p \<and> pi_received (f p) = pi_received p)"

fun is_charge_call :: "channel_call \<Rightarrow> bool" where
  "is_charge_call (CalledCharge _ _ _) = True"
| "is_charge_call _ = False"

definition booking :: "AccountingOutbox \<Rightarrow> accounting_event \<times> string \<times> string \<times> int" where
  "booking r = (ob_event r, ob_pi r, ob_request r, ob_amount r)"

lemma find_pi_put:
  "find_pi j (put_pi q s) = (if j = pi_id q then map_option (\<lambda>_. q) (find_pi j s) else find_pi j s)"
proof -
  have "List.find (\<lambda>p. pi_id p = j) (map (\<lambda>r. if pi_id r = pi_id q then q else r) ps) =
    (if j = pi_id q then map_option (\<lambda>_. q) (List.find (\<lambda>p. pi_id p = j) ps) else List.find (\<lambda>p. pi_id p = j) ps)" for ps
    by (induction ps) auto
  then show ?thesis by (simp add: find_pi_def put_pi_def select_one_def update_where_def)
qed

lemma find_pi_id: "find_pi i s = Some p \<Longrightarrow> pi_id p = i"
  by (auto simp: find_pi_def dest: select_one_Some)

lemma find_pi_new:
  assumes "\<not> list_ex (pi_clash p) (intents s)"
  shows "find_pi j (s\<lparr>intents := intents s @ [p]\<rparr>) = (if j = pi_id p then Some p else find_pi j s)"
    "find_pi (pi_id p) s = None"
proof -
  have n: "\<forall>q\<in>set (intents s). pi_id q \<noteq> pi_id p" using assms by (auto simp: list_ex_iff pi_clash_def)
  then show "find_pi (pi_id p) s = None" by (auto simp: find_pi_def select_one_None)
  have "List.find (\<lambda>q. pi_id q = j) (ps @ [p]) =
      (if j = pi_id p then Some p else List.find (\<lambda>q. pi_id q = j) ps)" if "\<forall>q\<in>set ps. pi_id q \<noteq> pi_id p" for ps
    using that by (induction ps) auto
  with n show "find_pi j (s\<lparr>intents := intents s @ [p]\<rparr>) = (if j = pi_id p then Some p else find_pi j s)"
    by (simp add: find_pi_def select_one_def)
qed

lemma subseq_purge_first: "subseq (purge_first n P rs) rs"
proof (induction rs arbitrary: n)
  case (Cons r rs)
  from Cons [of n] Cons [of "n - 1"] show ?case by (cases n) auto
qed simp

locale order_relation = statement_relation +
  assumes of_dedup: "R s (s\<lparr>dedup := d\<rparr>)"
    and of_charges: "R s (s\<lparr>charges := cs\<rparr>)"
    and of_refunds: "R s (s\<lparr>refunds := rs\<rparr>)"
    and of_actions: "R s (s\<lparr>actions := as\<rparr>)"
    and of_inbound: "R s (s\<lparr>inbound := ws\<rparr>)"
    and of_intent: "find_pi (pi_id p) s = Some p \<Longrightarrow> row_update p q \<Longrightarrow> R s (put_pi q s)"
    and of_new: "\<not> list_ex (pi_clash p) (intents s) \<Longrightarrow> pi_status p = PICreated \<Longrightarrow> R s (s\<lparr>intents := intents s @ [p]\<rparr>)"
    and of_call: "\<not> is_charge_call c \<Longrightarrow> R s (s\<lparr>channel_log := channel_log s @ [c]\<rparr>)"
    and of_row: "ob_event r \<noteq> EventChargeSucceeded \<Longrightarrow> R s (s\<lparr>outbox := outbox s @ [r]\<rparr>)"
    and of_marks: "(\<And>r. booking (f r) = booking r) \<Longrightarrow> R s (s\<lparr>outbox := map f (outbox s)\<rparr>)"
    and of_purge: "subseq obs (outbox s) \<Longrightarrow> R s (s\<lparr>outbox := obs\<rparr>)"
begin

lemma r_piUpdateStatus:
  assumes f: "\<And>p. pi_status (f p) = pi_status p"
  shows "obeys (piUpdateStatus i expected target f)"
  unfolding piUpdateStatus_def
proof (rule r_sql)
  fix s
  have "R s (put_pi (written_columns p (f (p\<lparr>pi_status := target\<rparr>))) s)"
    if "find_pi i s = Some p" "CanTransition (pi_status p) target" for p
    using that by (intro of_intent) (auto simp: row_update_def written_columns_def f dest: find_pi_id)
  then show "R s (snd (case find_pi i s of None \<Rightarrow> (Inl PaymentIntentNotFound, s)
      | Some p \<Rightarrow> if case expected of Some e \<Rightarrow> pi_status p \<noteq> e | None \<Rightarrow> False then (Inl InvalidTransition, s)
          else if \<not> CanTransition (pi_status p) target then (Inl InvalidTransition, s)
          else let q = f (p\<lparr>pi_status := target\<rparr>) in (Inr q, put_pi (written_columns p q) s)))"
    by (auto simp: Let_def refl split: option.split)
qed

lemma r_piUpdateFields:
  assumes "minor f"
  shows "obeys (piUpdateFields i f)"
proof -
  have "R s (put_pi (f p) s)" if "find_pi i s = Some p" for s p
    using that assms by (intro of_intent) (auto simp: row_update_def minor_def dest: find_pi_id)
  then show ?thesis
    unfolding piUpdateFields_def by (intro r_on_ok r_sql r_reads) (auto simp: refl split: option.split)
qed

lemma r_piCreate: "pi_status p = PICreated \<Longrightarrow> obeys (piCreate p)"
  unfolding piCreate_def by (rule r_sql) (auto simp: refl of_new)

lemma r_charge_writes:
  "obeys (chargeCreate c)" "obeys (chargeUpdateFields i j f)" "obeys (chargeCASUpdateStatus i j x y f)"
  "obeys (chargeAddRefunded i j n)"
  unfolding chargeCreate_def chargeUpdateFields_def chargeCASUpdateStatus_def chargeAddRefunded_def
  by (intro r_structure r_reads r_sql; auto simp: put_charges_def refl of_charges split: option.split)+

lemma r_refund_writes:
  "obeys (refundCreate r)" "obeys (refundUpdateFields i j g)" "obeys (refundCASUpdateStatus i j x y g)"
  unfolding refundCreate_def refundUpdateFields_def refundCASUpdateStatus_def
  by (intro r_structure r_reads r_sql; auto simp: put_refunds_def refl of_refunds split: option.split)+

lemma r_action_writes:
  "obeys (actionCreate a)" "obeys (actionUpdateFields i j h)" "obeys (IncrementAttempt i j)"
  unfolding actionCreate_def actionUpdateFields_def IncrementAttempt_def
  by (intro r_structure r_reads r_sql; auto simp: refl of_actions split: option.split)+

lemma r_inbound_writes:
  "obeys (inboundInsert w)" "obeys (MarkProcessed w)" "obeys (LoadOrStore e)"
proof -
  show "obeys (inboundInsert w)"
    unfolding inboundInsert_def
    by (intro r_structure r_sql) (auto simp: refl of_inbound split: option.split)
  show "obeys (MarkProcessed w)"
    unfolding MarkProcessed_def by (rule r_sql) (simp add: of_inbound)
  show "obeys (LoadOrStore e)"
    by (rule obeysI) (simp add: LoadOrStore_def refl of_dedup)
qed

lemma of_update_where: "(\<And>r. booking (f r) = booking r) \<Longrightarrow> R s (s\<lparr>outbox := update_where P f (outbox s)\<rparr>)"
  unfolding update_where_def by (rule of_marks) simp

lemma r_outbox_marks:
  "obeys (inlineMarkSent now r)" "obeys (MarkSent now r)" "obeys (outboxMarkRetry t m r)" "obeys (outboxMarkFailed m r)"
  "obeys (claim_table now n token lease sh)"
  unfolding inlineMarkSent_def MarkSent_def outboxMarkRetry_def outboxMarkFailed_def mark_row_def claim_table_def Let_def
  by (rule r_sql; auto simp: refl booking_def intro!: of_update_where)+

lemma r_outboxInsert: "ob_event r \<noteq> EventChargeSucceeded \<Longrightarrow> obeys (acctOutboxInsert now r)"
  unfolding acctOutboxInsert_def by (intro r_structure r_sql) (auto simp: refl of_row)

lemma r_note_call: "\<not> is_charge_call c \<Longrightarrow> obeys (note_call c)"
  by (rule obeysI) (simp add: of_call)

lemmas r_writes = r_charge_writes r_refund_writes r_action_writes r_inbound_writes r_outbox_marks

end

section \<open>The operations\<close>

context order_relation begin

lemma r_result:
  "\<lbrakk>obeys a; obeys b; obeys c; obeys d; obeys e; obeys f\<rbrakk> \<Longrightarrow> obeys (case x of ResSucceeded \<Rightarrow> a | ResAuthorized \<Rightarrow> b
     | ResProcessing \<Rightarrow> c | ResRequiresAction \<Rightarrow> d | ResFailed \<Rightarrow> e | ResOther \<Rightarrow> f)"
  by (cases x) simp_all

lemma r_event:
  "\<lbrakk>obeys a; obeys b; obeys c; obeys d; obeys e; obeys f\<rbrakk> \<Longrightarrow> obeys (case x of EvChargeSucceeded \<Rightarrow> a
     | EvChargeFailed \<Rightarrow> b | EvRefundSucceeded \<Rightarrow> c | EvRefundFailed \<Rightarrow> d | EvRequiresAction \<Rightarrow> e | EvOther \<Rightarrow> f)"
  by (cases x) simp_all

lemmas r_basic = r_structure r_result r_writes r_reads

lemma minor_rules [simp]:
  "minor (set_phase ph)" "minor (\<lambda>p. p\<lparr>pi_active := g p\<rparr>)" "minor (\<lambda>p. p\<lparr>pi_details := h p, pi_metadata := k p\<rparr>)"
  "minor (\<lambda>p. p\<lparr>pi_active := g p, pi_details := h p\<rparr>)"
  by (auto simp: minor_def set_phase_def)

lemma status_of_drop_active [simp]: "pi_status (drop_active c p) = pi_status p"
  by (simp add: drop_active_def)

lemma r_intent_rows:
  "obeys (RequireAction i)" "obeys (cancel_row i now reason)"
  unfolding RequireAction_def cancel_row_def by (intro r_piUpdateStatus; simp)+

lemma r_enqueue: "ob_event r \<noteq> EventChargeSucceeded \<Longrightarrow> obeys (enqueue env r)"
  unfolding enqueue_def tryInlineDeliver_def by (intro r_basic r_outboxInsert) simp_all

lemma r_refund_row: "obeys (EnqueueRefundSucceeded env p r)"
  by (cases "owner_of p")
    (auto simp: EnqueueRefundSucceeded_def buildRefundRow_def split: prod.split intro!: r_basic r_enqueue)

lemma r_MarkFailed: "obeys (PIMarkFailed i c failure)"
  unfolding PIMarkFailed_def by (intro r_basic r_piUpdateStatus) simp

lemma r_CreateIntent: "obeys (CreateIntent env x)"
  unfolding CreateIntent_def Let_def by (intro r_basic r_piCreate) simp

lemma r_UpdateIntent: "obeys (UpdateIntent i d m)"
  unfolding UpdateIntent_def by (intro r_basic r_piUpdateFields) simp

lemma r_new_charges:
  "obeys (createCharge env p method)" "obeys (rollbackPartialCharges i cs)" "obeys (create_splits env p cs sps)"
proof -
  show "obeys (createCharge env p method)" unfolding createCharge_def by (intro r_basic)
  show rollback: "obeys (rollbackPartialCharges i cs)" for i cs unfolding rollbackPartialCharges_def by (intro r_basic)
  show "obeys (create_splits env p cs sps)"
  proof (induction sps arbitrary: cs)
    case (Cons sp sps)
    then show ?case by (cases sp) (auto intro!: r_basic r_piUpdateStatus rollback)
  qed (simp add: r_done)
qed

lemma r_createAction: "obeys (createActionFromChannel env p c ra)"
  unfolding createActionFromChannel_def by (intro r_basic r_intent_rows)

lemma r_ConfirmCombined: "obeys (ConfirmCombined env i secret splits)"
  unfolding ConfirmCombined_def by (intro r_basic r_piUpdateStatus r_new_charges r_piUpdateFields) simp_all

lemma r_CancelIntent: "obeys (CancelIntent env i reason)"
  unfolding CancelIntent_def by (intro r_basic r_intent_rows r_note_call) simp_all

lemma r_ExpireOverdue: "obeys (ExpireOverdue env n)"
proof -
  have "obeys (cancel_each env ps)" for ps
    by (induction ps) (auto intro!: r_basic r_CancelIntent)
  then show ?thesis unfolding ExpireOverdue_def by (intro r_basic)
qed

lemma r_expireAction: "obeys (expireAction env i a reason)"
  unfolding expireAction_def by (intro r_basic r_piUpdateStatus r_MarkFailed) simp

lemma r_CreateRefund: "obeys (CreateRefund env x)"
  unfolding CreateRefund_def refund_on_def insert_refund_def by (intro r_basic r_piUpdateFields) simp_all

lemma r_CreateBundle: "obeys (CreateBundle env x)"
proof -
  have "obeys (bundle_slots i cs)" for i cs
    by (induction cs) (auto simp: Let_def intro!: r_basic)
  moreover have "obeys (insert_bundle env p x sl)" for p sl
    by (induction env p x sl rule: insert_bundle.induct) (auto simp: Let_def intro!: r_basic)
  ultimately show ?thesis unfolding CreateBundle_def by (intro r_basic) simp_all
qed

lemma r_refund_results:
  "obeys (RefundMarkSucceeded env i r)" "obeys (RefundMarkFailed i r reason)" "obeys (scheduleNext env q reason)"
  unfolding RefundMarkSucceeded_def RefundMarkFailed_def scheduleNext_def add_to_charge_def update_phase_def
  by (intro r_basic r_piUpdateFields r_refund_row; simp)+

lemma r_ask_channel: "\<not> is_charge_call call \<Longrightarrow> obeys (ask_channel env call)"
  unfolding ask_channel_def by (intro r_basic r_note_call)

lemma r_sweep: "obeys (sweep env n)"
  unfolding sweep_def tryOne_def by (intro r_basic r_ask_channel r_refund_results) simp_all

lemma r_expire_row: "obeys (expire_row env c)"
  unfolding expire_row_def by (intro r_basic r_MarkFailed)

lemma r_outboxTick: "obeys (outboxTick c token now client)"
proof -
  have "obeys (claim_tables now n token lease shs)" for n lease shs
    by (induction shs) (auto intro!: r_basic)
  moreover have "obeys (claimed_rows token shs)" for shs
    by (induction shs) (auto intro!: r_basic r_read)
  ultimately show ?thesis
    unfolding outboxTick_def ClaimBatch_def ListByClaimToken_def process_def by (intro r_basic) simp_all
qed

lemma r_archiveTick: "obeys (archiveTick now retain n)"
proof -
  have "obeys (purge_tables t n shs)" for t n shs
    by (induction shs) (auto simp: Let_def intro!: r_basic r_sql of_purge subseq_purge_first)
  then show ?thesis unfolding archiveTick_def PurgeSentBefore_def by (intro r_basic)
qed

end

locale service_relation = order_relation +
  assumes any_call: "R s (s\<lparr>channel_log := channel_log s @ [c]\<rparr>)"
    and any_row: "R s (s\<lparr>outbox := outbox s @ [r]\<rparr>)"
begin

lemma r_any_call: "obeys (note_call c)"
  by (rule obeysI) (simp add: any_call)

lemma r_any_row: "obeys (EnqueueChargeSucceeded env p c amount)"
proof -
  have "obeys (acctOutboxInsert now r)" for now r
    unfolding acctOutboxInsert_def by (intro r_basic r_sql) (auto simp: refl any_row)
  then have "obeys (enqueue env r)" for r
    unfolding enqueue_def tryInlineDeliver_def by (intro r_basic)
  then show ?thesis unfolding EnqueueChargeSucceeded_def by (intro r_basic)
qed

lemma r_MarkSucceeded: "obeys (PIMarkSucceeded env i c amount)"
  unfolding PIMarkSucceeded_def by (intro r_basic r_piUpdateStatus r_any_row) simp

lemma r_Confirm: "obeys (Confirm env i method secret)"
proof -
  have "obeys (settle_reply env p c r)" for p c r
    unfolding settle_reply_def
    by (intro r_basic r_MarkSucceeded r_any_row r_MarkFailed r_createAction)
  then have "obeys (invokeChannelForCharge env p c)" for p c
    unfolding invokeChannelForCharge_def by (intro r_basic r_any_call)
  then have "obeys (confirmFresh env i method p)" for p
    unfolding confirmFresh_def attach_charge_def reload_def Let_def by (intro r_basic r_piUpdateStatus r_piUpdateFields r_new_charges) simp_all
  then show ?thesis unfolding Confirm_def by (intro r_basic)
qed

lemma r_CaptureIntent: "obeys (CaptureIntent env i amount)"
  unfolding CaptureIntent_def finish_capture_def Let_def
  by (intro r_basic r_any_call r_MarkSucceeded r_MarkFailed)

lemma r_Submit: "obeys (Submit env i a given)"
  unfolding Submit_def
  by (intro r_basic r_expireAction r_MarkSucceeded r_piUpdateStatus r_MarkFailed) simp

lemma r_OnLate: "obeys (OnLateChargeSuccess env i c amount)"
  unfolding OnLateChargeSuccess_def Let_def
  by (intro r_basic r_MarkSucceeded r_any_row r_CreateBundle)

lemma r_charge_ticks: "obeys (ExpireCharges env n)" "obeys (ReconcileCharges env stale n)"
  unfolding ExpireCharges_def expireOne_def ReconcileCharges_def reconcileOne_def
  by (intro r_basic r_ask_channel r_OnLate r_expire_row r_MarkFailed; simp)+

lemma r_Ingest: "obeys (Ingest env ev)"
proof -
  have "obeys (dispatch env ev)"
    unfolding dispatch_def isLatePayment_def
    by (intro r_event r_basic r_OnLate r_MarkSucceeded r_any_row r_MarkFailed r_refund_results r_refund_row r_intent_rows)
  then show ?thesis unfolding Ingest_def recordInbound_def Let_def by (intro r_basic)
qed

lemma r_serve: "obeys (serve env q)"
  by (cases q)
    (auto intro!: r_basic r_CreateIntent r_UpdateIntent r_Confirm r_ConfirmCombined r_CaptureIntent r_CancelIntent
      r_Submit r_CreateRefund r_CreateBundle r_Ingest r_ExpireOverdue r_charge_ticks r_sweep r_outboxTick r_archiveTick)

lemma serve_all_related: "R s (serve_all h s)"
proof (induction h s rule: serve_all.induct)
  case (2 env q h s)
  then show ?case using obeysD [OF r_serve, of s env q] by (auto intro: trans)
qed (simp add: refl)

end

section \<open>The abstract life of an order\<close>

datatype order_life = Absent | Open | Settling | Paid int | Dead

definition life_of :: "order_db \<Rightarrow> string \<Rightarrow> order_life" where
  "life_of s i = (case find_pi i s of None \<Rightarrow> Absent
     | Some p \<Rightarrow> (case pi_status p of PICreated \<Rightarrow> Open | PIRequiresAction \<Rightarrow> Open | PIProcessing \<Rightarrow> Settling
                 | PISucceeded \<Rightarrow> Paid (pi_received p) | PIFailed \<Rightarrow> Dead | PICanceled \<Rightarrow> Dead))"

inductive life_step :: "(string \<Rightarrow> order_life) \<Rightarrow> (string \<Rightarrow> order_life) \<Rightarrow> bool" where
  place: "f i = Absent \<Longrightarrow> life_step f (f(i := Open))"
| start: "f i = Open \<Longrightarrow> life_step f (f(i := Settling))"
| pay: "f i = Settling \<Longrightarrow> life_step f (f(i := Paid a))"
| refuse: "f i = Settling \<Longrightarrow> life_step f (f(i := Dead))"
| abandon: "f i = Open \<Longrightarrow> life_step f (f(i := Dead))"

abbreviation life_steps :: "order_db \<Rightarrow> order_db \<Rightarrow> bool" where
  "life_steps s t \<equiv> life_step\<^sup>*\<^sup>* (life_of s) (life_of t)"

lemma life_stepI:
  "f i = Absent \<and> x = Open \<or> f i = Open \<and> x = Settling \<or> f i = Settling \<and> x = Paid a \<or>
   f i = Settling \<and> x = Dead \<or> f i = Open \<and> x = Dead \<Longrightarrow> life_step f (f(i := x))"
  by (auto intro: life_step.intros)

lemma life_of_put:
  assumes "find_pi (pi_id p) s = Some p" "row_update p q"
  shows "life_of (put_pi q s) = (life_of s)(pi_id p := life_of (put_pi q s) (pi_id p))"
  using assms by (intro ext) (simp add: life_of_def find_pi_put row_update_def)

lemma life_steps_put:
  assumes p: "find_pi (pi_id p) s = Some p" and q: "row_update p q"
  shows "life_steps s (put_pi q s)"
proof -
  let ?i = "pi_id p" let ?f = "life_of s" let ?x = "life_of (put_pi q s) ?i"
  have "?x = ?f ?i \<or> life_step ?f (?f(?i := ?x))"
    using q by (cases "pi_status p"; cases "pi_status q")
      (auto simp: life_of_def find_pi_put p row_update_def CanTransition_def PIValidTransitions_def
        intro!: life_stepI)
  then show ?thesis
    using life_of_put [OF p q] by (auto simp del: fun_upd_apply)
qed

lemma life_steps_new:
  fixes s :: order_db
  assumes "\<not> list_ex (pi_clash p) (intents s)" "pi_status p = PICreated"
  shows "life_steps s (s\<lparr>intents := intents s @ [p]\<rparr>)"
proof -
  have "life_of (s\<lparr>intents := intents s @ [p]\<rparr>) = (life_of s)(pi_id p := Open)"
    using assms by (intro ext) (simp add: life_of_def find_pi_new)
  moreover have "life_of s (pi_id p) = Absent"
    using find_pi_new(2) [OF assms(1)] by (simp add: life_of_def)
  ultimately show ?thesis by (auto intro: life_step.place)
qed

interpretation life: service_relation life_steps
proof unfold_locales
  fix s t u :: order_db
  assume "life_steps s t" "life_steps t u"
  then show "life_steps s u" by (rule rtranclp_trans)
next
  fix p q s assume "find_pi (pi_id p) s = Some p" "row_update p q"
  then show "life_steps s (put_pi q s)" by (rule life_steps_put)
next
  fix p and s :: order_db assume "\<not> list_ex (pi_clash p) (intents s)" "pi_status p = PICreated"
  then show "life_steps s (s\<lparr>intents := intents s @ [p]\<rparr>)" by (rule life_steps_new)
qed (simp_all add: life_of_def [abs_def] find_pi_def)

text \<open>
  C7. Whatever is asked of the service, in whatever order, with any answers of the channels and any failing
  statements, every order goes through its abstract life: placed, then being settled or given up, then
  paid or dead; what was paid stays paid, with the same amount, and what is dead stays dead.
\<close>

theorem order_life_refines:
  "life_step\<^sup>*\<^sup>* (life_of s) (life_of (serve_all h s))"
  by (rule life.serve_all_related)

end
