(* ===== verification/OrderMoney.thy ===== *)
theory OrderMoney
  imports OrderLife
begin

text \<open>
  The money of an order: how often the channel was asked to charge it, and what of it was handed to the
  accounting outbox. Every operation either respects the relation \<open>undisturbed\<close> (nothing asked, nothing added) or is
  the one that asks (\<open>invokeChannelForCharge\<close>) or books (\<open>PIMarkSucceeded\<close> and its callers).
\<close>

section \<open>What is counted\<close>

definition asked_for :: "string \<Rightarrow> channel_call \<Rightarrow> bool" where
  "asked_for i c = (case c of CalledCharge j _ _ \<Rightarrow> j = i | _ \<Rightarrow> False)"

definition charge_calls :: "string \<Rightarrow> order_db \<Rightarrow> int" where
  "charge_calls i s = int (length (filter (asked_for i) (channel_log s)))"

definition bookings :: "order_db \<Rightarrow> string \<Rightarrow> (accounting_event \<times> string \<times> string \<times> int) list" where
  "bookings s i = filter (\<lambda>b. fst b = EventChargeSucceeded \<and> fst (snd b) = i) (map booking (outbox s))"

definition settled_life :: "order_life \<Rightarrow> bool" where
  "settled_life x = (x \<noteq> Absent \<and> x \<noteq> Open)"

definition undisturbed :: "order_db \<Rightarrow> order_db \<Rightarrow> bool" where
  "undisturbed s t = (life_steps s t \<and> filter is_charge_call (channel_log t) = filter is_charge_call (channel_log s) \<and>
     (\<forall>i. subseq (bookings t i) (bookings s i)))"

lemma life_step_mono: "life_step f g \<Longrightarrow> settled_life (f i) \<Longrightarrow> settled_life (g i) \<and> (f i = Paid a \<longrightarrow> g i = Paid a)"
  by (induction rule: life_step.induct) (auto simp: settled_life_def)

lemma life_steps_mono: "life_step\<^sup>*\<^sup>* f g \<Longrightarrow> settled_life (f i) \<Longrightarrow> settled_life (g i) \<and> (f i = Paid a \<longrightarrow> g i = Paid a)"
  by (induction rule: rtranclp_induct) (auto dest: life_step_mono)

lemma charge_calls_cong:
  assumes "filter is_charge_call (channel_log t) = filter is_charge_call (channel_log s)"
  shows "charge_calls i t = charge_calls i s"
proof -
  have "filter (asked_for i) l = filter (asked_for i) (filter is_charge_call l)" for l
    by (induction l) (auto simp: asked_for_def split: channel_call.splits)
  then show ?thesis using assms by (metis charge_calls_def)
qed

interpretation undisturbed: order_relation undisturbed
proof unfold_locales
  fix s t u assume "undisturbed s t" "undisturbed t u"
  then show "undisturbed s u" by (auto simp: undisturbed_def intro: rtranclp_trans subseq_order.order_trans)
next
  fix p q s assume "find_pi (pi_id p) s = Some p" "row_update p q"
  then show "undisturbed s (put_pi q s)"
    by (auto simp: undisturbed_def life_steps_put) (simp_all add: put_pi_def bookings_def)
next
  fix p and s :: order_db assume "\<not> list_ex (pi_clash p) (intents s)" "pi_status p = PICreated"
  then show "undisturbed s (s\<lparr>intents := intents s @ [p]\<rparr>)"
    by (auto simp: undisturbed_def life_steps_new) (simp add: bookings_def)
next
  fix f and s :: order_db assume "\<And>r. booking (f r) = booking r"
  then show "undisturbed s (s\<lparr>outbox := map f (outbox s)\<rparr>)"
    by (simp add: undisturbed_def life_of_def [abs_def] find_pi_def bookings_def comp_def)
next
  fix obs and s :: order_db assume "subseq obs (outbox s)"
  then show "undisturbed s (s\<lparr>outbox := obs\<rparr>)"
    by (auto simp: undisturbed_def life_of_def [abs_def] find_pi_def bookings_def intro: subseq_filter subseq_map)
next
  fix r :: AccountingOutbox and s :: order_db assume "ob_event r \<noteq> EventChargeSucceeded"
  then show "undisturbed s (s\<lparr>outbox := outbox s @ [r]\<rparr>)"
    by (simp add: undisturbed_def life_of_def [abs_def] find_pi_def bookings_def booking_def)
qed (simp_all add: undisturbed_def life_of_def [abs_def] find_pi_def bookings_def)

section \<open>The invariant\<close>

definition safe :: "order_db \<Rightarrow> bool" where
  "safe s = (\<forall>i. charge_calls i s \<le> (if settled_life (life_of s i) then 1 else 0) \<and>
     (bookings s i = [] \<or> (\<exists>q a. bookings s i = [(EventChargeSucceeded, i, q, a)] \<and> life_of s i = Paid a)))"

text \<open>The order may be charged now; the order was paid by this charge.\<close>

definition chargeable :: "string \<Rightarrow> order_db \<Rightarrow> bool" where
  "chargeable i s = (safe s \<and> settled_life (life_of s i) \<and> charge_calls i s = 0)"

definition paid_by :: "string \<Rightarrow> string \<Rightarrow> int \<Rightarrow> order_db \<Rightarrow> bool" where
  "paid_by i c a s = (safe s \<and> life_of s i = Paid a \<and>
     (bookings s i = [] \<or> bookings s i = [(EventChargeSucceeded, i, charge_request i c, a)]))"

definition stable :: "(order_db \<Rightarrow> bool) \<Rightarrow> bool" where
  "stable P = (\<forall>s t. undisturbed s t \<longrightarrow> P s \<longrightarrow> P t)"

lemma subseq_short: "subseq xs [] \<longleftrightarrow> xs = []" "subseq xs [y] \<longleftrightarrow> xs = [] \<or> xs = [y]"
proof -
  show *: "subseq xs [] \<longleftrightarrow> xs = []" for xs by (cases xs) simp_all
  have "subseq (z # zs) [y] \<longleftrightarrow> z = y \<and> zs = []" for z zs
    using * [of zs] by (simp add: subseq_Cons2_iff)
  then show "subseq xs [y] \<longleftrightarrow> xs = [] \<or> xs = [y]" by (cases xs) auto
qed

lemma calm_life: "undisturbed s t \<Longrightarrow> settled_life (life_of s i) \<Longrightarrow> settled_life (life_of t i) \<and> (life_of s i = Paid a \<longrightarrow> life_of t i = Paid a)"
  unfolding undisturbed_def by (blast dest: life_steps_mono)

lemma calm_calls: "undisturbed s t \<Longrightarrow> charge_calls i t = charge_calls i s"
  unfolding undisturbed_def by (blast intro: charge_calls_cong)

lemma calm_bookings: "undisturbed s t \<Longrightarrow> subseq (bookings t i) (bookings s i)"
  by (simp add: undisturbed_def)

lemma stable_safe: "stable safe"
  unfolding stable_def
proof (intro allI impI)
  fix s t assume c: "undisturbed s t" and s: "safe s"
  show "safe t"
    unfolding safe_def
  proof (intro allI conjI)
    fix i
    show "charge_calls i t \<le> (if settled_life (life_of t i) then 1 else 0)"
      using s calm_calls [OF c, of i] calm_life [OF c, of i] by (auto simp: safe_def split: if_splits dest: spec [of _ i])
    show "bookings t i = [] \<or> (\<exists>q a. bookings t i = [(EventChargeSucceeded, i, q, a)] \<and> life_of t i = Paid a)"
    proof (cases "bookings s i = []")
      case True
      then show ?thesis using calm_bookings [OF c, of i] by (simp add: subseq_short)
    next
      case False
      then obtain q a where b: "bookings s i = [(EventChargeSucceeded, i, q, a)]" "life_of s i = Paid a"
        using s by (auto simp: safe_def)
      then show ?thesis
        using calm_bookings [OF c, of i] calm_life [OF c, of i a] by (auto simp: subseq_short settled_life_def)
    qed
  qed
qed

lemma stable_chargeable: "stable (chargeable i)"
  using stable_safe unfolding stable_def chargeable_def by (metis calm_calls calm_life)

lemma stable_paid_by: "stable (paid_by i c a)"
proof -
  have "bookings t i = [] \<or> bookings t i = [(EventChargeSucceeded, i, charge_request i c, a)]"
    if "undisturbed s t" "paid_by i c a s" for s t
    using that(2) calm_bookings [OF that(1), of i] by (auto simp: paid_by_def subseq_short)
  moreover have "life_of t i = Paid a" if "undisturbed s t" "paid_by i c a s" for s t
    using that(2) calm_life [OF that(1), of i a] by (auto simp: paid_by_def settled_life_def)
  ultimately show ?thesis
    using stable_safe unfolding stable_def paid_by_def by blast
qed

section \<open>Operations that only respect\<close>

lemma calm_ensures: "undisturbed.obeys m \<Longrightarrow> stable P \<Longrightarrow> ensures P m (\<lambda>_. P)"
  unfolding ensures_def stable_def by (blast dest: undisturbed.obeysD)

lemma keeps_calm: "undisturbed.obeys m \<Longrightarrow> keeps safe m"
  unfolding keeps_def by (rule calm_ensures [OF _ stable_safe])

lemma stable_faults: "stable P \<Longrightarrow> P s \<Longrightarrow> P (s\<lparr>faults := bs\<rparr>)"
  using undisturbed.of_faults unfolding stable_def by blast

section \<open>Booking\<close>

lemma outboxInsert_paid:
  assumes r: "booking r = (EventChargeSucceeded, i, charge_request i c, a)"
  shows "ensures (paid_by i c a) (acctOutboxInsert now r) (\<lambda>_. paid_by i c a)"
proof -
  let ?same = "\<lambda>o'. shardOf (ob_pi o') = shardOf (ob_pi r) \<and> (ob_id o' = ob_id r \<or> ob_request o' = ob_request r)"
  let ?row = "r\<lparr>ob_status := OutboxPending, ob_next := now\<rparr>"
  have new: "paid_by i c a (s\<lparr>outbox := outbox s @ [?row]\<rparr>)"
    if s: "paid_by i c a s" and fresh: "\<not> list_ex ?same (outbox s)" for s
  proof -
    have "bookings s i \<noteq> [(EventChargeSucceeded, i, charge_request i c, a)]"
    proof
      assume "bookings s i = [(EventChargeSucceeded, i, charge_request i c, a)]"
      then have "(EventChargeSucceeded, i, charge_request i c, a) \<in> set (bookings s i)" by simp
      then obtain o' where "o' \<in> set (outbox s)" "booking o' = booking r" by (auto simp: bookings_def r)
      then show False using fresh by (auto simp: list_ex_iff booking_def)
    qed
    then have none: "bookings s i = []" using s by (simp add: paid_by_def)
    have b: "bookings (s\<lparr>outbox := outbox s @ [?row]\<rparr>) j =
        bookings s j @ (if j = i then [(EventChargeSucceeded, i, charge_request i c, a)] else [])" for j
      using r by (auto simp: bookings_def booking_def)
    have l: "life_of (s\<lparr>outbox := outbox s @ [?row]\<rparr>) = life_of s"
      by (rule ext) (simp add: life_of_def find_pi_def)
    show ?thesis
      using s by (auto simp: paid_by_def safe_def b l none charge_calls_def)
  qed
  have "ensures (paid_by i c a) (acctOutboxInsert now r) (\<lambda>_. paid_by i c a)"
    unfolding acctOutboxInsert_def keeps_def [symmetric]
  proof (intro keeps_basic)
    show "keeps (paid_by i c a) (sql (\<lambda>s. if list_ex ?same (outbox s) then (Inr False, s)
        else (Inr True, s\<lparr>outbox := outbox s @ [?row]\<rparr>)))"
      unfolding keeps_def by (rule ensures_sql) (auto simp: new intro: stable_faults [OF stable_paid_by])
  qed (auto simp: keeps_def intro!: ensures_sql intro: stable_faults [OF stable_paid_by])
  then show ?thesis .
qed

lemma keeps_calm_paid: "undisturbed.obeys m \<Longrightarrow> keeps (paid_by i c a) m"
  unfolding keeps_def by (rule calm_ensures [OF _ stable_paid_by])

lemma enqueue_paid:
  assumes "pi_id p = i"
  shows "keeps (paid_by i c a) (EnqueueChargeSucceeded env p c a)"
proof -
  have "keeps (paid_by i c a) (enqueue env r)" if "booking r = (EventChargeSucceeded, i, charge_request i c, a)" for r
  proof -
    have "keeps (paid_by i c a) (acctOutboxInsert now (r\<lparr>ob_id := x, ob_created := now\<rparr>))" for now x
      unfolding keeps_def using that by (intro outboxInsert_paid) (simp add: booking_def)
    then show ?thesis
      unfolding enqueue_def tryInlineDeliver_def
      by (intro keeps_basic) (auto intro!: keeps_calm_paid undisturbed.r_NextID undisturbed.r_outbox_marks)
  qed
  then show ?thesis
    using assms by (cases "owner_of p")
      (auto simp: EnqueueChargeSucceeded_def buildChargeRow_def booking_def intro!: keeps_basic split: prod.split)
qed

lemma piUpdateStatus_ensures:
  assumes "stable P" "\<And>e s. P s \<Longrightarrow> Q (Inl e) s"
    "\<And>s p. P s \<Longrightarrow> find_pi i s = Some p \<Longrightarrow> (case expected of Some e \<Rightarrow> pi_status p = e | None \<Rightarrow> True) \<Longrightarrow>
       CanTransition (pi_status p) target \<Longrightarrow>
       Q (Inr (f (p\<lparr>pi_status := target\<rparr>))) (put_pi (written_columns p (f (p\<lparr>pi_status := target\<rparr>))) s)"
  shows "ensures P (piUpdateStatus i expected target f) Q"
  unfolding piUpdateStatus_def
  by (rule ensures_sql, erule stable_faults [OF assms(1)])
    (auto simp: assms(2) Let_def split: option.split intro!: assms(3))

lemma row_paid:
  "ensures safe (piUpdateStatus i (Some PIProcessing) PISucceeded (\<lambda>p. (drop_active c p)\<lparr>pi_received := a\<rparr>))
     (\<lambda>r s. safe s \<and> (\<forall>p. r = Inr p \<longrightarrow> pi_id p = i \<and> paid_by i c a s))"
proof -
  let ?f = "\<lambda>p. (drop_active c p)\<lparr>pi_received := a\<rparr>"
  have key: "safe s' \<and> pi_id (?f q) = i \<and> paid_by i c a s'"
    if s: "safe s" and p: "find_pi i s = Some p" "pi_status p = PIProcessing"
      and q: "q = p\<lparr>pi_status := PISucceeded\<rparr>" and s': "s' = put_pi (written_columns p (?f q)) s" for s s' p q
  proof -
    have i: "pi_id p = i" using p(1) by (rule find_pi_id)
    have c: "undisturbed s s'"
      unfolding s' using p i q by (intro undisturbed.of_intent)
        (auto simp: row_update_def written_columns_def drop_active_def CanTransition_def PIValidTransitions_def)
    have "bookings s i = []" using s p by (auto simp: safe_def life_of_def dest: spec [of _ i])
    then have b: "bookings s' i = []" using calm_bookings [OF c, of i] by (simp add: subseq_short)
    have "safe s'" using stable_safe c s unfolding stable_def by blast
    then show ?thesis
      using b p i q by (auto simp: s' paid_by_def life_of_def find_pi_put written_columns_def drop_active_def)
  qed
  show ?thesis
    using key [OF _ _ _ refl refl] by (intro piUpdateStatus_ensures stable_safe) auto
qed

section \<open>Paying and charging\<close>

lemma MarkSucceeded_paid:
  "ensures safe (PIMarkSucceeded env i c a) (\<lambda>r s. safe s \<and> (\<forall>p. r = Inr p \<longrightarrow> pi_id p = i \<and> paid_by i c a s))"
  unfolding PIMarkSucceeded_def
proof (rule ensures_ignoring [OF keeps_ensures], goal_cases)
  case 1
  show ?case by (intro keeps_basic) (auto intro!: keeps_calm undisturbed.r_writes)
next
  case 2
  show ?case
  proof (rule ensures_on_ok [OF row_paid], goal_cases)
    case (2 p)
    have "keeps (paid_by i c a) (ignoring (if env_accounting env \<and> c \<noteq> [] then EnqueueChargeSucceeded env p c a
        else done_with ()) (done_with p))" if "pi_id p = i"
      using that by (intro keeps_basic enqueue_paid)
    then show ?case
      by (auto simp: ensures_def keeps_def paid_by_def run_on_ok split: sum.splits) 
  qed simp
qed

text \<open>What is done with a paid intent may book its charge again, and nothing else.\<close>

lemma keeps_after_paid:
  assumes ok: "\<And>p. pi_id p = i \<Longrightarrow> keeps (paid_by i c a) (k (Inr p))" and err: "\<And>e. keeps safe (k (Inl e))"
  shows "keeps safe (State_Monad.bind (PIMarkSucceeded env i c a) k)"
  unfolding keeps_def
proof (rule ensures_bind [OF MarkSucceeded_paid])
  fix r
  show "ensures (\<lambda>s. safe s \<and> (\<forall>p. r = Inr p \<longrightarrow> pi_id p = i \<and> paid_by i c a s)) (k r) (\<lambda>_. safe)"
    using ok err by (cases r) (auto simp: keeps_def ensures_def paid_by_def)
qed

lemma keeps_MarkSucceeded: "keeps safe (PIMarkSucceeded env i c a)"
  unfolding keeps_def by (rule ensures_weaken [OF MarkSucceeded_paid]) simp_all

lemma note_charge:
  "ensures (chargeable i) (note_call (CalledCharge i c a)) (\<lambda>_. safe)"
proof (rule ensuresI)
  fix s assume s: "chargeable i s"
  let ?s = "s\<lparr>channel_log := channel_log s @ [CalledCharge i c a]\<rparr>"
  have l: "life_of ?s = life_of s" by (rule ext) (simp add: life_of_def find_pi_def)
  have n: "charge_calls j ?s = charge_calls j s + (if j = i then 1 else 0)" for j
    by (simp add: charge_calls_def asked_for_def)
  have b: "bookings ?s = bookings s" by (rule ext) (simp add: bookings_def)
  have "charge_calls j ?s \<le> (if settled_life (life_of ?s j) then 1 else 0) \<and>
      (bookings ?s j = [] \<or> (\<exists>q a. bookings ?s j = [(EventChargeSucceeded, j, q, a)] \<and> life_of ?s j = Paid a))" for j
    using s unfolding l n b by (auto simp: chargeable_def safe_def split: if_splits dest: spec [of _ j])
  then show "safe (snd (run_state (note_call (CalledCharge i c a)) s))"
    by (simp add: safe_def)
qed

lemma start_charge:
  "ensures safe (piUpdateStatus i (Some old) PIProcessing (\<lambda>p. p\<lparr>pi_method := m\<rparr>))
     (\<lambda>r s. safe s \<and> (\<forall>p. r = Inr p \<longrightarrow> pi_id p = i \<and> chargeable i s))"
proof -
  let ?f = "\<lambda>p. p\<lparr>pi_method := m\<rparr>"
  have key: "safe s' \<and> pi_id (?f q) = i \<and> chargeable i s'"
    if s: "safe s" and p: "find_pi i s = Some p" "CanTransition (pi_status p) PIProcessing"
      and q: "q = p\<lparr>pi_status := PIProcessing\<rparr>" and s': "s' = put_pi (written_columns p (?f q)) s" for s s' p q
  proof -
    have i: "pi_id p = i" using p(1) by (rule find_pi_id)
    have c: "undisturbed s s'"
      unfolding s' using p i q by (intro undisturbed.of_intent) (auto simp: row_update_def written_columns_def)
    have "life_of s i = Open"
      using p by (auto simp: life_of_def CanTransition_def PIValidTransitions_def split: pi_status.splits if_splits)
    then have "charge_calls i s \<le> 0" using s by (auto simp: safe_def settled_life_def dest: spec [of _ i])
    then have "charge_calls i s' = 0" using calm_calls [OF c, of i] by (simp add: charge_calls_def)
    moreover have "safe s'" using stable_safe c s unfolding stable_def by blast
    ultimately show ?thesis
      using p i q by (auto simp: s' chargeable_def settled_life_def life_of_def find_pi_put written_columns_def)
  qed
  show ?thesis
    using key [OF _ _ _ refl refl] by (intro piUpdateStatus_ensures stable_safe) auto
qed

lemma keeps_settle: "keeps safe (settle_reply env p c r)"
proof -
  have "keeps safe (State_Monad.bind (PIMarkSucceeded env (pi_id p) (ch_id c) a) (\<lambda>u. case u of Inl _ \<Rightarrow> done_with ()
      | Inr q \<Rightarrow> if env_accounting env then ignoring (EnqueueChargeSucceeded env q (ch_id c) a) (done_with ())
                else done_with ()))" for a
    by (rule keeps_after_paid) (auto intro!: keeps_basic enqueue_paid)
  then show ?thesis
    by (cases "rp_result r")
      (auto simp only: settle_reply_def pay_result.case Let_def intro!: keeps_basic(2-10) keeps_calm undisturbed.r_MarkFailed
        undisturbed.r_createAction undisturbed.r_done undisturbed.r_ignoring split: option.split)
qed

lemma invoke_safe: "ensures (chargeable (pi_id p)) (invokeChannelForCharge env p c) (\<lambda>_. safe)"
proof (cases "env_channel env")
  case None
  then show ?thesis
    by (simp add: invokeChannelForCharge_def ensures_def chargeable_def)
next
  case (Some ask)
  have "keeps safe (case ask (CalledCharge (pi_id p) (ch_id c) (ch_amount c)) of
      Inl msg \<Rightarrow> ignoring (chargeUpdateFields (pi_id p) (ch_id c) (rpc_error [] msg)) (done_with ())
    | Inr r \<Rightarrow> ignoring (chargeUpdateFields (pi_id p) (ch_id c) (\<lambda>d. d\<lparr>ch_balance_tx := rp_ref r,
              ch_risk_level := (if rp_risk_level r = [] then ch_risk_level d else rp_risk_level r),
              ch_risk_score := (if rp_risk_score r > 0 then rp_risk_score r else ch_risk_score d)\<rparr>))
            (settle_reply env p c r))"
    by (intro keeps_basic) (auto intro!: keeps_calm undisturbed.r_writes keeps_settle)
  then show ?thesis
    unfolding invokeChannelForCharge_def Some option.simps
    by (intro ensures_ignoring [OF note_charge]) (simp add: keeps_def)
qed

lemma piUpdateFields_id: "fst (run_state (piUpdateFields i f) s) = Inr v \<Longrightarrow> pi_id v = i"
  by (auto simp: piUpdateFields_def run_on_ok piGet_def run_sql split: prod.splits sum.splits list.splits if_splits
      option.splits dest: find_pi_id)

lemma chargeable_safe: "keeps safe m \<Longrightarrow> ensures (chargeable i) m (\<lambda>_. safe)"
  by (auto simp: keeps_def chargeable_def ensures_def)

lemma keeps_confirmFresh: "keeps safe (confirmFresh env i method p)"
proof -
  have invoked: "ensures (chargeable i) (State_Monad.bind (invokeChannelForCharge env v c) (\<lambda>_. reload v c)) (\<lambda>_. safe)"
    if "pi_id v = i" for v c
  proof (rule ensures_bind [of _ _ "\<lambda>_. safe"])
    show "ensures (chargeable i) (invokeChannelForCharge env v c) (\<lambda>_. safe)"
      using invoke_safe [of v] that by simp
    show "ensures safe (reload v c) (\<lambda>_. safe)" for x :: "order_error + unit"
      unfolding reload_def Let_def keeps_def [symmetric] by (intro keeps_basic keeps_calm undisturbed.r_reads)
  qed
  have attached: "ensures (chargeable i) (attach_charge env i u c) (\<lambda>_. safe)" for u c
    unfolding attach_charge_def
  proof (rule ensures_bind [of _ _ "\<lambda>r s. chargeable i s \<and> (\<forall>v. r = Inr v \<longrightarrow> pi_id v = i)"])
    let ?m = "piUpdateFields i (\<lambda>p. p\<lparr>pi_active := appendUnique (pi_active u) (ch_id c)\<rparr>)"
    have "ensures (chargeable i) ?m (\<lambda>_. chargeable i)"
      by (intro calm_ensures undisturbed.r_piUpdateFields stable_chargeable) simp
    then show "ensures (chargeable i) ?m (\<lambda>r s. chargeable i s \<and> (\<forall>v. r = Inr v \<longrightarrow> pi_id v = i))"
      by (auto simp: ensures_def dest: piUpdateFields_id)
    show "ensures (\<lambda>s. chargeable i s \<and> (\<forall>v. r = Inr v \<longrightarrow> pi_id v = i)) (case r of
          Inl _ \<Rightarrow> if env_registry env then fail NilPointer else done_with (None, c)
        | Inr v \<Rightarrow> if env_registry env then State_Monad.bind (invokeChannelForCharge env v c) (\<lambda>_. reload v c)
                  else done_with (Some v, c)) (\<lambda>_. safe)" for r
      using invoked by (cases r) (auto simp: ensures_def chargeable_def)
  qed
  have made: "ensures (chargeable i) (case r of
         Inl e \<Rightarrow> ignoring (piUpdateStatus i (Some PIProcessing) PIFailed
             (\<lambda>p. p\<lparr>pi_reason := ''charge_creation_failed''\<rparr>)) (fail e)
       | Inr c \<Rightarrow> attach_charge env i u c) (\<lambda>_. safe)" for r u
    by (cases r) (auto intro!: attached chargeable_safe keeps_calm undisturbed.r_ignoring undisturbed.r_fail undisturbed.r_piUpdateStatus)
  show ?thesis
    unfolding confirmFresh_def keeps_def
  proof (rule ensures_on_ok [OF start_charge])
    fix u
    have "ensures (chargeable i) (State_Monad.bind (createCharge env u method) (\<lambda>made. case made of
         Inl e \<Rightarrow> ignoring (piUpdateStatus i (Some PIProcessing) PIFailed
             (\<lambda>p. p\<lparr>pi_reason := ''charge_creation_failed''\<rparr>)) (fail e)
       | Inr c \<Rightarrow> attach_charge env i u c)) (\<lambda>_. safe)"
      by (rule ensures_bind [OF calm_ensures [OF undisturbed.r_new_charges(1) stable_chargeable] made])
    then show "ensures (\<lambda>s. safe s \<and> (\<forall>p. Inr u = Inr p \<longrightarrow> pi_id p = i \<and> chargeable i s))
        (State_Monad.bind (createCharge env u method) (\<lambda>made. case made of
         Inl e \<Rightarrow> ignoring (piUpdateStatus i (Some PIProcessing) PIFailed
             (\<lambda>p. p\<lparr>pi_reason := ''charge_creation_failed''\<rparr>)) (fail e)
       | Inr c \<Rightarrow> attach_charge env i u c)) (\<lambda>_. safe)"
      by (rule ensures_weaken) simp_all
  qed simp
qed

section \<open>Every request\<close>

lemma keeps_Confirm: "keeps safe (Confirm env i method secret)"
  unfolding Confirm_def by (intro keeps_basic keeps_confirmFresh) (auto intro!: keeps_calm undisturbed.r_reads undisturbed.r_fail undisturbed.r_done)

lemma keeps_CaptureIntent: "keeps safe (CaptureIntent env i amount)"
  unfolding CaptureIntent_def finish_capture_def Let_def
  by (intro keeps_basic keeps_MarkSucceeded)
    (auto intro!: keeps_calm undisturbed.r_basic undisturbed.r_MarkFailed undisturbed.r_note_call)

lemma keeps_Submit: "keeps safe (Submit env i a given)"
  unfolding Submit_def
  by (intro keeps_basic keeps_MarkSucceeded)
    (auto intro!: keeps_calm undisturbed.r_basic undisturbed.r_expireAction undisturbed.r_MarkFailed undisturbed.r_piUpdateStatus)

lemma keeps_OnLate: "keeps safe (OnLateChargeSuccess env i c amount)"
proof -
  let ?book = "\<lambda>u. case u of Inr p \<Rightarrow> if env_accounting env then EnqueueChargeSucceeded env p c amount else done_with ()
    | Inl _ \<Rightarrow> done_with ()"
  have rest: "keeps safe m" if "undisturbed.obeys m" for m :: "unit op" using that by (rule keeps_calm)
  have *: "keeps safe (State_Monad.bind (PIMarkSucceeded env i c amount) (\<lambda>u. State_Monad.bind (?book u) (\<lambda>_. m)))"
    if m: "undisturbed.obeys m" for m :: "unit op"
  proof (rule keeps_after_paid)
    fix p :: PaymentIntent assume "pi_id p = i"
    then show "keeps (paid_by i c amount) (State_Monad.bind (?book (Inr p)) (\<lambda>_. m))"
      by (intro keeps_rules(4)) (auto intro!: keeps_rules(2) enqueue_paid keeps_calm_paid [OF m])
  next
    fix e
    show "keeps safe (State_Monad.bind (?book (Inl e)) (\<lambda>_. m))"
      by (rule keeps_rules(4)) (auto intro!: keeps_rules(2) keeps_calm [OF m])
  qed
  show ?thesis
    unfolding OnLateChargeSuccess_def
    by (rule keeps_rules(6) [OF keeps_calm], rule undisturbed.r_writes, rule *)
      (unfold Let_def, intro undisturbed.r_basic undisturbed.r_CreateBundle)
qed

lemma keeps_charge_ticks: "keeps safe (ExpireCharges env n)" "keeps safe (ReconcileCharges env stale n)"
  unfolding ExpireCharges_def expireOne_def ReconcileCharges_def reconcileOne_def
  by (intro keeps_basic keeps_OnLate;
      auto intro!: keeps_calm undisturbed.r_basic undisturbed.r_ask_channel undisturbed.r_expire_row undisturbed.r_MarkFailed)+

lemma keeps_dispatch: "keeps safe (dispatch env ev)"
proof (cases "we_type ev")
  case EvChargeSucceeded
  have paid: "keeps safe (State_Monad.bind (PIMarkSucceeded env (we_pi ev) (we_charge ev) (we_amount ev)) (\<lambda>u. case u of
      Inl _ \<Rightarrow> done_with ()
    | Inr p \<Rightarrow> if env_accounting env then ignoring (EnqueueChargeSucceeded env p (we_charge ev) (we_amount ev)) (done_with ())
              else done_with ()))"
    by (rule keeps_after_paid) (auto intro!: keeps_basic enqueue_paid)
  have late: "keeps safe (isLatePayment i)" for i
    unfolding isLatePayment_def by (intro keeps_rules(4) keeps_rules(2) keeps_calm undisturbed.r_reads)
  show ?thesis
    unfolding dispatch_def EvChargeSucceeded event_type.case
    by (intro keeps_rules(5) [OF late] keeps_cases(1) keeps_rules(6) keeps_OnLate keeps_rules(2) paid)
qed (auto simp: dispatch_def
    intro!: keeps_calm undisturbed.r_basic undisturbed.r_MarkFailed undisturbed.r_refund_results undisturbed.r_refund_row undisturbed.r_intent_rows)

lemma keeps_Ingest: "keeps safe (Ingest env ev)"
  unfolding Ingest_def recordInbound_def Let_def
  by (intro keeps_basic keeps_dispatch) (auto intro!: keeps_calm undisturbed.r_basic)

lemma keeps_serve: "keeps safe (serve env q)"
  by (cases q)
    (auto intro!: keeps_rules keeps_Confirm keeps_CaptureIntent keeps_Submit keeps_charge_ticks keeps_Ingest
      intro: keeps_calm undisturbed.r_CreateIntent undisturbed.r_UpdateIntent undisturbed.r_ConfirmCombined undisturbed.r_CancelIntent
      undisturbed.r_CreateRefund undisturbed.r_CreateBundle undisturbed.r_ExpireOverdue undisturbed.r_sweep undisturbed.r_outboxTick undisturbed.r_archiveTick)

lemma safe_serve_all: "safe s \<Longrightarrow> safe (serve_all h s)"
  by (induction h s rule: serve_all.induct) (use keeps_serve in \<open>auto simp: keeps_def ensures_def\<close>)

lemma safe_start: "safe (order_start fs)"
  by (simp add: safe_def order_start_def charge_calls_def bookings_def)

text \<open>
  C4. From an empty store, whatever is asked of the service and whichever statements fail, the channel is
  asked to charge an order at most once, and only when the order has left its open states.
\<close>

theorem charged_at_most_once:
  "charge_calls i (serve_all h (order_start fs)) \<le> (if settled_life (life_of (serve_all h (order_start fs)) i) then 1 else 0)"
  using safe_serve_all [OF safe_start, of h fs] by (simp add: safe_def)

text \<open>
  C6. From an empty store, an order has at most one row in the accounting outbox that books its payment; if
  it has one, the order succeeded and the row's amount is the amount received.
\<close>

theorem booked_as_received:
  "bookings (serve_all h (order_start fs)) i = [] \<or>
   (\<exists>request a. bookings (serve_all h (order_start fs)) i = [(EventChargeSucceeded, i, request, a)] \<and>
      life_of (serve_all h (order_start fs)) i = Paid a)"
  using safe_serve_all [OF safe_start, of h fs] by (simp add: safe_def)

end
