(* ===== verification/OrderCases.thy ===== *)
theory OrderCases
  imports OrderLife
begin

text \<open>
  Concrete runs of \<open>order-core\<close>: the stores and environments that witnesses use, and runs where the code
  does not do what its comments promise.
\<close>

section \<open>Stores and environments\<close>

definition details0 :: intent_details where
  "details0 = \<lparr>id_description = [], id_order_no = [], id_previous = [], id_confirmation = [], id_methods = [],
     id_descriptor = [], id_livemode = False, id_created = 0, id_updated = 0\<rparr>"

definition input0 :: "string \<Rightarrow> create_input" where
  "input0 key = \<lparr>in_amount = 500, in_currency = ''USD'', in_customer = ''c1'', in_mch = ''m1'', in_business = ''merchant1'',
     in_idem = key, in_capture = [], in_return = [], in_notify = [], in_metadata = [], in_expires = 0,
     in_details = details0\<rparr>"

definition intent0 :: "pi_status \<Rightarrow> string list \<Rightarrow> PaymentIntent" where
  "intent0 st active = \<lparr>pi_id = ''pi_0081'', pi_amount = 500, pi_currency = ''USD'', pi_status = st, pi_phase = PhaseNone,
     pi_customer = ''c1'', pi_mch = ''m1'', pi_business = ''merchant1'', pi_idem = ''k1'', pi_capture = ''automatic'',
     pi_secret = ''s'', pi_method = ''CARD'', pi_active = active, pi_capturable = 0,
     pi_received = (if st = PISucceeded then 500 else 0), pi_return = [], pi_notify = [], pi_metadata = [],
     pi_expires = None, pi_canceled = None, pi_reason = [], pi_details = details0\<rparr>"

definition charge0 :: "string \<Rightarrow> int \<Rightarrow> charge_status \<Rightarrow> OrderCharge" where
  "charge0 c amount st = \<lparr>ch_id = c, ch_pi = ''pi_0081'', ch_amount = amount, ch_got = (if st = ChSucceeded then amount else 0),
     ch_back = 0, ch_currency = ''USD'', ch_status = st, ch_method = ''CARD'', ch_captured = False, ch_paid = False,
     ch_refunded = False, ch_risk_level = [], ch_risk_score = 0, ch_failure = ([], []), ch_balance_tx = [],
     ch_expires = None, ch_completed = None, ch_created = 0\<rparr>"

definition db0 :: "PaymentIntent list \<Rightarrow> OrderCharge list \<Rightarrow> bool list \<Rightarrow> order_db" where
  "db0 ps cs fs = (order_start fs)\<lparr>intents := ps, charges := cs\<rparr>"

definition reply0 :: "pay_result \<Rightarrow> channel_reply" where
  "reply0 res = \<lparr>rp_result = res, rp_ref = ''tx'', rp_captured = 0, rp_action = (if res = ResRequiresAction
       then Some \<lparr>ra_type = ''3ds'', ra_details = [], ra_ref = ''ref'', ra_expires = None\<rparr> else None),
     rp_code = [], rp_message = [], rp_risk_level = [], rp_risk_score = 0\<rparr>"

definition env0 :: "pay_result \<Rightarrow> service_env" where
  "env0 res = \<lparr>env_now = 7, env_rand = ''r'', env_url_ok = (\<lambda>_. True), env_registry = True,
     env_channel = Some (\<lambda>_. Inr (reply0 res)), env_accounting = True, env_inline = None,
     env_verify = (\<lambda>_ _. Some (Inr (True, [])))\<rparr>"

definition status_at :: "order_db \<Rightarrow> pi_status list \<times> charge_status list" where
  "status_at s = (map pi_status (intents s), map ch_status (charges s))"

section \<open>Found while modelling\<close>

text \<open>Canceling an order whose authorisation the channel voids: the charge is failed, the order cannot leave
  processing, and the caller is told the transition is not allowed.\<close>

lemma voided_order_is_not_canceled:
  "let r = run_state (CancelIntent (env0 ResSucceeded) ''pi_0081'' ''changed'')
       (db0 [intent0 PIProcessing [''ch_0081'']] [charge0 ''ch_0081'' 500 ChPending] [])
   in fst r = Inl InvalidTransition \<and> status_at (snd r) = ([PIProcessing], [ChFailed])"
  by code_simp

text \<open>A challenge from the channel is stored, but the order stays in processing.\<close>

lemma challenged_order_stays_processing:
  "let s = snd (run_state (Confirm (env0 ResRequiresAction) ''pi_0081'' ''CARD'' []) (db0 [intent0 PICreated []] [] []))
   in status_at s = ([PIProcessing], [ChPending]) \<and> length (actions s) = 1"
  by code_simp

text \<open>Of a combined payment only the first charge that succeeds is booked and received.\<close>

lemma second_split_is_not_booked:
  "let s = snd (run_state (PIMarkSucceeded (env0 ResSucceeded) ''pi_0081'' ''ch_0081'' 200)
        (db0 [intent0 PIProcessing [''ch_0081'', ''ch_0082'']] [charge0 ''ch_0081'' 200 ChPending, charge0 ''ch_0082'' 300 ChPending] []));
      r = run_state (PIMarkSucceeded (env0 ResSucceeded) ''pi_0081'' ''ch_0082'' 300) s
   in fst r = Inl InvalidTransition \<and> status_at (snd r) = ([PISucceeded], [ChSucceeded, ChSucceeded]) \<and>
      map ob_amount (outbox (snd r)) = [200] \<and> map pi_received (intents (snd r)) = [200]"
  by code_simp

text \<open>A payment that arrives after the order was canceled is neither booked nor given back.\<close>

lemma late_payment_is_kept:
  "let s = snd (run_state (OnLateChargeSuccess (env0 ResSucceeded) ''pi_0081'' ''ch_0081'' 500)
        (db0 [intent0 PICanceled []] [charge0 ''ch_0081'' 500 ChPending] []))
   in status_at s = ([PICanceled], [ChSucceeded]) \<and> outbox s = [] \<and> refunds s = []"
  by code_simp

text \<open>The shares of a bundle: the last charge is asked for the whole amount, of which it can give back one.\<close>

lemma bundle_share_exceeds_charge:
  "let c = charge0 ''ch_0081'' 1 ChSucceeded in map snd (allocations 2 3 2 [(c, 1), (c, 1), (c, 1)]) = [2]"
  by code_simp

text \<open>Refunds of a bundle carry no key, so the second one of an order is a duplicate.\<close>

lemma bundle_stops_after_its_first_refund:
  "let r = run_state (CreateBundle (env0 ResSucceeded) \<lparr>ri_pi = ''pi_0081'', ri_charge = [], ri_amount = 0, ri_reason = [],
        ri_metadata = [], ri_idem = []\<rparr>)
        (db0 [intent0 PISucceeded []] [charge0 ''ch_0081'' 200 ChSucceeded, charge0 ''ch_0082'' 300 ChSucceeded] [])
   in (case fst r of Inr (made, e) \<Rightarrow> length made = 1 \<and> e = Some DuplicateKey | Inl _ \<Rightarrow> False)"
  by code_simp

text \<open>Two intents of a merchant in one table, both without a key: the second is a duplicate.\<close>

lemma second_intent_without_key_is_refused:
  "fst (run_state (piCreate ((intent0 PICreated [])\<lparr>pi_id := ''pi_0082'', pi_idem := []\<rparr>))
     (db0 [(intent0 PICreated [])\<lparr>pi_idem := []\<rparr>] [] [])) = Inl DuplicateKey"
  by code_simp

text \<open>Giving back one charge in full marks the whole order as fully refunded.\<close>

definition refund0 :: "string \<Rightarrow> int \<Rightarrow> OrderRefund" where
  "refund0 c amount = \<lparr>rf_id = ''re_0081'', rf_charge = c, rf_pi = ''pi_0081'', rf_idem = ''k'', rf_amount = amount,
     rf_currency = ''USD'', rf_status = RfPending, rf_reason = [], rf_failure = [], rf_metadata = [], rf_auto = False,
     rf_retries = 0, rf_next = None, rf_created = 0\<rparr>"

lemma one_refunded_charge_closes_the_order:
  "let s = snd (run_state (RefundMarkSucceeded (env0 ResSucceeded) ''pi_0081'' ''re_0081'')
        ((db0 [intent0 PISucceeded []] [charge0 ''ch_0081'' 200 ChSucceeded, charge0 ''ch_0082'' 300 ChSucceeded] [])
          \<lparr>refunds := [refund0 ''ch_0081'' 200]\<rparr>))
   in map pi_phase (intents s) = [PhaseFullyRefunded] \<and> map ch_back (charges s) = [200, 0]"
  by code_simp

text \<open>A webhook whose handling failed is marked as processed.\<close>

definition paid_event :: webhook_event where
  "paid_event = \<lparr>we_channel = ''pc'', we_id = ''ev1'', we_type = EvChargeSucceeded, we_pi = ''pi_0081'',
     we_charge = ''ch_0081'', we_refund = [], we_amount = 500\<rparr>"

lemma failed_webhook_is_marked_processed:
  "let d = db0 [intent0 PIProcessing [''ch_0081'']] [charge0 ''ch_0081'' 500 ChPending]
         [False, False, False, True, True];
       s = snd (run_state (Ingest (env0 ResSucceeded) paid_event) d);
       t = snd (run_state (Ingest (env0 ResSucceeded) paid_event) s)
   in status_at t = ([PIProcessing], [ChPending]) \<and> map iw_status (inbound s) = [WebhookSucceeded] \<and> faults s = []"
  by code_simp

text \<open>A row that was claimed and not processed, as without an accounting client, is not claimed again, however long
  ago the lease ended.\<close>

definition row0 :: AccountingOutbox where
  "row0 = \<lparr>ob_id = ''1'', ob_request = ''q'', ob_event = EventChargeSucceeded, ob_pi = ''pi_0081'', ob_charge = ''ch_0081'',
     ob_refund = [], ob_owner_type = OwnerUser, ob_owner = ''c1'', ob_method = ''CARD'', ob_amount = 500,
     ob_currency = ''USD'', ob_metadata = [], ob_status = OutboxPending, ob_attempts = 0, ob_next = 0, ob_error = [],
     ob_sent = None, ob_token = [], ob_created = 0\<rparr>"

lemma claimed_row_is_lost:
  "let s = snd (run_state (claim_table 10 1 ''t1'' 300 (0, 8)) ((order_start [])\<lparr>outbox := [row0]\<rparr>));
       r = run_state (claim_table 1000000000000000 1 ''t2'' 300 (0, 8)) s
   in fst r = Inr 0 \<and> map (\<lambda>r. (ob_status r, ob_token r, ob_next r)) (outbox (snd r)) = [(OutboxPending, ''t1'', 310)]"
  by code_simp

text \<open>Passing a challenge marks the charge as paid with amount zero and is refused, for the order is not processing.\<close>

lemma passed_challenge_is_refused:
  "let r = run_state (Submit (env0 ResSucceeded) ''pi_0081'' ''act_0081'' [])
        ((db0 [intent0 PIRequiresAction [''ch_0081'']] [charge0 ''ch_0081'' 500 ChPending] [])
          \<lparr>actions := [\<lparr>pa_id = ''act_0081'', pa_pi = ''pi_0081'', pa_charge = ''ch_0081'', pa_type = ''3ds'',
             pa_status = PaPending, pa_payload = [], pa_secret = [], pa_attempts = 0, pa_max = 3, pa_failure = [],
             pa_expires = None, pa_completed = None\<rparr>]\<rparr>)
   in fst r = Inl InvalidTransition \<and> status_at (snd r) = ([PIRequiresAction], [ChSucceeded]) \<and>
      map ch_got (charges (snd r)) = [0]"
  by code_simp

end
