(* ===== verification/OrderKeys.thy ===== *)
theory OrderKeys
  imports OrderCases
begin

text \<open>
  Idempotency keys of payment intents: within a table no two intents share merchant and key, whatever is
  asked of the service, and creating with a key again returns the intent that has it.
\<close>

section \<open>Keys of a store\<close>

definition intent_keys :: "order_db \<Rightarrow> (string \<times> string \<times> string) set" where
  "intent_keys s = (\<lambda>p. (pi_id p, pi_mch p, pi_idem p)) ` set (intents s)"

text \<open>The same id has one key, and the same key in one table one id.\<close>

definition compatible :: "string \<times> string \<times> string \<Rightarrow> string \<times> string \<times> string \<Rightarrow> bool" where
  "compatible x y = ((fst x = fst y \<longrightarrow> snd x = snd y) \<and>
     (shardOf (fst x) = shardOf (fst y) \<and> snd x = snd y \<longrightarrow> fst x = fst y))"

definition intent_keys_unique :: "order_db \<Rightarrow> bool" where
  "intent_keys_unique s = (\<forall>x\<in>intent_keys s. \<forall>y\<in>intent_keys s. compatible x y)"

lemma compatible_refl: "compatible x x"
  by (simp add: compatible_def)

lemma compatible_sym: "compatible x y \<Longrightarrow> compatible y x"
  unfolding compatible_def by metis

definition keeps_keys :: "order_db \<Rightarrow> order_db \<Rightarrow> bool" where
  "keeps_keys s t = (intent_keys_unique s \<longrightarrow> intent_keys_unique t \<and> intent_keys s \<subseteq> intent_keys t)"

lemma intent_keys_put:
  assumes "intent_keys_unique s" "find_pi (pi_id p) s = Some p" "row_update p q"
  shows "intent_keys (put_pi q s) = intent_keys s"
proof -
  have p: "p \<in> set (intents s)" using assms(2) by (auto simp: find_pi_def dest: select_one_Some)
  have same: "(pi_id r, pi_mch r, pi_idem r) = (pi_id q, pi_mch q, pi_idem q)"
    if r: "r \<in> set (intents s)" "pi_id r = pi_id q" for r
  proof -
    have "(pi_id p, pi_mch p, pi_idem p) \<in> intent_keys s" "(pi_id r, pi_mch r, pi_idem r) \<in> intent_keys s"
      using p r(1) by (simp_all add: intent_keys_def)
    with assms(1) have "compatible (pi_id p, pi_mch p, pi_idem p) (pi_id r, pi_mch r, pi_idem r)"
      unfolding intent_keys_unique_def by blast
    then show ?thesis using r(2) assms(3) unfolding compatible_def row_update_def fst_conv snd_conv by metis
  qed
  let ?key = "\<lambda>r. (pi_id r, pi_mch r, pi_idem r)" and ?put = "\<lambda>r. if pi_id r = pi_id q then q else r"
  have "?key (?put r) = ?key r" if "r \<in> set (intents s)" for r
    using same [OF that] by (cases "pi_id r = pi_id q") simp_all
  then have "?key ` set (map ?put (intents s)) = ?key ` set (intents s)"
    by (simp only: set_map image_image cong: image_cong)
  moreover have "intents (put_pi q s) = map ?put (intents s)" by (simp add: put_pi_def update_where_def)
  ultimately show ?thesis unfolding intent_keys_def by (simp only:)
qed

lemma keys_unique_new:
  assumes u: "intent_keys_unique s" and n: "\<not> list_ex (pi_clash p) (intents s)"
  shows "intent_keys_unique (s\<lparr>intents := intents s @ [p]\<rparr>)"
proof -
  have new: "intent_keys (s\<lparr>intents := intents s @ [p]\<rparr>) = insert (pi_id p, pi_mch p, pi_idem p) (intent_keys s)"
    by (simp add: intent_keys_def)
  have "compatible (pi_id p, pi_mch p, pi_idem p) x" if "x \<in> intent_keys s" for x
  proof -
    from that obtain q where "q \<in> set (intents s)" "x = (pi_id q, pi_mch q, pi_idem q)"
      by (auto simp: intent_keys_def)
    moreover from this n have "\<not> pi_clash p q" by (auto simp: list_ex_iff)
    ultimately show ?thesis by (simp add: compatible_def pi_clash_def) metis
  qed
  with u show ?thesis
    unfolding new intent_keys_unique_def by (blast intro: compatible_refl compatible_sym)
qed

interpretation keys: service_relation keeps_keys
proof unfold_locales
  fix s t u assume "keeps_keys s t" "keeps_keys t u"
  then show "keeps_keys s u" unfolding keeps_keys_def by blast
next
  fix p q s assume "find_pi (pi_id p) s = Some p" "row_update p q"
  then show "keeps_keys s (put_pi q s)"
    unfolding keeps_keys_def using intent_keys_put [of s p q] by (metis intent_keys_unique_def order_refl)
next
  fix p and s :: order_db assume "\<not> list_ex (pi_clash p) (intents s)" "pi_status p = PICreated"
  then show "keeps_keys s (s\<lparr>intents := intents s @ [p]\<rparr>)"
    unfolding keeps_keys_def by (simp add: keys_unique_new) (auto simp: intent_keys_def)
qed (simp_all add: keeps_keys_def intent_keys_unique_def intent_keys_def)

section \<open>Asking again\<close>

text \<open>The shard of a request's key, and the intent that has the key.\<close>

definition key_shard :: "create_input \<Rightarrow> shard_id" where
  "key_shard x = RouteByString NewRouter (if in_business x = [] then in_mch x else in_business x)"

definition holds_key :: "create_input \<Rightarrow> PaymentIntent \<Rightarrow> order_db \<Rightarrow> bool" where
  "holds_key x p s = ((pi_id p, in_mch x, in_idem x) \<in> intent_keys s \<and> shardOf (pi_id p) = key_shard x)"

abbreviation returns_holder :: "create_input \<Rightarrow> PaymentIntent op \<Rightarrow> bool" where
  "returns_holder x m \<equiv> ensures (\<lambda>_. True) m (\<lambda>r s. \<forall>p. r = Inr p \<longrightarrow> holds_key x p s)"

abbreviation with_key :: "create_input \<Rightarrow> order_db \<Rightarrow> PaymentIntent option" where
  "with_key x s \<equiv> select_one (\<lambda>p. shardOf (pi_id p) = key_shard x \<and> pi_mch p = in_mch x \<and> pi_idem p = in_idem x) (intents s)"

lemma lookup_key: "piGetByIdempotencyKey (in_mch x) (in_business x) (in_idem x) =
   (if in_idem x = [] then fail PaymentIntentNotFound
    else sql (\<lambda>s. case with_key x s of None \<Rightarrow> (Inl PaymentIntentNotFound, s) | Some p \<Rightarrow> (Inr p, s)))"
  by (simp add: piGetByIdempotencyKey_def key_shard_def Let_def)

lemma with_key_holds: "with_key x s = Some p \<Longrightarrow> holds_key x p s"
  by (force simp: holds_key_def intent_keys_def dest: select_one_Some)

lemma lookup_holder: "returns_holder x (piGetByIdempotencyKey (in_mch x) (in_business x) (in_idem x))"
proof (rule ensuresI)
  fix s
  have "with_key x (s\<lparr>faults := bs\<rparr>) = with_key x s" "holds_key x p (s\<lparr>faults := bs\<rparr>) = holds_key x p s" for bs p
    by (simp_all add: holds_key_def intent_keys_def)
  then show "\<forall>p. fst (run_state (piGetByIdempotencyKey (in_mch x) (in_business x) (in_idem x)) s) = Inr p \<longrightarrow>
      holds_key x p (snd (run_state (piGetByIdempotencyKey (in_mch x) (in_business x) (in_idem x)) s))"
    by (auto simp: lookup_key run_sql with_key_holds split: list.split option.split)
qed

lemma created_holder:
  assumes "pi_id p = FormatID ''pi'' (key_shard x) seq" "pi_mch p = in_mch x" "pi_idem p = in_idem x"
  shows "ensures (\<lambda>_. True) (piCreate p) (\<lambda>r s. r = Inr () \<longrightarrow> holds_key x p s)"
proof -
  have "shardOf (pi_id p) = key_shard x"
    using assms(1) by (simp add: RouteByPrefixedID_FormatID RouteByString_in_shards key_shard_def)
  then show ?thesis
    using assms by (intro ensuresI)
      (simp add: piCreate_def run_sql holds_key_def intent_keys_def split: list.split)
qed

lemma holder_after: "holds_key x p s \<Longrightarrow> intent_keys_unique s \<Longrightarrow> keeps_keys s t \<Longrightarrow> holds_key x p t \<and> intent_keys_unique t"
  by (auto simp: holds_key_def keeps_keys_def)

lemma create_returns_holder: "returns_holder x (CreateIntent env x)"
proof -
  have err: "returns_holder x (fail e)" for e
    by (simp add: ensures_def)
  have again: "returns_holder x (State_Monad.bind (piGetByIdempotencyKey (in_mch x) (in_business x) (in_idem x))
      (\<lambda>g. case g of Inr q \<Rightarrow> done_with q | Inl _ \<Rightarrow> fail e))" for e
    by (rule ensures_bind [OF lookup_holder]) (simp add: ensures_def split: sum.split)
  have create: "returns_holder x (State_Monad.bind (piCreate p) (\<lambda>r. case r of Inr _ \<Rightarrow> done_with p
      | Inl e \<Rightarrow> if e = DuplicateKey \<and> in_idem x \<noteq> []
          then State_Monad.bind (piGetByIdempotencyKey (in_mch x) (in_business x) (in_idem x))
                 (\<lambda>g. case g of Inr q \<Rightarrow> done_with q | Inl _ \<Rightarrow> fail e)
          else fail e))"
    if "pi_id p = FormatID ''pi'' (key_shard x) seq" "pi_mch p = in_mch x" "pi_idem p = in_idem x" for p seq
  proof (rule ensures_bind [OF created_holder [OF that]])
    fix r :: "order_error + unit"
    show "ensures (\<lambda>s. r = Inr () \<longrightarrow> holds_key x p s) (case r of Inr _ \<Rightarrow> done_with p
        | Inl e \<Rightarrow> if e = DuplicateKey \<and> in_idem x \<noteq> []
          then State_Monad.bind (piGetByIdempotencyKey (in_mch x) (in_business x) (in_idem x))
                 (\<lambda>g. case g of Inr q \<Rightarrow> done_with q | Inl _ \<Rightarrow> fail e)
          else fail e) (\<lambda>r s. \<forall>p. r = Inr p \<longrightarrow> holds_key x p s)"
      using again by (cases r) (auto simp: ensures_def)
  qed
  have fresh: "returns_holder x (if e \<noteq> PaymentIntentNotFound then fail e else on_ok (NextID tagPI) k)"
    if "\<And>seq. returns_holder x (k seq)" for e k
    by (intro ensures_if err ensures_on_ok [of _ _ "\<lambda>_ _. True"] that) (simp_all add: ensures_def)
  have lookup: "returns_holder x (State_Monad.bind (if in_idem x = [] then fail PaymentIntentNotFound
        else piGetByIdempotencyKey (in_mch x) (in_business x) (in_idem x)) f)"
    if f: "\<And>p. f (Inr p) = done_with p" "\<And>e. returns_holder x (f (Inl e))" for f
  proof (rule ensures_bind [of _ _ "\<lambda>r s. \<forall>p. r = Inr p \<longrightarrow> holds_key x p s"])
    show "returns_holder x (if in_idem x = [] then fail PaymentIntentNotFound
        else piGetByIdempotencyKey (in_mch x) (in_business x) (in_idem x))"
      using lookup_holder by (simp add: ensures_def)
    show "ensures (\<lambda>s. \<forall>p. r = Inr p \<longrightarrow> holds_key x p s) (f r) (\<lambda>r s. \<forall>p. r = Inr p \<longrightarrow> holds_key x p s)" for r
      using f by (cases r) (auto simp: ensures_def)
  qed
  show ?thesis
    unfolding CreateIntent_def key_shard_def [symmetric] Let_def
    by (intro ensures_if err lookup; simp only: sum.case; intro fresh; rule create; simp)
qed

lemma lookup_finds:
  assumes "holds_key x p t" "intent_keys_unique t" "in_idem x \<noteq> []" "faults t = []"
  shows "\<exists>q. run_state (piGetByIdempotencyKey (in_mch x) (in_business x) (in_idem x)) t = (Inr q, t) \<and> pi_id q = pi_id p"
proof -
  obtain r where r: "r \<in> set (intents t)" "pi_id r = pi_id p" "pi_mch r = in_mch x" "pi_idem r = in_idem x"
    using assms(1) by (auto simp: holds_key_def intent_keys_def)
  have sh: "shardOf (pi_id p) = key_shard x" using assms(1) by (simp add: holds_key_def)
  obtain q where q: "with_key x t = Some q"
    using r sh by (cases "with_key x t") (auto simp: select_one_None)
  then have h: "holds_key x q t" by (rule with_key_holds)
  then have "compatible (pi_id q, in_mch x, in_idem x) (pi_id p, in_mch x, in_idem x)"
    using assms(1,2) unfolding intent_keys_unique_def holds_key_def by blast
  then have "pi_id q = pi_id p" using h sh by (simp add: compatible_def holds_key_def)
  then show ?thesis using q assms(3,4) by (simp add: lookup_key run_sql)
qed

lemma create_passed:
  assumes "run_state (CreateIntent env x) s = (Inr p, t)"
  shows "0 < in_amount x" "in_currency x \<noteq> []" "in_mch x \<noteq> []"
  using assms by (auto simp: CreateIntent_def split: if_splits)

text \<open>
  C19. Once an intent was created with an idempotency key, creating with the same key again, after anything
  that was asked in between, returns the intent with the same id and changes nothing, provided no statement
  fails then.
\<close>

theorem retried_create_returns_the_intent:
  assumes first: "run_state (CreateIntent env x) (serve_all h (order_start fs)) = (Inr p, s)"
    and later: "in_idem x \<noteq> []" "faults (serve_all h' s) = []" "env_url_ok env' (in_return x)" "env_url_ok env' (in_notify x)"
  shows "\<exists>q. run_state (CreateIntent env' x) (serve_all h' s) = (Inr q, serve_all h' s) \<and> pi_id q = pi_id p"
proof -
  let ?s = "serve_all h (order_start fs)" and ?t = "serve_all h' s"
  have "intent_keys_unique (order_start fs)" by (simp add: intent_keys_unique_def intent_keys_def order_start_def)
  then have "intent_keys_unique ?s" using keys.serve_all_related [of "order_start fs" h] by (simp add: keeps_keys_def)
  moreover have "keeps_keys ?s s" using keys.obeysD [OF keys.r_CreateIntent, of ?s env x] first by simp
  ultimately have u: "intent_keys_unique s" by (simp add: keeps_keys_def)
  have "holds_key x p s" using ensuresD [OF create_returns_holder [of env x], of ?s] first by simp
  from holder_after [OF this u keys.serve_all_related [of s h']]
  obtain q where q: "run_state (piGetByIdempotencyKey (in_mch x) (in_business x) (in_idem x)) ?t = (Inr q, ?t)" "pi_id q = pi_id p"
    using lookup_finds later(1,2) by blast
  then show ?thesis
    using create_passed [OF first] later by (simp add: CreateIntent_def)
qed

theorem retried_create_returns_the_intent_witness:
  "\<exists>p q s. run_state (CreateIntent (env0 ResFailed) (input0 ''k1'')) (order_start []) = (Inr p, s) \<and>
     run_state (CreateIntent (env0 ResSucceeded) (input0 ''k1'')) (serve_all [(env0 ResSucceeded, ReqCancel ''pi_0081'' ''changed'')] s) =
       (Inr q, serve_all [(env0 ResSucceeded, ReqCancel ''pi_0081'' ''changed'')] s) \<and>
     pi_id q = pi_id p \<and> pi_id p = ''pi_0081''"
proof -
  have r: "RouteByString NewRouter ''merchant1'' = (0, 8)" by (simp add: hash_simps NewRouter_def)
  have i: "FormatID ''pi'' (0, 8) 1 = ''pi_0081''" by code_simp
  obtain p s where first: "run_state (CreateIntent (env0 ResFailed) (input0 ''k1'')) (order_start []) = (Inr p, s)"
    and p: "pi_id p = ''pi_0081''" "pi_status p = PICreated" and s: "intents s = [p]" "faults s = []"
    by (simp add: CreateIntent_def input0_def env0_def r i order_start_def piGetByIdempotencyKey_def run_sql run_on_ok
        NextID_def piCreate_def Let_def select_one_def)
  let ?h = "[(env0 ResSucceeded, ReqCancel ''pi_0081'' ''changed'')]"
  have "faults (serve_all ?h s) = []"
    by (simp add: CancelIntent_def piGet_def run_on_ok run_sql find_pi_def select_one_def s p env0_def cancel_row_def
        piUpdateStatus_def CanTransition_def PIValidTransitions_def Let_def put_pi_def)
  from retried_create_returns_the_intent [of "env0 ResFailed" "input0 ''k1''" "[]" "[]", simplified, OF first _ this]
  show ?thesis using first p by (auto simp: input0_def env0_def)
qed

end
