(* ===== verification/OrderRefundLaws.thy ===== *)
theory OrderRefundLaws
  imports OrderMoney OrderCases
begin

text \<open>
  Refunds stay within what was captured: of every charge, what was given back is at most what succeeded
  refunds ask, that at most what refunds not failed ask, and that at most the charge's capacity, under
  any sequence of refund requests, refund results from webhooks, and rounds of the refund worker.
\<close>

section \<open>What matters of a row\<close>

definition refund_core :: "OrderRefund \<Rightarrow> string \<times> string \<times> string \<times> int \<times> refund_status" where
  "refund_core q = (rf_pi q, rf_id q, rf_charge q, rf_amount q, rf_status q)"

definition charge_core :: "OrderCharge \<Rightarrow> string \<times> string \<times> int \<times> int \<times> int" where
  "charge_core c = (ch_pi c, ch_id c, ch_amount c, ch_got c, ch_back c)"

definition still :: "order_db \<Rightarrow> order_db \<Rightarrow> bool" where
  "still s t = (map refund_core (refunds t) = map refund_core (refunds s) \<and>
     map charge_core (charges t) = map charge_core (charges s))"

definition paid_back :: "string \<Rightarrow> string \<Rightarrow> OrderRefund \<Rightarrow> bool" where
  "paid_back i c q = (rf_pi q = i \<and> rf_charge q = c \<and> rf_status q = RfSucceeded)"

abbreviation active_sum :: "order_db \<Rightarrow> string \<Rightarrow> string \<Rightarrow> int" where
  "active_sum s i c \<equiv> sum_where (is_active i c) rf_amount (refunds s)"

abbreviation paid_sum :: "order_db \<Rightarrow> string \<Rightarrow> string \<Rightarrow> int" where
  "paid_sum s i c \<equiv> sum_where (paid_back i c) rf_amount (refunds s)"

lemma update_where_core: "(\<And>r. core (f r) = core r) \<Longrightarrow> map core (update_where P f rows) = map core rows"
  by (rule map_update_where) simp

interpretation still: statement_relation still
  by unfold_locales (auto simp: still_def)

lemma q_pi: "still.obeys (piUpdateFields i f)" "still.obeys (piUpdateStatus i e t g)"
  unfolding piUpdateFields_def piUpdateStatus_def
  by (intro still.r_on_ok still.r_sql still.r_reads; auto simp: still_def put_pi_def Let_def split: option.split)+

lemma q_charge: "(\<And>c. charge_core (f c) = charge_core c) \<Longrightarrow> still.obeys (chargeUpdateFields i c f)"
  unfolding chargeUpdateFields_def
  by (intro still.r_on_ok still.r_sql still.r_reads)
    (auto simp: still_def put_charges_def update_where_core split: option.split)

lemma q_refund: "(\<And>q. refund_core (f q) = refund_core q) \<Longrightarrow> still.obeys (refundUpdateFields i r f)"
  unfolding refundUpdateFields_def
  by (intro still.r_on_ok still.r_sql still.r_reads)
    (auto simp: still_def put_refunds_def update_where_core split: option.split)

lemma q_outbox: "still.obeys (EnqueueRefundSucceeded env p q)"
proof -
  have "still.obeys (acctOutboxInsert now r)" for now r
    unfolding acctOutboxInsert_def by (intro still.r_structure still.r_sql) (auto simp: still_def)
  moreover have "still.obeys (inlineMarkSent now r)" for now r
    unfolding inlineMarkSent_def Let_def by (rule still.r_sql) (auto simp: still_def)
  ultimately show ?thesis
    unfolding EnqueueRefundSucceeded_def enqueue_def tryInlineDeliver_def by (intro still.r_structure)
qed

lemma q_inbound: "still.obeys (recordInbound ev)" "still.obeys (MarkProcessed w)" "still.obeys (LoadOrStore e)"
proof -
  show "still.obeys (recordInbound ev)"
    unfolding recordInbound_def inboundInsert_def
    by (intro still.r_structure still.r_sql) (auto simp: still_def split: option.split)
  show "still.obeys (MarkProcessed w)"
    unfolding MarkProcessed_def by (rule still.r_sql) (simp add: still_def)
  show "still.obeys (LoadOrStore e)"
    by (rule still.obeysI) (simp add: LoadOrStore_def still_def)
qed

lemma q_ask: "still.obeys (ask_channel env call)"
proof -
  have "still.obeys (note_call call)" by (rule still.obeysI) (simp add: still_def)
  then show ?thesis unfolding ask_channel_def by (intro still.r_structure)
qed

lemma q_schedule: "still.obeys (scheduleNext env q reason)"
  unfolding scheduleNext_def by (intro still.r_structure q_refund) (simp add: refund_core_def)

section \<open>The invariant\<close>

definition within :: "order_db \<Rightarrow> bool" where
  "within s = (distinct (map (\<lambda>q. (rf_pi q, rf_id q)) (refunds s)) \<and>
     distinct (map (\<lambda>c. (ch_pi c, ch_id c)) (charges s)) \<and> (\<forall>q\<in>set (refunds s). 0 \<le> rf_amount q) \<and>
     (\<forall>c\<in>set (charges s). 0 \<le> ch_back c \<and> ch_back c \<le> paid_sum s (ch_pi c) (ch_id c) \<and>
        active_sum s (ch_pi c) (ch_id c) \<le> capacity c \<and> capacity c < 2 ^ 62))"

text \<open>There is room for giving back \<open>n\<close> more of a charge.\<close>

definition room :: "string \<Rightarrow> string \<Rightarrow> int \<Rightarrow> order_db \<Rightarrow> bool" where
  "room i c n s = (within s \<and> 0 \<le> n \<and> (\<forall>d\<in>set (charges s). is_charge i c d \<longrightarrow> ch_back d + n \<le> paid_sum s i c))"

lemma sum_where_core:
  assumes "map refund_core rows = map refund_core rows'"
    and "\<And>q r. refund_core q = refund_core r \<Longrightarrow> P q = P r"
  shows "sum_where P rf_amount rows = sum_where P rf_amount rows'"
  using assms(1)
proof (induction rows arbitrary: rows')
  case (Cons q rows)
  then obtain r rows'' where r: "rows' = r # rows''" by (cases rows') auto
  with Cons.prems have "refund_core q = refund_core r" by simp
  then have "P q = P r" "rf_amount q = rf_amount r" by (rule assms(2), simp add: refund_core_def)
  then show ?case using Cons r by simp
qed simp

lemma sums_quiet:
  assumes "still s t"
  shows "active_sum t i c = active_sum s i c" "paid_sum t i c = paid_sum s i c"
  using assms by (auto intro!: sum_where_core simp: still_def is_active_def paid_back_def refund_core_def)

lemma charge_before:
  assumes "still s t" "d \<in> set (charges t)"
  obtains c where "c \<in> set (charges s)" "charge_core c = charge_core d"
proof -
  have "set (map charge_core (charges t)) = set (map charge_core (charges s))"
    using assms(1) by (simp only: still_def)
  moreover have "charge_core d \<in> set (map charge_core (charges t))" using assms(2) by simp
  ultimately show ?thesis using that by (auto simp del: set_map) (auto simp: image_def)
qed

lemma keys_quiet:
  assumes "still s t"
  shows "map (\<lambda>q. (rf_pi q, rf_id q)) (refunds t) = map (\<lambda>q. (rf_pi q, rf_id q)) (refunds s)"
    "map (\<lambda>c. (ch_pi c, ch_id c)) (charges t) = map (\<lambda>c. (ch_pi c, ch_id c)) (charges s)"
    "map rf_amount (refunds t) = map rf_amount (refunds s)"
proof -
  have *: "map g (map refund_core (refunds t)) = map g (map refund_core (refunds s))"
    "map h (map charge_core (charges t)) = map h (map charge_core (charges s))" for g :: "_ \<Rightarrow> 'x" and h :: "_ \<Rightarrow> 'y"
    using assms by (simp_all only: still_def)
  show "map (\<lambda>q. (rf_pi q, rf_id q)) (refunds t) = map (\<lambda>q. (rf_pi q, rf_id q)) (refunds s)"
    using *(1) [of "\<lambda>(i, r, _). (i, r)"] by (simp add: refund_core_def comp_def)
  show "map (\<lambda>c. (ch_pi c, ch_id c)) (charges t) = map (\<lambda>c. (ch_pi c, ch_id c)) (charges s)"
    using *(2) [of "\<lambda>(i, c, _). (i, c)"] by (simp add: charge_core_def comp_def)
  show "map rf_amount (refunds t) = map rf_amount (refunds s)"
    using *(1) [of "\<lambda>(_, _, _, a, _). a"] by (simp add: refund_core_def comp_def)
qed

lemma within_quiet:
  assumes q: "still s t" and w: "within s"
  shows "within t"
  unfolding within_def
proof (intro conjI ballI)
  show "distinct (map (\<lambda>q. (rf_pi q, rf_id q)) (refunds t))" "distinct (map (\<lambda>c. (ch_pi c, ch_id c)) (charges t))"
    using w unfolding within_def keys_quiet [OF q] by blast+
  have "\<forall>a\<in>set (map rf_amount (refunds s)). 0 \<le> a" using w by (simp add: within_def)
  then have "\<forall>a\<in>set (map rf_amount (refunds t)). 0 \<le> a" unfolding keys_quiet [OF q] .
  then show "0 \<le> rf_amount r" if "r \<in> set (refunds t)" for r using that by simp
  fix d assume "d \<in> set (charges t)"
  then obtain c where c: "c \<in> set (charges s)" "charge_core c = charge_core d" by (rule charge_before [OF q])
  then have e: "ch_pi c = ch_pi d" "ch_id c = ch_id d" "ch_back c = ch_back d" "capacity c = capacity d"
    by (simp_all add: charge_core_def capacity_def)
  have "0 \<le> ch_back c \<and> ch_back c \<le> paid_sum s (ch_pi c) (ch_id c) \<and>
      active_sum s (ch_pi c) (ch_id c) \<le> capacity c \<and> capacity c < 2 ^ 62"
    using w c(1) by (simp add: within_def)
  then show "0 \<le> ch_back d" "ch_back d \<le> paid_sum t (ch_pi d) (ch_id d)"
    "active_sum t (ch_pi d) (ch_id d) \<le> capacity d" "capacity d < 2 ^ 62"
    unfolding e sums_quiet [OF q] by simp_all
qed

lemma room_quiet:
  assumes q: "still s t" and r: "room i c n s"
  shows "room i c n t"
proof -
  have "ch_back d + n \<le> paid_sum t i c" if d: "d \<in> set (charges t)" "is_charge i c d" for d
  proof -
    obtain e where e: "e \<in> set (charges s)" "charge_core e = charge_core d" by (rule charge_before [OF q d(1)])
    then have "is_charge i c e" "ch_back e = ch_back d" using d(2) by (simp_all add: charge_core_def is_charge_def)
    with r e(1) show ?thesis unfolding sums_quiet [OF q] by (auto simp: room_def)
  qed
  then show ?thesis using r within_quiet [OF q] by (auto simp: room_def)
qed

lemma keeps_within: "still.obeys m \<Longrightarrow> keeps within m"
  by (rule keeps_by_relation [of still]) (auto intro: within_quiet)

lemma keeps_room: "still.obeys m \<Longrightarrow> keeps (room i c n) m"
  by (rule keeps_by_relation [of still]) (auto intro: room_quiet)

section \<open>Changing rows\<close>

lemma is_refund_key: "is_refund i r = (\<lambda>q. (rf_pi q, rf_id q) = (i, r))"
  by (rule ext) (simp add: is_refund_def)

lemma sums_put_refunds:
  assumes w: "within s" and q: "find_refund i r s = Some q"
    and f: "\<And>x. rf_pi (f x) = rf_pi x \<and> rf_id (f x) = rf_id x \<and> rf_charge (f x) = rf_charge x \<and> rf_amount (f x) = rf_amount x"
  shows "active_sum (put_refunds i r f s) j c =
      active_sum s j c - (if is_active j c q then rf_amount q else 0) + (if is_active j c (f q) then rf_amount q else 0)"
    "paid_sum (put_refunds i r f s) j c =
      paid_sum s j c - (if paid_back j c q then rf_amount q else 0) + (if paid_back j c (f q) then rf_amount q else 0)"
proof -
  have k: "q \<in> set (refunds s)" "(rf_pi q, rf_id q) = (i, r)"
    using q by (auto simp: find_refund_def is_refund_def dest: select_one_Some)
  have d: "distinct (map (\<lambda>q. (rf_pi q, rf_id q)) (refunds s))" using w by (simp add: within_def)
  show "active_sum (put_refunds i r f s) j c =
      active_sum s j c - (if is_active j c q then rf_amount q else 0) + (if is_active j c (f q) then rf_amount q else 0)"
    using sum_where_key_update [OF d k, where f = f and P = "is_active j c" and v = rf_amount] f
    by (simp add: put_refunds_def is_refund_key)
  show "paid_sum (put_refunds i r f s) j c =
      paid_sum s j c - (if paid_back j c q then rf_amount q else 0) + (if paid_back j c (f q) then rf_amount q else 0)"
    using sum_where_key_update [OF d k, where f = f and P = "paid_back j c" and v = rf_amount] f
    by (simp add: put_refunds_def is_refund_key)
qed

lemma rows_put_refunds:
  assumes "\<And>x. rf_pi (f x) = rf_pi x \<and> rf_id (f x) = rf_id x \<and> rf_charge (f x) = rf_charge x \<and> rf_amount (f x) = rf_amount x"
  shows "map (\<lambda>q. (rf_pi q, rf_id q)) (refunds (put_refunds i r f s)) = map (\<lambda>q. (rf_pi q, rf_id q)) (refunds s)"
    "(\<forall>q\<in>set (refunds (put_refunds i r f s)). 0 \<le> rf_amount q) = (\<forall>q\<in>set (refunds s). 0 \<le> rf_amount q)"
    "charges (put_refunds i r f s) = charges s"
proof -
  have a: "map rf_amount (refunds (put_refunds i r f s)) = map rf_amount (refunds s)"
    using assms by (simp add: put_refunds_def map_update_where)
  have e: "(\<forall>q\<in>set rows. 0 \<le> rf_amount q) = (\<forall>n\<in>set (map rf_amount rows). 0 \<le> n)" for rows :: "OrderRefund list" by simp
  show "(\<forall>q\<in>set (refunds (put_refunds i r f s)). 0 \<le> rf_amount q) = (\<forall>q\<in>set (refunds s). 0 \<le> rf_amount q)"
    unfolding e a ..
qed (use assms in \<open>simp_all add: put_refunds_def map_update_where\<close>)

text \<open>A pending refund that succeeds makes room for itself.\<close>

lemma within_settle:
  assumes w: "within s" and q: "find_refund i r s = Some q" "rf_status q = RfPending"
    and f: "\<And>x. rf_pi (f x) = rf_pi x \<and> rf_id (f x) = rf_id x \<and> rf_charge (f x) = rf_charge x \<and> rf_amount (f x) = rf_amount x"
  shows "within (put_refunds i r f s)"
    "rf_status (f q) = RfSucceeded \<Longrightarrow> room i (rf_charge q) (rf_amount q) (put_refunds i r f s)"
proof -
  let ?t = "put_refunds i r f s"
  have qs: "q \<in> set (refunds s)" "rf_pi q = i"
    using q(1) by (auto simp: find_refund_def is_refund_def dest: select_one_Some)
  then have nn: "0 \<le> rf_amount q" using w by (simp add: within_def)
  have sums: "active_sum ?t j c \<le> active_sum s j c" "paid_sum s j c \<le> paid_sum ?t j c" for j c
    unfolding sums_put_refunds [OF w q(1) f] using nn q(2) f [of q] by (auto simp: is_active_def paid_back_def)
  show "within ?t"
    unfolding within_def rows_put_refunds [OF f]
  proof (intro conjI ballI)
    fix d assume "d \<in> set (charges s)"
    then have "0 \<le> ch_back d \<and> ch_back d \<le> paid_sum s (ch_pi d) (ch_id d) \<and>
      active_sum s (ch_pi d) (ch_id d) \<le> capacity d \<and> capacity d < 2 ^ 62" using w by (simp add: within_def)
    then show "0 \<le> ch_back d" "ch_back d \<le> paid_sum ?t (ch_pi d) (ch_id d)"
      "active_sum ?t (ch_pi d) (ch_id d) \<le> capacity d" "capacity d < 2 ^ 62"
      using sums [of "ch_pi d" "ch_id d"] by auto
  qed (use w in \<open>simp_all add: within_def\<close>)
  then show "room i (rf_charge q) (rf_amount q) ?t" if won: "rf_status (f q) = RfSucceeded"
  proof -
    have "paid_sum ?t i (rf_charge q) = paid_sum s i (rf_charge q) + rf_amount q"
      unfolding sums_put_refunds [OF w q(1) f] using won q(2) qs(2) f [of q] by (simp add: paid_back_def)
    moreover have "ch_back d \<le> paid_sum s i (rf_charge q)" if "d \<in> set (charges s)" "is_charge i (rf_charge q) d" for d
      using w that by (auto simp: within_def is_charge_def)
    ultimately show ?thesis
      using \<open>within ?t\<close> nn unfolding room_def rows_put_refunds [OF f] by auto
  qed
qed

lemma within_give_back:
  assumes r: "room i c n s"
  shows "within (put_charges i c (give_back n) s)"
proof -
  have w: "within s" "0 \<le> n" using r by (simp_all add: room_def)
  let ?t = "put_charges i c (give_back n) s"
  have same: "refunds ?t = refunds s"
    "map (\<lambda>c. (ch_pi c, ch_id c)) (charges ?t) = map (\<lambda>c. (ch_pi c, ch_id c)) (charges s)"
    by (auto simp: put_charges_def update_where_def give_back_def)
  have "0 \<le> ch_back d \<and> ch_back d \<le> paid_sum s (ch_pi d) (ch_id d) \<and>
      active_sum s (ch_pi d) (ch_id d) \<le> capacity d \<and> capacity d < 2 ^ 62" if d: "d \<in> set (charges ?t)" for d
  proof -
    from d obtain e where e: "e \<in> set (charges s)" "d = (if is_charge i c e then give_back n e else e)"
      by (auto simp: put_charges_def set_update_where)
    have "0 \<le> ch_back e \<and> ch_back e \<le> paid_sum s (ch_pi e) (ch_id e) \<and>
      active_sum s (ch_pi e) (ch_id e) \<le> capacity e \<and> capacity e < 2 ^ 62" using w(1) e(1) by (simp add: within_def)
    moreover have "is_charge i c e \<Longrightarrow> ch_back e + n \<le> paid_sum s i c" using r e(1) by (simp add: room_def)
    ultimately show ?thesis
      using e(2) w(2) by (auto simp: give_back_def capacity_def is_charge_def)
  qed
  then show ?thesis using w(1) by (auto simp: within_def same)
qed

text \<open>A refund of \<open>n\<close> still fits.\<close>

definition fits :: "string \<Rightarrow> string \<Rightarrow> int \<Rightarrow> order_db \<Rightarrow> bool" where
  "fits i c n s = (within s \<and> 0 \<le> n \<and> (\<forall>d\<in>set (charges s). is_charge i c d \<longrightarrow> active_sum s i c + n \<le> capacity d))"

lemma fits_quiet:
  assumes q: "still s t" and r: "fits i c n s"
  shows "fits i c n t"
proof -
  have "active_sum t i c + n \<le> capacity d" if d: "d \<in> set (charges t)" "is_charge i c d" for d
  proof -
    obtain e where e: "e \<in> set (charges s)" "charge_core e = charge_core d" by (rule charge_before [OF q d(1)])
    then have "is_charge i c e" "capacity e = capacity d" using d(2) by (simp_all add: charge_core_def is_charge_def capacity_def)
    with r e(1) show ?thesis unfolding sums_quiet [OF q] by (auto simp: fits_def)
  qed
  then show ?thesis using r within_quiet [OF q] by (auto simp: fits_def)
qed

lemma within_new_refund:
  assumes f: "fits i c n s" and r: "rf_pi r = i" "rf_charge r = c" "rf_amount r = n" "rf_status r = RfPending"
    and new: "\<not> list_ex (refund_clash r) (refunds s)"
  shows "within (s\<lparr>refunds := refunds s @ [r]\<rparr>)"
proof -
  let ?t = "s\<lparr>refunds := refunds s @ [r]\<rparr>"
  have w: "within s" "0 \<le> n" using f by (simp_all add: fits_def)
  have key: "(rf_pi r, rf_id r) \<notin> (\<lambda>q. (rf_pi q, rf_id q)) ` set (refunds s)"
    using new by (auto simp: list_ex_iff refund_clash_def)
  have sums: "active_sum ?t j d = active_sum s j d + (if j = i \<and> d = c then n else 0)" "paid_sum ?t j d = paid_sum s j d" for j d
    using r by (auto simp: is_active_def paid_back_def)
  have "0 \<le> ch_back d \<and> ch_back d \<le> paid_sum ?t (ch_pi d) (ch_id d) \<and>
      active_sum ?t (ch_pi d) (ch_id d) \<le> capacity d \<and> capacity d < 2 ^ 62" if d: "d \<in> set (charges s)" for d
  proof -
    have "0 \<le> ch_back d \<and> ch_back d \<le> paid_sum s (ch_pi d) (ch_id d) \<and>
      active_sum s (ch_pi d) (ch_id d) \<le> capacity d \<and> capacity d < 2 ^ 62" using w(1) d by (simp add: within_def)
    moreover have "ch_pi d = i \<Longrightarrow> ch_id d = c \<Longrightarrow> active_sum s i c + n \<le> capacity d"
      using f d by (auto simp: fits_def is_charge_def)
    ultimately show ?thesis unfolding sums by auto
  qed
  then show ?thesis
    using w key r(3) by (simp add: within_def ball_Un)
qed

section \<open>Asking for a refund\<close>

lemma quiet_faults: "still s (s\<lparr>faults := bs\<rparr>)"
  by (simp add: still_def)

lemma paid_le_active:
  "\<forall>q\<in>set rows. 0 \<le> rf_amount q \<Longrightarrow>
   sum_where (paid_back i c) rf_amount rows \<le> sum_where (is_active i c) rf_amount rows"
  by (induction rows) (auto simp: paid_back_def is_active_def)

lemma chargeGet_finds:
  "ensures within (chargeGet i c) (\<lambda>r s. within s \<and> (\<forall>d. r = Inr d \<longrightarrow> d \<in> set (charges s) \<and> is_charge i c d))"
  unfolding chargeGet_def
  by (rule ensures_sql, erule within_quiet [OF quiet_faults])
    (auto simp: find_charge_def dest: select_one_Some split: option.split)

lemma SumActive_finds:
  "ensures (\<lambda>s. within s \<and> d \<in> set (charges s)) (SumActiveByCharge i c)
     (\<lambda>r s. within s \<and> d \<in> set (charges s) \<and> (\<forall>t. r = Inr t \<longrightarrow> t = active_sum s i c))"
  unfolding SumActiveByCharge_def
  by (rule ensures_sql) (auto simp: Let_def intro: within_quiet [OF quiet_faults])

lemma insert_refund_within:
  assumes "ri_pi x = i"
  shows "ensures (fits i c n) (insert_refund env p c n x) (\<lambda>_. within)"
proof -
  have ok: "ensures (fits i c n) m (\<lambda>_. within)" if "keeps within m" for m :: "(order_db, 'z) state"
    using that by (auto simp: keeps_def ensures_def fits_def)
  have create: "ensures (fits i c n) (refundCreate r) (\<lambda>_. within)"
    if "rf_pi r = i" "rf_charge r = c" "rf_amount r = n" "rf_status r = RfPending" for r
  proof (cases "rf_pi r = []")
    case True
    then show ?thesis by (simp add: refundCreate_def ensures_def fits_def)
  next
    case False
    have "ensures (fits i c n) (sql (\<lambda>s. if list_ex (refund_clash r) (refunds s) then (Inl DuplicateKey, s)
        else (Inr (), s\<lparr>refunds := refunds s @ [r]\<rparr>))) (\<lambda>_. within)"
      by (rule ensures_sql, erule fits_quiet [OF quiet_faults])
        (auto simp: fits_def intro: within_new_refund [OF _ that])
    with False show ?thesis by (simp add: refundCreate_def)
  qed
  have next_id: "ensures (fits i c n) (NextID tagRefund) (\<lambda>_. fits i c n)"
    using keeps_by_relation [OF still.r_NextID fits_quiet] by (simp add: keeps_def)
  show ?thesis
    unfolding insert_refund_def Let_def
    by (rule ensures_on_ok [OF next_id], simp add: fits_def, rule ensures_bind [OF create])
      (simp_all add: assms new_refund_def keeps_def [symmetric],
       auto intro!: keeps_within still.r_structure q_pi still.r_reads split: sum.split)
qed

lemma keeps_refund_on:
  assumes "ri_pi x = i"
  shows "keeps within (refund_on env p c x)"
proof -
  have guarded: "ensures (\<lambda>s. within s \<and> d \<in> set (charges s) \<and> t = active_sum s i c)
      (if add64 t n > capacity d then fail RefundAmountExceeded else insert_refund env p c n x) (\<lambda>_. within)"
    if d: "is_charge i c d" and n: "0 < n" "n \<le> sub64 (capacity d) (ch_back d)" for d t n
  proof (rule ensures_if)
    show "ensures (\<lambda>s. within s \<and> d \<in> set (charges s) \<and> t = active_sum s i c) (fail RefundAmountExceeded) (\<lambda>_. within)"
      by (simp add: ensures_def)
    assume g: "\<not> add64 t n > capacity d"
    have "fits i c n s" if s: "within s" "d \<in> set (charges s)" "t = active_sum s i c" for s
    proof -
      have b: "0 \<le> ch_back d" "ch_back d \<le> paid_sum s i c" "active_sum s i c \<le> capacity d" "capacity d < 2 ^ 62"
        using s(1,2) d by (auto simp: within_def is_charge_def)
      have p: "0 \<le> paid_sum s i c" "paid_sum s i c \<le> active_sum s i c"
        using s(1) by (auto simp: within_def intro: sum_where_nonneg paid_le_active)
      have "sub64 (capacity d) (ch_back d) \<le> capacity d"
        using b p by (simp add: sub64_def in64_def)
      then have "add64 t n = t + n" using n p b s(3) by (simp add: add64_def in64_def)
      moreover have "e = d" if "e \<in> set (charges s)" "is_charge i c e" for e
        using s(1,2) d that by (auto simp: within_def is_charge_def distinct_map dest: inj_onD)
      ultimately show ?thesis using s(1,3) n g by (auto simp: fits_def)
    qed
    then show "ensures (\<lambda>s. within s \<and> d \<in> set (charges s) \<and> t = active_sum s i c) (insert_refund env p c n x) (\<lambda>_. within)"
      by (intro ensures_weaken [OF insert_refund_within [OF assms]]) auto
  qed
  have checked: "ensures (\<lambda>s. within s \<and> d \<in> set (charges s)) (on_ok (SumActiveByCharge i c) (\<lambda>t.
      if add64 t n > capacity d then fail RefundAmountExceeded else insert_refund env p c n x)) (\<lambda>_. within)"
    if "is_charge i c d" "0 < n" "n \<le> sub64 (capacity d) (ch_back d)" for d n
    by (rule ensures_on_ok [OF SumActive_finds], simp, rule ensures_weaken [OF guarded [OF that]]) auto
  have found: "ensures (\<lambda>s. within s \<and> (\<forall>e. (Inr d :: order_error + OrderCharge) = Inr e \<longrightarrow> e \<in> set (charges s) \<and> is_charge i c e))
      (if sub64 (capacity d) (ch_back d) \<le> 0 \<or> n > sub64 (capacity d) (ch_back d) then fail RefundAmountExceeded
       else on_ok (SumActiveByCharge i c) (\<lambda>t.
         if add64 t n > capacity d then fail RefundAmountExceeded else insert_refund env p c n x)) (\<lambda>_. within)"
    if n: "n = (if ri_amount x \<le> 0 then sub64 (capacity d) (ch_back d) else ri_amount x)" for d n
  proof (cases "is_charge i c d")
    case True
    show ?thesis
    proof (rule ensures_if, simp add: ensures_def, rule ensures_weaken [OF checked [OF True]])
      assume "\<not> (sub64 (capacity d) (ch_back d) \<le> 0 \<or> n > sub64 (capacity d) (ch_back d))"
      then show "0 < n" "n \<le> sub64 (capacity d) (ch_back d)" using n by (auto split: if_splits)
    qed auto
  qed (simp add: ensures_def)
  show ?thesis
    unfolding refund_on_def keeps_def Let_def assms
    by (rule ensures_if, simp add: ensures_def, rule ensures_on_ok [OF chargeGet_finds], simp, rule found [OF refl])
qed

lemma keeps_CreateRefund: "keeps within (CreateRefund env x)"
  unfolding CreateRefund_def Let_def
  by (intro keeps_basic keeps_refund_on [OF refl] keeps_within still.r_reads)

section \<open>Results of refunds\<close>

lemma cas_refund_within:
  assumes f: "\<And>q. refund_core (f q) = refund_core q" and new: "new \<in> {RfSucceeded, RfFailed}"
  shows "ensures within (refundCASUpdateStatus i r RfPending new f)
     (\<lambda>res s. within s \<and> (\<forall>q. res = Inr (q, True) \<longrightarrow> new = RfSucceeded \<longrightarrow> room i (rf_charge q) (rf_amount q) s))"
proof -
  let ?f = "\<lambda>q. (f q)\<lparr>rf_status := new\<rparr>"
  let ?W = "\<lambda>won s. within s \<and> (won \<longrightarrow> new = RfSucceeded \<longrightarrow>
      (\<forall>q. find_refund i r s = Some q \<longrightarrow> room i (rf_charge q) (rf_amount q) s))"
  have same: "rf_pi (?f x) = rf_pi x \<and> rf_id (?f x) = rf_id x \<and> rf_charge (?f x) = rf_charge x \<and> rf_amount (?f x) = rf_amount x" for x
    using f [of x] by (simp add: refund_core_def)
  have faulted: "?W won (s\<lparr>faults := bs\<rparr>)" if "?W won s" for won s bs
    using that by (auto simp: find_refund_def intro: within_quiet [OF quiet_faults] room_quiet [OF quiet_faults])
  have first: "ensures within (sql (\<lambda>s. case find_refund i r s of None \<Rightarrow> (Inr False, s)
      | Some q \<Rightarrow> if rf_status q = RfPending then (Inr True, put_refunds i r ?f s) else (Inr False, s)))
      (\<lambda>res s. within s \<and> (\<forall>won. res = Inr won \<longrightarrow> ?W won s))"
  proof (rule ensures_sql, erule within_quiet [OF quiet_faults], simp)
    fix s assume w: "within s"
    have "within (put_refunds i r ?f s) \<and> (new = RfSucceeded \<longrightarrow> (\<forall>q'. find_refund i r (put_refunds i r ?f s) = Some q' \<longrightarrow>
        room i (rf_charge q') (rf_amount q') (put_refunds i r ?f s)))"
      if q: "find_refund i r s = Some q" "rf_status q = RfPending" for q
    proof (intro conjI impI allI)
      show "within (put_refunds i r ?f s)" by (rule within_settle(1) [OF w q same])
      fix q' assume n: "new = RfSucceeded" and q': "find_refund i r (put_refunds i r ?f s) = Some q'"
      have qs: "q \<in> set (refunds s)" "is_refund i r q" using q(1) by (auto simp: find_refund_def dest: select_one_Some)
      from q' have "q' \<in> set (refunds (put_refunds i r ?f s))" "is_refund i r q'"
        unfolding find_refund_def by (blast dest: select_one_Some)+
      then obtain z where z: "z \<in> set (refunds s)" "is_refund i r z" "q' = ?f z"
        by (auto simp: put_refunds_def set_update_where)
      have "inj_on (\<lambda>q. (rf_pi q, rf_id q)) (set (refunds s))" using w by (simp add: within_def distinct_map)
      from inj_onD [OF this _ z(1) qs(1)] have "z = q" using z(2) qs(2) by (simp add: is_refund_def)
      then show "room i (rf_charge q') (rf_amount q') (put_refunds i r ?f s)"
        using within_settle(2) [OF w q same] n z(3) same [of q] by simp
    qed
    with w show "within (snd (case find_refund i r s of None \<Rightarrow> (Inr False, s)
        | Some q \<Rightarrow> if rf_status q = RfPending then (Inr True, put_refunds i r ?f s) else (Inr False, s))) \<and>
      (\<forall>won. fst (case find_refund i r s of None \<Rightarrow> (Inr False, s)
        | Some q \<Rightarrow> if rf_status q = RfPending then (Inr True, put_refunds i r ?f s) else (Inr False, s)) = Inr won \<longrightarrow>
        ?W won (snd (case find_refund i r s of None \<Rightarrow> (Inr False, s)
        | Some q \<Rightarrow> if rf_status q = RfPending then (Inr True, put_refunds i r ?f s) else (Inr False, s))))"
      by (simp split: option.split)
  qed
  have second: "ensures (?W won) (on_ok (refundGet i r) (\<lambda>q. done_with (q, won)))
      (\<lambda>res s. within s \<and> (\<forall>q. res = Inr (q, True) \<longrightarrow> new = RfSucceeded \<longrightarrow> room i (rf_charge q) (rf_amount q) s))" for won
  proof (rule ensures_on_ok [of _ _ "\<lambda>res s. ?W won s \<and> (\<forall>q. res = Inr q \<longrightarrow> find_refund i r s = Some q)"])
    show "ensures (?W won) (refundGet i r) (\<lambda>res s. ?W won s \<and> (\<forall>q. res = Inr q \<longrightarrow> find_refund i r s = Some q))"
      unfolding refundGet_def by (rule ensures_sql, erule faulted) (auto split: option.split)
  qed (auto simp: ensures_def)
  show ?thesis
    unfolding refundCASUpdateStatus_def
    by (rule ensures_on_ok [OF first], simp, rule ensures_weaken [OF second]) auto
qed

lemma add_to_charge_within:
  "ensures (room i (rf_charge q) (rf_amount q)) (add_to_charge i q) (\<lambda>_. within)"
proof -
  have weak: "room i c n s \<Longrightarrow> within s" for c n s by (simp add: room_def)
  have added: "ensures (room i c n) (chargeAddRefunded i c n) (\<lambda>_. within)" for c n
    unfolding chargeAddRefunded_def
  proof (rule ensures_on_ok [of _ _ "\<lambda>_. within"])
    show "ensures (room i c n) (sql (\<lambda>s. case find_charge i c s of None \<Rightarrow> (Inl ChargeNotFound, s)
        | Some d \<Rightarrow> if \<not> in64 (ch_back d + n) then (Inl DBError, s)
                    else if n = 0 then (Inl ChargeNotFound, s)
                    else (Inr (), put_charges i c (give_back n) s))) (\<lambda>_. within)"
      by (rule ensures_sql, erule room_quiet [OF quiet_faults])
        (auto simp: weak within_give_back split: option.split)
  qed (use keeps_within [OF still.r_reads(3)] in \<open>simp_all add: keeps_def\<close>)
  have "keeps within (State_Monad.bind (chargeGet i (rf_charge q)) (\<lambda>r. case r of
      Inr c \<Rightarrow> if ch_back c \<ge> ch_amount c then ignoring (chargeUpdateFields i (rf_charge q) (\<lambda>d. d\<lparr>ch_refunded := True\<rparr>)) (done_with ())
              else done_with ()
    | Inl _ \<Rightarrow> done_with ()))"
    by (intro keeps_within still.r_structure still.r_reads q_charge) (simp add: charge_core_def)
  then show ?thesis
    unfolding add_to_charge_def keeps_def by (rule ensures_ignoring [OF added])
qed

lemma keeps_RefundMarkSucceeded: "keeps within (RefundMarkSucceeded env i r)"
proof -
  have after: "keeps within (ignoring (if rf_charge q = [] then done_with () else update_phase i q)
      (ignoring (if env_accounting env then on_ok (piGet i) (\<lambda>p. EnqueueRefundSucceeded env p q) else done_with ()) (done_with q)))" for q
    unfolding update_phase_def by (intro keeps_within still.r_structure still.r_reads q_pi q_outbox)
  have rest: "ensures (\<lambda>s. within s \<and> (won \<longrightarrow> room i (rf_charge q) (rf_amount q) s))
      (if \<not> won then done_with q
       else ignoring (if rf_charge q = [] then done_with () else add_to_charge i q)
         (ignoring (if rf_charge q = [] then done_with () else update_phase i q)
           (ignoring (if env_accounting env then on_ok (piGet i) (\<lambda>p. EnqueueRefundSucceeded env p q) else done_with ())
             (done_with q)))) (\<lambda>_. within)" for q won
  proof (rule ensures_if)
    assume won: "\<not> \<not> won"
    show "ensures (\<lambda>s. within s \<and> (won \<longrightarrow> room i (rf_charge q) (rf_amount q) s))
      (ignoring (if rf_charge q = [] then done_with () else add_to_charge i q)
         (ignoring (if rf_charge q = [] then done_with () else update_phase i q)
           (ignoring (if env_accounting env then on_ok (piGet i) (\<lambda>p. EnqueueRefundSucceeded env p q) else done_with ())
             (done_with q)))) (\<lambda>_. within)"
    proof (rule ensures_ignoring)
      show "ensures (\<lambda>s. within s \<and> (won \<longrightarrow> room i (rf_charge q) (rf_amount q) s))
          (if rf_charge q = [] then done_with () else add_to_charge i q) (\<lambda>_. within)"
        using won add_to_charge_within [of i q] by (simp add: ensures_def)
    qed (rule after [unfolded keeps_def])
  qed (simp add: ensures_def)
  show ?thesis
    unfolding RefundMarkSucceeded_def keeps_def
  proof (rule ensures_on_ok [OF cas_refund_within])
    fix x :: "OrderRefund \<times> bool"
    obtain q won where x: "x = (q, won)" by (cases x)
    show "ensures (\<lambda>s. within s \<and> (\<forall>q. (Inr x :: order_error + OrderRefund \<times> bool) = Inr (q, True) \<longrightarrow> RfSucceeded = RfSucceeded \<longrightarrow>
        room i (rf_charge q) (rf_amount q) s)) (case x of (q, won) \<Rightarrow> if \<not> won then done_with q
       else ignoring (if rf_charge q = [] then done_with () else add_to_charge i q)
         (ignoring (if rf_charge q = [] then done_with () else update_phase i q)
           (ignoring (if env_accounting env then on_ok (piGet i) (\<lambda>p. EnqueueRefundSucceeded env p q) else done_with ())
             (done_with q)))) (\<lambda>_. within)"
      unfolding x prod.case by (rule ensures_weaken [OF rest]) auto
  qed simp_all
qed

lemma keeps_RefundMarkFailed: "keeps within (RefundMarkFailed i r reason)"
proof -
  have cas: "keeps within (refundCASUpdateStatus i r RfPending RfFailed (\<lambda>q. q\<lparr>rf_failure := reason\<rparr>))"
    unfolding keeps_def
    by (rule ensures_weaken [OF cas_refund_within]) (simp_all add: refund_core_def)
  show ?thesis
    unfolding RefundMarkFailed_def
    by (rule keeps_rules(5) [OF cas], intro keeps_within still.r_structure q_pi)
qed

lemma keeps_sweep: "keeps within (sweep env n)"
proof -
  have "keeps within (tryOne env r)" for r
    unfolding tryOne_def
    by (intro keeps_rules(5) [OF keeps_within [OF q_ask]] keeps_cases keeps_result keeps_rules(6) keeps_RefundMarkSucceeded
        keeps_RefundMarkFailed keeps_rules(2) keeps_within [OF q_schedule])
  then show ?thesis
    unfolding sweep_def by (intro keeps_rules(5) [OF keeps_within [OF still.r_reads(13)]] keeps_cases keeps_rules(2,3) keeps_each)
qed

lemma keeps_refund_event:
  assumes "we_type ev \<in> {EvRefundSucceeded, EvRefundFailed}"
  shows "keeps within (Ingest env ev)"
proof -
  have book: "still.obeys (if env_accounting env then ignoring (on_ok (piGet i) (\<lambda>p. EnqueueRefundSucceeded env p q)) (done_with ())
      else done_with ())" for i q
    by (intro still.r_structure still.r_reads q_outbox)
  have d: "keeps within (dispatch env ev)"
  proof (cases "we_type ev = EvRefundSucceeded")
    case True
    show ?thesis
      unfolding dispatch_def True event_type.case
      by (intro keeps_cases keeps_rules(2) keeps_rules(4) [OF keeps_RefundMarkSucceeded] keeps_within [OF book])
  next
    case False
    then have refused: "we_type ev = EvRefundFailed" using assms by simp
    show ?thesis
      unfolding dispatch_def refused event_type.case
      by (intro keeps_cases keeps_rules(2) keeps_rules(6) keeps_RefundMarkFailed)
  qed
  show ?thesis
    unfolding Ingest_def Let_def
    by (intro keeps_rules(2,3,4,5) keeps_cases keeps_rules(6) d keeps_within [OF q_inbound(1)] keeps_within [OF q_inbound(2)]
        keeps_within [OF q_inbound(3)])
qed

section \<open>Histories of refunds\<close>

fun only_refunds :: "service_request \<Rightarrow> bool" where
  "only_refunds (ReqRefund x) = True"
| "only_refunds (TickRefunds n) = True"
| "only_refunds (ReqWebhook ev) = (we_type ev \<in> {EvRefundSucceeded, EvRefundFailed})"
| "only_refunds _ = False"

lemma within_serve_all:
  assumes "within s" "\<forall>(env, q)\<in>set h. only_refunds q"
  shows "within (serve_all h s)"
  using assms
proof (induction h s rule: serve_all.induct)
  case (2 env q h s)
  have "keeps within (serve env q)"
    using 2(3) by (cases q) (auto intro!: keeps_rules keeps_CreateRefund keeps_sweep keeps_refund_event)
  with 2 show ?case by (auto simp: keeps_def ensures_def)
qed simp


definition captured0 :: order_db where
  "captured0 = db0 [intent0 PISucceeded []] [charge0 ''ch_0081'' 500 ChSucceeded] []"

definition refunded0 :: "(service_env \<times> service_request) list" where
  "refunded0 =
     [(env0 ResSucceeded, ReqRefund \<lparr>ri_pi = ''pi_0081'', ri_charge = ''ch_0081'', ri_amount = 200, ri_reason = [],
         ri_metadata = [], ri_idem = ''k''\<rparr>),
      (env0 ResSucceeded, ReqWebhook \<lparr>we_channel = ''pc'', we_id = ''ev2'', we_type = EvRefundSucceeded, we_pi = ''pi_0081'',
         we_charge = ''ch_0081'', we_refund = ''re_0081'', we_amount = 200\<rparr>)]"


end
