(* ===== verification/DayCut.thy ===== *)
theory DayCut
  imports Tcc
begin

text \<open>
  Closing an accounting date on one shard: \<open>ProcessShardDayCut\<close>, \<open>sealRunSnapshots\<close> and
  \<open>calculateAccountStats\<close> of \<open>day_cut_service.go\<close> with the statements they run
  (\<open>balance_snapshot_repository.go\<close>, \<open>day_cut_control_repository.go\<close>, \<open>ListByCutDateChunk\<close> of
  \<open>transaction_repository.go\<close>). An attempt reads the day's postings in chunks, adds each chunk to the
  run's snapshot rows in the transaction that moves the cursor, and seals the rows at the end; it may
  fail or die at every statement and is then run again from the cursor.
\<close>

section \<open>Rows and tables\<close>

datatype TransactionStatus =
  TransactionStatusFailed | TransactionStatusSuccess | TransactionStatusProcessing

record StoredTransaction = AccountTransaction +
  row_id :: int
  row_status :: TransactionStatus

record AccountBalanceSnapshot =
  snap_account :: string
  snap_date :: string
  snap_run :: int
  beginning_balance :: int
  ending_balance :: int
  snap_debit :: int
  snap_credit :: int
  snap_count :: int
  snap_currency :: string
  snap_last_tx :: string

datatype DayCutStatus =
  DayCutStatusPending | DayCutStatusProcessing | DayCutStatusCompleted | DayCutStatusFailed

datatype cut_error =
    CutContextCancelled
  | CutControlQuery
  | CutClaimFailed
  | CutListFailed
  | CutNoDatabase
  | CutChunkFailed
  | CutOutOfRange
  | CutSealFailed
  | CutCompleteFailed

record DayCutControl =
  control_shard :: shard_id
  control_date :: string
  control_run :: int
  last_processed_id :: int
  control_last_tx :: string
  control_currency :: string
  control_status :: DayCutStatus
  control_error :: "cut_error option"
  control_updated_at :: int

record cut_tables =
  postings :: "StoredTransaction list"
  cut_accounts :: "Account list"
  snapshots :: "AccountBalanceSnapshot list"
  controls :: "DayCutControl list"

section \<open>The control table\<close>

definition control_key :: "shard_id \<Rightarrow> string \<Rightarrow> int \<Rightarrow> DayCutControl \<Rightarrow> bool" where
  "control_key s d n c \<longleftrightarrow> control_shard c = s \<and> control_date c = d \<and> control_run c = n"

definition GetByShard :: "cut_tables \<Rightarrow> shard_id \<Rightarrow> string \<Rightarrow> int \<Rightarrow> DayCutControl option" where
  "GetByShard t s d n = select_one (control_key s d n) (controls t)"

definition UpdateStatus :: "int \<Rightarrow> cut_tables \<Rightarrow> shard_id \<Rightarrow> string \<Rightarrow> int \<Rightarrow> DayCutStatus \<Rightarrow> cut_error option \<Rightarrow>
    cut_tables" where
  "UpdateStatus now t s d n st e = t\<lparr>controls := update_where (control_key s d n)
     (\<lambda>c. c\<lparr>control_status := st, control_error := e, control_updated_at := now\<rparr>) (controls t)\<rparr>"

definition UpdateStatusCompleted :: "int \<Rightarrow> cut_tables \<Rightarrow> shard_id \<Rightarrow> string \<Rightarrow> int \<Rightarrow> string \<Rightarrow> cut_tables" where
  "UpdateStatusCompleted now t s d n txID = t\<lparr>controls := update_where (control_key s d n)
     (\<lambda>c. c\<lparr>control_status := DayCutStatusCompleted, control_error := None, control_last_tx := txID,
            control_updated_at := now\<rparr>) (controls t)\<rparr>"

text \<open>The guard of the \<open>WHERE\<close> keeps the cursor from moving back; how many rows it matched is not read.\<close>

definition SetLastProcessedIDTx :: "int \<Rightarrow> cut_tables \<Rightarrow> shard_id \<Rightarrow> string \<Rightarrow> int \<Rightarrow> int \<Rightarrow> cut_tables" where
  "SetLastProcessedIDTx now t s d n lastID = t\<lparr>controls := update_where
     (\<lambda>c. control_key s d n c \<and> last_processed_id c < lastID)
     (\<lambda>c. c\<lparr>last_processed_id := lastID, control_updated_at := now\<rparr>) (controls t)\<rparr>"

section \<open>The day's postings\<close>

definition day_posting :: "string \<Rightarrow> string \<Rightarrow> StoredTransaction \<Rightarrow> bool" where
  "day_posting d cur x \<longleftrightarrow>
     row_status x = TransactionStatusSuccess \<and> cut_date x = d \<and> (cur = [] \<or> tx_currency x = cur)"

definition ListByCutDateChunk :: "cut_tables \<Rightarrow> string \<Rightarrow> string \<Rightarrow> int \<Rightarrow> nat \<Rightarrow> StoredTransaction list" where
  "ListByCutDateChunk t d cur fromID limit =
     take (if limit = 0 then 1000 else limit)
       (sort_key row_id (filter (\<lambda>x. day_posting d cur x \<and> row_id x > fromID) (postings t)))"

record AccountStats =
  stat_account :: string
  stat_debit :: int
  stat_credit :: int
  stat_count :: int
  stat_beginning :: int
  stat_ending :: int
  stat_last_tx :: string
  has_buffered :: bool

definition new_stat :: "string \<Rightarrow> AccountStats" where
  "new_stat a = \<lparr>stat_account = a, stat_debit = 0, stat_credit = 0, stat_count = 0, stat_beginning = 0,
     stat_ending = 0, stat_last_tx = [], has_buffered = False\<rparr>"

definition bump :: "StoredTransaction \<Rightarrow> AccountStats \<Rightarrow> AccountStats" where
  "bump x st = st\<lparr>stat_debit := add64 (stat_debit st) (debit_amount x),
     stat_credit := add64 (stat_credit st) (credit_amount x),
     stat_count := stat_count st + 1,
     stat_beginning := (if stat_count st + 1 = 1 then balance_before x else stat_beginning st),
     stat_ending := balance_after x,
     stat_last_tx := transaction_id x,
     has_buffered := (has_buffered st \<or> booking_type x = TransactionBookingTypeBuffered)\<rparr>"

fun add_stat :: "StoredTransaction \<Rightarrow> AccountStats list \<Rightarrow> AccountStats list" where
  "add_stat x [] = [bump x (new_stat (tx_account x))]"
| "add_stat x (st # sts) =
     (if stat_account st = tx_account x then bump x st # sts else st # add_stat x sts)"

text \<open>The map is an association list in order of first use; the order Go ranges over it in is an
  argument of the attempt.\<close>

definition calculateAccountStats :: "StoredTransaction list \<Rightarrow> AccountStats list" where
  "calculateAccountStats txs = fold add_stat txs []"

section \<open>Snapshot rows\<close>

definition chunkSnapshot :: "string \<Rightarrow> int \<Rightarrow> string \<Rightarrow> AccountStats \<Rightarrow> AccountBalanceSnapshot" where
  "chunkSnapshot d n cur st =
     \<lparr>snap_account = stat_account st, snap_date = d, snap_run = n,
      beginning_balance = stat_beginning st, ending_balance = stat_ending st,
      snap_debit = stat_debit st, snap_credit = stat_credit st, snap_count = stat_count st,
      snap_currency = (if cur = [] then ''PHP'' else cur), snap_last_tx = stat_last_tx st\<rparr>"

definition snap_key :: "string \<Rightarrow> string \<Rightarrow> int \<Rightarrow> AccountBalanceSnapshot \<Rightarrow> bool" where
  "snap_key a d n r \<longleftrightarrow> snap_account r = a \<and> snap_date r = d \<and> snap_run r = n"

text \<open>\<open>INSERT .. ON DUPLICATE KEY UPDATE\<close>: totals are added, ending and last posting replaced, the
  beginning kept. A sum that leaves its column is an error of the statement.\<close>

definition accumulate :: "AccountBalanceSnapshot \<Rightarrow> AccountBalanceSnapshot \<Rightarrow> AccountBalanceSnapshot" where
  "accumulate x r = r\<lparr>snap_debit := snap_debit r + snap_debit x, snap_credit := snap_credit r + snap_credit x,
     snap_count := snap_count r + snap_count x, ending_balance := ending_balance x,
     snap_last_tx := snap_last_tx x\<rparr>"

definition snap_fits :: "AccountBalanceSnapshot \<Rightarrow> bool" where
  "snap_fits r \<longleftrightarrow> in64 (snap_debit r) \<and> in64 (snap_credit r) \<and> snap_count r \<le> 2147483647"

definition upsertSnapshot :: "AccountBalanceSnapshot list \<Rightarrow> AccountBalanceSnapshot \<Rightarrow>
    AccountBalanceSnapshot list option" where
  "upsertSnapshot rows x =
     (let P = snap_key (snap_account x) (snap_date x) (snap_run x)
      in case select_one P rows of
           None \<Rightarrow> Some (rows @ [x])
         | Some r \<Rightarrow> if snap_fits (accumulate x r) then Some (update_where P (accumulate x) rows) else None)"

fun UpsertBatchIncrementalTx :: "AccountBalanceSnapshot list \<Rightarrow> AccountBalanceSnapshot list \<Rightarrow>
    AccountBalanceSnapshot list option" where
  "UpsertBatchIncrementalTx rows [] = Some rows"
| "UpsertBatchIncrementalTx rows (x # xs) =
     (case upsertSnapshot rows x of
        None \<Rightarrow> None
      | Some rows' \<Rightarrow> UpsertBatchIncrementalTx rows' xs)"

definition ListByCutAndRun :: "cut_tables \<Rightarrow> string \<Rightarrow> int \<Rightarrow> AccountBalanceSnapshot list" where
  "ListByCutAndRun t d n = sort_key snap_account (filter (\<lambda>r. snap_date r = d \<and> snap_run r = n) (snapshots t))"

text \<open>\<open>ORDER BY snapshot_date DESC, run_id DESC\<close>, first row: the last run of the last earlier date.\<close>

definition GetPrevEnding :: "cut_tables \<Rightarrow> string \<Rightarrow> string \<Rightarrow> int \<times> bool" where
  "GetPrevEnding t a d =
     (case rev (sort_key snap_date (sort_key snap_run
             (filter (\<lambda>r. snap_account r = a \<and> snap_date r < d) (snapshots t)))) of
        [] \<Rightarrow> (0, False)
      | r # _ \<Rightarrow> (ending_balance r, True))"

section \<open>One attempt\<close>

text \<open>
  What an attempt meets. A write is done, refused (nothing changes, an error comes back), done with
  the reply lost (an error comes back all the same), or the process dies at it. A chunk may find its
  context cancelled (then nothing can be written any more, the failure mark included), its query
  failing or no database; \<open>fail_mark\<close> is what happens to the failure mark.
\<close>

datatype write_outcome = Written | Refused | ReplyLost | Died

datatype chunk_outcome = ContextDone | ListFails | NoDatabase | CommitEnds write_outcome

record cut_env =
  cut_now :: int
  get_error :: bool
  claim_outcome :: write_outcome
  chunk_outcome :: "nat \<Rightarrow> chunk_outcome"
  stats_order :: "AccountStats list \<Rightarrow> AccountStats list"
  seal_list_fails :: bool
  seal_accounts_fail :: bool
  prev_ending_fails :: "string \<Rightarrow> bool"
  seal_order :: "(string \<times> int \<times> int) list \<Rightarrow> (string \<times> int \<times> int) list"
  seal_outcome :: "nat \<Rightarrow> write_outcome"
  complete_outcome :: write_outcome
  fail_mark :: write_outcome

definition calm_cut :: cut_env where
  "calm_cut = \<lparr>cut_now = 0, get_error = False, claim_outcome = Written, chunk_outcome = (\<lambda>_. CommitEnds Written),
     stats_order = id, seal_list_fails = False, seal_accounts_fail = False, prev_ending_fails = (\<lambda>_. False),
     seal_order = id, seal_outcome = (\<lambda>_. Written), complete_outcome = Written, fail_mark = Written\<rparr>"

definition landed :: "write_outcome \<Rightarrow> bool" where
  "landed w \<longleftrightarrow> w = Written \<or> w = ReplyLost"

definition markFailed :: "cut_env \<Rightarrow> cut_tables \<Rightarrow> shard_id \<Rightarrow> string \<Rightarrow> int \<Rightarrow> cut_error \<Rightarrow> cut_tables" where
  "markFailed env t s d n e =
     (if landed (fail_mark env) then UpdateStatus (cut_now env) t s d n DayCutStatusFailed (Some e) else t)"

definition commitChunk :: "cut_env \<Rightarrow> cut_tables \<Rightarrow> shard_id \<Rightarrow> string \<Rightarrow> int \<Rightarrow> string \<Rightarrow> StoredTransaction list \<Rightarrow>
    cut_tables option" where
  "commitChunk env t s d n cur txs =
     (case UpsertBatchIncrementalTx (snapshots t)
             (map (chunkSnapshot d n cur) (stats_order env (calculateAccountStats txs))) of
        None \<Rightarrow> None
      | Some rows \<Rightarrow> Some (SetLastProcessedIDTx (cut_now env) (t\<lparr>snapshots := rows\<rparr>) s d n (row_id (last txs))))"

abbreviation (input) dayCutChunkSize :: nat where "dayCutChunkSize \<equiv> 5000"

datatype scan_result = Scanned string | ScanStopped cut_error | ScanDied

lemma commitChunk_postings: "commitChunk env t s d n cur txs = Some t' \<Longrightarrow> postings t' = postings t"
  by (auto simp: commitChunk_def SetLastProcessedIDTx_def split: option.splits)

lemma chunk_rows:
  assumes "x \<in> set (ListByCutDateChunk t d cur c limit)"
  shows "x \<in> set (postings t) \<and> day_posting d cur x \<and> row_id x > c"
  using set_take_subset assms by (fastforce simp: ListByCutDateChunk_def)

lemma length_filter_le:
  "(\<And>y. y \<in> set xs \<Longrightarrow> Q y \<Longrightarrow> P y) \<Longrightarrow> length (filter Q xs) \<le> length (filter P xs)"
proof (induction xs)
  case (Cons a xs)
  from Cons.prems have "Q a \<Longrightarrow> P a" by simp
  moreover have "length (filter Q xs) \<le> length (filter P xs)"
    using Cons.prems by (intro Cons.IH) simp
  ultimately show ?case by auto
qed simp

lemma length_filter_strict:
  assumes "x \<in> set xs" "P x" "\<not> Q x" "\<And>y. y \<in> set xs \<Longrightarrow> Q y \<Longrightarrow> P y"
  shows "length (filter Q xs) < length (filter P xs)"
proof -
  from split_list [OF assms(1)] obtain us vs where [simp]: "xs = us @ x # vs" by blast
  have "length (filter Q us) \<le> length (filter P us)" "length (filter Q vs) \<le> length (filter P vs)"
    using assms(4) by (auto intro!: length_filter_le)
  with assms(2,3) show ?thesis by simp
qed

function chunk_loop :: "cut_env \<Rightarrow> shard_id \<Rightarrow> string \<Rightarrow> int \<Rightarrow> string \<Rightarrow> nat \<Rightarrow> int \<Rightarrow> string \<Rightarrow> cut_tables \<Rightarrow>
    scan_result \<times> cut_tables" where
  "chunk_loop env s d n cur k cursor lastTx t =
     (case chunk_outcome env k of
        ContextDone \<Rightarrow> (ScanStopped CutContextCancelled, t)
      | ListFails \<Rightarrow> (ScanStopped CutListFailed, markFailed env t s d n CutListFailed)
      | NoDatabase \<Rightarrow>
          if ListByCutDateChunk t d cur cursor dayCutChunkSize = [] then (Scanned lastTx, t)
          else (ScanStopped CutNoDatabase, markFailed env t s d n CutNoDatabase)
      | CommitEnds w \<Rightarrow>
          (let txs = ListByCutDateChunk t d cur cursor dayCutChunkSize
           in if txs = [] then (Scanned lastTx, t)
              else case commitChunk env t s d n cur txs of
                None \<Rightarrow> (ScanStopped CutOutOfRange, markFailed env t s d n CutOutOfRange)
              | Some t' \<Rightarrow>
                  (case w of
                     Refused \<Rightarrow> (ScanStopped CutChunkFailed, markFailed env t s d n CutChunkFailed)
                   | ReplyLost \<Rightarrow> (ScanStopped CutChunkFailed, markFailed env t' s d n CutChunkFailed)
                   | Died \<Rightarrow> (ScanDied, t)
                   | Written \<Rightarrow>
                       if length txs < dayCutChunkSize then (Scanned (transaction_id (last txs)), t')
                       else chunk_loop env s d n cur (Suc k) (row_id (last txs))
                              (transaction_id (last txs)) t')))"
  by pat_completeness auto
termination
proof (relation "measure (\<lambda>(env, s, d, n, cur, k, cursor, lastTx, t).
    length (filter (\<lambda>x. row_id x > cursor) (postings t)))", goal_cases)
  case 1
  then show ?case by simp
next
  case (2 env s d n cur k cursor lastTx t w txs t')
  let ?txs = "ListByCutDateChunk t d cur cursor dayCutChunkSize"
  have "last ?txs \<in> set ?txs" using 2 by simp
  from chunk_rows [OF this] have l: "last ?txs \<in> set (postings t)" "row_id (last ?txs) > cursor" by auto
  then have "length (filter (\<lambda>x. row_id x > row_id (last ?txs)) (postings t)) <
             length (filter (\<lambda>x. row_id x > cursor) (postings t))"
    by (intro length_filter_strict) auto
  then show ?case using 2 commitChunk_postings by simp
qed

declare chunk_loop.simps [simp del]

section \<open>Sealing a run\<close>

definition netDelta :: "Account \<Rightarrow> AccountBalanceSnapshot \<Rightarrow> int" where
  "netDelta a r = (if IsAssetOrExpense (acc_category a) then sub64 (snap_debit r) (snap_credit r)
                   else sub64 (snap_credit r) (snap_debit r))"

fun seal_loop :: "cut_env \<Rightarrow> cut_tables \<Rightarrow> string \<Rightarrow> AccountBalanceSnapshot list \<Rightarrow> (string \<times> int \<times> int) list option" where
  "seal_loop env t d [] = Some []"
| "seal_loop env t d (r # rs) =
     (case select_one (\<lambda>a. acc_no a = snap_account r) (cut_accounts t) of
        None \<Rightarrow> seal_loop env t d rs
      | Some a \<Rightarrow>
          if prev_ending_fails env (snap_account r) then None
          else (let prevEnd = fst (GetPrevEnding t (snap_account r) d)
                in map_option ((#) (snap_account r, prevEnd, add64 prevEnd (netDelta a r)))
                     (seal_loop env t d rs)))"

definition seal_row :: "string \<Rightarrow> int \<Rightarrow> (string \<times> int \<times> int) list \<Rightarrow> AccountBalanceSnapshot \<Rightarrow>
    AccountBalanceSnapshot" where
  "seal_row d n vals r =
     (if snap_date r = d \<and> snap_run r = n
      then case map_of vals (snap_account r) of
             None \<Rightarrow> r
           | Some (b, e) \<Rightarrow> r\<lparr>beginning_balance := b, ending_balance := e\<rparr>
      else r)"

datatype seal_result = Sealed | SealError | SealDied

text \<open>One \<open>UPDATE\<close> per thousand accounts, each its own transaction.\<close>

function SetBeginAndEnd :: "cut_env \<Rightarrow> nat \<Rightarrow> string \<Rightarrow> int \<Rightarrow> (string \<times> int \<times> int) list \<Rightarrow>
    AccountBalanceSnapshot list \<Rightarrow> seal_result \<times> AccountBalanceSnapshot list" where
  "SetBeginAndEnd env k d n vals rows =
     (if vals = [] then (Sealed, rows)
      else let rows' = map (seal_row d n (take 1000 vals)) rows
           in case seal_outcome env k of
                Refused \<Rightarrow> (SealError, rows)
              | ReplyLost \<Rightarrow> (SealError, rows')
              | Died \<Rightarrow> (SealDied, rows)
              | Written \<Rightarrow> SetBeginAndEnd env (Suc k) d n (drop 1000 vals) rows')"
  by pat_completeness auto
termination
  by (relation "measure (\<lambda>(env, k, d, n, vals, rows). length vals)") auto

declare SetBeginAndEnd.simps [simp del]

definition sealRunSnapshots :: "cut_env \<Rightarrow> cut_tables \<Rightarrow> string \<Rightarrow> int \<Rightarrow> seal_result \<times> cut_tables" where
  "sealRunSnapshots env t d n =
     (if seal_list_fails env then (SealError, t)
      else let rows = ListByCutAndRun t d n
           in if rows = [] then (Sealed, t)
              else if seal_accounts_fail env then (SealError, t)
              else case seal_loop env t d rows of
                     None \<Rightarrow> (SealError, t)
                   | Some vals \<Rightarrow>
                       (let (res, rows') = SetBeginAndEnd env 0 d n (seal_order env vals) (snapshots t)
                        in (res, t\<lparr>snapshots := rows'\<rparr>)))"

section \<open>One attempt at a shard\<close>

datatype cut_reply = CutDone | CutFails cut_error | CutDied

definition finishCut :: "cut_env \<Rightarrow> shard_id \<Rightarrow> string \<Rightarrow> int \<Rightarrow> string \<Rightarrow> cut_tables \<Rightarrow> cut_reply \<times> cut_tables" where
  "finishCut env s d n lastTx t =
     (case sealRunSnapshots env t d n of
        (SealDied, t') \<Rightarrow> (CutDied, t')
      | (SealError, t') \<Rightarrow> (CutFails CutSealFailed, markFailed env t' s d n CutSealFailed)
      | (Sealed, t') \<Rightarrow>
          (let t'' = UpdateStatusCompleted (cut_now env) t' s d n (if lastTx = [] then ''NONE'' else lastTx)
           in case complete_outcome env of
                Written \<Rightarrow> (CutDone, t'')
              | ReplyLost \<Rightarrow> (CutFails CutCompleteFailed, t'')
              | Refused \<Rightarrow> (CutFails CutCompleteFailed, t')
              | Died \<Rightarrow> (CutDied, t')))"

definition scanAndSeal :: "cut_env \<Rightarrow> shard_id \<Rightarrow> string \<Rightarrow> int \<Rightarrow> string \<Rightarrow> int \<Rightarrow> cut_tables \<Rightarrow> cut_reply \<times> cut_tables" where
  "scanAndSeal env s d n cur cursor t =
     (case chunk_loop env s d n cur 0 cursor [] t of
        (ScanDied, t') \<Rightarrow> (CutDied, t')
      | (ScanStopped e, t') \<Rightarrow> (CutFails e, t')
      | (Scanned lastTx, t') \<Rightarrow> finishCut env s d n lastTx t')"

definition ProcessShardDayCut :: "cut_env \<Rightarrow> shard_id \<Rightarrow> string \<Rightarrow> int \<Rightarrow> string \<Rightarrow> cut_tables \<Rightarrow> cut_reply \<times> cut_tables" where
  "ProcessShardDayCut env s d n cur t =
     (if get_error env then (CutFails CutControlQuery, t)
      else let existing = GetByShard t s d n
           in if map_option control_status existing = Some DayCutStatusCompleted then (CutDone, t)
              else let claimed = UpdateStatus (cut_now env) t s d n DayCutStatusProcessing None;
                       cursor = (case existing of None \<Rightarrow> 0 | Some c \<Rightarrow> last_processed_id c)
                   in case claim_outcome env of
                        Refused \<Rightarrow> (CutFails CutClaimFailed, t)
                      | ReplyLost \<Rightarrow> (CutFails CutClaimFailed, claimed)
                      | Died \<Rightarrow> (CutDied, t)
                      | Written \<Rightarrow> scanAndSeal env s d n cur cursor claimed)"

end
