(* ===== verification/DayCutLaws.thy ===== *)
theory DayCutLaws
  imports DayCut "HOL-Library.Multiset"
begin

text \<open>
  What closing a date guarantees: however its attempts fail, die and are run again, a run that is
  completed counts every posting of its date once, and its rows are sealed. Totals are sums over the
  tables (\<open>sum_where\<close>), so every statement adds what it adds to them; the cursor splits the date's
  postings into those a run's rows hold and those they do not.
\<close>

section \<open>Sums over tables\<close>

lemma sum_where_mset: "mset xs = mset ys \<Longrightarrow> sum_where P v xs = sum_where P v ys"
  unfolding sum_where_def by (metis mset_filter mset_map sum_mset_sum_list)

lemma sum_where_map: "sum_where P v (map g xs) = sum_where (\<lambda>x. P (g x)) (\<lambda>x. v (g x)) xs"
  by (induction xs) auto

lemma sum_where_cong:
  "(\<And>x. x \<in> set xs \<Longrightarrow> P x = Q x) \<Longrightarrow> (\<And>x. x \<in> set xs \<Longrightarrow> P x \<Longrightarrow> v x = w x) \<Longrightarrow>
   sum_where P v xs = sum_where Q w xs"
  by (induction xs) auto

lemma sum_where_filter: "sum_where P v (filter Q xs) = sum_where (\<lambda>x. Q x \<and> P x) v xs"
  by (induction xs) auto

lemma sum_where_split: "sum_where P v xs = sum_where (\<lambda>x. P x \<and> Q x) v xs + sum_where (\<lambda>x. P x \<and> \<not> Q x) v xs"
  by (induction xs) auto

lemma sum_where_pos:
  assumes "\<And>r. r \<in> set rows \<Longrightarrow> P r \<Longrightarrow> 0 < v r" "r \<in> set rows" "P r"
  shows "0 < sum_where P v rows"
proof -
  from split_list [OF assms(2)] obtain us vs where [simp]: "rows = us @ r # vs" by blast
  have "0 \<le> sum_where P v us" "0 \<le> sum_where P v vs"
    by (rule sum_where_nonneg; simp add: assms(1) less_imp_le)+
  moreover have "0 < v r" using assms by blast
  ultimately show ?thesis using assms(3) by simp
qed

lemma select_one_update_where:
  assumes "\<And>r. P (f r) = P r"
  shows "select_one P (update_where R f rows) = map_option (\<lambda>r. if R r then f r else r) (select_one P rows)"
  using assms by (induction rows) (auto simp: select_one_def update_where_def)

lemma select_one_update_other:
  assumes "\<And>r. R r \<Longrightarrow> P (f r) = P r" "\<And>r. P r \<Longrightarrow> \<not> R r"
  shows "select_one P (update_where R f rows) = select_one P rows"
  using assms by (induction rows) (auto simp: select_one_def update_where_def)

section \<open>The statistics of a chunk\<close>

abbreviation of_account :: "string \<Rightarrow> StoredTransaction \<Rightarrow> bool" where
  "of_account a x \<equiv> tx_account x = a"

definition sound_posting :: "StoredTransaction \<Rightarrow> bool" where
  "sound_posting x \<longleftrightarrow> 0 \<le> debit_amount x \<and> debit_amount x \<le> MaxEntryAmount \<and>
     0 \<le> credit_amount x \<and> credit_amount x \<le> MaxEntryAmount"

definition stat_bounded :: "int \<Rightarrow> AccountStats \<Rightarrow> bool" where
  "stat_bounded m st \<longleftrightarrow> 0 \<le> stat_debit st \<and> stat_debit st \<le> m \<and>
     0 \<le> stat_credit st \<and> stat_credit st \<le> m \<and> 0 \<le> stat_count st"

lemma bump_exact:
  assumes "stat_bounded m st" "sound_posting x" "m + MaxEntryAmount \<le> max_int64"
  shows "stat_debit (bump x st) = stat_debit st + debit_amount x"
    and "stat_credit (bump x st) = stat_credit st + credit_amount x"
    and "stat_count (bump x st) = stat_count st + 1"
    and "stat_account (bump x st) = stat_account st"
    and "stat_bounded (m + MaxEntryAmount) (bump x st)"
proof -
  have d: "in64 (stat_debit st + debit_amount x)" and c: "in64 (stat_credit st + credit_amount x)"
    using assms by (auto simp: stat_bounded_def sound_posting_def in64_iff)
  then show "stat_debit (bump x st) = stat_debit st + debit_amount x"
    and "stat_credit (bump x st) = stat_credit st + credit_amount x"
    and "stat_count (bump x st) = stat_count st + 1"
    and "stat_account (bump x st) = stat_account st"
    by (simp_all add: bump_def add64_exact)
  with d c assms show "stat_bounded (m + MaxEntryAmount) (bump x st)"
    by (simp add: stat_bounded_def sound_posting_def bump_def add64_exact)
qed

lemma new_stat_bounded: "0 \<le> m \<Longrightarrow> stat_bounded m (new_stat a)"
  by (simp add: stat_bounded_def new_stat_def)

lemma new_stat_simps [simp]:
  "stat_debit (new_stat a) = 0" "stat_credit (new_stat a) = 0" "stat_count (new_stat a) = 0"
  "stat_account (new_stat a) = a"
  by (simp_all add: new_stat_def)

lemma add_stat_bounded:
  assumes "list_all (stat_bounded m) sts" "sound_posting x" "0 \<le> m" "m + MaxEntryAmount \<le> max_int64"
  shows "list_all (stat_bounded (m + MaxEntryAmount)) (add_stat x sts)"
  using assms(1)
proof (induction sts)
  case Nil
  show ?case using bump_exact(5) [OF new_stat_bounded [OF assms(3)] assms(2,4)] by simp
next
  case (Cons st sts)
  then have st: "stat_bounded m st" and sts: "list_all (stat_bounded m) sts" by simp_all
  have up: "stat_bounded m s \<Longrightarrow> stat_bounded (m + MaxEntryAmount) s" for s
    by (simp add: stat_bounded_def)
  have "list_all (stat_bounded (m + MaxEntryAmount)) sts"
    using sts up by (auto simp: list_all_iff)
  with bump_exact(5) [OF st assms(2,4)] up [OF st] Cons.IH [OF sts] show ?case by simp
qed

lemma add_stat_sums:
  assumes "list_all (stat_bounded m) sts" "sound_posting x" "0 \<le> m" "m + MaxEntryAmount \<le> max_int64"
  shows "sum_where (\<lambda>st. stat_account st = a) stat_debit (add_stat x sts) =
           sum_where (\<lambda>st. stat_account st = a) stat_debit sts + (if of_account a x then debit_amount x else 0) \<and>
         sum_where (\<lambda>st. stat_account st = a) stat_credit (add_stat x sts) =
           sum_where (\<lambda>st. stat_account st = a) stat_credit sts + (if of_account a x then credit_amount x else 0) \<and>
         sum_where (\<lambda>st. stat_account st = a) stat_count (add_stat x sts) =
           sum_where (\<lambda>st. stat_account st = a) stat_count sts + (if of_account a x then 1 else 0)"
  using assms(1)
proof (induction sts)
  case Nil
  show ?case using bump_exact [OF new_stat_bounded [OF assms(3)] assms(2,4)] by simp
next
  case (Cons st sts)
  then have st: "stat_bounded m st" and sts: "list_all (stat_bounded m) sts" by simp_all
  show ?case using bump_exact(1-4) [OF st assms(2,4)] Cons.IH [OF sts] by auto
qed

lemma add_stat_counts: "\<forall>st\<in>set sts. 0 < stat_count st \<Longrightarrow> \<forall>st\<in>set (add_stat x sts). 0 < stat_count st"
  by (induction sts) (auto simp: bump_def)

lemma add_stat_accounts: "stat_account ` set (add_stat x sts) = insert (tx_account x) (stat_account ` set sts)"
  by (induction sts) (auto simp: bump_def new_stat_def)

text \<open>Five thousand amounts of at most 10 to the 15 fit in 64 bits, so no sum of a chunk wraps.\<close>

lemma chunk_stats:
  assumes "\<forall>x\<in>set txs. sound_posting x" "length txs \<le> dayCutChunkSize"
  shows "list_all (stat_bounded (int (length txs) * MaxEntryAmount)) (calculateAccountStats txs) \<and>
    sum_where (\<lambda>st. stat_account st = a) stat_debit (calculateAccountStats txs) =
      sum_where (of_account a) debit_amount txs \<and>
    sum_where (\<lambda>st. stat_account st = a) stat_credit (calculateAccountStats txs) =
      sum_where (of_account a) credit_amount txs \<and>
    sum_where (\<lambda>st. stat_account st = a) stat_count (calculateAccountStats txs) =
      sum_where (of_account a) (\<lambda>_. 1) txs"
  using assms
proof (induction txs rule: rev_induct)
  case Nil
  then show ?case by (simp add: calculateAccountStats_def)
next
  case (snoc x txs)
  let ?m = "int (length txs) * MaxEntryAmount"
  have IH: "list_all (stat_bounded ?m) (calculateAccountStats txs)"
    "sum_where (\<lambda>st. stat_account st = a) stat_debit (calculateAccountStats txs) =
       sum_where (of_account a) debit_amount txs"
    "sum_where (\<lambda>st. stat_account st = a) stat_credit (calculateAccountStats txs) =
       sum_where (of_account a) credit_amount txs"
    "sum_where (\<lambda>st. stat_account st = a) stat_count (calculateAccountStats txs) =
       sum_where (of_account a) (\<lambda>_. 1) txs"
    using snoc by simp_all
  have x: "sound_posting x" and m: "0 \<le> ?m" "?m + MaxEntryAmount \<le> max_int64"
    using snoc.prems by simp_all
  have step: "calculateAccountStats (txs @ [x]) = add_stat x (calculateAccountStats txs)"
    by (simp add: calculateAccountStats_def)
  have len: "int (length (txs @ [x])) * MaxEntryAmount = ?m + MaxEntryAmount" by simp
  show ?case
    unfolding step len using add_stat_bounded [OF IH(1) x m] add_stat_sums [OF IH(1) x m, of a] IH(2-4)
    by simp
qed

lemma chunk_stats_counts: "\<forall>st\<in>set (calculateAccountStats txs). 0 < stat_count st"
  by (induction txs rule: rev_induct) (auto simp: calculateAccountStats_def dest: add_stat_counts)

section \<open>Snapshot rows\<close>

definition snapKey :: "AccountBalanceSnapshot \<Rightarrow> string \<times> string \<times> int" where
  "snapKey r = (snap_account r, snap_date r, snap_run r)"

abbreviation of_run :: "string \<Rightarrow> int \<Rightarrow> AccountBalanceSnapshot \<Rightarrow> bool" where
  "of_run d n r \<equiv> snap_date r = d \<and> snap_run r = n"

definition earlier :: "string \<Rightarrow> AccountBalanceSnapshot list \<Rightarrow> AccountBalanceSnapshot list" where
  "earlier d = filter (\<lambda>r. snap_date r < d)"

lemma snap_key_snapKey: "snap_key a d n = (\<lambda>r. snapKey r = (a, d, n))"
  by (auto simp: snap_key_def snapKey_def)

lemma accumulate_simps [simp]:
  "snapKey (accumulate x r) = snapKey r" "snap_date (accumulate x r) = snap_date r"
  "snap_run (accumulate x r) = snap_run r" "snap_account (accumulate x r) = snap_account r"
  "snap_debit (accumulate x r) = snap_debit r + snap_debit x"
  "snap_credit (accumulate x r) = snap_credit r + snap_credit x"
  "snap_count (accumulate x r) = snap_count r + snap_count x"
  "snap_currency (accumulate x r) = snap_currency r"
  by (simp_all add: accumulate_def snapKey_def)

text \<open>What an upsert of rows of one run does: unique keys stay unique, the added rows are summed into
  the run, and the rows of earlier dates stay as they are.\<close>

definition row_ok :: "string \<Rightarrow> AccountBalanceSnapshot \<Rightarrow> bool" where
  "row_ok cur r \<longleftrightarrow> 0 < snap_count r \<and> snap_currency r = (if cur = [] then ''PHP'' else cur)"

definition upserted :: "string \<Rightarrow> int \<Rightarrow> string \<Rightarrow> AccountBalanceSnapshot list \<Rightarrow> AccountBalanceSnapshot list \<Rightarrow>
    AccountBalanceSnapshot list \<Rightarrow> bool" where
  "upserted d n cur xs rows rows' \<longleftrightarrow> distinct (map snapKey rows') \<and>
     (\<forall>f\<in>{snap_debit, snap_credit, snap_count}. \<forall>a.
        sum_where (snap_key a d n) f rows' = sum_where (snap_key a d n) f rows + sum_where (snap_key a d n) f xs) \<and>
     earlier d rows' = earlier d rows \<and>
     ((\<forall>r\<in>set rows. of_run d n r \<longrightarrow> row_ok cur r) \<longrightarrow> (\<forall>r\<in>set rows'. of_run d n r \<longrightarrow> row_ok cur r))"

lemma upsertSnapshot_adds:
  assumes "distinct (map snapKey rows)" "upsertSnapshot rows x = Some rows'"
    and x: "of_run d n x" "row_ok cur x"
  shows "upserted d n cur [x] rows rows'"
proof -
  let ?k = "snapKey x"
  have P: "snap_key (snap_account x) (snap_date x) (snap_run x) = (\<lambda>r. snapKey r = ?k)"
    by (auto simp: snap_key_snapKey snapKey_def)
  show ?thesis
  proof (cases "select_one (\<lambda>r. snapKey r = ?k) rows")
    case None
    with assms(2) have rows': "rows' = rows @ [x]" unfolding upsertSnapshot_def P Let_def by simp
    from None have "?k \<notin> snapKey ` set rows" by (auto simp: select_one_None)
    with assms rows' show ?thesis by (auto simp: upserted_def earlier_def)
  next
    case (Some r)
    with assms(2) have rows': "rows' = update_where (\<lambda>r. snapKey r = ?k) (accumulate x) rows"
      unfolding upsertSnapshot_def P Let_def by (simp split: if_splits)
    from Some have r: "r \<in> set rows" "snapKey r = ?k" by (auto dest: select_one_Some)
    have keys: "map snapKey rows' = map snapKey rows" unfolding rows' by (rule map_update_where) simp
    have "sum_where (snap_key a d n) f rows' = sum_where (snap_key a d n) f rows + sum_where (snap_key a d n) f [x]"
      if "f \<in> {snap_debit, snap_credit, snap_count}" for f a
      using sum_where_key_update [OF assms(1) r(1) r(2), of "snap_key a d n" f "accumulate x"] that r(2)
      unfolding rows' snap_key_snapKey by auto
    moreover have "earlier d rows' = earlier d rows"
      unfolding rows' earlier_def update_where_def using x
      by (induction rows) (auto simp: snapKey_def)
    moreover have "row_ok cur y" if "\<forall>r\<in>set rows. of_run d n r \<longrightarrow> row_ok cur r" "y \<in> set rows'" "of_run d n y" for y
      using that x(2) unfolding rows' set_update_where by (fastforce simp: row_ok_def split: if_splits)
    ultimately show ?thesis using keys assms(1) by (simp add: upserted_def)
  qed
qed

lemma upsert_batch_adds:
  assumes "UpsertBatchIncrementalTx rows xs = Some rows'" "distinct (map snapKey rows)"
    and "\<forall>x\<in>set xs. of_run d n x \<and> row_ok cur x"
  shows "upserted d n cur xs rows rows'"
  using assms
proof (induction xs arbitrary: rows)
  case Nil
  then show ?case by (simp add: upserted_def)
next
  case (Cons x xs)
  then obtain rows1 where 1: "upsertSnapshot rows x = Some rows1"
    and 2: "UpsertBatchIncrementalTx rows1 xs = Some rows'" by (auto split: option.splits)
  from upsertSnapshot_adds [OF Cons.prems(2) 1] Cons.prems(3) have a: "upserted d n cur [x] rows rows1" by simp
  then have "distinct (map snapKey rows1)" by (simp add: upserted_def)
  from Cons.IH [OF 2 this] Cons.prems(3) have b: "upserted d n cur xs rows1 rows'" by simp
  from a b show ?case by (simp add: upserted_def)
qed

section \<open>The cursor and the next chunk\<close>

definition seen_rows :: "string \<Rightarrow> string \<Rightarrow> int \<Rightarrow> cut_tables \<Rightarrow> StoredTransaction list" where
  "seen_rows d cur c t = filter (\<lambda>x. row_id x \<le> c) (filter (day_posting d cur) (postings t))"

definition all_seen :: "string \<Rightarrow> string \<Rightarrow> int \<Rightarrow> cut_tables \<Rightarrow> bool" where
  "all_seen d cur c t \<longleftrightarrow> seen_rows d cur c t = filter (day_posting d cur) (postings t)"

definition sound_day :: "string \<Rightarrow> string \<Rightarrow> cut_tables \<Rightarrow> bool" where
  "sound_day d cur t \<longleftrightarrow> distinct (map row_id (filter (day_posting d cur) (postings t))) \<and>
     (\<forall>x\<in>set (filter (day_posting d cur) (postings t)). 0 < row_id x \<and> sound_posting x)"

lemma take_until_last:
  fixes k :: "'a \<Rightarrow> 'b::linorder"
  assumes "sorted (map k L)" "distinct (map k L)" "take m L \<noteq> []"
  shows "filter (\<lambda>x. k x \<le> k (last (take m L))) L = take m L"
proof -
  let ?l = "last (take m L)"
  have s: "sorted_wrt (<) (map k (take m L @ drop m L))"
    using assms(1,2) by (simp add: strict_sorted_iff)
  have up: "k x < k y" if "x \<in> set (take m L)" "y \<in> set (drop m L)" for x y
    using s that unfolding map_append sorted_wrt_append by auto
  have "take m L = butlast (take m L) @ [?l]" using assms(3) by simp
  moreover have "sorted_wrt (<) (map k (take m L))" using s by (simp only: map_append sorted_wrt_append)
  ultimately have "sorted_wrt (<) (map k (butlast (take m L) @ [?l]))" by metis
  then have "\<forall>x\<in>set (butlast (take m L)). k x < k ?l" by (simp add: sorted_wrt_append)
  then have "\<forall>x\<in>set (butlast (take m L) @ [?l]). k x \<le> k ?l" by auto
  then have low: "\<forall>x\<in>set (take m L). k x \<le> k ?l" using \<open>take m L = _\<close> by metis
  have "?l \<in> set (take m L)" using assms(3) by simp
  from up [OF this] have high: "\<forall>y\<in>set (drop m L). \<not> k y \<le> k ?l" by (simp add: not_le)
  have "filter (\<lambda>x. k x \<le> k ?l) (take m L @ drop m L) = take m L"
    unfolding filter_append using low high
    by (metis (no_types, lifting) append_Nil2 filter_False filter_True)
  then show ?thesis by simp
qed

lemma mset_filter_up:
  "c \<le> (l::int) \<Longrightarrow> mset (filter (\<lambda>x. f x \<le> l) xs) =
   mset (filter (\<lambda>x. f x \<le> c) xs) + mset (filter (\<lambda>x. c < f x \<and> f x \<le> l) xs)"
  by (induction xs) auto

lemma chunk_is_next:
  assumes "sound_day d cur t" and txs: "txs = ListByCutDateChunk t d cur c dayCutChunkSize" "txs \<noteq> []"
  shows "mset (seen_rows d cur (row_id (last txs)) t) = mset (seen_rows d cur c t) + mset txs"
    and "c < row_id (last txs)"
    and "length txs < dayCutChunkSize \<Longrightarrow> all_seen d cur (row_id (last txs)) t"
    and "\<forall>x\<in>set txs. sound_posting x"
proof -
  let ?D = "filter (day_posting d cur) (postings t)"
  let ?L = "sort_key row_id (filter (\<lambda>x. c < row_id x) ?D)"
  let ?l = "row_id (last txs)"
  have take: "txs = take dayCutChunkSize ?L" using txs by (simp add: ListByCutDateChunk_def conj_commute)
  have "last txs \<in> set txs" using txs(2) by simp
  then show c: "c < ?l" using chunk_rows txs(1) by blast
  have "distinct (map row_id ?L)"
    using assms(1) distinct_map_filter [of row_id ?D] by (simp add: sound_day_def distinct_map)
  from take_until_last [OF _ this, of dayCutChunkSize] txs(2) take
  have upto: "filter (\<lambda>x. row_id x \<le> ?l) ?L = txs" by simp
  have "mset (filter (\<lambda>x. row_id x \<le> ?l) ?L) = mset (filter (\<lambda>x. c < row_id x \<and> row_id x \<le> ?l) ?D)"
    by (simp add: filter_filter_mset conj_ac)
  with upto have "mset txs = mset (filter (\<lambda>x. c < row_id x \<and> row_id x \<le> ?l) ?D)" by simp
  with mset_filter_up [of c ?l row_id ?D] c
  show "mset (seen_rows d cur ?l t) = mset (seen_rows d cur c t) + mset txs"
    unfolding seen_rows_def by simp
  show "\<forall>x\<in>set txs. sound_posting x"
    using assms(1) chunk_rows txs(1) by (auto simp: sound_day_def)
  assume "length txs < dayCutChunkSize"
  then have "length ?L < dayCutChunkSize" unfolding take by simp
  then have "txs = ?L" using take by simp
  with upto have "\<forall>x\<in>set ?L. row_id x \<le> ?l" by (metis filter_id_conv)
  then have "\<forall>x\<in>set ?D. row_id x \<le> ?l" using c by force
  then show "all_seen d cur ?l t" by (auto simp: all_seen_def seen_rows_def simp del: filter_filter intro!: filter_True)
qed

lemma no_chunk_left:
  assumes "ListByCutDateChunk t d cur c dayCutChunkSize = []"
  shows "all_seen d cur c t"
proof -
  from assms have "filter (\<lambda>x. day_posting d cur x \<and> row_id x > c) (postings t) = []"
    by (simp add: ListByCutDateChunk_def) (metis length_0_conv length_sort sort_key_simps(1))
  then show ?thesis
    by (auto simp: all_seen_def seen_rows_def filter_empty_conv not_less simp del: filter_filter
             intro!: filter_True)
qed

section \<open>A run in progress\<close>

definition totals_of :: "string \<Rightarrow> int \<Rightarrow> string \<Rightarrow> AccountBalanceSnapshot list \<Rightarrow> int \<times> int \<times> int" where
  "totals_of d n a rows = (sum_where (snap_key a d n) snap_debit rows, sum_where (snap_key a d n) snap_credit rows,
     sum_where (snap_key a d n) snap_count rows)"

definition booked_on :: "string \<Rightarrow> StoredTransaction list \<Rightarrow> int \<times> int \<times> int" where
  "booked_on a xs = (sum_where (of_account a) debit_amount xs, sum_where (of_account a) credit_amount xs,
     sum_where (of_account a) (\<lambda>_. 1) xs)"

definition counted :: "string \<Rightarrow> int \<Rightarrow> string \<Rightarrow> int \<Rightarrow> cut_tables \<Rightarrow> bool" where
  "counted d n cur c t \<longleftrightarrow> (\<forall>a. totals_of d n a (snapshots t) = booked_on a (seen_rows d cur c t))"

definition orderly :: "cut_env \<Rightarrow> bool" where
  "orderly env \<longleftrightarrow> (\<forall>xs. mset (stats_order env xs) = mset xs) \<and> (\<forall>xs. mset (seal_order env xs) = mset xs)"

definition sound_rows :: "string \<Rightarrow> int \<Rightarrow> string \<Rightarrow> AccountBalanceSnapshot list \<Rightarrow> bool" where
  "sound_rows d n cur rows \<longleftrightarrow> distinct (map snapKey rows) \<and> (\<forall>r\<in>set rows. of_run d n r \<longrightarrow> row_ok cur r)"

definition running :: "shard_id \<Rightarrow> string \<Rightarrow> int \<Rightarrow> string \<Rightarrow> int \<Rightarrow> cut_tables \<Rightarrow> bool" where
  "running s d n cur c t \<longleftrightarrow> sound_rows d n cur (snapshots t) \<and> counted d n cur c t \<and>
     (\<exists>ctl. GetByShard t s d n = Some ctl \<and> last_processed_id ctl = c \<and> control_status ctl \<noteq> DayCutStatusCompleted)"

text \<open>What an attempt leaves alone.\<close>

definition framed :: "string \<Rightarrow> cut_tables \<Rightarrow> cut_tables \<Rightarrow> bool" where
  "framed d t t' \<longleftrightarrow> postings t' = postings t \<and> cut_accounts t' = cut_accounts t \<and>
     earlier d (snapshots t') = earlier d (snapshots t)"

lemma framed_refl [simp, intro]: "framed d t t"
  by (simp add: framed_def)

lemma framed_trans [trans]: "framed d t t' \<Longrightarrow> framed d t' t'' \<Longrightarrow> framed d t t''"
  by (simp add: framed_def)

lemma framed_day:
  assumes "framed d t t'"
  shows "sound_day d cur t' = sound_day d cur t" and "seen_rows d cur c t' = seen_rows d cur c t"
    and "all_seen d cur c t' = all_seen d cur c t" and "GetPrevEnding t' a d = GetPrevEnding t a d"
proof -
  have "filter (\<lambda>r. snap_account r = a \<and> snap_date r < d) rows = filter (\<lambda>r. snap_account r = a) (earlier d rows)"
    for rows by (simp add: earlier_def conj_commute)
  with assms show "sound_day d cur t' = sound_day d cur t" and "seen_rows d cur c t' = seen_rows d cur c t"
    and "all_seen d cur c t' = all_seen d cur c t" and "GetPrevEnding t' a d = GetPrevEnding t a d"
    by (simp_all add: framed_def sound_day_def seen_rows_def all_seen_def GetPrevEnding_def)
qed

lemma control_key_simps [simp]:
  "control_key s d n (c\<lparr>control_status := st\<rparr>) = control_key s d n c"
  "control_key s d n (c\<lparr>control_error := e\<rparr>) = control_key s d n c"
  "control_key s d n (c\<lparr>control_updated_at := u\<rparr>) = control_key s d n c"
  "control_key s d n (c\<lparr>control_last_tx := l\<rparr>) = control_key s d n c"
  "control_key s d n (c\<lparr>last_processed_id := i\<rparr>) = control_key s d n c"
  by (simp_all add: control_key_def)

lemma GetByShard_key: "GetByShard t s d n = Some c \<Longrightarrow> control_key s d n c"
  unfolding GetByShard_def by (blast dest: select_one_Some)

lemma UpdateStatus_simps [simp]:
  "postings (UpdateStatus now t s d n st e) = postings t"
  "cut_accounts (UpdateStatus now t s d n st e) = cut_accounts t"
  "snapshots (UpdateStatus now t s d n st e) = snapshots t"
  by (simp_all add: UpdateStatus_def)

lemma UpdateStatus_get: "GetByShard (UpdateStatus now t s d n st e) s d n =
    map_option (\<lambda>c. c\<lparr>control_status := st, control_error := e, control_updated_at := now\<rparr>) (GetByShard t s d n)"
  unfolding GetByShard_def UpdateStatus_def
  by (cases "select_one (control_key s d n) (controls t)")
     (auto simp: select_one_update_where dest: select_one_Some)

lemma UpdateStatus_running:
  assumes "running s d n cur c t" "st \<noteq> DayCutStatusCompleted"
  shows "running s d n cur c (UpdateStatus now t s d n st e)"
  using assms by (auto simp: running_def UpdateStatus_get counted_def seen_rows_def)

lemma UpdateStatus_framed: "framed d t (UpdateStatus now t s d n st e)"
  by (simp add: framed_def)

lemma markFailed_keeps:
  assumes "running s d n cur c t"
  shows "running s d n cur c (markFailed env t s d n e)" "framed d t (markFailed env t s d n e)"
  using assms by (auto simp: markFailed_def UpdateStatus_running UpdateStatus_framed)

lemma commitChunk_counts:
  assumes "commitChunk env t s d n cur txs = Some t'" "running s d n cur c t" "sound_day d cur t" "orderly env"
    and txs: "txs = ListByCutDateChunk t d cur c dayCutChunkSize" "txs \<noteq> []"
  shows "running s d n cur (row_id (last txs)) t'" "framed d t t'"
proof -
  let ?l = "row_id (last txs)" and ?sts = "stats_order env (calculateAccountStats txs)"
  let ?xs = "map (chunkSnapshot d n cur) ?sts"
  note nxt = chunk_is_next [OF assms(3) txs]
  from assms(1) obtain rows where up: "UpsertBatchIncrementalTx (snapshots t) ?xs = Some rows"
    and t': "t' = SetLastProcessedIDTx (cut_now env) (t\<lparr>snapshots := rows\<rparr>) s d n ?l"
    by (auto simp: commitChunk_def split: option.splits)
  have sts: "mset ?sts = mset (calculateAccountStats txs)" using assms(4) by (simp add: orderly_def)
  have "length txs \<le> dayCutChunkSize" using txs(1) by (simp add: ListByCutDateChunk_def)
  note stats = chunk_stats [OF nxt(4) this]
  have "set ?sts = set (calculateAccountStats txs)" using sts by (metis set_mset_mset)
  then have "\<forall>x\<in>set ?xs. of_run d n x \<and> row_ok cur x"
    using chunk_stats_counts by (auto simp: chunkSnapshot_def row_ok_def)
  with upsert_batch_adds [OF up] assms(2) have U: "upserted d n cur ?xs (snapshots t) rows"
    by (simp add: running_def sound_rows_def)
  have key: "snap_key a d n (chunkSnapshot d n cur st) \<longleftrightarrow> stat_account st = a" for a st
    by (auto simp: snap_key_def chunkSnapshot_def)
  have added: "totals_of d n a ?xs = booked_on a txs" for a
  proof -
    have "sum_where (snap_key a d n) f ?xs = sum_where (\<lambda>st. stat_account st = a) g (calculateAccountStats txs)"
      if "\<And>st. f (chunkSnapshot d n cur st) = g st" for f :: "AccountBalanceSnapshot \<Rightarrow> int" and g
    proof -
      have "sum_where (snap_key a d n) f ?xs = sum_where (\<lambda>st. stat_account st = a) g ?sts"
        unfolding sum_where_map by (intro sum_where_cong) (simp_all add: that key)
      also have "\<dots> = sum_where (\<lambda>st. stat_account st = a) g (calculateAccountStats txs)"
        by (rule sum_where_mset [OF sts])
      finally show ?thesis .
    qed
    from this [of snap_debit stat_debit] this [of snap_credit stat_credit] this [of snap_count stat_count] stats [of a]
    show ?thesis unfolding totals_of_def booked_on_def by (simp only: chunkSnapshot_def AccountBalanceSnapshot.simps)
  qed
  have "booked_on a (seen_rows d cur ?l t) = booked_on a (seen_rows d cur c t @ txs)" for a
  proof -
    have "mset (seen_rows d cur ?l t) = mset (seen_rows d cur c t @ txs)" using nxt(1) by simp
    from sum_where_mset [OF this] show ?thesis by (simp add: booked_on_def)
  qed
  then have "totals_of d n a rows = booked_on a (seen_rows d cur ?l t)" for a
    using U assms(2) added [of a] by (simp add: upserted_def totals_of_def booked_on_def running_def counted_def)
  moreover from assms(2) obtain ctl where "GetByShard t s d n = Some ctl" "last_processed_id ctl = c"
    "control_status ctl \<noteq> DayCutStatusCompleted" by (auto simp: running_def)
  moreover from this have "GetByShard t' s d n =
      Some (ctl\<lparr>last_processed_id := ?l, control_updated_at := cut_now env\<rparr>)"
    using nxt(2) GetByShard_key [of t s d n ctl]
    by (simp add: t' GetByShard_def SetLastProcessedIDTx_def select_one_update_where)
  ultimately show "running s d n cur ?l t'"
    using U assms(2) t' by (simp add: running_def counted_def sound_rows_def upserted_def seen_rows_def
        SetLastProcessedIDTx_def)
  show "framed d t t'" using U t' by (simp add: framed_def upserted_def SetLastProcessedIDTx_def)
qed

lemma chunk_loop_counts:
  assumes "chunk_loop env s d n cur k c l t = (res, t')" "running s d n cur c t" "sound_day d cur t" "orderly env"
  shows "framed d t t' \<and> (\<exists>c'. running s d n cur c' t' \<and> (\<forall>l'. res = Scanned l' \<longrightarrow> all_seen d cur c' t'))"
  using assms
proof (induction env s d n cur k c l t rule: chunk_loop.induct)
  case (1 env s d n cur k c l t)
  let ?txs = "ListByCutDateChunk t d cur c dayCutChunkSize"
  note eq = "1.prems"(1) [unfolded chunk_loop.simps [of env s d n cur k c l t] Let_def]
  note keep = markFailed_keeps [OF "1.prems"(2), of env]
  show ?case
  proof (cases "chunk_outcome env k")
    case (CommitEnds w)
    show ?thesis
    proof (cases "?txs = []")
      case True
      with eq CommitEnds have "res = Scanned l" "t' = t" by simp_all
      with no_chunk_left [OF True] "1.prems"(2) show ?thesis by auto
    next
      case ne: False
      show ?thesis
      proof (cases "commitChunk env t s d n cur ?txs")
        case None
        with eq CommitEnds ne keep show ?thesis by auto
      next
        case (Some t1)
        note c = commitChunk_counts [OF Some "1.prems"(2-4) refl ne]
        note keep1 = markFailed_keeps [OF c(1), of env]
        show ?thesis
        proof (cases w)
          case Written
          show ?thesis
          proof (cases "length ?txs < dayCutChunkSize")
            case True
            with eq CommitEnds ne Some Written have "res = Scanned (transaction_id (last ?txs))" "t' = t1" by simp_all
            with c chunk_is_next(3) [OF "1.prems"(3) refl ne True] framed_day(3) [OF c(2)] show ?thesis by auto
          next
            case False
            with eq CommitEnds ne Some Written have rec: "chunk_loop env s d n cur (Suc k) (row_id (last ?txs))
                (transaction_id (last ?txs)) t1 = (res, t')" by simp
            have "sound_day d cur t1" using "1.prems"(3) framed_day(1) [OF c(2)] by simp
            from "1.IH" [OF CommitEnds refl ne Some Written False rec c(1) this "1.prems"(4)] c(2)
            show ?thesis using framed_trans by blast
          qed
        next
          case Refused
          with eq CommitEnds ne Some keep show ?thesis by auto
        next
          case ReplyLost
          with eq CommitEnds ne Some have "res = ScanStopped CutChunkFailed"
            "t' = markFailed env t1 s d n CutChunkFailed" by simp_all
          with keep1 c(2) framed_trans show ?thesis by blast
        next
          case Died
          with eq CommitEnds ne Some "1.prems"(2) show ?thesis by auto
        qed
      qed
    qed
  next
    case NoDatabase
    with eq keep no_chunk_left "1.prems"(2) show ?thesis by (auto split: if_splits)
  next
    case ContextDone
    with eq "1.prems"(2) show ?thesis by auto
  next
    case ListFails
    with eq keep show ?thesis by auto
  qed
qed

section \<open>Sealing\<close>

definition sealed :: "string \<Rightarrow> int \<Rightarrow> cut_tables \<Rightarrow> bool" where
  "sealed d n t \<longleftrightarrow> (\<forall>r\<in>set (snapshots t). of_run d n r \<longrightarrow>
     (\<forall>a. select_one (\<lambda>a. acc_no a = snap_account r) (cut_accounts t) = Some a \<longrightarrow>
        beginning_balance r = fst (GetPrevEnding t (snap_account r) d) \<and>
        ending_balance r = add64 (beginning_balance r) (netDelta a r)))"

lemma seal_row_simps [simp]:
  "snapKey (seal_row d n vals r) = snapKey r" "snap_account (seal_row d n vals r) = snap_account r"
  "snap_date (seal_row d n vals r) = snap_date r" "snap_run (seal_row d n vals r) = snap_run r"
  "snap_debit (seal_row d n vals r) = snap_debit r" "snap_credit (seal_row d n vals r) = snap_credit r"
  "snap_count (seal_row d n vals r) = snap_count r" "snap_currency (seal_row d n vals r) = snap_currency r"
  by (auto simp: seal_row_def snapKey_def split: option.split)

lemma seal_row_Nil [simp]: "seal_row d n [] r = r"
  by (simp add: seal_row_def)

lemma seal_row_append:
  assumes "distinct (map fst (xs @ ys))"
  shows "seal_row d n ys (seal_row d n xs r) = seal_row d n (xs @ ys) r"
proof (cases "map_of xs (snap_account r)")
  case None
  then show ?thesis by (auto simp: seal_row_def map_of_append map_add_def split: option.split)
next
  case (Some v)
  then have "snap_account r \<in> fst ` set xs" by (metis domI dom_map_of_conv_image_fst)
  then have "snap_account r \<notin> fst ` set ys" using assms by auto
  then have "map_of ys (snap_account r) = None" by (simp add: map_of_eq_None_iff)
  with Some show ?thesis by (auto simp: seal_row_def map_of_append map_add_def split: option.split prod.split)
qed

lemma seal_rows_keep:
  "totals_of d' n' a (map (seal_row d n vals) rows) = totals_of d' n' a rows"
  "sound_rows d n cur (map (seal_row d n vals) rows) = sound_rows d n cur rows"
  "earlier d (map (seal_row d n vals) rows) = earlier d rows"
proof -
  show "totals_of d' n' a (map (seal_row d n vals) rows) = totals_of d' n' a rows"
    by (simp add: totals_of_def sum_where_map snap_key_def [abs_def])
  show "sound_rows d n cur (map (seal_row d n vals) rows) = sound_rows d n cur rows"
    by (simp add: sound_rows_def row_ok_def comp_def)
  show "earlier d (map (seal_row d n vals) rows) = earlier d rows"
  proof (induction rows)
    case (Cons r rows)
    have "snap_date r < d \<Longrightarrow> seal_row d n vals r = r" by (auto simp: seal_row_def)
    with Cons show ?case by (simp add: earlier_def)
  qed (simp add: earlier_def)
qed

lemma SetBeginAndEnd_prefix:
  assumes "SetBeginAndEnd env k d n vals rows = (res, rows')" "distinct (map fst vals)"
  shows "\<exists>j. rows' = map (seal_row d n (take j vals)) rows \<and> (res = Sealed \<longrightarrow> take j vals = vals)"
  using assms
proof (induction env k d n vals rows rule: SetBeginAndEnd.induct)
  case (1 env k d n vals rows)
  let ?now = "take 1000 vals"
  note eq = "1.prems"(1) [unfolded SetBeginAndEnd.simps [of env k d n vals rows] Let_def]
  have none: "rows = map (seal_row d n (take 0 vals)) rows" by (simp add: map_idI)
  show ?case
  proof (cases "vals = []")
    case True
    with eq none show ?thesis by auto
  next
    case ne: False
    show ?thesis
    proof (cases "seal_outcome env k")
      case Written
      with eq ne have "SetBeginAndEnd env (Suc k) d n (drop 1000 vals) (map (seal_row d n ?now) rows) = (res, rows')"
        by simp
      from "1.IH" [OF ne refl Written this] "1.prems"(2) obtain j where
        j: "rows' = map (seal_row d n (take j (drop 1000 vals))) (map (seal_row d n ?now) rows)"
        "res = Sealed \<longrightarrow> take j (drop 1000 vals) = drop 1000 vals" by (auto simp: drop_map [symmetric])
      have t: "take (1000 + j) vals = ?now @ take j (drop 1000 vals)" by (simp add: take_add)
      have "distinct (map fst (?now @ take j (drop 1000 vals)))"
        unfolding t [symmetric] take_map [symmetric] by (rule distinct_take [OF "1.prems"(2)])
      then have "rows' = map (seal_row d n (take (1000 + j) vals)) rows"
        unfolding j(1) t by (simp add: seal_row_append)
      moreover have "res = Sealed \<longrightarrow> take (1000 + j) vals = vals" unfolding t using j(2) by simp
      ultimately show ?thesis by blast
    next
      case Refused
      with eq ne none show ?thesis by (metis Pair_inject seal_result.distinct(1) write_outcome.simps(14))
    next
      case ReplyLost
      with eq ne show ?thesis by (auto intro!: exI [of _ 1000])
    next
      case Died
      with eq ne none show ?thesis by (auto intro!: exI [of _ 0] simp: map_idI)
    qed
  qed
qed

lemma seal_loop_vals:
  assumes "seal_loop env t d rs = Some vals" "distinct (map snap_account rs)"
  shows "distinct (map fst vals) \<and> set (map fst vals) \<subseteq> snap_account ` set rs \<and>
    (\<forall>r\<in>set rs. \<forall>a. select_one (\<lambda>a. acc_no a = snap_account r) (cut_accounts t) = Some a \<longrightarrow>
       (let prevEnd = fst (GetPrevEnding t (snap_account r) d)
        in map_of vals (snap_account r) = Some (prevEnd, add64 prevEnd (netDelta a r))))"
  using assms
proof (induction rs arbitrary: vals)
  case Nil
  then show ?case by simp
next
  case (Cons r rs)
  show ?case
  proof (cases "select_one (\<lambda>a. acc_no a = snap_account r) (cut_accounts t)")
    case None
    with Cons.prems have "seal_loop env t d rs = Some vals" by simp
    from Cons.IH [OF this] Cons.prems(2) None show ?thesis by auto
  next
    case (Some a)
    let ?v = "(snap_account r, fst (GetPrevEnding t (snap_account r) d),
       add64 (fst (GetPrevEnding t (snap_account r) d)) (netDelta a r))"
    from Some Cons.prems obtain vs where vs: "seal_loop env t d rs = Some vs" "vals = ?v # vs"
      by (auto simp: Let_def split: if_splits)
    have "\<forall>r'\<in>set rs. snap_account r' \<noteq> snap_account r"
      using Cons.prems(2) by (metis distinct.simps(2) image_eqI list.set_map list.simps(9))
    with Cons.IH [OF vs(1)] Cons.prems(2) vs(2) Some show ?thesis by (auto simp: Let_def)
  qed
qed

lemma map_of_mset:
  assumes "distinct (map fst xs)" "mset ys = mset xs"
  shows "map_of ys = map_of xs \<and> distinct (map fst ys)"
proof -
  have "mset (map fst ys) = mset (map fst xs)" using assms(2) by simp
  then have "distinct (map fst ys)" using assms(1) mset_eq_imp_distinct_iff by blast
  moreover have "set ys = set xs" using assms(2) by (rule mset_eq_setD)
  ultimately show ?thesis using assms(1) map_of_inject_set by blast
qed

lemma sealRunSnapshots_laws:
  assumes "sealRunSnapshots env t d n = (res, t')" "sound_rows d n cur (snapshots t)" "orderly env"
  shows "framed d t t'" "controls t' = controls t" "sound_rows d n cur (snapshots t')"
    "totals_of d n a (snapshots t') = totals_of d n a (snapshots t)" "res = Sealed \<Longrightarrow> sealed d n t'"
proof -
  let ?rows = "ListByCutAndRun t d n"
  have "distinct (map snap_account (filter (of_run d n) (snapshots t)))"
    using assms(2) unfolding sound_rows_def
    by (induction "snapshots t") (auto simp: snapKey_def distinct_map inj_on_def)
  then have dist: "distinct (map snap_account ?rows)" by (simp add: ListByCutAndRun_def distinct_map)
  have "(t' = t \<and> (res = Sealed \<longrightarrow> ?rows = [])) \<or> (\<exists>vals ws. seal_loop env t d ?rows = Some vals \<and>
      t' = t\<lparr>snapshots := map (seal_row d n ws) (snapshots t)\<rparr> \<and> (res = Sealed \<longrightarrow> map_of ws = map_of vals))"
  proof (cases "\<not> seal_list_fails env \<and> ?rows \<noteq> [] \<and> \<not> seal_accounts_fail env \<and> seal_loop env t d ?rows \<noteq> None")
    case True
    then obtain vals where vals: "seal_loop env t d ?rows = Some vals" by blast
    obtain r rows' where R: "SetBeginAndEnd env 0 d n (seal_order env vals) (snapshots t) = (r, rows')" by force
    from map_of_mset [of vals "seal_order env vals"] seal_loop_vals [OF vals dist] assms(3)
    have o: "map_of (seal_order env vals) = map_of vals" "distinct (map fst (seal_order env vals))"
      by (auto simp: orderly_def)
    from SetBeginAndEnd_prefix [OF R o(2)] obtain j where
      "rows' = map (seal_row d n (take j (seal_order env vals))) (snapshots t)"
      "r = Sealed \<longrightarrow> take j (seal_order env vals) = seal_order env vals" by blast
    with True vals R assms(1) o(1) show ?thesis by (auto simp: sealRunSnapshots_def)
  next
    case False
    with assms(1) show ?thesis by (auto simp: sealRunSnapshots_def Let_def split: if_splits option.splits)
  qed
  note cases = this
  then show fr: "framed d t t'" and "controls t' = controls t" "sound_rows d n cur (snapshots t')"
    "totals_of d n a (snapshots t') = totals_of d n a (snapshots t)"
    using assms(2) by (auto simp: framed_def seal_rows_keep)
  assume res: "res = Sealed"
  have rows: "r \<in> set ?rows \<longleftrightarrow> r \<in> set (snapshots t) \<and> of_run d n r" for r
    by (auto simp: ListByCutAndRun_def)
  from cases show "sealed d n t'"
  proof (elim disjE exE conjE)
    assume "t' = t" "res = Sealed \<longrightarrow> ?rows = []"
    with res rows show "sealed d n t'" by (auto simp: sealed_def)
  next
    fix vals ws assume v: "seal_loop env t d ?rows = Some vals" and
      t': "t' = t\<lparr>snapshots := map (seal_row d n ws) (snapshots t)\<rparr>" and
      m: "res = Sealed \<longrightarrow> map_of ws = map_of vals"
    show "sealed d n t'"
      unfolding sealed_def
    proof (intro ballI impI allI)
      fix r' b assume r': "r' \<in> set (snapshots t')" "of_run d n r'"
        and b: "select_one (\<lambda>a. acc_no a = snap_account r') (cut_accounts t') = Some b"
      from r'(1) obtain r where r: "r' = seal_row d n ws r" "r \<in> set (snapshots t)" by (auto simp: t')
      then have run: "of_run d n r" and "r \<in> set ?rows" using r'(2) rows by simp_all
      with seal_loop_vals [OF v dist] b have "map_of vals (snap_account r) =
          Some (fst (GetPrevEnding t (snap_account r) d),
                add64 (fst (GetPrevEnding t (snap_account r) d)) (netDelta b r))"
        by (simp add: r(1) t' Let_def)
      with m res r(1) run framed_day(4) [OF fr]
      show "beginning_balance r' = fst (GetPrevEnding t' (snap_account r') d) \<and>
          ending_balance r' = add64 (beginning_balance r') (netDelta b r')"
        by (simp add: seal_row_def netDelta_def)
    qed
  qed
qed

section \<open>Attempts, and everything that happens between them\<close>

definition run_inv :: "shard_id \<Rightarrow> string \<Rightarrow> int \<Rightarrow> string \<Rightarrow> cut_tables \<Rightarrow> bool" where
  "run_inv s d n cur t \<longleftrightarrow> sound_rows d n cur (snapshots t) \<and>
     (\<exists>ctl. GetByShard t s d n = Some ctl \<and> counted d n cur (last_processed_id ctl) t \<and>
        (control_status ctl = DayCutStatusCompleted \<longrightarrow>
           all_seen d cur (last_processed_id ctl) t \<and> sealed d n t))"

lemma running_inv: "running s d n cur c t \<Longrightarrow> run_inv s d n cur t"
  by (auto simp: running_def run_inv_def)

lemma finishCut_inv:
  assumes "finishCut env s d n l t = (res, t')" "running s d n cur c t" "all_seen d cur c t" "orderly env"
  shows "framed d t t' \<and> run_inv s d n cur t'"
proof -
  obtain sr t1 where S: "sealRunSnapshots env t d n = (sr, t1)" by force
  from assms(2) have rows: "sound_rows d n cur (snapshots t)" by (simp add: running_def)
  note laws = sealRunSnapshots_laws [OF S rows assms(4)]
  from laws(1) framed_day [OF laws(1)] have day: "seen_rows d cur c t1 = seen_rows d cur c t" "all_seen d cur c t1"
    using assms(3) by simp_all
  have run1: "running s d n cur c t1"
    using assms(2) laws(2-4) day(1) by (auto simp: running_def counted_def GetByShard_def)
  let ?l = "if l = [] then ''NONE'' else l"
  let ?t2 = "UpdateStatusCompleted (cut_now env) t1 s d n ?l"
  from run1 obtain ctl where ctl: "GetByShard t1 s d n = Some ctl" "last_processed_id ctl = c"
    by (auto simp: running_def)
  have "GetByShard ?t2 s d n = Some (ctl\<lparr>control_status := DayCutStatusCompleted, control_error := None,
      control_last_tx := ?l, control_updated_at := cut_now env\<rparr>)"
    using ctl(1) GetByShard_key [OF ctl(1)]
    by (simp add: GetByShard_def UpdateStatusCompleted_def select_one_update_where)
  moreover have f2: "framed d t1 ?t2" by (simp add: framed_def UpdateStatusCompleted_def)
  moreover have "sr = Sealed \<Longrightarrow> sealed d n ?t2"
    using laws(5) framed_day(4) [OF f2] by (simp add: sealed_def UpdateStatusCompleted_def)
  ultimately have done2: "sr = Sealed \<Longrightarrow> run_inv s d n cur ?t2 \<and> framed d t ?t2"
    using run1 ctl(2) day framed_day(2,3) [OF f2] framed_trans [OF laws(1) f2]
    by (auto simp: run_inv_def running_def counted_def UpdateStatusCompleted_def)
  show ?thesis
  proof (cases sr)
    case Sealed
    with assms(1) S have "t' = ?t2 \<or> t' = t1"
      by (auto simp: finishCut_def Let_def split: write_outcome.splits)
    with done2 [OF Sealed] running_inv [OF run1] laws(1) show ?thesis by auto
  next
    case SealError
    with assms(1) S have "t' = markFailed env t1 s d n CutSealFailed" by (simp add: finishCut_def)
    with markFailed_keeps [OF run1] running_inv framed_trans [OF laws(1)] show ?thesis by blast
  next
    case SealDied
    with assms(1) S have "t' = t1" by (simp add: finishCut_def)
    with running_inv [OF run1] laws(1) show ?thesis by auto
  qed
qed

lemma attempt_inv:
  assumes "ProcessShardDayCut env s d n cur t = (res, t')" "run_inv s d n cur t" "sound_day d cur t" "orderly env"
  shows "framed d t t' \<and> run_inv s d n cur t'"
proof -
  from assms(2) obtain ctl where ctl: "GetByShard t s d n = Some ctl"
    "counted d n cur (last_processed_id ctl) t" by (auto simp: run_inv_def)
  let ?c = "last_processed_id ctl" and ?t1 = "UpdateStatus (cut_now env) t s d n DayCutStatusProcessing None"
  show ?thesis
  proof (cases "get_error env \<or> control_status ctl = DayCutStatusCompleted \<or> \<not> landed (claim_outcome env)")
    case True
    with assms(1) ctl(1) have "t' = t"
      by (auto simp: ProcessShardDayCut_def landed_def Let_def split: if_splits write_outcome.splits)
    with assms(2) show ?thesis by simp
  next
    case False
    with assms(2) ctl have "running s d n cur ?c t" by (auto simp: running_def run_inv_def)
    then have run1: "running s d n cur ?c ?t1" by (rule UpdateStatus_running) simp
    note f1 = UpdateStatus_framed [of d t "cut_now env" s n DayCutStatusProcessing None]
    show ?thesis
    proof (cases "claim_outcome env = Written")
      case True
      obtain sc t2 where L: "chunk_loop env s d n cur 0 ?c [] ?t1 = (sc, t2)" by force
      have "sound_day d cur ?t1" using assms(3) framed_day(1) [OF f1] by simp
      from chunk_loop_counts [OF L run1 this assms(4)] obtain c' where
        f2: "framed d ?t1 t2" and run2: "running s d n cur c' t2" and
        seen: "\<forall>l'. sc = Scanned l' \<longrightarrow> all_seen d cur c' t2" by blast
      note f = framed_trans [OF f1 f2]
      have res: "scanAndSeal env s d n cur ?c ?t1 = (res, t')"
        using assms(1) False True ctl(1) by (simp add: ProcessShardDayCut_def Let_def)
      show ?thesis
      proof (cases sc)
        case (Scanned l)
        with res L have fin: "finishCut env s d n l t2 = (res, t')" by (simp add: scanAndSeal_def)
        from finishCut_inv [OF fin run2 _ assms(4)] seen Scanned f framed_trans show ?thesis by blast
      qed (use res L running_inv [OF run2] f in \<open>auto simp: scanAndSeal_def\<close>)
    next
      case ReplyLost: False
      with assms(1) False ctl(1) have "t' = ?t1"
        by (auto simp: ProcessShardDayCut_def landed_def Let_def split: if_splits write_outcome.splits)
      with running_inv [OF run1] f1 show ?thesis by simp
    qed
  qed
qed

text \<open>
  Between two attempts the tables are used by everything else: other dates and currencies are booked
  and cut, balances change. What must not happen is that the date's own postings change (the drain
  waits for them), that an account changes its category, that an earlier date is cut again, or that
  another process works on the same run.
\<close>

definition same_run :: "shard_id \<Rightarrow> string \<Rightarrow> int \<Rightarrow> string \<Rightarrow> cut_tables \<Rightarrow> cut_tables \<Rightarrow> bool" where
  "same_run s d n cur t t' \<longleftrightarrow>
     filter (day_posting d cur) (postings t') = filter (day_posting d cur) (postings t) \<and>
     (\<forall>a. map_option acc_category (select_one (\<lambda>x. acc_no x = a) (cut_accounts t')) =
          map_option acc_category (select_one (\<lambda>x. acc_no x = a) (cut_accounts t))) \<and>
     earlier d (snapshots t') = earlier d (snapshots t) \<and>
     filter (of_run d n) (snapshots t') = filter (of_run d n) (snapshots t) \<and>
     distinct (map snapKey (snapshots t')) \<and> GetByShard t' s d n = GetByShard t s d n"

inductive cut_history :: "shard_id \<Rightarrow> string \<Rightarrow> int \<Rightarrow> string \<Rightarrow> cut_tables \<Rightarrow> cut_tables \<Rightarrow> bool"
  for s d n cur t0 where
  begun: "cut_history s d n cur t0 t0"
| attempted: "cut_history s d n cur t0 t \<Longrightarrow> orderly env \<Longrightarrow>
    cut_history s d n cur t0 (snd (ProcessShardDayCut env s d n cur t))"
| elsewhere: "cut_history s d n cur t0 t \<Longrightarrow> same_run s d n cur t t' \<Longrightarrow> cut_history s d n cur t0 t'"

lemma totals_of_run: "totals_of d n a rows = totals_of d n a (filter (of_run d n) rows)"
  unfolding totals_of_def sum_where_filter
  by (auto intro!: sum_where_cong simp: snap_key_def)

lemma same_run_inv:
  assumes "same_run s d n cur t t'" "run_inv s d n cur t"
  shows "run_inv s d n cur t'"
proof -
  note same = assms(1) [unfolded same_run_def]
  have rows: "r \<in> set (snapshots t') \<and> of_run d n r \<longleftrightarrow> r \<in> set (snapshots t) \<and> of_run d n r" for r
  proof -
    from same have "set (filter (of_run d n) (snapshots t')) = set (filter (of_run d n) (snapshots t))" by simp
    then show ?thesis by (simp add: set_eq_iff)
  qed
  have day: "seen_rows d cur c t' = seen_rows d cur c t" "all_seen d cur c t' = all_seen d cur c t" for c
    using same by (simp_all add: seen_rows_def all_seen_def)
  have "totals_of d n a (snapshots t') = totals_of d n a (snapshots t)" for a
    using same by (subst (1 2) totals_of_run) simp
  then have cnt: "counted d n cur c t' = counted d n cur c t" for c
    using day(1) by (simp add: counted_def)
  have "filter (\<lambda>r. snap_account r = a \<and> snap_date r < d) rows = filter (\<lambda>r. snap_account r = a) (earlier d rows)"
    for a rows by (simp add: earlier_def conj_commute)
  then have prev: "GetPrevEnding t' a d = GetPrevEnding t a d" for a
    using same by (simp add: GetPrevEnding_def)
  have "sealed d n t \<Longrightarrow> sealed d n t'"
    unfolding sealed_def
  proof (intro ballI impI allI)
    fix r b assume s: "\<forall>r\<in>set (snapshots t). of_run d n r \<longrightarrow>
        (\<forall>a. select_one (\<lambda>a. acc_no a = snap_account r) (cut_accounts t) = Some a \<longrightarrow>
          beginning_balance r = fst (GetPrevEnding t (snap_account r) d) \<and>
          ending_balance r = add64 (beginning_balance r) (netDelta a r))"
      and r: "r \<in> set (snapshots t')" "of_run d n r"
      and b: "select_one (\<lambda>a. acc_no a = snap_account r) (cut_accounts t') = Some b"
    have "map_option acc_category (select_one (\<lambda>x. acc_no x = snap_account r) (cut_accounts t')) =
        map_option acc_category (select_one (\<lambda>x. acc_no x = snap_account r) (cut_accounts t))"
      using same by (elim conjE allE)
    then obtain b' where b': "select_one (\<lambda>a. acc_no a = snap_account r) (cut_accounts t) = Some b'"
      "acc_category b' = acc_category b"
      by (cases "select_one (\<lambda>a. acc_no a = snap_account r) (cut_accounts t)") (simp_all add: b)
    have "r \<in> set (snapshots t)" using rows r by blast
    with s r(2) b'(1) have "beginning_balance r = fst (GetPrevEnding t (snap_account r) d) \<and>
        ending_balance r = add64 (beginning_balance r) (netDelta b' r)" by blast
    then show "beginning_balance r = fst (GetPrevEnding t' (snap_account r) d) \<and>
        ending_balance r = add64 (beginning_balance r) (netDelta b r)"
      using b'(2) by (simp add: prev netDelta_def)
  qed
  note sealing = this
  from assms(2) obtain ctl where ctl: "GetByShard t s d n = Some ctl" "counted d n cur (last_processed_id ctl) t"
    and fin: "control_status ctl = DayCutStatusCompleted \<longrightarrow>
      all_seen d cur (last_processed_id ctl) t \<and> sealed d n t" unfolding run_inv_def by blast
  have "GetByShard t' s d n = GetByShard t s d n" using same by (elim conjE)
  with ctl(1) have "GetByShard t' s d n = Some ctl" by (rule trans [rotated])
  moreover have "counted d n cur (last_processed_id ctl) t'" using ctl(2) cnt by blast
  moreover have "control_status ctl = DayCutStatusCompleted \<longrightarrow>
      all_seen d cur (last_processed_id ctl) t' \<and> sealed d n t'" using fin day(2) sealing by blast
  moreover have "sound_rows d n cur (snapshots t')"
  proof -
    have "row_ok cur r" if "r \<in> set (snapshots t')" "of_run d n r" for r
      using rows [of r] that assms(2) unfolding run_inv_def sound_rows_def by blast
    then show ?thesis using same unfolding sound_rows_def by blast
  qed
  ultimately show ?thesis unfolding run_inv_def by blast
qed

definition fresh_run :: "shard_id \<Rightarrow> string \<Rightarrow> int \<Rightarrow> cut_tables \<Rightarrow> bool" where
  "fresh_run s d n t \<longleftrightarrow> distinct (map snapKey (snapshots t)) \<and> (\<forall>r\<in>set (snapshots t). \<not> of_run d n r) \<and>
     (\<exists>ctl. GetByShard t s d n = Some ctl \<and> last_processed_id ctl = 0 \<and> control_status ctl = DayCutStatusPending)"

lemma fresh_run_inv:
  assumes "fresh_run s d n t" "sound_day d cur t"
  shows "run_inv s d n cur t"
proof -
  have "sum_where (snap_key a d n) f (snapshots t) = 0" for a and f :: "AccountBalanceSnapshot \<Rightarrow> int"
    using assms(1) by (auto simp: sum_where_def fresh_run_def snap_key_def filter_empty_conv)
  moreover have "seen_rows d cur 0 t = []"
    using assms(2) by (auto simp: seen_rows_def sound_day_def filter_empty_conv)
  ultimately have "counted d n cur 0 t" by (simp add: counted_def totals_of_def booked_on_def)
  with assms(1) show ?thesis by (auto simp: run_inv_def fresh_run_def sound_rows_def)
qed

lemma cut_history_inv:
  assumes "cut_history s d n cur t0 t" "fresh_run s d n t0" "sound_day d cur t0"
  shows "run_inv s d n cur t \<and> sound_day d cur t \<and>
         filter (day_posting d cur) (postings t) = filter (day_posting d cur) (postings t0)"
  using assms
proof (induction rule: cut_history.induct)
  case begun
  then show ?case using fresh_run_inv by blast
next
  case (attempted t env)
  then have IH: "run_inv s d n cur t" "sound_day d cur t"
    "filter (day_posting d cur) (postings t) = filter (day_posting d cur) (postings t0)" by simp_all
  obtain res t' where P: "ProcessShardDayCut env s d n cur t = (res, t')" by force
  from attempt_inv [OF P IH(1,2) attempted(2)] IH framed_day(1) show ?case
    unfolding P snd_conv framed_def by metis
next
  case (elsewhere t t')
  then have "run_inv s d n cur t'" using same_run_inv by blast
  moreover have "filter (day_posting d cur) (postings t') = filter (day_posting d cur) (postings t)"
    using elsewhere(2) unfolding same_run_def by blast
  ultimately show ?case using elsewhere.IH elsewhere.prems unfolding sound_day_def by metis
qed

text \<open>C8. However often the day cut of a shard fails, dies or loses a reply at any of its statements and is
  run again, and whatever happens to other dates, currencies and runs meanwhile: once the run is
  completed, every account with postings of the date has exactly one snapshot row of the run, its
  debit, credit and count are those of all its postings of the date, each counted once, and the row
  runs from the ending of the last earlier cut to that plus the net of the day; an account without
  postings has no row.\<close>

theorem completed_run_counts_every_posting_once:
  assumes "cut_history s d n cur t0 t" "fresh_run s d n t0" "sound_day d cur t0"
    and "GetByShard t s d n = Some ctl" "control_status ctl = DayCutStatusCompleted"
  shows "let day = filter (\<lambda>x. tx_account x = a) (filter (day_posting d cur) (postings t0));
             rows = filter (snap_key a d n) (snapshots t)
         in if day = [] then rows = []
            else \<exists>r. rows = [r] \<and> snap_debit r = (\<Sum>x\<leftarrow>day. debit_amount x) \<and>
                   snap_credit r = (\<Sum>x\<leftarrow>day. credit_amount x) \<and> snap_count r = int (length day) \<and>
                   (\<forall>acc. select_one (\<lambda>x. acc_no x = a) (cut_accounts t) = Some acc \<longrightarrow>
                      beginning_balance r = fst (GetPrevEnding t a d) \<and>
                      ending_balance r = add64 (beginning_balance r) (netDelta acc r))"
proof -
  let ?day = "filter (\<lambda>x. tx_account x = a) (filter (day_posting d cur) (postings t0))"
  let ?rows = "filter (snap_key a d n) (snapshots t)"
  from cut_history_inv [OF assms(1-3)] assms(4,5) have
    rows: "sound_rows d n cur (snapshots t)" and cnt: "counted d n cur (last_processed_id ctl) t" and
    seen: "seen_rows d cur (last_processed_id ctl) t = filter (day_posting d cur) (postings t0)" and
    sealed: "sealed d n t"
    by (auto simp: run_inv_def all_seen_def)
  have totals: "(\<Sum>r\<leftarrow>?rows. snap_debit r) = (\<Sum>x\<leftarrow>?day. debit_amount x)"
      "(\<Sum>r\<leftarrow>?rows. snap_credit r) = (\<Sum>x\<leftarrow>?day. credit_amount x)"
      "(\<Sum>r\<leftarrow>?rows. snap_count r) = int (length ?day)"
    using cnt seen by (simp_all add: counted_def totals_of_def booked_on_def sum_where_def sum_list_triv)
  have pos: "r \<in> set ?rows \<Longrightarrow> 0 < snap_count r" for r
    using rows by (auto simp: sound_rows_def row_ok_def snap_key_def)
  have "distinct (map snapKey ?rows)" using rows by (simp add: sound_rows_def distinct_map_filter)
  moreover have "set (map snapKey ?rows) \<subseteq> {(a, d, n)}" by (auto simp: snap_key_snapKey)
  ultimately have "length (map snapKey ?rows) \<le> 1"
    by (metis card_mono card.empty card_insert_disjoint distinct_card empty_iff finite.emptyI finite.insertI One_nat_def)
  then consider "?rows = []" | r where "?rows = [r]" by (cases ?rows) auto
  then show ?thesis
  proof cases
    case 1
    with totals(3) show ?thesis by (simp add: Let_def)
  next
    case 2
    then have "r \<in> set ?rows" by simp
    then have r: "r \<in> set (snapshots t)" "snap_account r = a" "of_run d n r" by (auto simp: snap_key_def)
    have "0 < snap_count r" using pos 2 by simp
    with totals(3) 2 have "?day \<noteq> []" by auto
    with 2 totals sealed r show ?thesis by (auto simp: Let_def sealed_def)
  qed
qed

section \<open>A day, its failures and its end\<close>

definition cut_account :: "string \<Rightarrow> AccountCategory \<Rightarrow> Account" where
  "cut_account n c = \<lparr>acc_no = n, acc_user = 1, acc_type = AccountTypeUser, acc_category = c, acc_biz = 1,
     acc_currency = ''PHP'', balance = 0, frozen_balance = 0, available_balance = 0,
     acc_status = AccountStatusActive, acc_group = AccountGroupA, version = 0, logical_account = None,
     period_end = None, lifecycle_phase = LifecyclePhaseLegacy, draining_started_at = None, frozen_at = None\<rparr>"

definition posted :: "int \<Rightarrow> string \<Rightarrow> int \<Rightarrow> int \<Rightarrow> StoredTransaction" where
  "posted i a deb cred = \<lparr>transaction_id = ''T'', parent_transaction = ''V'', tx_account = a,
     tx_business_no = ''B'', tx_business_type = ''TRANSFER'', debit_amount = deb, credit_amount = cred,
     balance_before = 0, balance_after = 0, booking_type = TransactionBookingTypeSync, tx_currency = ''PHP'',
     transaction_date = ''2026-05-02'', cut_date = ''2026-05-02'', row_id = i,
     row_status = TransactionStatusSuccess\<rparr>"

definition pending_control :: "shard_id \<Rightarrow> string \<Rightarrow> int \<Rightarrow> string \<Rightarrow> DayCutControl" where
  "pending_control s d n cur = \<lparr>control_shard = s, control_date = d, control_run = n, last_processed_id = 0,
     control_last_tx = [], control_currency = cur, control_status = DayCutStatusPending, control_error = None,
     control_updated_at = 0\<rparr>"

definition yesterday :: AccountBalanceSnapshot where
  "yesterday = \<lparr>snap_account = ''CASH'', snap_date = ''2026-05-01'', snap_run = 1, beginning_balance = 0,
     ending_balance = 1000, snap_debit = 1000, snap_credit = 0, snap_count = 1, snap_currency = ''PHP'',
     snap_last_tx = ''T''\<rparr>"

definition may_second :: cut_tables where
  "may_second = \<lparr>postings = [posted 1 ''CASH'' 500 0, posted 2 ''USER'' 0 500, posted 3 ''CASH'' 0 200,
       posted 4 ''USER'' 200 0],
     cut_accounts = [cut_account ''CASH'' AccountCategoryAsset, cut_account ''USER'' AccountCategoryLiability],
     snapshots = [yesterday], controls = [pending_control (0, 0) ''2026-05-02'' 1 ''PHP'']\<rparr>"

text \<open>The commit's reply is lost, then the process dies while sealing, then an attempt goes through.\<close>

definition rough_day :: "shard_id \<Rightarrow> cut_tables \<Rightarrow> cut_tables" where
  "rough_day s t0 =
     (let go = (\<lambda>env t. snd (ProcessShardDayCut env s ''2026-05-02'' 1 ''PHP'' t))
      in go calm_cut (go (calm_cut\<lparr>seal_outcome := (\<lambda>_. Died)\<rparr>)
           (go (calm_cut\<lparr>chunk_outcome := (\<lambda>_. CommitEnds ReplyLost)\<rparr>) t0)))"

lemma calm_orderly: "orderly calm_cut" "orderly (calm_cut\<lparr>seal_outcome := f\<rparr>)"
  "orderly (calm_cut\<lparr>chunk_outcome := g\<rparr>)"
  by (simp_all add: orderly_def calm_cut_def)

lemma rough_day_history: "cut_history s ''2026-05-02'' 1 ''PHP'' t (rough_day s t)"
  unfolding rough_day_def Let_def
  by (intro cut_history.attempted cut_history.begun calm_orderly)

lemma rough_day_ends:
  "map_option (\<lambda>c. (control_status c, last_processed_id c)) (GetByShard (rough_day (0, 0) may_second) (0, 0) ''2026-05-02'' 1) =
     Some (DayCutStatusCompleted, 4)"
  by code_simp

lemma completed_run_counts_every_posting_once_witness:
  "map (\<lambda>r. (snap_debit r, snap_credit r, beginning_balance r, ending_balance r))
     (filter (snap_key ''CASH'' ''2026-05-02'' 1) (snapshots (rough_day (0, 0) may_second))) = [(500, 200, 1000, 1300)]"
proof -
  have fresh: "fresh_run (0, 0) ''2026-05-02'' 1 may_second"
    by (simp add: fresh_run_def may_second_def yesterday_def GetByShard_def select_one_def pending_control_def
        control_key_def)
  have sound: "sound_day ''2026-05-02'' ''PHP'' may_second"
    by (simp add: sound_day_def may_second_def posted_def day_posting_def sound_posting_def)
  from rough_day_ends obtain ctl where ctl: "GetByShard (rough_day (0, 0) may_second) (0, 0) ''2026-05-02'' 1 = Some ctl"
    "control_status ctl = DayCutStatusCompleted" by auto
  have day: "filter (\<lambda>x. tx_account x = ''CASH'') (filter (day_posting ''2026-05-02'' ''PHP'') (postings may_second)) =
      [posted 1 ''CASH'' 500 0, posted 3 ''CASH'' 0 200]"
    by (simp add: may_second_def posted_def day_posting_def)
  have acc: "select_one (\<lambda>x. acc_no x = ''CASH'') (cut_accounts (rough_day (0, 0) may_second)) =
      Some (cut_account ''CASH'' AccountCategoryAsset)" by code_simp
  have prev: "fst (GetPrevEnding (rough_day (0, 0) may_second) ''CASH'' ''2026-05-02'') = 1000" by code_simp
  note counted = completed_run_counts_every_posting_once [OF rough_day_history fresh sound ctl, of "''CASH''"]
  obtain r where "filter (snap_key ''CASH'' ''2026-05-02'' 1) (snapshots (rough_day (0, 0) may_second)) = [r]"
    "snap_debit r = 500" "snap_credit r = 200" "beginning_balance r = 1000"
    "ending_balance r = add64 1000 (netDelta (cut_account ''CASH'' AccountCategoryAsset) r)"
    using counted [unfolded day Let_def acc prev] by (auto simp: posted_def)
  then show ?thesis
    by (simp add: netDelta_def cut_account_def IsAssetOrExpense_def sub64_exact add64_exact in64_iff)
qed

section \<open>What the code does not prevent\<close>

text \<open>
  Two workers on one run, as when the watchdog resumes a shard whose worker is alive (a shard that
  still waits for one of the ten slots is PENDING for as long as the others take): both have read the
  chunk, both add it. The guard on the cursor keeps the second from moving it, but the rows it matched
  are not counted and the totals are added all the same.
\<close>

definition both_workers :: "cut_tables \<Rightarrow> cut_tables option" where
  "both_workers t =
     (let txs = ListByCutDateChunk t ''2026-05-02'' ''PHP'' 0 dayCutChunkSize;
          add = (\<lambda>t. commitChunk calm_cut t (0, 0) ''2026-05-02'' 1 ''PHP'' txs)
      in Option.bind (add t) add)"

lemma overlapping_workers_count_twice:
  "map_option (\<lambda>t. (map (\<lambda>r. (snap_debit r, snap_count r))
       (filter (snap_key ''CASH'' ''2026-05-02'' 1) (snapshots t)), map last_processed_id (controls t)))
     (both_workers may_second) = Some ([(1000, 4)], [4])"
  by code_simp

text \<open>
  The previous ending is that of the row with the highest run, completed or not: after a rerun of the
  first of May that broke off behind its first chunk, the second of May begins with the balance the
  last posting of that chunk saw.
\<close>

definition broken_rerun :: cut_tables where
  "broken_rerun = may_second\<lparr>snapshots := [yesterday, yesterday\<lparr>snap_run := 2, ending_balance := 77\<rparr>],
     controls := [(pending_control (0, 0) ''2026-05-01'' 2 ''PHP'')\<lparr>control_status := DayCutStatusFailed\<rparr>,
       pending_control (0, 0) ''2026-05-02'' 1 ''PHP'']\<rparr>"

lemma next_day_begins_with_a_broken_run:
  "let (res, t) = ProcessShardDayCut calm_cut (0, 0) ''2026-05-02'' 1 ''PHP'' broken_rerun
   in res = CutDone \<and> map beginning_balance (filter (snap_key ''CASH'' ''2026-05-02'' 1) (snapshots t)) = [77]"
  by code_simp

text \<open>A cancelled context is what the failure mark is written with, so the mark is never written and
  the row stays PROCESSING.\<close>

lemma cancelled_attempt_stays_processing:
  "let (res, t) = ProcessShardDayCut (calm_cut\<lparr>chunk_outcome := (\<lambda>_. ContextDone)\<rparr>) (0, 0) ''2026-05-02'' 1 ''PHP''
         may_second
   in res = CutFails CutContextCancelled \<and> map control_status (controls t) = [DayCutStatusProcessing]"
  by code_simp

text \<open>An attempt that only seals what an earlier one counted records \<open>NONE\<close> as the last transaction.\<close>

lemma resumed_run_forgets_the_last_transaction:
  "map control_last_tx (controls (rough_day (0, 0) may_second)) = [''NONE'']"
  by code_simp

end
