(* ===== verification/DayCutRun.thy ===== *)
theory DayCutRun
  imports DayCutLaws GoText
begin

text \<open>
  What starts and restarts the day cut: the accounting date of a moment (\<open>cut_date_provider.go\<close>), the
  scheduler (\<open>day_cut_scheduler.go\<close>), and \<open>TriggerDayCut\<close>, \<open>WatchdogRecover\<close>, \<open>ResumeStuckShards\<close>,
  \<open>CheckDayCutStatus\<close> and \<open>ListDayCutHistory\<close> of \<open>day_cut_service.go\<close> with the control table's
  aggregates. Shards are cut concurrently on disjoint tables, so the order does not show.
\<close>

section \<open>Dates\<close>

text \<open>A moment in a zone is a day (counted from 1970-01-01) and a nanosecond of that day; a zone is its
  offset, as the zones the configuration names (\<open>Asia/Manila\<close>) have no daylight saving time.\<close>

abbreviation (input) day_nanos :: int where "day_nanos \<equiv> 86400000000000"
abbreviation (input) second_nanos :: int where "second_nanos \<equiv> 1000000000"

type_synonym zone = int

definition local_day :: "zone \<Rightarrow> int \<Rightarrow> int" where
  "local_day tz t = (t + tz) div day_nanos"

definition local_nano :: "zone \<Rightarrow> int \<Rightarrow> int" where
  "local_nano tz t = (t + tz) mod day_nanos"

text \<open>The proleptic Gregorian date of a day, in eras of 400 years that begin in March.\<close>

definition civil :: "int \<Rightarrow> int \<times> int \<times> int" where
  "civil z =
     (let z' = z + 719468; era = z' div 146097; doe = z' mod 146097;
          yoe = (doe - doe div 1460 + doe div 36524 - doe div 146096) div 365;
          doy = doe - (365 * yoe + yoe div 4 - yoe div 100);
          mp = (5 * doy + 2) div 153;
          m = (if mp < 10 then mp + 3 else mp - 9)
      in (yoe + era * 400 + (if m \<le> 2 then 1 else 0), m, doy - (153 * mp + 2) div 5 + 1))"

definition format_day :: "int \<Rightarrow> string" where
  "format_day z = (case civil z of (y, m, d) \<Rightarrow> pad_int 4 y @ ''-'' @ pad_int 2 m @ ''-'' @ pad_int 2 d)"

section \<open>The accounting date\<close>

definition cutNano :: "int \<Rightarrow> int \<Rightarrow> int \<Rightarrow> int" where
  "cutNano h m s = ((h * 60 + m) * 60 + s) * second_nanos"

definition ComputeCutDate :: "int \<Rightarrow> int \<Rightarrow> int \<Rightarrow> int \<Rightarrow> zone \<Rightarrow> string" where
  "ComputeCutDate t h m s tz =
     (if local_nano tz t < cutNano h m s then format_day (local_day tz t - 1) else format_day (local_day tz t))"

fun splitOn :: "char \<Rightarrow> string \<Rightarrow> string list" where
  "splitOn c [] = [[]]"
| "splitOn c (x # xs) =
     (if x = c then [] # splitOn c xs
      else case splitOn c xs of [] \<Rightarrow> [[x]] | p # ps \<Rightarrow> (x # p) # ps)"

definition in_bounds :: "int \<Rightarrow> string \<Rightarrow> int option" where
  "in_bounds hi p = (case parse_int p of None \<Rightarrow> None | Some v \<Rightarrow> if v < 0 \<or> v > hi then None else Some v)"

definition parseHHMMSS :: "string \<Rightarrow> (int \<times> int \<times> int) option" where
  "parseHHMMSS s =
     (case splitOn (CHR '':'') (TrimSpace s) of
        [hh, mm] \<Rightarrow>
          (case (in_bounds 23 hh, in_bounds 59 mm) of (Some h, Some m) \<Rightarrow> Some (h, m, 0) | _ \<Rightarrow> None)
      | [hh, mm, ss] \<Rightarrow>
          (case (in_bounds 23 hh, in_bounds 59 mm, in_bounds 59 ss) of
             (Some h, Some m, Some sec) \<Rightarrow> Some (h, m, sec)
           | _ \<Rightarrow> None)
      | _ \<Rightarrow> None)"

text \<open>The four keys of \<open>system_config\<close>; \<open>None\<close> is an absent key, and zone names are looked up by
  \<open>LoadLocation\<close>, whose database is an argument, as is the server's own zone.\<close>

record cut_config =
  cfg_enabled :: bool
  cfg_scheduled_time :: "string option"
  cfg_timezone :: "string option"
  cfg_currencies :: "string option"

definition cut_time :: "cut_config \<Rightarrow> int \<times> int \<times> int" where
  "cut_time cfg = (case parseHHMMSS (case cfg_scheduled_time cfg of None \<Rightarrow> ''00:00:00'' | Some x \<Rightarrow> x) of
     None \<Rightarrow> (0, 0, 0) | Some x \<Rightarrow> x)"

definition cut_zone :: "(string \<Rightarrow> zone option) \<Rightarrow> zone \<Rightarrow> cut_config \<Rightarrow> zone" where
  "cut_zone loc server cfg = (case cfg_timezone cfg of
     None \<Rightarrow> server
   | Some n \<Rightarrow> if n = [] then server else case loc n of None \<Rightarrow> server | Some z \<Rightarrow> z)"

definition CutDateForTime :: "(string \<Rightarrow> zone option) \<Rightarrow> zone \<Rightarrow> cut_config option \<Rightarrow> int \<Rightarrow> string" where
  "CutDateForTime loc server cfg t = (case cfg of
     None \<Rightarrow> ComputeCutDate t 0 0 0 server
   | Some c \<Rightarrow> (case cut_time c of (h, m, s) \<Rightarrow> ComputeCutDate t h m s (cut_zone loc server c)))"

section \<open>The scheduler\<close>

text \<open>One tick: which (date, currency) pairs it triggers, and the pairs it will not trigger again.\<close>

fun fire :: "string \<Rightarrow> string list \<Rightarrow> (string \<times> string) list \<Rightarrow> (string \<times> string) list \<times> (string \<times> string) list" where
  "fire d [] seen = ([], seen)"
| "fire d (c # cs) seen =
     (let cur = TrimSpace c
      in if cur = [] \<or> (d, cur) \<in> set seen then fire d cs seen
         else let (fs, seen') = fire d cs ((d, cur) # seen) in ((d, cur) # fs, seen'))"

definition schedulerTick :: "(string \<Rightarrow> zone option) \<Rightarrow> zone \<Rightarrow> cut_config \<Rightarrow> int \<Rightarrow> (string \<times> string) list \<Rightarrow>
    (string \<times> string) list \<times> (string \<times> string) list" where
  "schedulerTick loc server cfg now triggered =
     (if \<not> cfg_enabled cfg then ([], triggered)
      else case cut_time cfg of (h, m, s) \<Rightarrow>
        let tz = cut_zone loc server cfg
        in if local_nano tz now < cutNano h m s then ([], triggered)
           else fire (format_day (local_day tz now))
                  (splitOn (CHR '','') (case cfg_currencies cfg of None \<Rightarrow> ''PHP'' | Some x \<Rightarrow> x)) triggered)"

section \<open>Control rows\<close>

definition controlUpsert :: "int \<Rightarrow> cut_tables \<Rightarrow> DayCutControl \<Rightarrow> cut_tables" where
  "controlUpsert now t c =
     (let P = control_key (control_shard c) (control_date c) (control_run c)
      in t\<lparr>controls :=
          (if list_ex P (controls t)
           then update_where P (\<lambda>r. if control_status r = control_status c then r
                  else r\<lparr>control_status := control_status c, control_updated_at := now\<rparr>) (controls t)
           else controls t @ [c])\<rparr>)"

definition GetMaxRunID :: "cut_tables \<Rightarrow> string \<Rightarrow> int" where
  "GetMaxRunID t d = fold max (map control_run (filter (\<lambda>c. control_date c = d) (controls t))) 0"

definition ListStuckProcessing :: "cut_tables \<Rightarrow> shard_id \<Rightarrow> int \<Rightarrow> DayCutControl list" where
  "ListStuckProcessing t s olderThan = filter (\<lambda>c. control_shard c = s \<and>
     control_status c = DayCutStatusProcessing \<and> control_updated_at c < olderThan) (controls t)"

definition QueryStatusSummary :: "cut_tables \<Rightarrow> string \<Rightarrow> DayCutStatus \<Rightarrow> nat" where
  "QueryStatusSummary t d st = count_where (\<lambda>c. control_date c = d \<and> control_status c = st) (controls t)"

section \<open>Triggering a run\<close>

text \<open>
  A poll of the drain sees the coordinators, or fails; after it the deadline may have passed or the
  caller may have gone. \<open>CountActiveByCutDate\<close> is that of theory \<open>Tcc\<close>.
\<close>

record drain_poll =
  poll_sees :: "cluster option"
  deadline_passed :: bool
  caller_gone :: bool

fun waitCoordsDrained :: "string \<Rightarrow> drain_poll list \<Rightarrow> bool" where
  "waitCoordsDrained d [] = False"
| "waitCoordsDrained d (p # ps) =
     (case poll_sees p of
        None \<Rightarrow> False
      | Some c \<Rightarrow> if CountActiveByCutDate c d = 0 then True
                  else if deadline_passed p \<or> caller_gone p then False
                  else waitCoordsDrained d ps)"

record trigger_env =
  trigger_now :: int
  max_fails :: "shard_id \<Rightarrow> bool"
  upsert_outcome :: "shard_id \<Rightarrow> write_outcome"
  drain_polls :: "drain_poll list"
  shard_env :: "shard_id \<Rightarrow> cut_env"

datatype trigger_result =
    CutCurrencyRequired
  | MaxRunFailed shard_id
  | InitFailed shard_id
  | DrainTimeout
  | CutTriggered int

definition newControl :: "int \<Rightarrow> shard_id \<Rightarrow> string \<Rightarrow> int \<Rightarrow> string \<Rightarrow> DayCutControl" where
  "newControl now s d n cur = \<lparr>control_shard = s, control_date = d, control_run = n, last_processed_id = 0,
     control_last_tx = [], control_currency = cur, control_status = DayCutStatusPending, control_error = None,
     control_updated_at = now\<rparr>"

definition newRunID :: "router \<Rightarrow> (shard_id \<Rightarrow> cut_tables) \<Rightarrow> string \<Rightarrow> int" where
  "newRunID r w d = fold (\<lambda>s n. if GetMaxRunID (w s) d + 1 > n then GetMaxRunID (w s) d + 1 else n)
     (GetAllShards r) 1"

definition initControls :: "router \<Rightarrow> trigger_env \<Rightarrow> (shard_id \<Rightarrow> cut_tables) \<Rightarrow> string \<Rightarrow> int \<Rightarrow> string \<Rightarrow>
    shard_id \<Rightarrow> cut_tables" where
  "initControls r env w d n cur s =
     (if s \<in> set (GetAllShards r) \<and> landed (upsert_outcome env s)
      then controlUpsert (trigger_now env) (w s) (newControl (trigger_now env) s d n cur) else w s)"

definition cutAll :: "router \<Rightarrow> (shard_id \<Rightarrow> cut_env) \<Rightarrow> (shard_id \<Rightarrow> cut_tables) \<Rightarrow> string \<Rightarrow> int \<Rightarrow> string \<Rightarrow>
    shard_id \<Rightarrow> cut_tables" where
  "cutAll r env w d n cur s =
     (if s \<in> set (GetAllShards r) then snd (ProcessShardDayCut (env s) s d n cur (w s)) else w s)"

definition TriggerDayCut :: "router \<Rightarrow> trigger_env \<Rightarrow> (shard_id \<Rightarrow> cut_tables) \<Rightarrow> string \<Rightarrow> string \<Rightarrow>
    trigger_result \<times> (shard_id \<Rightarrow> cut_tables)" where
  "TriggerDayCut r env w d cur =
     (if cur = [] then (CutCurrencyRequired, w)
      else case filter (max_fails env) (GetAllShards r) of
        s # _ \<Rightarrow> (MaxRunFailed s, w)
      | [] \<Rightarrow>
          (let n = newRunID r w d; w' = initControls r env w d n cur
           in case filter (\<lambda>s. upsert_outcome env s \<noteq> Written) (GetAllShards r) of
                s # _ \<Rightarrow> (InitFailed s, w')
              | [] \<Rightarrow> if \<not> waitCoordsDrained d (drain_polls env) then (DrainTimeout, w')
                      else (CutTriggered n, cutAll r (shard_env env) w' d n cur)))"

section \<open>Restarting shards that are stuck\<close>

definition stuckOf :: "(shard_id \<Rightarrow> bool) \<Rightarrow> (shard_id \<Rightarrow> cut_tables) \<Rightarrow> string \<Rightarrow> int \<Rightarrow> shard_id \<Rightarrow>
    (shard_id \<times> int \<times> string) option" where
  "stuckOf query_fails w today stuckBefore s =
     (let n = GetMaxRunID (w s) today
      in if query_fails s \<or> n = 0 then None
         else case GetByShard (w s) s today n of
           None \<Rightarrow> None
         | Some c \<Rightarrow>
             if control_status c = DayCutStatusCompleted then None
             else if control_status c \<notin> {DayCutStatusPending, DayCutStatusProcessing} \<or>
                     control_updated_at c > stuckBefore then None
             else Some (s, n, control_currency c))"

definition restart :: "(shard_id \<Rightarrow> cut_env) \<Rightarrow> string \<Rightarrow> (shard_id \<times> int \<times> string) list \<Rightarrow>
    (shard_id \<Rightarrow> cut_tables) \<Rightarrow> shard_id \<Rightarrow> cut_tables" where
  "restart env d = fold (\<lambda>(s, n, cur) w. w(s := snd (ProcessShardDayCut (env s) s d n cur (w s))))"

definition WatchdogRecover :: "router \<Rightarrow> (shard_id \<Rightarrow> bool) \<Rightarrow> (shard_id \<Rightarrow> cut_env) \<Rightarrow>
    (shard_id \<Rightarrow> cut_tables) \<Rightarrow> string \<Rightarrow> int \<Rightarrow> int \<Rightarrow> shard_id \<Rightarrow> cut_tables" where
  "WatchdogRecover r query_fails env w today now stuckThreshold =
     restart env today (List.map_filter (stuckOf query_fails w today (now - stuckThreshold)) (GetAllShards r)) w"

definition resumeCutoff :: "int \<Rightarrow> int \<Rightarrow> int" where
  "resumeCutoff now stuckThreshold = (if stuckThreshold > 0 then now - stuckThreshold else now + day_nanos)"

definition ResumeStuckShards :: "router \<Rightarrow> (shard_id \<Rightarrow> bool) \<Rightarrow> (shard_id \<Rightarrow> cut_env) \<Rightarrow>
    (shard_id \<Rightarrow> cut_tables) \<Rightarrow> string \<Rightarrow> int \<Rightarrow> int \<Rightarrow> int \<Rightarrow> nat \<times> (shard_id \<Rightarrow> cut_tables)" where
  "ResumeStuckShards r query_fails env w d n now stuckThreshold =
     (let stuck = concat (map (\<lambda>s. if query_fails s then []
              else map (\<lambda>c. (s, control_run c, control_currency c))
                (filter (\<lambda>c. control_date c = d \<and> control_run c = n)
                   (ListStuckProcessing (w s) s (resumeCutoff now stuckThreshold)))) (GetAllShards r))
      in (length stuck, restart env d stuck w))"

section \<open>Reports\<close>

definition CheckDayCutStatus :: "router \<Rightarrow> (shard_id \<Rightarrow> bool) \<Rightarrow> (shard_id \<Rightarrow> cut_tables) \<Rightarrow> string \<Rightarrow>
    (DayCutStatus \<times> nat) list option" where
  "CheckDayCutStatus r query_fails w d =
     (if list_ex query_fails (GetAllShards r) then None
      else Some (filter (\<lambda>(st, k). k > 0)
        (map (\<lambda>st. (st, sum_list (map (\<lambda>s. QueryStatusSummary (w s) d st) (GetAllShards r))))
           [DayCutStatusPending, DayCutStatusProcessing, DayCutStatusCompleted, DayCutStatusFailed])))"

record DayCutHistoryEntry =
  hist_date :: string
  hist_run :: int
  hist_currency :: string
  hist_count :: "DayCutStatus \<Rightarrow> nat"

definition historyKeys :: "DayCutControl list \<Rightarrow> (string \<times> int \<times> string) list" where
  "historyKeys cs = remdups (map (\<lambda>c. (control_date c, control_run c, control_currency c)) cs)"

text \<open>\<open>TotalShards\<close> is the sum of the four counts. Entries of one date and run, which differ in the
  currency only, are left by the sort in the order the map was ranged over in.\<close>

definition ListDayCutHistory :: "router \<Rightarrow> (shard_id \<Rightarrow> bool) \<Rightarrow> (shard_id \<Rightarrow> cut_tables) \<Rightarrow>
    DayCutHistoryEntry list" where
  "ListDayCutHistory r query_fails w =
     (let cs = concat (map (\<lambda>s. if query_fails s then [] else controls (w s)) (GetAllShards r));
          entries = map (\<lambda>(d, n, cur). \<lparr>hist_date = d, hist_run = n, hist_currency = cur,
            hist_count = (\<lambda>st. count_where (\<lambda>c. control_date c = d \<and> control_run c = n \<and>
               control_currency c = cur \<and> control_status c = st) cs)\<rparr>) (historyKeys cs)
      in rev (sort_key hist_date (sort_key hist_run entries)))"

section \<open>A triggered run is fresh\<close>

lemma fold_max_ge: "(n::int) \<le> fold max xs n \<and> (\<forall>x\<in>set xs. x \<le> fold max xs n)"
proof (induction xs arbitrary: n)
  case (Cons x xs)
  from Cons.IH [of "max x n"] show ?case by auto
qed simp

lemma GetMaxRunID_ge: "c \<in> set (controls t) \<Longrightarrow> control_date c = d \<Longrightarrow> control_run c \<le> GetMaxRunID t d"
  using fold_max_ge [of 0 "map control_run (filter (\<lambda>c. control_date c = d) (controls t))"]
  by (auto simp: GetMaxRunID_def)

lemma newRunID_gt:
  assumes "s \<in> set (GetAllShards r)"
  shows "GetMaxRunID (w s) d < newRunID r w d"
proof -
  have "n \<le> fold (\<lambda>s n. if g s + 1 > n then g s + 1 else n) ss n \<and>
      (\<forall>s\<in>set ss. g s < fold (\<lambda>s n. if g s + 1 > n then g s + 1 else n) ss n)" for g :: "shard_id \<Rightarrow> int" and ss n
  proof (induction ss arbitrary: n)
    case (Cons s ss)
    from Cons.IH [of "if g s + 1 > n then g s + 1 else n"] show ?case by (auto split: if_splits)
  qed simp
  from this [of 1 "\<lambda>s. GetMaxRunID (w s) d" "GetAllShards r"] assms show ?thesis by (simp add: newRunID_def)
qed

lemma find_last: "\<forall>x\<in>set xs. \<not> P x \<Longrightarrow> P y \<Longrightarrow> List.find P (xs @ [y]) = Some y"
  by (induction xs) auto

text \<open>When every snapshot row belongs to a run its shard has a control row for, the run a trigger makes
  is fresh on every shard, which is what theorem \<open>completed_run_counts_every_posting_once\<close> starts from.\<close>

lemma triggered_run_is_fresh:
  assumes "s \<in> set (GetAllShards r)" "upsert_outcome env s = Written"
    and keys: "distinct (map snapKey (snapshots (w s)))"
    and owned: "\<forall>x\<in>set (snapshots (w s)). \<exists>c\<in>set (controls (w s)). control_date c = snap_date x \<and>
      control_run c = snap_run x"
  shows "fresh_run s d (newRunID r w d) (initControls r env w d (newRunID r w d) cur s)"
proof -
  let ?n = "newRunID r w d" and ?c = "newControl (trigger_now env) s d (newRunID r w d) cur"
  have none: "\<forall>c\<in>set (controls (w s)). \<not> (control_date c = d \<and> control_run c = ?n)"
    using GetMaxRunID_ge [of _ "w s" d] newRunID_gt [OF assms(1), of w d] by fastforce
  then have "\<not> list_ex (control_key s d ?n) (controls (w s))" by (auto simp: list_ex_iff control_key_def)
  then have t: "initControls r env w d ?n cur s = (w s)\<lparr>controls := controls (w s) @ [?c]\<rparr>"
    using assms(1,2) by (simp add: initControls_def landed_def controlUpsert_def Let_def newControl_def)
  have "List.find (control_key s d ?n) (controls (w s) @ [?c]) = Some ?c"
    by (rule find_last) (use none in \<open>auto simp: control_key_def newControl_def\<close>)
  then have "GetByShard (initControls r env w d ?n cur s) s d ?n = Some ?c"
    by (simp add: t GetByShard_def select_one_def)
  moreover have "\<forall>x\<in>set (snapshots (w s)). \<not> of_run d ?n x" using owned none by metis
  ultimately show ?thesis using keys by (simp add: fresh_run_def t newControl_def)
qed

section \<open>The day the scheduler cuts\<close>

lemma fire_date: "fire d cs seen = (fs, seen') \<Longrightarrow> \<forall>x\<in>set fs. fst x = d \<and> x \<in> set seen'"
  and fire_seen: "fire d cs seen = (fs, seen') \<Longrightarrow> set seen \<subseteq> set seen' \<and> set fs \<inter> set seen = {}"
proof -
  have "fire d cs seen = (fs, seen') \<Longrightarrow>
      (\<forall>x\<in>set fs. fst x = d \<and> x \<in> set seen') \<and> set seen \<subseteq> set seen' \<and> set fs \<inter> set seen = {}"
  proof (induction d cs seen arbitrary: fs seen' rule: fire.induct)
    case (1 d seen)
    then show ?case by simp
  next
    case (2 d c cs seen)
    show ?case
    proof (cases "TrimSpace c = [] \<or> (d, TrimSpace c) \<in> set seen")
      case True
      with 2(3) have "fire d cs seen = (fs, seen')" by (simp add: Let_def)
      from 2(1) [OF refl True this] show ?thesis .
    next
      case False
      obtain fs1 seen1 where f: "fire d cs ((d, TrimSpace c) # seen) = (fs1, seen1)" by force
      with 2(3) False have "fs = (d, TrimSpace c) # fs1" "seen' = seen1" by (simp_all add: Let_def)
      with 2(2) [OF refl False f] False show ?thesis by auto
    qed
  qed
  then show "fire d cs seen = (fs, seen') \<Longrightarrow> \<forall>x\<in>set fs. fst x = d \<and> x \<in> set seen'"
    and "fire d cs seen = (fs, seen') \<Longrightarrow> set seen \<subseteq> set seen' \<and> set fs \<inter> set seen = {}" by blast+
qed

text \<open>
  The scheduler closes the day that has just begun: the date it triggers is the date a booking of the
  same moment still gets, and it never triggers that date again, so what is booked in the rest of the
  day is in no run of the scheduler.
\<close>

lemma scheduler_cuts_the_open_day:
  assumes "schedulerTick loc server cfg now triggered = (fs, triggered')" "(d, cur) \<in> set fs"
  shows "CutDateForTime loc server (Some cfg) now = d"
    and "schedulerTick loc server cfg' later triggered' = (fs', triggered'') \<Longrightarrow> (d, cur) \<notin> set fs'"
proof -
  obtain h m s where hms: "cut_time cfg = (h, m, s)" by (metis prod_cases3)
  have fired: "\<exists>d cs. fire d cs seen = (fs, seen') \<and> \<not> local_nano (cut_zone loc server cfg) now < cutNano h m s \<and>
      d = format_day (local_day (cut_zone loc server cfg) now)"
    if "schedulerTick loc server cfg now seen = (fs, seen')" "fs \<noteq> []" "cut_time cfg = (h, m, s)"
    for cfg now seen fs seen' h m s
    using that by (auto simp: schedulerTick_def Let_def split: if_splits)
  from assms(2) have "fs \<noteq> []" by auto
  from fired [OF assms(1) this hms] obtain cs where
    f: "fire (format_day (local_day (cut_zone loc server cfg) now)) cs triggered = (fs, triggered')" and
    late: "\<not> local_nano (cut_zone loc server cfg) now < cutNano h m s" by blast
  from fire_date [OF f] assms(2) have d: "d = format_day (local_day (cut_zone loc server cfg) now)"
    and seen: "(d, cur) \<in> set triggered'" by auto
  from d late hms show "CutDateForTime loc server (Some cfg) now = d"
    by (simp add: CutDateForTime_def ComputeCutDate_def)
  assume l: "schedulerTick loc server cfg' later triggered' = (fs', triggered'')"
  obtain h' m' s' where hms': "cut_time cfg' = (h', m', s')" by (metis prod_cases3)
  show "(d, cur) \<notin> set fs'"
  proof (cases "fs' = []")
    case False
    from fired [OF l this hms'] fire_seen seen show ?thesis by fastforce
  qed simp
qed

text \<open>The documentation's example: 10:00 in Manila on the 27th of April 2026 is the boundary.\<close>

lemma cut_date_boundary:
  "ComputeCutDate 1777255199000000000 10 0 0 28800000000000 = ''2026-04-26''"
  "ComputeCutDate 1777255200000000000 10 0 0 28800000000000 = ''2026-04-27''"
  by code_simp+

text \<open>The drain lets the cut begin only when a poll has seen no TRYING or CONFIRMING coordinator of the
  date or before.\<close>

lemma drained:
  assumes "waitCoordsDrained d ps"
  shows "\<exists>p\<in>set ps. \<exists>c. poll_sees p = Some c \<and>
    (\<forall>k\<in>set (coordinators c). coord_cut_date k \<le> d \<longrightarrow> phase k \<notin> {TccPhaseTrying, TccPhaseConfirming})"
  using assms
proof (induction d ps rule: waitCoordsDrained.induct)
  case (2 d p ps)
  then obtain c where c: "poll_sees p = Some c" by (auto split: option.splits)
  show ?case
  proof (cases "CountActiveByCutDate c d = 0")
    case True
    then have "\<forall>k\<in>set (coordinators c). coord_cut_date k \<le> d \<longrightarrow> phase k \<notin> {TccPhaseTrying, TccPhaseConfirming}"
      by (auto simp: CountActiveByCutDate_def count_where_def filter_empty_conv)
    with c show ?thesis by auto
  next
    case False
    with 2 c show ?thesis by (auto split: if_splits)
  qed
qed simp

end
