(* ===== verification/TrialBalance.thy ===== *)
theory TrialBalance
  imports DayCutLaws
begin

text \<open>
  The trial balance of a closed date: \<open>QueryShardSummaryByCurrency\<close> of
  \<open>trial_balance_repository.go\<close> on the tables of each shard, \<open>RunTrialBalanceByCurrency\<close> of
  \<open>trial_balance_service.go\<close> over all of them, the run the server picks
  (\<open>GetLatestCompletedRunID\<close>, \<open>RunTrialBalance\<close> of \<open>grpc/server.go\<close>), and what it says about the
  postings of the date when every shard's run is completed.
\<close>

section \<open>One shard's summary\<close>

record ShardTrialBalanceRow =
  tb_category :: AccountCategory
  tb_type :: AccountType
  tb_account_count :: int
  tb_beginning :: int
  tb_ending :: int
  tb_debit :: int
  tb_credit :: int

definition tb_key :: "ShardTrialBalanceRow \<Rightarrow> AccountCategory \<times> AccountType" where
  "tb_key r = (tb_category r, tb_type r)"

definition snapshotJoin :: "cut_tables \<Rightarrow> string \<Rightarrow> string \<Rightarrow> int \<Rightarrow> (AccountBalanceSnapshot \<times> Account) list" where
  "snapshotJoin t d cur n =
     concat (map (\<lambda>r. map (Pair r) (filter (\<lambda>a. acc_no a = snap_account r) (cut_accounts t)))
       (filter (\<lambda>r. snap_date r = d \<and> (n > 0 \<longrightarrow> snap_run r = n) \<and> (cur \<noteq> [] \<longrightarrow> snap_currency r = cur))
          (snapshots t)))"

definition joinKey :: "AccountBalanceSnapshot \<times> Account \<Rightarrow> AccountCategory \<times> AccountType" where
  "joinKey x = (acc_category (snd x), acc_type (snd x))"

definition groupRow :: "(AccountBalanceSnapshot \<times> Account) list \<Rightarrow> AccountCategory \<times> AccountType \<Rightarrow>
    ShardTrialBalanceRow" where
  "groupRow xs k =
     (let total = (\<lambda>f. sum_where (\<lambda>x. joinKey x = k) (\<lambda>x. f (fst x)) xs)
      in \<lparr>tb_category = fst k, tb_type = snd k, tb_account_count = total (\<lambda>_. 1),
          tb_beginning = total beginning_balance, tb_ending = total ending_balance,
          tb_debit = total snap_debit, tb_credit = total snap_credit\<rparr>)"

definition scannable :: "ShardTrialBalanceRow \<Rightarrow> bool" where
  "scannable r \<longleftrightarrow> in64 (tb_beginning r) \<and> in64 (tb_ending r) \<and> in64 (tb_debit r) \<and> in64 (tb_credit r)"

text \<open>\<open>SUM\<close> is exact; a sum that does not fit the row's \<open>int64\<close> fields fails to scan.\<close>

definition QueryShardSummaryByCurrency :: "cut_tables \<Rightarrow> string \<Rightarrow> string \<Rightarrow> int \<Rightarrow>
    ShardTrialBalanceRow list option" where
  "QueryShardSummaryByCurrency t d cur n =
     (let xs = snapshotJoin t d cur n;
          rows = map (groupRow xs) (remdups (map joinKey xs))
      in if list_all scannable rows then Some rows else None)"

section \<open>All shards\<close>

definition addRow :: "ShardTrialBalanceRow \<Rightarrow> ShardTrialBalanceRow \<Rightarrow> ShardTrialBalanceRow" where
  "addRow x r = r\<lparr>tb_account_count := add64 (tb_account_count r) (tb_account_count x),
     tb_beginning := add64 (tb_beginning r) (tb_beginning x), tb_ending := add64 (tb_ending r) (tb_ending x),
     tb_debit := add64 (tb_debit r) (tb_debit x), tb_credit := add64 (tb_credit r) (tb_credit x)\<rparr>"

fun aggregate :: "ShardTrialBalanceRow \<Rightarrow> ShardTrialBalanceRow list \<Rightarrow> ShardTrialBalanceRow list" where
  "aggregate x [] = [x]"
| "aggregate x (r # rs) = (if tb_key r = tb_key x then addRow x r # rs else r # aggregate x rs)"

definition categoryString :: "AccountCategory \<Rightarrow> string" where
  "categoryString c = (case c of
     AccountCategoryAsset \<Rightarrow> ''ASSET'' | AccountCategoryLiability \<Rightarrow> ''LIABILITY''
   | AccountCategoryEquity \<Rightarrow> ''EQUITY'' | AccountCategoryRevenue \<Rightarrow> ''REVENUE''
   | AccountCategoryExpense \<Rightarrow> ''EXPENSE'')"

text \<open>The keys are distinct, so the order the map is ranged over in does not show after the sort.\<close>

definition sortSummaries :: "ShardTrialBalanceRow list \<Rightarrow> ShardTrialBalanceRow list" where
  "sortSummaries rs = sort_key (\<lambda>r. categoryString (tb_category r))
     (sort_key (\<lambda>r. accountTypeCode (tb_type r)) rs)"

definition go_sum :: "(ShardTrialBalanceRow \<Rightarrow> bool) \<Rightarrow> (ShardTrialBalanceRow \<Rightarrow> int) \<Rightarrow> ShardTrialBalanceRow list \<Rightarrow> int" where
  "go_sum P f rs = fold (\<lambda>r acc. if P r then add64 acc (f r) else acc) rs 0"

record TrialBalanceResult =
  summaries :: "ShardTrialBalanceRow list"
  TotalDebit :: int
  TotalCredit :: int
  IsBalanced :: bool
  Imbalance :: int
  AssetEndingBalance :: int
  LiabilityEndingBalance :: int
  EquityEndingBalance :: int
  RevenueEndingBalance :: int
  ExpenseEndingBalance :: int
  IsEquationValid :: bool
  EquationDiff :: int

definition of_category :: "AccountCategory \<Rightarrow> ShardTrialBalanceRow \<Rightarrow> bool" where
  "of_category c r \<longleftrightarrow> tb_category r = c"

definition trialResult :: "ShardTrialBalanceRow list \<Rightarrow> TrialBalanceResult" where
  "trialResult rs =
     (let deb = go_sum (\<lambda>_. True) tb_debit rs; cred = go_sum (\<lambda>_. True) tb_credit rs;
          net = (\<lambda>c. go_sum (of_category c) (\<lambda>r. sub64 (tb_ending r) (tb_beginning r)) rs);
          diff = sub64 (net AccountCategoryAsset)
            (sub64 (add64 (add64 (net AccountCategoryLiability) (net AccountCategoryEquity))
                          (net AccountCategoryRevenue))
                   (net AccountCategoryExpense))
      in \<lparr>summaries = rs, TotalDebit = deb, TotalCredit = cred, IsBalanced = (sub64 deb cred = 0),
          Imbalance = sub64 deb cred, 
          AssetEndingBalance = go_sum (of_category AccountCategoryAsset) tb_ending rs,
          LiabilityEndingBalance = go_sum (of_category AccountCategoryLiability) tb_ending rs,
          EquityEndingBalance = go_sum (of_category AccountCategoryEquity) tb_ending rs,
          RevenueEndingBalance = go_sum (of_category AccountCategoryRevenue) tb_ending rs,
          ExpenseEndingBalance = go_sum (of_category AccountCategoryExpense) tb_ending rs,
          IsEquationValid = (diff = 0), EquationDiff = diff\<rparr>)"

datatype trial_error = SnapshotDateRequired | CurrencyRequired | ShardsFailed nat

text \<open>The shards are asked concurrently into one slot each and added up in shard order; \<open>ask\<close> is the
  answer of the shard, \<open>None\<close> a failing query.\<close>

definition RunTrialBalanceByCurrency :: "router \<Rightarrow> (shard_id \<Rightarrow> ShardTrialBalanceRow list option) \<Rightarrow> string \<Rightarrow>
    string \<Rightarrow> TrialBalanceResult option \<times> trial_error option" where
  "RunTrialBalanceByCurrency r ask d cur =
     (if d = [] then (None, Some SnapshotDateRequired)
      else if cur = [] then (None, Some CurrencyRequired)
      else let answers = map ask (GetAllShards r);
               rows = concat (map (case_option [] id) answers);
               failed = length (filter (\<lambda>x. x = None) answers)
           in (Some (trialResult (sortSummaries (fold aggregate rows []))),
               if failed > 0 then Some (ShardsFailed failed) else None))"

definition RunTrialBalanceAllCurrencies :: "router \<Rightarrow> (shard_id \<Rightarrow> ShardTrialBalanceRow list option) \<Rightarrow> string \<Rightarrow>
    TrialBalanceResult option \<times> trial_error option" where
  "RunTrialBalanceAllCurrencies r ask d = RunTrialBalanceByCurrency r ask d []"

section \<open>The run the server picks\<close>

definition completedShards :: "(shard_id \<Rightarrow> cut_tables) \<Rightarrow> router \<Rightarrow> string \<Rightarrow> int \<Rightarrow> nat" where
  "completedShards w r d n = sum_list (map (\<lambda>s. count_where (\<lambda>c. control_date c = d \<and> control_run c = n \<and>
     control_status c = DayCutStatusCompleted) (controls (w s))) (GetAllShards r))"

definition runIDs :: "(shard_id \<Rightarrow> cut_tables) \<Rightarrow> router \<Rightarrow> string \<Rightarrow> int list" where
  "runIDs w r d = remdups (concat (map (\<lambda>s. map control_run (filter (\<lambda>c. control_date c = d) (controls (w s))))
     (GetAllShards r)))"

text \<open>No currency is asked for: a run of any currency counts.\<close>

definition GetLatestCompletedRunID :: "(shard_id \<Rightarrow> cut_tables) \<Rightarrow> router \<Rightarrow> string \<Rightarrow> int \<times> bool" where
  "GetLatestCompletedRunID w r d =
     (let m = fold max (filter (\<lambda>n. completedShards w r d n = length (GetAllShards r)) (runIDs w r d)) 0
      in (m, m \<noteq> 0))"

datatype trial_reply = TrialRefused nat | TrialAnswer nat TrialBalanceResult

definition serverRunTrialBalance :: "(shard_id \<Rightarrow> cut_tables) \<Rightarrow> router \<Rightarrow> string \<Rightarrow> string \<Rightarrow> trial_reply" where
  "serverRunTrialBalance w r d cur =
     (if d = [] \<or> cur = [] then TrialRefused 400
      else let (n, found) = GetLatestCompletedRunID w r d
           in if \<not> found then TrialRefused 400
              else case RunTrialBalanceByCurrency r (\<lambda>s. QueryShardSummaryByCurrency (w s) d cur n) d cur of
                     (None, _) \<Rightarrow> TrialRefused 500
                   | (Some res, None) \<Rightarrow> TrialAnswer 0 res
                   | (Some res, Some _) \<Rightarrow> TrialAnswer 206 res)"

section \<open>Dates\<close>

definition ListDistinctDates :: "cut_tables \<Rightarrow> string list" where
  "ListDistinctDates t = rev (sort (remdups (map snap_date (snapshots t))))"

definition ListSnapshotDates :: "router \<Rightarrow> (shard_id \<Rightarrow> string list option) \<Rightarrow> string list" where
  "ListSnapshotDates r ask = rev (sort (remdups (concat (map (\<lambda>s. case_option [] id (ask s)) (GetAllShards r)))))"

section \<open>Sums modulo the word size\<close>

definition cong64 :: "int \<Rightarrow> int \<Rightarrow> bool" where
  "cong64 a b \<longleftrightarrow> 2 ^ 64 dvd (a - b)"

lemma cong64_refl [simp, intro]: "cong64 a a"
  by (simp add: cong64_def)

lemma cong64_sym: "cong64 a b \<Longrightarrow> cong64 b a"
  unfolding cong64_def by (metis dvd_diff_commute)

lemma cong64_trans [trans]: "cong64 a b \<Longrightarrow> cong64 b c \<Longrightarrow> cong64 a c"
  unfolding cong64_def by (drule (1) dvd_add) simp

lemma cong64_add: "cong64 a b \<Longrightarrow> cong64 c e \<Longrightarrow> cong64 (a + c) (b + e)"
  unfolding cong64_def by (drule (1) dvd_add) (simp add: algebra_simps)

lemma cong64_diff: "cong64 a b \<Longrightarrow> cong64 c e \<Longrightarrow> cong64 (a - c) (b - e)"
  unfolding cong64_def by (drule (1) dvd_diff) (simp add: algebra_simps)

lemma cong64_i64: "cong64 (i64 a) a"
proof -
  have "i64 a - a = ((a + 2 ^ 63) mod 2 ^ 64 - (a + 2 ^ 63))" by (simp add: i64_def)
  also have "2 ^ 64 dvd \<dots>" by (metis dvd_diff_commute dvd_minus_mod)
  finally show ?thesis by (simp only: cong64_def)
qed

lemma i64_cong64: "cong64 a b \<Longrightarrow> i64 a = i64 b"
proof -
  assume "cong64 a b"
  then have "2 ^ 64 dvd ((a + 2 ^ 63) - (b + 2 ^ 63))" by (simp add: cong64_def)
  then have "(a + 2 ^ 63) mod 2 ^ 64 = (b + 2 ^ 63) mod 2 ^ 64" by (simp only: mod_eq_dvd_iff)
  then show "i64 a = i64 b" by (simp only: i64_def)
qed

lemma add64_cong: "cong64 a b \<Longrightarrow> cong64 c e \<Longrightarrow> cong64 (add64 a c) (b + e)"
  unfolding add64_def using cong64_i64 cong64_add cong64_trans by blast

lemma sub64_cong: "cong64 a b \<Longrightarrow> cong64 c e \<Longrightarrow> cong64 (sub64 a c) (b - e)"
  unfolding sub64_def using cong64_i64 cong64_diff cong64_trans by blast

text \<open>A sum in Go is the sum, wrapped.\<close>

lemma go_sum_cong: "cong64 (go_sum P f rs) (sum_where P f rs)"
proof -
  have "cong64 (fold (\<lambda>r acc. if P r then add64 acc (f r) else acc) rs acc) (acc + sum_where P f rs)" for acc
  proof (induction rs arbitrary: acc)
    case (Cons r rs)
    have "cong64 (if P r then add64 acc (f r) else acc) (acc + (if P r then f r else 0))"
      by (auto intro: add64_cong)
    from cong64_trans [OF Cons.IH cong64_add [OF this cong64_refl]] show ?case by (simp add: add.assoc)
  qed simp
  from this [of 0] show ?thesis by (simp add: go_sum_def)
qed

lemma go_sum_in64: "in64 (go_sum P f rs)"
proof -
  have "in64 acc \<Longrightarrow> in64 (fold (\<lambda>r acc. if P r then add64 acc (f r) else acc) rs acc)" for acc
    by (induction rs arbitrary: acc) auto
  then show ?thesis by (simp add: go_sum_def in64_def)
qed

lemma go_sum_i64: "go_sum P f rs = i64 (sum_where P f rs)"
  using i64_cong64 [OF go_sum_cong, of P f rs] go_sum_in64 [of P f rs] by simp

section \<open>Groups lose nothing\<close>

lemma sum_where_partition:
  assumes "finite K" "\<And>x. x \<in> set xs \<Longrightarrow> P x \<Longrightarrow> k x \<in> K"
  shows "sum_where P f xs = (\<Sum>a\<in>K. sum_where (\<lambda>x. k x = a \<and> P x) f xs)"
  using assms(2)
proof (induction xs)
  case (Cons x xs)
  have "(\<Sum>a\<in>K. if k x = a \<and> P x then f x else 0) = (if P x then f x else 0)"
    using assms(1) Cons.prems by (cases "P x") (simp_all add: sum.delta)
  with Cons show ?case by (simp add: sum.distrib)
qed simp

lemma sum_where_list: "sum_where P v xs = sum_list (map (\<lambda>x. if P x then v x else 0) xs)"
  by (induction xs) auto

lemma sum_where_group:
  "sum_where (\<lambda>x. joinKey x = k \<and> Q (acc_category (snd x))) g xs =
   (if Q (fst k) then sum_where (\<lambda>x. joinKey x = k) g xs else 0)"
  by (induction xs) (auto simp: joinKey_def)

definition same_amount :: "(ShardTrialBalanceRow \<Rightarrow> int) \<Rightarrow> (AccountBalanceSnapshot \<Rightarrow> int) \<Rightarrow> bool" where
  "same_amount f g \<longleftrightarrow> (f, g) \<in> {(tb_beginning, beginning_balance), (tb_ending, ending_balance),
     (tb_debit, snap_debit), (tb_credit, snap_credit)}"

lemma groupRow_amount:
  "same_amount f g \<Longrightarrow> f (groupRow xs k) = sum_where (\<lambda>x. joinKey x = k) (\<lambda>x. g (fst x)) xs"
  by (auto simp: same_amount_def groupRow_def Let_def)

lemma group_rows_sum:
  assumes "same_amount f g"
  shows "sum_where (\<lambda>r. Q (tb_category r)) f (map (groupRow xs) (remdups (map joinKey xs))) =
         sum_where (\<lambda>x. Q (acc_category (snd x))) (\<lambda>x. g (fst x)) xs"
proof -
  let ?K = "remdups (map joinKey xs)"
  have "sum_where (\<lambda>x. Q (acc_category (snd x))) (\<lambda>x. g (fst x)) xs =
      (\<Sum>k\<in>set ?K. sum_where (\<lambda>x. joinKey x = k \<and> Q (acc_category (snd x))) (\<lambda>x. g (fst x)) xs)"
    by (rule sum_where_partition) auto
  also have "\<dots> = (\<Sum>k\<in>set ?K. if Q (fst k) then f (groupRow xs k) else 0)"
    by (simp only: sum_where_group groupRow_amount [OF assms])
  also have "\<dots> = sum_list (map (\<lambda>k. if Q (fst k) then f (groupRow xs k) else 0) ?K)"
    by (simp only: sum_list_distinct_conv_sum_set [OF distinct_remdups])
  also have "\<dots> = sum_where (\<lambda>r. Q (tb_category r)) f (map (groupRow xs) ?K)"
    by (simp add: sum_where_list comp_def groupRow_def Let_def)
  finally show ?thesis by simp
qed

lemma aggregate_sum:
  assumes "same_amount f g"
  shows "cong64 (sum_where (\<lambda>r. Q (tb_category r)) f (aggregate x rs))
    (sum_where (\<lambda>r. Q (tb_category r)) f (x # rs))"
proof (induction rs)
  case (Cons r rs)
  have add: "f (addRow x r) = add64 (f r) (f x)" using assms by (auto simp: same_amount_def addRow_def)
  have cat: "tb_category (addRow x r) = tb_category r" by (simp add: addRow_def)
  show ?case
  proof (cases "tb_key r = tb_key x")
    case True
    then have c: "tb_category r = tb_category x" by (simp add: tb_key_def)
    have "cong64 (if Q (tb_category x) then add64 (f r) (f x) else 0)
        ((if Q (tb_category x) then f x else 0) + (if Q (tb_category x) then f r else 0))"
      using add64_cong [OF cong64_refl cong64_refl, of "f r" "f x"] by (simp add: add.commute)
    from cong64_add [OF this cong64_refl, of "sum_where (\<lambda>r. Q (tb_category r)) f rs"] True c add
    show ?thesis using True by (cases "Q (tb_category x)") (simp_all add: cat add.assoc)
  next
    case False
    from cong64_add [OF cong64_refl [of "if Q (tb_category r) then f r else 0"] Cons.IH] False
    show ?thesis by (simp add: add.left_commute)
  qed
qed simp

lemma fold_aggregate_sum:
  assumes "same_amount f g"
  shows "cong64 (sum_where (\<lambda>r. Q (tb_category r)) f (fold aggregate rows acc))
    (sum_where (\<lambda>r. Q (tb_category r)) f acc + sum_where (\<lambda>r. Q (tb_category r)) f rows)"
proof (induction rows arbitrary: acc)
  case (Cons x rows)
  from cong64_trans [OF Cons.IH cong64_add [OF aggregate_sum [OF assms] cong64_refl]]
  show ?case by (simp add: add.assoc add.left_commute)
qed simp

lemma mset_sortSummaries: "mset (sortSummaries rs) = mset rs"
  by (simp add: sortSummaries_def)

text \<open>What the totals of the result are: the sums of the joined snapshot rows, wrapped.\<close>

definition joinedRows :: "router \<Rightarrow> (shard_id \<Rightarrow> cut_tables) \<Rightarrow> string \<Rightarrow> string \<Rightarrow> int \<Rightarrow>
    (AccountBalanceSnapshot \<times> Account) list" where
  "joinedRows r w d cur n = concat (map (\<lambda>s. snapshotJoin (w s) d cur n) (GetAllShards r))"

lemma answers_sum:
  assumes "same_amount f g" "\<forall>s\<in>set ss. QueryShardSummaryByCurrency (w s) d cur n \<noteq> None"
  shows "sum_where (\<lambda>r. Q (tb_category r)) f
      (concat (map (case_option [] id) (map (\<lambda>s. QueryShardSummaryByCurrency (w s) d cur n) ss))) =
    sum_where (\<lambda>x. Q (acc_category (snd x))) (\<lambda>x. g (fst x)) (concat (map (\<lambda>s. snapshotJoin (w s) d cur n) ss))"
  using assms(2)
proof (induction ss)
  case (Cons s ss)
  let ?xs = "snapshotJoin (w s) d cur n"
  from Cons.prems have "QueryShardSummaryByCurrency (w s) d cur n =
      Some (map (groupRow ?xs) (remdups (map joinKey ?xs)))"
    by (auto simp: QueryShardSummaryByCurrency_def Let_def split: if_splits)
  with Cons group_rows_sum [OF assms(1), of Q ?xs] show ?case by simp
qed simp

lemma trial_sums:
  assumes "RunTrialBalanceByCurrency r (\<lambda>s. QueryShardSummaryByCurrency (w s) d cur n) d cur = (Some res, None)"
  shows "\<exists>rs. res = trialResult rs \<and> (\<forall>f g Q. same_amount f g \<longrightarrow> cong64 (sum_where (\<lambda>r. Q (tb_category r)) f rs)
    (sum_where (\<lambda>x. Q (acc_category (snd x))) (\<lambda>x. g (fst x)) (joinedRows r w d cur n)))"
proof -
  let ?ask = "\<lambda>s. QueryShardSummaryByCurrency (w s) d cur n"
  let ?rows = "concat (map (case_option [] id) (map ?ask (GetAllShards r)))"
  from assms have res: "res = trialResult (sortSummaries (fold aggregate ?rows []))"
    and none: "filter (\<lambda>x. x = None) (map ?ask (GetAllShards r)) = []"
    by (auto simp: RunTrialBalanceByCurrency_def Let_def split: if_splits)
  have ok: "\<forall>s\<in>set (GetAllShards r). ?ask s \<noteq> None"
  proof
    fix s assume "s \<in> set (GetAllShards r)"
    then have "?ask s \<in> set (map ?ask (GetAllShards r))" by (auto intro: image_eqI)
    with none show "?ask s \<noteq> None" by (metis (mono_tags, lifting) filter_empty_conv)
  qed
  have "cong64 (sum_where (\<lambda>r. Q (tb_category r)) f (sortSummaries (fold aggregate ?rows [])))
      (sum_where (\<lambda>x. Q (acc_category (snd x))) (\<lambda>x. g (fst x)) (joinedRows r w d cur n))"
    if "same_amount f g" for f g Q
    using fold_aggregate_sum [OF that, of Q ?rows "[]"] answers_sum [OF that ok]
    by (simp only: sum_where_mset [OF mset_sortSummaries] joinedRows_def sum_where_Nil add_0)
  with res show ?thesis by blast
qed

section \<open>Closed shards\<close>

text \<open>A shard whose run is completed, whatever its attempts met, and which has the account of every
  posting of the date.\<close>

definition closed_shard :: "string \<Rightarrow> int \<Rightarrow> string \<Rightarrow> shard_id \<Rightarrow> cut_tables \<Rightarrow> cut_tables \<Rightarrow> bool" where
  "closed_shard d n cur s t0 t \<longleftrightarrow> cut_history s d n cur t0 t \<and> fresh_run s d n t0 \<and> sound_day d cur t0 \<and>
     map_option control_status (GetByShard t s d n) = Some DayCutStatusCompleted \<and>
     distinct (map acc_no (cut_accounts t)) \<and>
     (\<forall>x\<in>set (filter (day_posting d cur) (postings t0)). tx_account x \<in> acc_no ` set (cut_accounts t))"

abbreviation day_of :: "string \<Rightarrow> string \<Rightarrow> cut_tables \<Rightarrow> StoredTransaction list" where
  "day_of d cur t \<equiv> filter (day_posting d cur) (postings t)"

abbreviation run_of :: "string \<Rightarrow> int \<Rightarrow> cut_tables \<Rightarrow> AccountBalanceSnapshot list" where
  "run_of d n t \<equiv> filter (of_run d n) (snapshots t)"

lemma filter_key_unique: "distinct (map k xs) \<Longrightarrow> x \<in> set xs \<Longrightarrow> filter (\<lambda>y. k y = k x) xs = [x]"
  by (induction xs) (auto simp: filter_empty_conv image_iff)

lemma select_one_filter: "filter P xs = [x] \<Longrightarrow> select_one P xs = Some x"
  unfolding select_one_def by (induction xs) (auto split: if_splits)

lemma closed_shardD:
  assumes "closed_shard d n cur s t0 t"
  shows "sound_rows d n cur (snapshots t)" "sealed d n t"
    "totals_of d n a (snapshots t) = booked_on a (day_of d cur t0)"
    "r \<in> set (run_of d n t) \<Longrightarrow> \<exists>acc. filter (\<lambda>x. acc_no x = snap_account r) (cut_accounts t) = [acc] \<and>
       ending_balance r = add64 (beginning_balance r) (netDelta acc r)"
proof -
  from assms obtain ctl where ctl: "GetByShard t s d n = Some ctl" "control_status ctl = DayCutStatusCompleted"
    by (auto simp: closed_shard_def)
  from assms have "cut_history s d n cur t0 t" "fresh_run s d n t0" "sound_day d cur t0"
    by (simp_all add: closed_shard_def)
  from cut_history_inv [OF this] ctl show rows: "sound_rows d n cur (snapshots t)" and seal: "sealed d n t"
    and tot: "totals_of d n a (snapshots t) = booked_on a (day_of d cur t0)" for a
    by (auto simp: run_inv_def all_seen_def counted_def)
  assume r: "r \<in> set (run_of d n t)"
  let ?a = "snap_account r"
  have "0 < sum_where (snap_key ?a d n) snap_count (snapshots t)"
    using rows r by (intro sum_where_pos [of _ _ _ r]) (auto simp: sound_rows_def row_ok_def snap_key_def)
  with tot [of ?a] have "sum_where (of_account ?a) (\<lambda>_. 1) (day_of d cur t0) \<noteq> 0"
    by (simp add: totals_of_def booked_on_def)
  then have "filter (of_account ?a) (day_of d cur t0) \<noteq> []" unfolding sum_where_def by (metis list.map_disc_iff sum_list.Nil)
  then obtain x where "x \<in> set (day_of d cur t0)" "tx_account x = ?a"
    unfolding filter_empty_conv by blast
  then obtain acc where acc: "acc \<in> set (cut_accounts t)" "acc_no acc = ?a"
    using assms unfolding closed_shard_def by (metis (no_types, lifting) imageE)
  have "distinct (map acc_no (cut_accounts t))" using assms by (simp add: closed_shard_def)
  from filter_key_unique [OF this acc(1)] have one: "filter (\<lambda>x. acc_no x = ?a) (cut_accounts t) = [acc]"
    by (simp add: acc(2))
  then have "select_one (\<lambda>x. acc_no x = ?a) (cut_accounts t) = Some acc" by (rule select_one_filter)
  with seal r one show "\<exists>acc. filter (\<lambda>x. acc_no x = ?a) (cut_accounts t) = [acc] \<and>
       ending_balance r = add64 (beginning_balance r) (netDelta acc r)"
    by (auto simp: sealed_def)
qed

text \<open>With one account per row, the join is the run's rows, each with its account.\<close>

lemma closed_join:
  assumes "closed_shard d n cur s t0 t" "cur \<noteq> []" "n > 0"
  shows "map fst (snapshotJoin t d cur n) = run_of d n t"
    and "(r, a) \<in> set (snapshotJoin t d cur n) \<Longrightarrow> ending_balance r = add64 (beginning_balance r) (netDelta a r)"
proof -
  have "filter (\<lambda>r. snap_date r = d \<and> (n > 0 \<longrightarrow> snap_run r = n) \<and> (cur \<noteq> [] \<longrightarrow> snap_currency r = cur)) (snapshots t) =
      run_of d n t"
    using closed_shardD(1) [OF assms(1)] assms(2,3)
    by (intro filter_cong) (auto simp: sound_rows_def row_ok_def)
  then have join: "snapshotJoin t d cur n = concat (map (\<lambda>r. map (Pair r)
      (filter (\<lambda>a. acc_no a = snap_account r) (cut_accounts t))) (run_of d n t))"
    by (simp add: snapshotJoin_def)
  have "set rs \<subseteq> set (run_of d n t) \<Longrightarrow> map fst (concat (map (\<lambda>r. map (Pair r)
      (filter (\<lambda>a. acc_no a = snap_account r) (cut_accounts t))) rs)) = rs" for rs
  proof (induction rs)
    case (Cons r rs)
    then show ?case using closed_shardD(4) [OF assms(1), of r] by (auto simp: comp_def)
  qed simp
  from this [OF subset_refl] join show "map fst (snapshotJoin t d cur n) = run_of d n t" by simp
  assume "(r, a) \<in> set (snapshotJoin t d cur n)"
  then have "r \<in> set (run_of d n t)" "a \<in> set (filter (\<lambda>x. acc_no x = snap_account r) (cut_accounts t))"
    unfolding join by auto
  with closed_shardD(4) [OF assms(1)] show "ending_balance r = add64 (beginning_balance r) (netDelta a r)"
    by (metis empty_iff list.set(1) set_ConsD)
qed

lemma closed_totals:
  assumes "closed_shard d n cur s t0 t"
  shows "(\<Sum>r\<leftarrow>run_of d n t. snap_debit r) = (\<Sum>x\<leftarrow>day_of d cur t0. debit_amount x)"
    and "(\<Sum>r\<leftarrow>run_of d n t. snap_credit r) = (\<Sum>x\<leftarrow>day_of d cur t0. credit_amount x)"
proof -
  let ?A = "snap_account ` set (snapshots t) \<union> tx_account ` set (postings t0)"
  have rows: "(\<Sum>r\<leftarrow>run_of d n t. f r) = (\<Sum>a\<in>?A. sum_where (snap_key a d n) f (snapshots t))"
    for f :: "AccountBalanceSnapshot \<Rightarrow> int"
    using sum_where_partition [of ?A "snapshots t" "of_run d n" snap_account f]
    by (simp add: sum_where_def snap_key_def [abs_def])
  have days: "(\<Sum>x\<leftarrow>day_of d cur t0. f x) = (\<Sum>a\<in>?A. sum_where (of_account a) f (day_of d cur t0))"
    for f :: "StoredTransaction \<Rightarrow> int"
    using sum_where_partition [of ?A "day_of d cur t0" "\<lambda>_. True" tx_account f]
    by (simp add: sum_where_def)
  have "sum_where (snap_key a d n) snap_debit (snapshots t) = sum_where (of_account a) debit_amount (day_of d cur t0)"
    "sum_where (snap_key a d n) snap_credit (snapshots t) = sum_where (of_account a) credit_amount (day_of d cur t0)" for a
    using closed_shardD(3) [OF assms, of a] by (simp_all add: totals_of_def booked_on_def)
  then show "(\<Sum>r\<leftarrow>run_of d n t. snap_debit r) = (\<Sum>x\<leftarrow>day_of d cur t0. debit_amount x)"
    and "(\<Sum>r\<leftarrow>run_of d n t. snap_credit r) = (\<Sum>x\<leftarrow>day_of d cur t0. credit_amount x)"
    unfolding rows days by simp_all
qed

section \<open>The equation is the balance\<close>

abbreviation grown :: "AccountCategory \<Rightarrow> (AccountBalanceSnapshot \<times> Account) list \<Rightarrow> int" where
  "grown c xs \<equiv> sum_where (\<lambda>x. acc_category (snd x) = c) (\<lambda>x. ending_balance (fst x)) xs -
     sum_where (\<lambda>x. acc_category (snd x) = c) (\<lambda>x. beginning_balance (fst x)) xs"

lemma equation_of_rows:
  assumes "\<forall>(r, a)\<in>set xs. ending_balance r = add64 (beginning_balance r) (netDelta a r)"
  shows "cong64 (grown AccountCategoryAsset xs - (grown AccountCategoryLiability xs + grown AccountCategoryEquity xs +
      grown AccountCategoryRevenue xs - grown AccountCategoryExpense xs))
    ((\<Sum>x\<leftarrow>xs. snap_debit (fst x)) - (\<Sum>x\<leftarrow>xs. snap_credit (fst x)))"
  using assms
proof (induction xs)
  case (Cons x xs)
  obtain r a where x: "x = (r, a)" by force
  from Cons.prems have "cong64 (ending_balance r) (beginning_balance r +
      (if IsAssetOrExpense (acc_category a) then snap_debit r - snap_credit r else snap_credit r - snap_debit r))"
    unfolding x by (auto simp: netDelta_def intro!: add64_cong sub64_cong)
  from cong64_diff [OF this cong64_refl [of "beginning_balance r"]]
  have g: "cong64 (ending_balance r - beginning_balance r)
      (if IsAssetOrExpense (acc_category a) then snap_debit r - snap_credit r else snap_credit r - snap_debit r)"
    by (simp split: if_splits)
  have IH: "cong64 (grown AccountCategoryAsset xs - (grown AccountCategoryLiability xs + grown AccountCategoryEquity xs +
      grown AccountCategoryRevenue xs - grown AccountCategoryExpense xs))
    ((\<Sum>x\<leftarrow>xs. snap_debit (fst x)) - (\<Sum>x\<leftarrow>xs. snap_credit (fst x)))"
    using Cons.prems by (intro Cons.IH) simp
  show ?case
    using cong64_add [OF g IH] cong64_diff [OF IH g]
    by (cases "acc_category a") (simp_all add: x IsAssetOrExpense_def algebra_simps)
qed simp

definition posted_debit :: "router \<Rightarrow> (shard_id \<Rightarrow> cut_tables) \<Rightarrow> string \<Rightarrow> string \<Rightarrow> int" where
  "posted_debit r w d cur = (\<Sum>s\<leftarrow>GetAllShards r. \<Sum>x\<leftarrow>day_of d cur (w s). debit_amount x)"

definition posted_credit :: "router \<Rightarrow> (shard_id \<Rightarrow> cut_tables) \<Rightarrow> string \<Rightarrow> string \<Rightarrow> int" where
  "posted_credit r w d cur = (\<Sum>s\<leftarrow>GetAllShards r. \<Sum>x\<leftarrow>day_of d cur (w s). credit_amount x)"

lemma joined_totals:
  assumes "\<forall>s\<in>set (GetAllShards r). closed_shard d n cur s (w0 s) (w s)" "cur \<noteq> []" "n > 0"
  shows "(\<Sum>x\<leftarrow>joinedRows r w d cur n. snap_debit (fst x)) = posted_debit r w0 d cur"
    and "(\<Sum>x\<leftarrow>joinedRows r w d cur n. snap_credit (fst x)) = posted_credit r w0 d cur"
    and "\<forall>(x, a)\<in>set (joinedRows r w d cur n). ending_balance x = add64 (beginning_balance x) (netDelta a x)"
proof -
  have one: "(\<Sum>x\<leftarrow>snapshotJoin (w s) d cur n. f (fst x)) = (\<Sum>x\<leftarrow>run_of d n (w s). f x)"
    if "s \<in> set (GetAllShards r)" for s and f :: "AccountBalanceSnapshot \<Rightarrow> int"
  proof -
    have "closed_shard d n cur s (w0 s) (w s)" using assms(1) that by blast
    from arg_cong [OF closed_join(1) [OF this assms(2,3)], of "map f"] show ?thesis
      by (simp add: comp_def del: filter_filter)
  qed
  have all: "(\<Sum>x\<leftarrow>concat (map (\<lambda>s. snapshotJoin (w s) d cur n) ss). f (fst x)) =
      (\<Sum>s\<leftarrow>ss. \<Sum>x\<leftarrow>run_of d n (w s). f x)" if "set ss \<subseteq> set (GetAllShards r)"
    for ss and f :: "AccountBalanceSnapshot \<Rightarrow> int"
    using that by (induction ss) (simp_all add: one del: filter_filter)
  have each: "\<forall>s\<in>set (GetAllShards r). (\<Sum>x\<leftarrow>run_of d n (w s). snap_debit x) = (\<Sum>x\<leftarrow>day_of d cur (w0 s). debit_amount x) \<and>
      (\<Sum>x\<leftarrow>run_of d n (w s). snap_credit x) = (\<Sum>x\<leftarrow>day_of d cur (w0 s). credit_amount x)"
    using assms(1) closed_totals by blast
  show "(\<Sum>x\<leftarrow>joinedRows r w d cur n. snap_debit (fst x)) = posted_debit r w0 d cur"
    unfolding joinedRows_def posted_debit_def all [OF subset_refl]
    by (rule arg_cong [where f = sum_list], rule map_cong [OF refl]) (use each in blast)
  show "(\<Sum>x\<leftarrow>joinedRows r w d cur n. snap_credit (fst x)) = posted_credit r w0 d cur"
    unfolding joinedRows_def posted_credit_def all [OF subset_refl]
    by (rule arg_cong [where f = sum_list], rule map_cong [OF refl]) (use each in blast)
  show "\<forall>(x, a)\<in>set (joinedRows r w d cur n). ending_balance x = add64 (beginning_balance x) (netDelta a x)"
    using assms closed_join(2) unfolding joinedRows_def by (force simp del: split_paired_All)
qed

text \<open>C9. When the day cut of a date is completed on every shard, whatever its attempts met, the trial
  balance of its currency is the postings of the date: its total debit and credit are the sums over
  all postings of all shards, its imbalance is their difference (in 64 bits), the difference of the
  accounting equation is the imbalance, and so the two checks agree.\<close>

theorem trial_balance_sums_the_postings:
  assumes "\<forall>s\<in>set (GetAllShards r). closed_shard d n cur s (w0 s) (w s)" "n > 0"
    and "RunTrialBalanceByCurrency r (\<lambda>s. QueryShardSummaryByCurrency (w s) d cur n) d cur = (Some res, None)"
  shows "TotalDebit res = i64 (posted_debit r w0 d cur) \<and> TotalCredit res = i64 (posted_credit r w0 d cur) \<and>
         Imbalance res = i64 (posted_debit r w0 d cur - posted_credit r w0 d cur) \<and>
         EquationDiff res = Imbalance res \<and> (IsEquationValid res \<longleftrightarrow> IsBalanced res)"
proof -
  let ?J = "joinedRows r w d cur n" and ?D = "posted_debit r w0 d cur" and ?C = "posted_credit r w0 d cur"
  from assms(3) have "cur \<noteq> []" by (auto simp: RunTrialBalanceByCurrency_def split: if_splits)
  note tot = joined_totals [OF assms(1) this assms(2)]
  from trial_sums [OF assms(3)] obtain rs where res: "res = trialResult rs" and
    sums: "same_amount f g \<Longrightarrow> cong64 (sum_where (\<lambda>r. Q (tb_category r)) f rs)
      (sum_where (\<lambda>x. Q (acc_category (snd x))) (\<lambda>x. g (fst x)) ?J)" for f g Q by blast
  have am: "same_amount tb_debit snap_debit" "same_amount tb_credit snap_credit" "same_amount tb_ending ending_balance"
    "same_amount tb_beginning beginning_balance" by (simp_all add: same_amount_def)
  have d: "cong64 (go_sum (\<lambda>_. True) tb_debit rs) ?D" and c: "cong64 (go_sum (\<lambda>_. True) tb_credit rs) ?C"
    using cong64_trans [OF go_sum_cong sums [OF am(1), of "\<lambda>_. True"]]
      cong64_trans [OF go_sum_cong sums [OF am(2), of "\<lambda>_. True"]] tot(1,2)
    by (simp_all add: sum_where_def)
  have deb: "TotalDebit res = i64 ?D" and cred: "TotalCredit res = i64 ?C"
    using i64_cong64 [OF d] i64_cong64 [OF c] go_sum_in64 by (simp_all add: res trialResult_def Let_def)
  have imb: "Imbalance res = i64 (?D - ?C)"
    using i64_cong64 [OF cong64_diff [OF d c]] by (simp add: res trialResult_def Let_def sub64_def)
  have net: "cong64 (go_sum (of_category k) (\<lambda>r. sub64 (tb_ending r) (tb_beginning r)) rs) (grown k ?J)" for k
  proof -
    have "cong64 (sum_where (of_category k) (\<lambda>r. sub64 (tb_ending r) (tb_beginning r)) xs)
        (sum_where (of_category k) tb_ending xs - sum_where (of_category k) tb_beginning xs)" for xs
    proof (induction xs)
      case (Cons x xs)
      have "cong64 (sub64 (tb_ending x) (tb_beginning x)) (tb_ending x - tb_beginning x)"
        by (rule sub64_cong) simp_all
      from cong64_add [OF this Cons.IH] Cons.IH show ?case by (simp add: algebra_simps)
    qed simp
    from cong64_trans [OF go_sum_cong this] sums [OF am(3), of "\<lambda>c. c = k"] sums [OF am(4), of "\<lambda>c. c = k"]
    show ?thesis unfolding of_category_def using cong64_diff cong64_trans by blast
  qed
  have "cong64 (EquationDiff res) (grown AccountCategoryAsset ?J - (grown AccountCategoryLiability ?J +
      grown AccountCategoryEquity ?J + grown AccountCategoryRevenue ?J - grown AccountCategoryExpense ?J))"
    unfolding res trialResult_def Let_def by (simp only: TrialBalanceResult.simps)
      (intro sub64_cong add64_cong net)
  also have "cong64 \<dots> (?D - ?C)" using equation_of_rows [OF tot(3)] tot(1,2) by simp
  finally have "i64 (EquationDiff res) = i64 (?D - ?C)" by (rule i64_cong64)
  moreover have "in64 (EquationDiff res)" by (simp add: res trialResult_def Let_def)
  ultimately have eq: "EquationDiff res = Imbalance res" using imb by simp
  have "IsEquationValid res \<longleftrightarrow> EquationDiff res = 0" "IsBalanced res \<longleftrightarrow> Imbalance res = 0"
    by (simp_all add: res trialResult_def Let_def)
  with deb cred imb eq show ?thesis by simp
qed

section \<open>Two shards and a balance\<close>

definition two_shards :: router where
  "two_shards = \<lparr>dbCount = 1, tablePerDB = 2\<rparr>"

definition may_second_there :: cut_tables where
  "may_second_there = may_second\<lparr>postings := [posted 1 ''SHOP'' 0 300, posted 2 ''FEE'' 300 0],
     cut_accounts := [cut_account ''SHOP'' AccountCategoryLiability, cut_account ''FEE'' AccountCategoryExpense],
     snapshots := [], controls := [pending_control (0, 1) ''2026-05-02'' 1 ''PHP'']\<rparr>"

definition before_cut :: "shard_id \<Rightarrow> cut_tables" where
  "before_cut s = (if s = (0, 0) then may_second else may_second_there)"

definition after_cut :: "shard_id \<Rightarrow> cut_tables" where
  "after_cut s = rough_day s (before_cut s)"

lemma two_shards_all: "GetAllShards two_shards = [(0, 0), (0, 1)]"
  by code_simp

lemma closed_shardI:
  assumes "cut_history s d n cur t0 t" "fresh_run s d n t0" "sound_day d cur t0"
    "map_option control_status (GetByShard t s d n) = Some DayCutStatusCompleted"
    "map acc_no (cut_accounts t) = ns" "map tx_account (day_of d cur t0) = ps" "distinct ns" "set ps \<subseteq> set ns"
  shows "closed_shard d n cur s t0 t"
  unfolding closed_shard_def using assms by (metis image_eqI list.set_map subsetD)

lemma after_cut_closed:
  "\<forall>s\<in>set (GetAllShards two_shards). closed_shard ''2026-05-02'' 1 ''PHP'' s (before_cut s) (after_cut s)"
proof -
  have st: "map_option control_status (GetByShard (after_cut (0, 0)) (0, 0) ''2026-05-02'' 1) = Some DayCutStatusCompleted"
    "map_option control_status (GetByShard (after_cut (0, 1)) (0, 1) ''2026-05-02'' 1) = Some DayCutStatusCompleted"
    and ac: "map acc_no (cut_accounts (after_cut (0, 0))) = [''CASH'', ''USER'']"
    "map acc_no (cut_accounts (after_cut (0, 1))) = [''SHOP'', ''FEE'']"
    and so: "sound_day ''2026-05-02'' ''PHP'' (before_cut (0, 0))" "sound_day ''2026-05-02'' ''PHP'' (before_cut (0, 1))"
    and ps: "map tx_account (day_of ''2026-05-02'' ''PHP'' (before_cut (0, 0))) = [''CASH'', ''USER'', ''CASH'', ''USER'']"
    "map tx_account (day_of ''2026-05-02'' ''PHP'' (before_cut (0, 1))) = [''SHOP'', ''FEE'']"
    by code_simp+
  have fr: "fresh_run (0, 0) ''2026-05-02'' 1 (before_cut (0, 0))" "fresh_run (0, 1) ''2026-05-02'' 1 (before_cut (0, 1))"
    by (simp_all add: fresh_run_def before_cut_def may_second_def may_second_there_def yesterday_def GetByShard_def
        select_one_def pending_control_def control_key_def)
  have hi: "cut_history s ''2026-05-02'' 1 ''PHP'' (before_cut s) (after_cut s)" for s
    unfolding after_cut_def by (rule rough_day_history)
  have "closed_shard ''2026-05-02'' 1 ''PHP'' (0, 0) (before_cut (0, 0)) (after_cut (0, 0))"
    by (rule closed_shardI [OF hi fr(1) so(1) st(1) ac(1) ps(1)]) simp_all
  moreover have "closed_shard ''2026-05-02'' 1 ''PHP'' (0, 1) (before_cut (0, 1)) (after_cut (0, 1))"
    by (rule closed_shardI [OF hi fr(2) so(2) st(2) ac(2) ps(2)]) simp_all
  ultimately show ?thesis by (simp add: two_shards_all)
qed

definition two_shards_ask :: "shard_id \<Rightarrow> ShardTrialBalanceRow list option" where
  "two_shards_ask s = QueryShardSummaryByCurrency (after_cut s) ''2026-05-02'' ''PHP'' 1"

lemma two_shards_answer: "map_prod (map_option (\<lambda>res. (TotalDebit res, IsBalanced res))) id
    (RunTrialBalanceByCurrency two_shards
      two_shards_ask ''2026-05-02'' ''PHP'') =
    (Some (1000, True), None)"
  by code_simp

lemma trial_balance_sums_the_postings_witness:
  "\<exists>res. RunTrialBalanceByCurrency two_shards
      (\<lambda>s. QueryShardSummaryByCurrency (after_cut s) ''2026-05-02'' ''PHP'' 1) ''2026-05-02'' ''PHP'' = (Some res, None) \<and>
    TotalCredit res = 1000 \<and> EquationDiff res = 0"
proof -
  let ?ans = "RunTrialBalanceByCurrency two_shards
      (\<lambda>s. QueryShardSummaryByCurrency (after_cut s) ''2026-05-02'' ''PHP'' 1) ''2026-05-02'' ''PHP''"
  obtain x e where ans: "?ans = (x, e)" by force
  from two_shards_answer have "map_option (\<lambda>res. (TotalDebit res, IsBalanced res)) x = Some (1000, True)" "e = None"
    using ans by (simp_all add: two_shards_ask_def [abs_def])
  then obtain res where res: "?ans = (Some res, None)" using ans by (cases x) simp_all
  have D: "posted_debit two_shards before_cut ''2026-05-02'' ''PHP'' = 1000"
    and C: "posted_credit two_shards before_cut ''2026-05-02'' ''PHP'' = 1000" by code_simp+
  have "TotalCredit res = i64 1000 \<and> EquationDiff res = i64 (1000 - 1000)"
    using trial_balance_sums_the_postings [OF after_cut_closed _ res, unfolded D C] by simp
  then have "TotalCredit res = 1000 \<and> EquationDiff res = 0" by (simp add: in64_iff)
  with res show ?thesis by blast
qed

text \<open>
  The run the server asks for is the latest completed one of the date in any currency: once the USD run
  has followed the PHP run, the PHP balance is taken over no rows at all, and is balanced whatever was
  posted.
\<close>

definition lopsided :: cut_tables where
  "lopsided = may_second\<lparr>postings := [posted 1 ''CASH'' 500 0]\<rparr>"

definition cut_in_two_currencies :: "shard_id \<Rightarrow> cut_tables" where
  "cut_in_two_currencies s =
     (let t = snd (ProcessShardDayCut calm_cut (0, 0) ''2026-05-02'' 1 ''PHP'' lopsided);
          t' = t\<lparr>controls := controls t @ [pending_control (0, 0) ''2026-05-02'' 2 ''USD'']\<rparr>
      in snd (ProcessShardDayCut calm_cut (0, 0) ''2026-05-02'' 2 ''USD'' t'))"

definition totals_shown :: "trial_reply \<Rightarrow> (nat \<times> int \<times> int \<times> bool) option" where
  "totals_shown a = (case a of TrialRefused _ \<Rightarrow> None
     | TrialAnswer c res \<Rightarrow> Some (c, TotalDebit res, TotalCredit res, IsBalanced res))"

lemma balance_of_another_currency_run:
  "totals_shown (serverRunTrialBalance cut_in_two_currencies \<lparr>dbCount = 1, tablePerDB = 1\<rparr> ''2026-05-02'' ''PHP'') =
     Some (0, 0, 0, True)"
  "QueryShardSummaryByCurrency (cut_in_two_currencies (0, 0)) ''2026-05-02'' ''PHP'' 1 \<noteq> Some []"
  by code_simp+

text \<open>Without a currency the deprecated entry point can only be refused.\<close>

lemma deprecated_entry_always_fails:
  "fst (RunTrialBalanceAllCurrencies r ask d) = None"
  by (simp add: RunTrialBalanceAllCurrencies_def RunTrialBalanceByCurrency_def)

end
