(* ===== verification/Posting.thy ===== *)
theory Posting
  imports Booking Money
begin

text \<open>
  Transaction orders: \<open>transaction_service.go\<close>. A request names legs between accounts (by number, or by
  business type and owner); the service keeps an order row with a bounded number of retries, nets the
  legs per account and hands one balanced voucher to \<open>DoubleEntryBooking\<close>.
\<close>

section \<open>Requests\<close>

record TxnLeg =
  EdgeFromNode :: string
  EdgeToNode :: string
  FromAccountID :: string
  ToAccountID :: string
  LegAmount :: string
  LegCurrency :: string

text \<open>The extra map is carried as its JSON text, empty when there is none.\<close>

record CreateTransactionRequest =
  TxnOrderNo :: string
  ProductCode :: string
  EventCode :: string
  Legs :: "TxnLeg list"
  TxnDescription :: string
  MaxRetry :: int
  TxnExtra :: string

datatype posting_error =
    FieldRequired string
  | FromRequired nat | ToRequired nat | CurrencyRequired nat
  | CurrencyMixed nat string string
  | AmountNotInt nat string | AmountNotPositive nat int
  | LegCurrencyUnknown nat
  | EmptyRef | TypeQueryFailed string | AccountQueryFailed int int | RefNotFound string
  | FromRef nat posting_error | ToRef nat posting_error
  | SelfTransfer nat string
  | RuleQueryFailed | NoRule string string
  | LedgerRefused booking_error
  | OrderReadFailed | OrderCreateFailed ledger_error | OrderClaimFailed
  | OrderMissing string | ExtraUndecodable | NoLegsToRetry string

definition validateTxn :: "CreateTransactionRequest \<Rightarrow> posting_error option" where
  "validateTxn req =
     (if TxnOrderNo req = [] then Some (FieldRequired ''order_no'')
      else if ProductCode req = [] then Some (FieldRequired ''product_code'')
      else if EventCode req = [] then Some (FieldRequired ''event_code'')
      else if Legs req = [] then Some (FieldRequired ''legs'') else None)"

fun summarize_loop :: "string \<Rightarrow> nat \<Rightarrow> TxnLeg list \<Rightarrow> int \<Rightarrow> posting_error + int" where
  "summarize_loop currency i [] tot = Inr tot"
| "summarize_loop currency i (l # ls) tot =
     (if FromAccountID l = [] then Inl (FromRequired i)
      else if ToAccountID l = [] then Inl (ToRequired i)
      else if LegCurrency l = [] then Inl (CurrencyRequired i)
      else if LegCurrency l \<noteq> currency then Inl (CurrencyMixed i (LegCurrency l) currency)
      else case parse_int (LegAmount l) of
             None \<Rightarrow> Inl (AmountNotInt i (LegAmount l))
           | Some amt \<Rightarrow> summarize_loop currency (Suc i) ls (add64 tot amt))"

definition summarizeLegs :: "TxnLeg list \<Rightarrow> posting_error + (int \<times> string)" where
  "summarizeLegs ls = (case ls of
     [] \<Rightarrow> Inl (FieldRequired ''legs'')
   | l # _ \<Rightarrow> (case summarize_loop (LegCurrency l) 0 ls 0 of
                 Inl e \<Rightarrow> Inl e | Inr tot \<Rightarrow> Inr (tot, LegCurrency l)))"

section \<open>Account references\<close>

record AccountBusinessTypeInfo =
  info_type :: int
  info_code :: string
  info_account_type :: int

text \<open>The columns of an account that \<open>GetAccountByUserAndBusinessType\<close> reads; the rows are all shards'
  accounts, each user's in the order of their ids.\<close>

record owned_account =
  own_user :: int
  own_type :: int
  own_phase :: int
  own_currency :: string
  own_account_no :: string

text \<open>What a call reads besides the order and the ledger, and which of these reads fail; \<open>range_order\<close> is
  the order in which \<open>range\<close> goes through a map.\<close>

record posting_env =
  rule_rows :: "(string \<times> string) list"
  rule_query_fails :: bool
  type_rows :: "AccountBusinessTypeInfo list"
  type_query_fails :: "string \<Rightarrow> bool"
  owned_rows :: "owned_account list"
  account_query_fails :: "int \<Rightarrow> int \<Rightarrow> bool"
  range_order :: "(string \<times> int \<times> int) list \<Rightarrow> (string \<times> int \<times> int) list"

abbreviation (input) ShardTableTotal :: int where "ShardTableTotal \<equiv> 100"

definition isPlatformAccountType :: "int \<Rightarrow> bool" where
  "isPlatformAccountType t \<longleftrightarrow> t \<in> {4, 5, 6, 7, 8, 9}"

definition GetByCode :: "posting_env \<Rightarrow> string \<Rightarrow> posting_error + AccountBusinessTypeInfo option" where
  "GetByCode env code = (if type_query_fails env code then Inl (TypeQueryFailed code)
     else Inr (select_one (\<lambda>i. info_code i = code) (type_rows env)))"

definition GetAccountByUserAndBusinessType :: "posting_env \<Rightarrow> int \<Rightarrow> int \<Rightarrow> posting_error + owned_account option" where
  "GetAccountByUserAndBusinessType env user ty = (if account_query_fails env user ty then Inl (AccountQueryFailed user ty)
     else Inr (select_one (\<lambda>a. own_user a = user \<and> own_type a = ty \<and> own_phase a \<in> {0, 1}) (owned_rows env)))"

text \<open>The digits a suffix ends with; \<open>Sscanf\<close> leaves the variable at zero when they do not fit.\<close>

definition is_decimal :: "char \<Rightarrow> bool" where
  "is_decimal c \<longleftrightarrow> 48 \<le> (of_char c :: int) \<and> (of_char c :: int) \<le> 57"

definition ref_owner :: "string \<Rightarrow> int" where
  "ref_owner suffix =
     (if suffix = [] \<or> suffix = ''main'' then 0
      else let ds = rev (takeWhile is_decimal (rev suffix))
           in if ds = [] then 0 else case parse_int ds of Some n \<Rightarrow> n | None \<Rightarrow> 0)"

definition ref_account :: "posting_env \<Rightarrow> string \<Rightarrow> string \<Rightarrow> AccountBusinessTypeInfo \<Rightarrow> posting_error + string" where
  "ref_account env ref suffix info =
     (let user = ref_owner suffix;
          owner = (if isPlatformAccountType (info_account_type info) then user mod ShardTableTotal else user)
      in case GetAccountByUserAndBusinessType env owner (info_type info) of
           Inl e \<Rightarrow> Inl e
         | Inr None \<Rightarrow> Inl (RefNotFound ref)
         | Inr (Some a) \<Rightarrow> Inr (own_account_no a))"

definition resolveAccountRef :: "posting_env \<Rightarrow> string \<Rightarrow> posting_error + string" where
  "resolveAccountRef env ref =
     (if ref = [] then Inl EmptyRef
      else if CHR ''/'' \<notin> set ref then Inr ref
      else case GetByCode env (takeWhile (\<lambda>c. c \<noteq> CHR ''/'') ref) of
             Inl e \<Rightarrow> Inl e
           | Inr None \<Rightarrow> Inr ref
           | Inr (Some info) \<Rightarrow> ref_account env ref (tl (dropWhile (\<lambda>c. c \<noteq> CHR ''/'') ref)) info)"

section \<open>Legs to entries\<close>

text \<open>The map of summaries in the order of first insertion.\<close>

type_synonym leg_sums = "(string \<times> int \<times> int) list"

definition add_sums :: "string \<Rightarrow> int \<Rightarrow> int \<Rightarrow> leg_sums \<Rightarrow> leg_sums" where
  "add_sums a d c agg =
     (if a \<in> fst ` set agg
      then map (\<lambda>(k, sd, sc). if k = a then (k, add64 sd d, add64 sc c) else (k, sd, sc)) agg
      else agg @ [(a, add64 0 d, add64 0 c)])"

definition leg_step :: "posting_env \<Rightarrow> nat \<Rightarrow> TxnLeg \<Rightarrow> leg_sums \<Rightarrow> posting_error + leg_sums" where
  "leg_step env i l agg =
     (case parse_int (LegAmount l) of
        None \<Rightarrow> Inl (AmountNotInt i (LegAmount l))
      | Some minor \<Rightarrow>
          if minor \<le> 0 then Inl (AmountNotPositive i minor)
          else case MinorToStorage minor (LegCurrency l) of
             Inl _ \<Rightarrow> Inl (LegCurrencyUnknown i)
           | Inr amount \<Rightarrow>
               (case resolveAccountRef env (FromAccountID l) of
                  Inl e \<Rightarrow> Inl (FromRef i e)
                | Inr from \<Rightarrow>
                    (case resolveAccountRef env (ToAccountID l) of
                       Inl e \<Rightarrow> Inl (ToRef i e)
                     | Inr to \<Rightarrow>
                         if from = to then Inl (SelfTransfer i from)
                         else Inr (add_sums to 0 amount (add_sums from amount 0 agg)))))"

fun legs_loop :: "posting_env \<Rightarrow> nat \<Rightarrow> TxnLeg list \<Rightarrow> leg_sums \<Rightarrow> posting_error + leg_sums" where
  "legs_loop env i [] agg = Inr agg"
| "legs_loop env i (l # ls) agg = (case leg_step env i l agg of
     Inl e \<Rightarrow> Inl e | Inr agg' \<Rightarrow> legs_loop env (Suc i) ls agg')"

fun net_entry :: "string \<Rightarrow> string \<times> int \<times> int \<Rightarrow> AccountingEntry option" where
  "net_entry desc (a, d, c) = (let net = sub64 d c
     in if net > 0 then Some \<lparr>AccountNo = a, DebitAmount = net, CreditAmount = 0, EntryDescription = desc\<rparr>
        else if net < 0 then Some \<lparr>AccountNo = a, DebitAmount = 0, CreditAmount = neg64 net, EntryDescription = desc\<rparr>
        else None)"

definition legEntries :: "posting_env \<Rightarrow> CreateTransactionRequest \<Rightarrow> posting_error + AccountingEntry list" where
  "legEntries env req = (case legs_loop env 0 (Legs req) [] of
     Inl e \<Rightarrow> Inl e | Inr agg \<Rightarrow> Inr (List.map_filter (net_entry (TxnDescription req)) (range_order env agg)))"

definition mapEventCodeToBusinessType :: "string \<Rightarrow> string" where
  "mapEventCodeToBusinessType ev =
     (case map_of [(''DEPOSIT'', ''DEPOSIT''), (''WITHDRAW'', ''WITHDRAW''), (''CHECKOUT_PAY'', ''PAYMENT''),
         (''PAY'', ''PAYMENT''), (''REFUND'', ''REFUND''), (''TRANSFER'', ''TRANSFER''), (''COMMISSION'', ''COMMISSION'')] ev of
        Some t \<Rightarrow> t | None \<Rightarrow> ''TRANSFER'')"

definition bookingRequest :: "CreateTransactionRequest \<Rightarrow> string \<Rightarrow> AccountingEntry list \<Rightarrow> DoubleEntryBookingRequest" where
  "bookingRequest req currency es = \<lparr>RequestID = TxnOrderNo req, BusinessNo = TxnOrderNo req,
     BusinessType = mapEventCodeToBusinessType (EventCode req), Entries = es, Currency = currency,
     Description = TxnDescription req\<rparr>"

datatype execution = Booked string | NotBooked posting_error | ProcessGone

text \<open>\<open>ledger_call\<close> is \<open>DoubleEntryBooking\<close> with everything that call meets.\<close>

type_synonym ledger_call = "DoubleEntryBookingRequest \<Rightarrow> bank \<Rightarrow> booking_reply \<times> bank"

definition executeBookkeeping :: "posting_env \<Rightarrow> ledger_call \<Rightarrow> CreateTransactionRequest \<Rightarrow> string \<Rightarrow> bank \<Rightarrow>
    execution \<times> bank" where
  "executeBookkeeping env call req currency b =
     (if rule_query_fails env then (NotBooked RuleQueryFailed, b)
      else if (ProductCode req, EventCode req) \<notin> set (rule_rows env)
        then (NotBooked (NoRule (ProductCode req) (EventCode req)), b)
      else case legEntries env req of
             Inl e \<Rightarrow> (NotBooked e, b)
           | Inr es \<Rightarrow> (case call (bookingRequest req currency es) b of
                (ProcessExit, b') \<Rightarrow> (ProcessGone, b')
              | (Reply v txs (Some e), b') \<Rightarrow> (NotBooked (LedgerRefused e), b')
              | (Reply v txs None, b') \<Rightarrow> (Booked v, b')))"

section \<open>The order of a transaction\<close>

text \<open>Rows of \<open>transaction_order\<close> with an empty business type; the bookings made here have a type, so that
  their rows in the same table are others.
  The payload is the text of \<open>orderExtraPayload\<close>, cut when it is too long, and absent when the extra row
  was not written.\<close>

datatype stored_payload = WholePayload "TxnLeg list" string | CutPayload

record TxnOrder =
  txn_no :: string
  txn_product :: string
  txn_event :: string
  txn_amount :: string
  txn_currency :: string
  txn_status :: OrderStatus
  txn_retries :: int
  txn_max :: int
  txn_description :: string
  txn_voucher :: string
  txn_error :: "posting_error option"
  txn_payload :: "stored_payload option"

definition marshalLeg :: "TxnLeg \<Rightarrow> string" where
  "marshalLeg l = jsonObject (
     omitEmpty (EdgeFromNode l) (jsonField ''edge_from_node'' (jsonString (EdgeFromNode l))) @
     omitEmpty (EdgeToNode l) (jsonField ''edge_to_node'' (jsonString (EdgeToNode l))) @
     [jsonField ''from_account_id'' (jsonString (FromAccountID l)),
      jsonField ''to_account_id'' (jsonString (ToAccountID l)),
      jsonField ''amount'' (jsonString (LegAmount l)),
      jsonField ''currency'' (jsonString (LegCurrency l))])"

definition marshalPayload :: "TxnLeg list \<Rightarrow> string \<Rightarrow> string" where
  "marshalPayload ls extra = jsonObject (
     omitEmpty ls (jsonField ''legs'' (jsonArray (map marshalLeg ls))) @ omitEmpty extra (jsonField ''extra'' extra))"

definition truncatePayload :: "TxnLeg list \<Rightarrow> string \<Rightarrow> stored_payload" where
  "truncatePayload ls extra =
     (if int (length (marshalPayload ls extra)) \<le> TransactionOrderExtraMaxLen then WholePayload ls extra else CutPayload)"

text \<open>The state, and what one call meets: failing statements and what other instances write between
  its read and its insert, and between that and its claim. \<open>executions\<close> lists the orders whose
  bookkeeping was started.\<close>

record posting_state =
  txns :: "TxnOrder list"
  posted_bank :: bank
  executions :: "string list"

record order_faults =
  read_fails :: bool
  before_insert :: "TxnOrder list \<Rightarrow> TxnOrder list"
  insert_fault :: "write_fault option"
  before_take :: "TxnOrder list \<Rightarrow> TxnOrder list"
  take_fails :: bool
  record_fails :: bool

record txn_reply =
  reply_status :: OrderStatus
  reply_voucher :: string
  reply_error :: "posting_error option"
  reply_exhausted :: bool
  reply_not_failed :: bool

definition plain_reply :: "OrderStatus \<Rightarrow> txn_reply" where
  "plain_reply st = \<lparr>reply_status = st, reply_voucher = [], reply_error = None, reply_exhausted = False, reply_not_failed = False\<rparr>"

text \<open>A call answers a response or an error, or the process ends.\<close>

datatype txn_outcome = Response txn_reply | CallError posting_error | Ended

definition txnGet :: "posting_state \<Rightarrow> string \<Rightarrow> TxnOrder option" where
  "txnGet s no = select_one (\<lambda>r. txn_no r = no) (txns s)"

definition newOrder :: "CreateTransactionRequest \<Rightarrow> int \<Rightarrow> string \<Rightarrow> TxnOrder" where
  "newOrder req tot currency = \<lparr>txn_no = TxnOrderNo req, txn_product = ProductCode req, txn_event = EventCode req,
     txn_amount = format_int tot, txn_currency = currency, txn_status = OrderPending, txn_retries = 0,
     txn_max = (if MaxRetry req \<le> 0 then 3 else MaxRetry req), txn_description = TxnDescription req,
     txn_voucher = [], txn_error = None, txn_payload = Some (truncatePayload (Legs req) (TxnExtra req))\<rparr>"

definition insertTxn :: "write_fault option \<Rightarrow> TxnOrder \<Rightarrow> TxnOrder list \<Rightarrow> ledger_error option \<times> TxnOrder list" where
  "insertTxn f r rs =
     (if f = Some NothingWritten then (Some (DriverError ''insert''), rs)
      else if list_ex (\<lambda>x. txn_no x = txn_no r) rs then (Some (MySQLError 1062), rs)
      else if f = Some MainRowOnly then (Some (DriverError ''insert''), rs @ [r\<lparr>txn_payload := None\<rparr>])
      else (None, rs @ [r]))"

definition takeTxn :: "string \<Rightarrow> TxnOrder list \<Rightarrow> nat \<times> TxnOrder list" where
  "takeTxn no rs = (let P = (\<lambda>r. txn_no r = no \<and> txn_status r \<in> {OrderPending, OrderFailed})
     in (count_where P rs, update_where P (\<lambda>r. r\<lparr>txn_status := OrderProcessing\<rparr>) rs))"

definition executeTxn :: "posting_env \<Rightarrow> ledger_call \<Rightarrow> order_faults \<Rightarrow> CreateTransactionRequest \<Rightarrow> string \<Rightarrow>
    posting_state \<Rightarrow> txn_outcome \<times> posting_state" where
  "executeTxn env call f req currency s =
     (let (x, b) = executeBookkeeping env call req currency (posted_bank s);
          s1 = s\<lparr>posted_bank := b, executions := TxnOrderNo req # executions s\<rparr>;
          put = (\<lambda>g. if record_fails f then s1 else s1\<lparr>txns := update_where (\<lambda>r. txn_no r = TxnOrderNo req) g (txns s1)\<rparr>)
      in case x of
           ProcessGone \<Rightarrow> (Ended, s1)
         | NotBooked e \<Rightarrow>
             (Response ((plain_reply OrderFailed)\<lparr>reply_error := Some e\<rparr>),
              put (\<lambda>r. r\<lparr>txn_status := OrderFailed, txn_error := Some e, txn_retries := txn_retries r + 1\<rparr>))
         | Booked v \<Rightarrow>
             (Response ((plain_reply OrderSuccess)\<lparr>reply_voucher := v\<rparr>),
              put (\<lambda>r. r\<lparr>txn_status := OrderSuccess, txn_voucher := v\<rparr>)))"

definition takeAndExecute :: "posting_env \<Rightarrow> ledger_call \<Rightarrow> order_faults \<Rightarrow> CreateTransactionRequest \<Rightarrow> string \<Rightarrow>
    posting_state \<Rightarrow> txn_outcome \<times> posting_state" where
  "takeAndExecute env call f req currency s =
     (let s1 = s\<lparr>txns := before_take f (txns s)\<rparr>
      in if take_fails f then (CallError OrderClaimFailed, s1)
         else let (n, rs) = takeTxn (TxnOrderNo req) (txns s1)
              in if n = 0 then (Response (plain_reply OrderProcessing), s1\<lparr>txns := rs\<rparr>)
                 else executeTxn env call f req currency (s1\<lparr>txns := rs\<rparr>))"

definition CreateTxn :: "posting_env \<Rightarrow> ledger_call \<Rightarrow> order_faults \<Rightarrow> CreateTransactionRequest \<Rightarrow>
    posting_state \<Rightarrow> txn_outcome \<times> posting_state" where
  "CreateTxn env call f req s =
     (case validateTxn req of
        Some e \<Rightarrow> (CallError e, s)
      | None \<Rightarrow>
     (case summarizeLegs (Legs req) of
        Inl e \<Rightarrow> (CallError e, s)
      | Inr (tot, currency) \<Rightarrow>
      if read_fails f then (CallError OrderReadFailed, s)
      else let existing = txnGet s (TxnOrderNo req)
       in case existing of
          Some r \<Rightarrow>
            if txn_status r = OrderSuccess
            then (Response ((plain_reply OrderSuccess)\<lparr>reply_voucher := txn_voucher r\<rparr>), s)
            else if txn_status r = OrderProcessing then (Response (plain_reply OrderProcessing), s)
            else if txn_status r = OrderFailed \<and> txn_retries r \<ge> txn_max r
            then (Response ((plain_reply OrderFailed)\<lparr>reply_error := txn_error r, reply_exhausted := True\<rparr>), s)
            else takeAndExecute env call f req currency s
        | None \<Rightarrow>
            (case insertTxn (insert_fault f) (newOrder req tot currency) (before_insert f (txns s)) of
               (Some e, rs) \<Rightarrow> (CallError (OrderCreateFailed e), s\<lparr>txns := rs\<rparr>)
             | (None, rs) \<Rightarrow> takeAndExecute env call f req currency (s\<lparr>txns := rs\<rparr>))))"

text \<open>\<open>RetryTransaction\<close> reads the order itself before it calls \<open>CreateTransaction\<close> with the stored legs.\<close>

definition RetryTransaction :: "posting_env \<Rightarrow> ledger_call \<Rightarrow> bool \<Rightarrow> order_faults \<Rightarrow> string \<Rightarrow>
    posting_state \<Rightarrow> txn_outcome \<times> posting_state" where
  "RetryTransaction env call unreadable f no s =
     (if unreadable then (CallError OrderReadFailed, s)
      else case txnGet s no of
        None \<Rightarrow> (CallError (OrderMissing no), s)
      | Some r \<Rightarrow>
          if txn_status r \<noteq> OrderFailed
          then (Response ((plain_reply (txn_status r))\<lparr>reply_not_failed := True\<rparr>), s)
          else if txn_retries r \<ge> txn_max r
          then (Response ((plain_reply OrderFailed)\<lparr>reply_error := txn_error r, reply_exhausted := True\<rparr>), s)
          else (case txn_payload r of
             Some CutPayload \<Rightarrow> (CallError ExtraUndecodable, s)
           | Some (WholePayload (l # ls) extra) \<Rightarrow>
               CreateTxn env call f \<lparr>TxnOrderNo = txn_no r, ProductCode = txn_product r, EventCode = txn_event r,
                 Legs = l # ls, TxnDescription = txn_description r, MaxRetry = txn_max r, TxnExtra = extra\<rparr> s
           | _ \<Rightarrow> (CallError (NoLegsToRetry no), s)))"

definition GetTransaction :: "bool \<Rightarrow> string \<Rightarrow> posting_state \<Rightarrow> posting_error + TxnOrder" where
  "GetTransaction unreadable no s = (if unreadable then Inl OrderReadFailed
     else case txnGet s no of None \<Rightarrow> Inl (OrderMissing no) | Some r \<Rightarrow> Inr r)"

section \<open>The voucher of the legs\<close>

definition sums_at :: "string \<Rightarrow> leg_sums \<Rightarrow> int \<times> int" where
  "sums_at a agg = (case map_of agg a of None \<Rightarrow> (0, 0) | Some p \<Rightarrow> p)"

definition bump_key :: "string \<Rightarrow> int \<Rightarrow> int \<Rightarrow> string \<times> int \<times> int \<Rightarrow> string \<times> int \<times> int" where
  "bump_key a d c x = (if fst x = a then (a, add64 (fst (snd x)) d, add64 (snd (snd x)) c) else x)"

lemma add_sums_cases:
  "add_sums a d c agg = (if a \<in> fst ` set agg then map (bump_key a d c) agg else agg @ [(a, add64 0 d, add64 0 c)])"
  unfolding add_sums_def by (simp add: bump_key_def case_prod_beta cong: map_cong if_cong)

lemma bump_key_fst: "fst (bump_key a d c x) = fst x"
  by (simp add: bump_key_def)

lemma add_sums_distinct:
  assumes "distinct (map fst agg)"
  shows "distinct (map fst (add_sums a d c agg))"
proof (cases "a \<in> fst ` set agg")
  case True
  have "map fst (map (bump_key a d c) agg) = map fst agg" by (simp add: bump_key_fst)
  then show ?thesis using True assms by (simp only: add_sums_cases if_True)
qed (use assms in \<open>simp add: add_sums_cases\<close>)

lemma sums_at_add:
  "sums_at k (add_sums a d c agg) = (if k = a then (add64 (fst (sums_at a agg)) d, add64 (snd (sums_at a agg)) c) else sums_at k agg)"
proof (cases "a \<in> fst ` set agg")
  case True
  have "map_of (map (bump_key a d c) agg) k =
      (if k = a then map_option (\<lambda>p. (add64 (fst p) d, add64 (snd p) c)) (map_of agg k) else map_of agg k)"
    by (induction agg) (auto simp: bump_key_def)
  moreover from True obtain p where "map_of agg a = Some p" by (metis map_of_eq_None_iff not_Some_eq)
  ultimately show ?thesis using True by (simp add: add_sums_cases sums_at_def)
next
  case False
  then have "map_of agg a = None" by (simp add: map_of_eq_None_iff)
  then show ?thesis using False by (simp add: add_sums_cases sums_at_def map_add_def split: option.split)
qed

text \<open>What the legs move, in minor units times the storage scale.\<close>

definition leg_amount :: "TxnLeg \<Rightarrow> int" where
  "leg_amount l = 100 * the (parse_int (LegAmount l))"

definition goes_out :: "posting_env \<Rightarrow> string \<Rightarrow> TxnLeg list \<Rightarrow> int" where
  "goes_out env a ls = (\<Sum>l\<leftarrow>ls. if resolveAccountRef env (FromAccountID l) = Inr a then leg_amount l else 0)"

definition goes_in :: "posting_env \<Rightarrow> string \<Rightarrow> TxnLeg list \<Rightarrow> int" where
  "goes_in env a ls = (\<Sum>l\<leftarrow>ls. if resolveAccountRef env (ToAccountID l) = Inr a then leg_amount l else 0)"

text \<open>The sums are exact as long as all legs together stay within the largest entry.\<close>

definition outs :: "leg_sums \<Rightarrow> int" where "outs agg = (\<Sum>x\<leftarrow>agg. fst (snd x))"
definition ins :: "leg_sums \<Rightarrow> int" where "ins agg = (\<Sum>x\<leftarrow>agg. snd (snd x))"

definition sums_pos :: "leg_sums \<Rightarrow> bool" where
  "sums_pos agg \<longleftrightarrow> distinct (map fst agg) \<and> (\<forall>x\<in>set agg. 0 \<le> fst (snd x) \<and> 0 \<le> snd (snd x) \<and> fst x \<noteq> [])"

lemma sums_le:
  assumes "sums_pos agg" "x \<in> set agg"
  shows "fst (snd x) \<le> outs agg" "snd (snd x) \<le> ins agg"
proof -
  have "0 \<le> (\<Sum>x\<leftarrow>remove1 x agg. fst (snd x))" "0 \<le> (\<Sum>x\<leftarrow>remove1 x agg. snd (snd x))"
    using assms(1) notin_set_remove1 by (intro sum_list_nonneg; fastforce simp: sums_pos_def)+
  then show "fst (snd x) \<le> outs agg" "snd (snd x) \<le> ins agg"
    using sum_list_map_remove1 [OF assms(2), of "\<lambda>x. fst (snd x)"] sum_list_map_remove1 [OF assms(2), of "\<lambda>x. snd (snd x)"]
    unfolding outs_def ins_def by linarith+
qed

lemma sums_at_in: "sums_pos agg \<Longrightarrow> x \<in> set agg \<Longrightarrow> sums_at (fst x) agg = snd x"
  by (cases x) (simp add: sums_at_def sums_pos_def)

lemma sums_at_out: "a \<notin> fst ` set agg \<Longrightarrow> sums_at a agg = (0, 0)"
  by (simp add: sums_at_def map_of_eq_None_iff [THEN iffD2])

lemma sums_at_bounds:
  assumes "sums_pos agg"
  shows "0 \<le> fst (sums_at k agg) \<and> fst (sums_at k agg) \<le> outs agg \<and> 0 \<le> snd (sums_at k agg) \<and> snd (sums_at k agg) \<le> ins agg"
proof (cases "k \<in> fst ` set agg")
  case True
  then obtain x where x: "x \<in> set agg" "k = fst x" by blast
  with sums_at_in [OF assms x(1)] sums_le [OF assms x(1)] assms show ?thesis by (auto simp: sums_pos_def)
next
  case False
  have "0 \<le> outs agg" "0 \<le> ins agg" using assms by (auto simp: outs_def ins_def sums_pos_def intro!: sum_list_nonneg)
  then show ?thesis by (simp add: sums_at_out [OF False])
qed

text \<open>A leg's step is exact as long as all legs together stay within 64 bits.\<close>

lemma sum_one_key:
  fixes g :: "string \<times> int \<times> int \<Rightarrow> int"
  assumes "distinct (map fst agg)" "a \<in> fst ` set agg" "\<forall>x\<in>set agg. g (h x) = (if fst x = a then g x + d else g x)"
  shows "(\<Sum>x\<leftarrow>map h agg. g x) = (\<Sum>x\<leftarrow>agg. g x) + d"
  using assms
proof (induction agg)
  case (Cons x xs)
  show ?case
  proof (cases "fst x = a")
    case True
    have "fst x \<notin> fst ` set xs" using Cons.prems(1) by simp
    then have "\<forall>y\<in>set xs. fst y \<noteq> a" using True by (metis imageI)
    then have "\<forall>y\<in>set xs. g (h y) = g y" using Cons.prems(3) by simp
    then have "(\<Sum>x\<leftarrow>map h xs. g x) = (\<Sum>x\<leftarrow>xs. g x)" by (simp add: comp_def cong: map_cong)
    then show ?thesis using True Cons.prems(3) by simp
  next
    case False
    then show ?thesis using Cons by auto
  qed
qed simp

lemma add_sums_sums:
  assumes "sums_pos agg" "0 \<le> d" "0 \<le> c" "outs agg + d \<le> max_int64" "ins agg + c \<le> max_int64" "a \<noteq> []"
  shows "outs (add_sums a d c agg) = outs agg + d" "ins (add_sums a d c agg) = ins agg + c"
    "sums_pos (add_sums a d c agg)"
    "sums_at k (add_sums a d c agg) = (fst (sums_at k agg) + (if k = a then d else 0), snd (sums_at k agg) + (if k = a then c else 0))"
proof -
  let ?h = "bump_key a d c"
  have exact: "add64 (fst (sums_at k agg)) d = fst (sums_at k agg) + d" "add64 (snd (sums_at k agg)) c = snd (sums_at k agg) + c"
    for k using sums_at_bounds [OF assms(1), of k] assms(2-5) by (simp_all add: add64_def in64_def)
  show "sums_at k (add_sums a d c agg) = (fst (sums_at k agg) + (if k = a then d else 0), snd (sums_at k agg) + (if k = a then c else 0))"
    by (simp add: sums_at_add exact)
  have here: "\<forall>x\<in>set agg. add64 (fst (snd x)) d = fst (snd x) + d \<and> add64 (snd (snd x)) c = snd (snd x) + c"
    using exact sums_at_in [OF assms(1)] by (metis (no_types))
  have zero: "add64 0 d = d" "add64 0 c = c" if "a \<notin> fst ` set agg"
    using exact [of a] by (simp_all add: sums_at_out [OF that])
  have dist: "distinct (map fst agg)" using assms(1) by (simp add: sums_pos_def)
  show "outs (add_sums a d c agg) = outs agg + d"
  proof (cases "a \<in> fst ` set agg")
    case True
    have "(\<Sum>x\<leftarrow>map ?h agg. fst (snd x)) = (\<Sum>x\<leftarrow>agg. fst (snd x)) + d"
      by (rule sum_one_key [OF dist True]) (use here in \<open>simp add: bump_key_def\<close>)
    then show ?thesis using True by (simp add: add_sums_cases outs_def)
  qed (simp add: add_sums_cases outs_def zero)
  show "ins (add_sums a d c agg) = ins agg + c"
  proof (cases "a \<in> fst ` set agg")
    case True
    have "(\<Sum>x\<leftarrow>map ?h agg. snd (snd x)) = (\<Sum>x\<leftarrow>agg. snd (snd x)) + c"
      by (rule sum_one_key [OF dist True]) (use here in \<open>simp add: bump_key_def\<close>)
    then show ?thesis using True by (simp add: add_sums_cases ins_def)
  qed (simp add: add_sums_cases ins_def zero)
  have "0 \<le> fst (snd x) \<and> 0 \<le> snd (snd x) \<and> fst x \<noteq> []" if "x \<in> set (add_sums a d c agg)" for x
  proof (cases "a \<in> fst ` set agg")
    case True
    with that obtain y where y: "y \<in> set agg" "x = bump_key a d c y" by (auto simp: add_sums_cases)
    then have "0 \<le> fst (snd y)" "0 \<le> snd (snd y)" "fst y \<noteq> []" using assms(1) by (auto simp: sums_pos_def)
    then show ?thesis using y here assms(2,3) by (auto simp: bump_key_def)
  next
    case False
    with that have "x \<in> set agg \<or> x = (a, d, c)" by (auto simp: add_sums_cases zero)
    then show ?thesis using assms(1-3,6) by (auto simp: sums_pos_def)
  qed
  then show "sums_pos (add_sums a d c agg)" using add_sums_distinct [OF dist] by (simp add: sums_pos_def)
qed

lemma leg_step_Inr:
  assumes "leg_step env i l agg = Inr agg1"
  obtains minor amount x y where "parse_int (LegAmount l) = Some minor" "0 < minor"
    "MinorToStorage minor (LegCurrency l) = Inr amount" "resolveAccountRef env (FromAccountID l) = Inr x"
    "resolveAccountRef env (ToAccountID l) = Inr y" "x \<noteq> y" "agg1 = add_sums y 0 amount (add_sums x amount 0 agg)"
proof (cases "parse_int (LegAmount l)")
  case (Some minor)
  show ?thesis
  proof (cases "MinorToStorage minor (LegCurrency l)")
    case (Inr amount)
    then show ?thesis using assms Some that
      by (cases "resolveAccountRef env (FromAccountID l)"; cases "resolveAccountRef env (ToAccountID l)")
        (simp_all add: leg_step_def not_le split: if_split_asm)
  qed (use assms Some in \<open>simp add: leg_step_def split: if_split_asm\<close>)
qed (use assms in \<open>simp add: leg_step_def\<close>)

lemma ref_account_nonempty:
  assumes "\<forall>r\<in>set (owned_rows env). own_account_no r \<noteq> []" "ref_account env ref suffix info = Inr x"
  shows "x \<noteq> []"
proof -
  define u where "u = (if isPlatformAccountType (info_account_type info) then ref_owner suffix mod ShardTableTotal else ref_owner suffix)"
  let ?G = "GetAccountByUserAndBusinessType env u (info_type info)"
  have r: "ref_account env ref suffix info = (case ?G of Inl e \<Rightarrow> Inl e | Inr None \<Rightarrow> Inl (RefNotFound ref)
      | Inr (Some a) \<Rightarrow> Inr (own_account_no a))"
    unfolding ref_account_def Let_def u_def by (rule refl)
  show ?thesis
  proof (cases ?G)
    case (Inr found)
    from assms(2) have rx: "(case found of None \<Rightarrow> Inl (RefNotFound ref) | Some a \<Rightarrow> Inr (own_account_no a)) = Inr x"
      unfolding r Inr by (simp only: sum.case)
    obtain a where a: "found = Some a" "x = own_account_no a"
    proof (cases found)
      case None
      then show ?thesis using rx by (simp only: option.case sum.distinct)
    next
      case (Some a)
      from rx have "own_account_no a = x" unfolding Some by (simp only: option.case sum.inject)
      then show ?thesis using that [OF Some] by metis
    qed
    from a(1) Inr have "select_one (\<lambda>r. own_user r = u \<and> own_type r = info_type info \<and> own_phase r \<in> {0, 1}) (owned_rows env) = Some a"
      unfolding GetAccountByUserAndBusinessType_def by (simp split: if_split_asm)
    from select_one_Some [OF this] have "a \<in> set (owned_rows env)" by blast
    then have "own_account_no a \<noteq> []" by (rule bspec [OF assms(1)])
    then show ?thesis unfolding a(2) .
  next
    case (Inl e)
    from assms(2) show ?thesis unfolding r Inl by (simp only: sum.case sum.distinct)
  qed
qed

lemma resolve_nonempty:
  assumes "\<forall>r\<in>set (owned_rows env). own_account_no r \<noteq> []" "resolveAccountRef env ref = Inr x"
  shows "x \<noteq> []"
proof (cases "ref = [] \<or> CHR ''/'' \<notin> set ref")
  case True
  then show ?thesis using assms(2) by (cases "ref = []") (simp_all add: resolveAccountRef_def)
next
  case False
  show ?thesis
  proof (cases "GetByCode env (takeWhile (\<lambda>c. c \<noteq> CHR ''/'') ref)")
    case (Inr found)
    then show ?thesis using False assms(2) ref_account_nonempty [OF assms(1)]
      by (cases found) (simp_all add: resolveAccountRef_def)
  qed (use False assms(2) in \<open>simp add: resolveAccountRef_def\<close>)
qed

lemma legs_loop_sums:
  assumes "legs_loop env i ls agg = Inr agg'" "sums_pos agg" "outs agg = ins agg"
    "outs agg + (\<Sum>l\<leftarrow>ls. leg_amount l) \<le> MaxEntryAmount" "\<forall>r\<in>set (owned_rows env). own_account_no r \<noteq> []"
  shows "sums_pos agg' \<and> outs agg' = ins agg' \<and> outs agg' \<le> MaxEntryAmount \<and>
    (\<forall>a. sums_at a agg' = (fst (sums_at a agg) + goes_out env a ls, snd (sums_at a agg) + goes_in env a ls))"
  using assms(1-4)
proof (induction ls arbitrary: i agg)
  case (Cons l ls)
  have amounts_pos: "0 \<le> (\<Sum>l\<leftarrow>ls. leg_amount l)" if "legs_loop env j ls g = Inr g'" for j ls g g'
    using that
  proof (induction ls arbitrary: j g)
    case (Cons l ls)
    then obtain g1 where "leg_step env j l g = Inr g1" "legs_loop env (Suc j) ls g1 = Inr g'"
      by (auto split: sum.splits)
    moreover from this(1) have "0 \<le> leg_amount l" by (rule leg_step_Inr) (simp add: leg_amount_def)
    ultimately show ?case using Cons.IH by fastforce
  qed simp
  obtain agg1 where st: "leg_step env i l agg = Inr agg1" "legs_loop env (Suc i) ls agg1 = Inr agg'"
    using Cons.prems(1) by (auto split: sum.splits)
  from st(1) obtain minor amount x y where p: "parse_int (LegAmount l) = Some minor" "0 < minor"
    "MinorToStorage minor (LegCurrency l) = Inr amount" "resolveAccountRef env (FromAccountID l) = Inr x"
    "resolveAccountRef env (ToAccountID l) = Inr y" "x \<noteq> y" "agg1 = add_sums y 0 amount (add_sums x amount 0 agg)"
    by (rule leg_step_Inr)
  have names: "x \<noteq> []" "y \<noteq> []" using resolve_nonempty [OF assms(5)] p(4,5) by blast+
  have am: "leg_amount l = 100 * minor" by (simp add: leg_amount_def p(1))
  have tail: "0 \<le> (\<Sum>l\<leftarrow>ls. leg_amount l)" by (rule amounts_pos [OF st(2)])
  have pos: "0 \<le> outs agg" using sums_at_bounds [OF Cons.prems(2)] by (meson order_trans)
  then have small: "outs agg + 100 * minor \<le> MaxEntryAmount" using Cons.prems(4) tail am by simp
  then have "amount = 100 * minor" using p(2,3) pos
    by (auto simp: MinorToStorage_def mul64_def in64_def split: if_splits)
  then have amount: "amount = leg_amount l" "0 \<le> amount" "outs agg + amount \<le> max_int64" "outs agg + amount \<le> MaxEntryAmount"
    using am small p(2) by simp_all
  note one = add_sums_sums [OF Cons.prems(2) amount(2) order_refl amount(3) _ names(1)]
  have insmax: "ins agg + 0 \<le> max_int64" using Cons.prems(3) amount by simp
  note one = one [OF insmax]
  have insmax2: "ins (add_sums x amount 0 agg) + amount \<le> max_int64" "outs (add_sums x amount 0 agg) + 0 \<le> max_int64"
    using one(1,2) Cons.prems(3) amount by simp_all
  note two = add_sums_sums [OF one(3) order_refl amount(2) insmax2(2,1) names(2)]
  have "outs agg1 = outs agg + amount" "ins agg1 = ins agg + amount" using one two p(7) by simp_all
  then have "outs agg1 = ins agg1" "outs agg1 + (\<Sum>l\<leftarrow>ls. leg_amount l) \<le> MaxEntryAmount"
    using Cons.prems(3,4) amount(1) by simp_all
  from Cons.IH [OF st(2) _ this] two(3) p(7) have IH: "sums_pos agg' \<and> outs agg' = ins agg' \<and> outs agg' \<le> MaxEntryAmount \<and>
    (\<forall>a. sums_at a agg' = (fst (sums_at a agg1) + goes_out env a ls, snd (sums_at a agg1) + goes_in env a ls))" by simp
  have "sums_at a agg1 = (fst (sums_at a agg) + (if x = a then leg_amount l else 0), snd (sums_at a agg) + (if y = a then leg_amount l else 0))" for a
    using one(4) two(4) p(7) amount(1) by auto
  then show ?case using IH p(4,5) by (simp add: goes_out_def goes_in_def)
qed (simp add: goes_out_def goes_in_def)

text \<open>What an account gets from a voucher.\<close>

definition entry_net :: "string \<Rightarrow> AccountingEntry list \<Rightarrow> int" where
  "entry_net a es = (\<Sum>e\<leftarrow>es. if AccountNo e = a then DebitAmount e - CreditAmount e else 0)"

definition posting_entry_ok :: "AccountingEntry \<Rightarrow> bool" where
  "posting_entry_ok e \<longleftrightarrow> AccountNo e \<noteq> [] \<and> 0 \<le> DebitAmount e \<and> DebitAmount e \<le> MaxEntryAmount \<and> 0 \<le> CreditAmount e \<and>
     CreditAmount e \<le> MaxEntryAmount \<and> (DebitAmount e = 0 \<longleftrightarrow> CreditAmount e \<noteq> 0)"

lemma validate_loop_ok:
  assumes "\<forall>e\<in>set es. posting_entry_ok e" "distinct (map AccountNo es)" "AccountNo ` set es \<inter> set seen = {}" "0 \<le> td" "0 \<le> tc"
    "td + (\<Sum>e\<leftarrow>es. DebitAmount e) \<le> max_int64" "tc + (\<Sum>e\<leftarrow>es. CreditAmount e) \<le> max_int64"
  shows "validate_loop es seen td tc = Inr (td + (\<Sum>e\<leftarrow>es. DebitAmount e), tc + (\<Sum>e\<leftarrow>es. CreditAmount e))"
  using assms
proof (induction es arbitrary: seen td tc)
  case (Cons e es)
  have e: "AccountNo e \<noteq> []" "0 \<le> DebitAmount e" "DebitAmount e \<le> MaxEntryAmount" "0 \<le> CreditAmount e"
    "CreditAmount e \<le> MaxEntryAmount" "DebitAmount e = 0 \<longleftrightarrow> CreditAmount e \<noteq> 0" using Cons.prems(1) by (auto simp: posting_entry_ok_def)
  have "0 \<le> (\<Sum>e\<leftarrow>es. DebitAmount e)" "0 \<le> (\<Sum>e\<leftarrow>es. CreditAmount e)"
    using Cons.prems(1) by (auto simp: posting_entry_ok_def intro!: sum_list_nonneg)
  then have b: "td + DebitAmount e \<le> max_int64" "tc + CreditAmount e \<le> max_int64" using Cons.prems(6,7) by simp_all
  then have "add64 td (DebitAmount e) = td + DebitAmount e" "add64 tc (CreditAmount e) = tc + CreditAmount e"
    "sub64 max_int64 (DebitAmount e) = max_int64 - DebitAmount e" "sub64 max_int64 (CreditAmount e) = max_int64 - CreditAmount e"
    using e Cons.prems(4,5) by (simp_all add: add64_def sub64_def in64_def)
  moreover have "AccountNo e \<notin> set seen" using Cons.prems(3) by auto
  moreover have "validate_loop es (AccountNo e # seen) (td + DebitAmount e) (tc + CreditAmount e) =
      Inr (td + DebitAmount e + (\<Sum>e\<leftarrow>es. DebitAmount e), tc + CreditAmount e + (\<Sum>e\<leftarrow>es. CreditAmount e))"
    by (rule Cons.IH) (use Cons.prems e in auto)
  ultimately show ?case using e b by auto
qed simp

lemma net_entry_Some:
  assumes "net_entry desc x = Some e" "0 \<le> fst (snd x)" "0 \<le> snd (snd x)" "fst (snd x) \<le> MaxEntryAmount" "snd (snd x) \<le> MaxEntryAmount"
    "fst x \<noteq> []"
  shows "AccountNo e = fst x \<and> DebitAmount e - CreditAmount e = fst (snd x) - snd (snd x) \<and> posting_entry_ok e \<and>
    DebitAmount e \<le> fst (snd x) \<and> CreditAmount e \<le> snd (snd x) \<and> fst (snd x) \<noteq> snd (snd x)"
proof -
  obtain a d c where x: "x = (a, d, c)" by (cases x)
  have "sub64 d c = d - c" "d < c \<longrightarrow> neg64 (d - c) = c - d" using assms(2-5) x by (simp_all add: sub64_def neg64_def in64_def)
  then show ?thesis using assms x by (auto simp: Let_def posting_entry_ok_def split: if_splits)
qed

lemma net_entry_None:
  assumes "net_entry desc x = None" "0 \<le> fst (snd x)" "0 \<le> snd (snd x)" "fst (snd x) \<le> MaxEntryAmount" "snd (snd x) \<le> MaxEntryAmount"
  shows "fst (snd x) = snd (snd x)"
proof -
  obtain a d c where x: "x = (a, d, c)" by (cases x)
  have "sub64 d c = d - c" using assms(2-5) x by (simp_all add: sub64_def in64_def)
  then show ?thesis using assms x by (auto simp: Let_def split: if_splits)
qed

text \<open>The entries of sums that are within bounds.\<close>

lemma entries_of_sums:
  fixes desc
  defines "E \<equiv> List.map_filter (net_entry desc)"
  assumes "\<forall>x\<in>set agg. 0 \<le> fst (snd x) \<and> 0 \<le> snd (snd x) \<and> fst (snd x) \<le> MaxEntryAmount \<and> snd (snd x) \<le> MaxEntryAmount \<and> fst x \<noteq> []"
    "distinct (map fst agg)"
  shows "\<forall>e\<in>set (E agg). posting_entry_ok e" "distinct (map AccountNo (E agg))" "AccountNo ` set (E agg) \<subseteq> fst ` set agg"
    "(\<Sum>e\<leftarrow>E agg. DebitAmount e) - (\<Sum>e\<leftarrow>E agg. CreditAmount e) = outs agg - ins agg"
    "(\<Sum>e\<leftarrow>E agg. DebitAmount e) \<le> outs agg" "(\<Sum>e\<leftarrow>E agg. CreditAmount e) \<le> ins agg"
    "entry_net a (E agg) = fst (sums_at a agg) - snd (sums_at a agg)"
    "a \<in> AccountNo ` set (E agg) \<longleftrightarrow> fst (sums_at a agg) \<noteq> snd (sums_at a agg)"
proof -
  have "(\<forall>e\<in>set (E agg). posting_entry_ok e) \<and> distinct (map AccountNo (E agg)) \<and> AccountNo ` set (E agg) \<subseteq> fst ` set agg \<and>
    (\<Sum>e\<leftarrow>E agg. DebitAmount e) - (\<Sum>e\<leftarrow>E agg. CreditAmount e) = outs agg - ins agg \<and>
    (\<Sum>e\<leftarrow>E agg. DebitAmount e) \<le> outs agg \<and> (\<Sum>e\<leftarrow>E agg. CreditAmount e) \<le> ins agg \<and>
    entry_net a (E agg) = fst (sums_at a agg) - snd (sums_at a agg) \<and>
    (a \<in> AccountNo ` set (E agg) \<longleftrightarrow> fst (sums_at a agg) \<noteq> snd (sums_at a agg))"
    using assms(2,3)
  proof (induction agg)
    case Nil
    show ?case by (simp add: E_def List.map_filter_simps entry_net_def sums_at_def outs_def ins_def)
  next
    case (Cons x xs)
    then have IH: "(\<forall>e\<in>set (E xs). posting_entry_ok e)" "distinct (map AccountNo (E xs))" "AccountNo ` set (E xs) \<subseteq> fst ` set xs"
      "(\<Sum>e\<leftarrow>E xs. DebitAmount e) - (\<Sum>e\<leftarrow>E xs. CreditAmount e) = outs xs - ins xs"
      "(\<Sum>e\<leftarrow>E xs. DebitAmount e) \<le> outs xs" "(\<Sum>e\<leftarrow>E xs. CreditAmount e) \<le> ins xs"
      "entry_net a (E xs) = fst (sums_at a xs) - snd (sums_at a xs)"
      "a \<in> AccountNo ` set (E xs) \<longleftrightarrow> fst (sums_at a xs) \<noteq> snd (sums_at a xs)" by simp_all
    have x: "0 \<le> fst (snd x)" "0 \<le> snd (snd x)" "fst (snd x) \<le> MaxEntryAmount" "snd (snd x) \<le> MaxEntryAmount" "fst x \<noteq> []"
      using Cons.prems(1) by simp_all
    have new: "fst x \<notin> fst ` set xs" using Cons.prems(2) by simp
    have at: "sums_at k (x # xs) = (if k = fst x then snd x else sums_at k xs)" for k by (cases x) (simp add: sums_at_def)
    have out: "sums_at (fst x) xs = (0, 0)" by (rule sums_at_out [OF new])
    have os: "outs (x # xs) = fst (snd x) + outs xs" "ins (x # xs) = snd (snd x) + ins xs" by (simp_all add: outs_def ins_def)
    show ?case
    proof (cases "net_entry desc x")
      case None
      then have E: "E (x # xs) = E xs" by (simp add: E_def List.map_filter_simps)
      have "fst (snd x) = snd (snd x)" by (rule net_entry_None [OF None x(1-4)])
      then show ?thesis using IH x out unfolding E at os by auto
    next
      case (Some e)
      then have E: "E (x # xs) = e # E xs" by (simp add: E_def List.map_filter_simps)
      note e = net_entry_Some [OF Some x]
      have "AccountNo e \<notin> AccountNo ` set (E xs)" using e new IH(3) by auto
      moreover have "entry_net a (e # E xs) = (if a = fst x then fst (snd x) - snd (snd x) else entry_net a (E xs))"
        using e IH(7) out by (cases "a = fst x") (simp_all add: entry_net_def)
      ultimately show ?thesis using e IH unfolding E at os by auto
    qed
  qed
  then show "\<forall>e\<in>set (E agg). posting_entry_ok e" "distinct (map AccountNo (E agg))" "AccountNo ` set (E agg) \<subseteq> fst ` set agg"
    "(\<Sum>e\<leftarrow>E agg. DebitAmount e) - (\<Sum>e\<leftarrow>E agg. CreditAmount e) = outs agg - ins agg"
    "(\<Sum>e\<leftarrow>E agg. DebitAmount e) \<le> outs agg" "(\<Sum>e\<leftarrow>E agg. CreditAmount e) \<le> ins agg"
    "entry_net a (E agg) = fst (sums_at a agg) - snd (sums_at a agg)"
    "a \<in> AccountNo ` set (E agg) \<longleftrightarrow> fst (sums_at a agg) \<noteq> snd (sums_at a agg)" by blast+
qed

lemma outs_perm: "mset xs = mset ys \<Longrightarrow> outs xs = outs ys" "mset xs = mset ys \<Longrightarrow> ins xs = ins ys"
proof -
  have "mset (map f xs) = mset (map f ys) \<Longrightarrow> sum_list (map f xs) = sum_list (map f ys)" for f :: "string \<times> int \<times> int \<Rightarrow> int"
    by (metis sum_mset_sum_list)
  then show "mset xs = mset ys \<Longrightarrow> outs xs = outs ys" "mset xs = mset ys \<Longrightarrow> ins xs = ins ys"
    unfolding outs_def ins_def by simp_all
qed

lemma sums_at_perm:
  assumes "mset xs = mset ys" "distinct (map fst ys)"
  shows "sums_at a xs = sums_at a ys" "distinct (map fst xs)"
proof -
  have "mset (map fst xs) = mset (map fst ys)" using assms(1) by simp
  then show d: "distinct (map fst xs)" using assms(2) mset_eq_imp_distinct_iff by blast
  have "set xs = set ys" by (rule mset_eq_setD [OF assms(1)])
  then have "map_of xs = map_of ys" using map_of_inject_set [OF d assms(2)] by blast
  then show "sums_at a xs = sums_at a ys" by (simp add: sums_at_def)
qed

text \<open>C11. The voucher of a transaction is the net of its legs: as long as the legs together stay within the
  largest entry, and in whatever order the map of accounts is walked, every account that the legs
  leave with a net amount has one entry, over that net and on its side, no other account has one, and
  the ledger's validation accepts the entries unless the legs cancel out altogether.\<close>

theorem voucher_is_the_net_of_the_legs:
  assumes "legEntries env req = Inr es" "(\<Sum>l\<leftarrow>Legs req. leg_amount l) \<le> MaxEntryAmount"
    "\<forall>agg. mset (range_order env agg) = mset agg" "\<forall>r\<in>set (owned_rows env). own_account_no r \<noteq> []"
  shows "distinct (map AccountNo es) \<and>
    (\<forall>a. entry_net a es = goes_out env a (Legs req) - goes_in env a (Legs req) \<and>
         (a \<in> AccountNo ` set es \<longleftrightarrow> goes_out env a (Legs req) \<noteq> goes_in env a (Legs req))) \<and>
    (es \<noteq> [] \<longrightarrow> validateEntries es = None)"
proof -
  from assms(1) obtain agg where agg: "legs_loop env 0 (Legs req) [] = Inr agg"
    "es = List.map_filter (net_entry (TxnDescription req)) (range_order env agg)"
    by (cases "legs_loop env 0 (Legs req) []") (simp_all add: legEntries_def)
  have start: "sums_pos []" "outs [] = ins []" "outs [] + (\<Sum>l\<leftarrow>Legs req. leg_amount l) \<le> MaxEntryAmount"
    using assms(2) by (simp_all add: sums_pos_def outs_def ins_def)
  from legs_loop_sums [OF agg(1) start assms(4)] have fin: "sums_pos agg" "outs agg = ins agg" "outs agg \<le> MaxEntryAmount"
    "\<And>a. sums_at a agg = (goes_out env a (Legs req), goes_in env a (Legs req))" by (simp_all add: sums_at_def)
  define g where "g = range_order env agg"
  have perm: "mset g = mset agg" using assms(3) by (simp add: g_def)
  have dist: "distinct (map fst agg)" using fin(1) by (simp add: sums_pos_def)
  note at = sums_at_perm [OF perm dist]
  have bounds: "\<forall>x\<in>set g. 0 \<le> fst (snd x) \<and> 0 \<le> snd (snd x) \<and> fst (snd x) \<le> MaxEntryAmount \<and>
      snd (snd x) \<le> MaxEntryAmount \<and> fst x \<noteq> []"
  proof
    fix x assume "x \<in> set g"
    then have "x \<in> set agg" using mset_eq_setD [OF perm] by simp
    from this sums_le [OF fin(1) this] fin show "0 \<le> fst (snd x) \<and> 0 \<le> snd (snd x) \<and> fst (snd x) \<le> MaxEntryAmount \<and>
      snd (snd x) \<le> MaxEntryAmount \<and> fst x \<noteq> []" by (auto simp: sums_pos_def)
  qed
  note E = entries_of_sums [OF bounds at(2), where desc = "TxnDescription req", folded agg(2) [folded g_def]]
  have tot: "outs g = outs agg" "ins g = ins agg" using outs_perm [OF perm] by simp_all
  have net: "entry_net a es = goes_out env a (Legs req) - goes_in env a (Legs req)"
    "a \<in> AccountNo ` set es \<longleftrightarrow> goes_out env a (Legs req) \<noteq> goes_in env a (Legs req)" for a
    using E(7,8) [of a] at(1) fin(4) by simp_all
  have valid: "validateEntries es = None" if ne: "es \<noteq> []"
  proof -
    have equal: "(\<Sum>e\<leftarrow>es. DebitAmount e) = (\<Sum>e\<leftarrow>es. CreditAmount e)" using E(4) tot fin(2) by simp
    have two: "2 \<le> length es"
    proof (rule ccontr)
      assume "\<not> 2 \<le> length es"
      then obtain e where e: "es = [e]" using ne by (cases es; cases "tl es") auto
      then show False using equal E(1) by (auto simp: posting_entry_ok_def)
    qed
    have "validate_loop es [] 0 0 = Inr (0 + (\<Sum>e\<leftarrow>es. DebitAmount e), 0 + (\<Sum>e\<leftarrow>es. CreditAmount e))"
      by (rule validate_loop_ok [OF E(1,2)]) (use E(5,6) tot fin in simp_all)
    then show ?thesis using equal two by (simp add: validateEntries_def)
  qed
  show ?thesis using E(2) net valid by blast
qed

text \<open>Two legs through a clearing account: the user pays 10.00, of which 0.50 is the fee.\<close>

definition shop_env :: posting_env where
  "shop_env = \<lparr>rule_rows = [(''PAYMENT'', ''PAY'')], rule_query_fails = False,
     type_rows = [\<lparr>info_type = 1, info_code = ''USER_WALLET'', info_account_type = 1\<rparr>,
                  \<lparr>info_type = 11, info_code = ''FEE'', info_account_type = 7\<rparr>],
     type_query_fails = (\<lambda>_. False),
     owned_rows = [\<lparr>own_user = 142, own_type = 1, own_phase = 0, own_currency = ''PHP'', own_account_no = ''w142''\<rparr>,
                   \<lparr>own_user = 42, own_type = 11, own_phase = 1, own_currency = ''PHP'', own_account_no = ''f42''\<rparr>],
     account_query_fails = (\<lambda>_ _. False), range_order = rev\<rparr>"

definition leg :: "string \<Rightarrow> string \<Rightarrow> string \<Rightarrow> TxnLeg" where
  "leg x y amount = \<lparr>EdgeFromNode = [], EdgeToNode = [], FromAccountID = x, ToAccountID = y, LegAmount = amount, LegCurrency = ''PHP''\<rparr>"

definition shop_txn :: CreateTransactionRequest where
  "shop_txn = \<lparr>TxnOrderNo = ''77'', ProductCode = ''PAYMENT'', EventCode = ''PAY'',
     Legs = [leg ''USER_WALLET/142'' ''transit'' ''1000'', leg ''transit'' ''merchant'' ''950'', leg ''transit'' ''FEE/142'' ''50''],
     TxnDescription = ''pay'', MaxRetry = 2, TxnExtra = []\<rparr>"

lemma shop_txn_entries: "legEntries shop_env shop_txn = Inr
   [\<lparr>AccountNo = ''f42'', DebitAmount = 0, CreditAmount = 5000, EntryDescription = ''pay''\<rparr>,
    \<lparr>AccountNo = ''merchant'', DebitAmount = 0, CreditAmount = 95000, EntryDescription = ''pay''\<rparr>,
    \<lparr>AccountNo = ''w142'', DebitAmount = 100000, CreditAmount = 0, EntryDescription = ''pay''\<rparr>]"
  by code_simp

lemma voucher_is_the_net_of_the_legs_witness:
  "goes_out shop_env ''transit'' (Legs shop_txn) = goes_in shop_env ''transit'' (Legs shop_txn) \<and>
   (case legEntries shop_env shop_txn of Inr es \<Rightarrow> validateEntries es = None | Inl _ \<Rightarrow> False)"
proof -
  have small: "(\<Sum>l\<leftarrow>Legs shop_txn. leg_amount l) \<le> MaxEntryAmount" by code_simp
  have ord: "\<forall>agg. mset (range_order shop_env agg) = mset agg" by (simp add: shop_env_def)
  have nos: "\<forall>r\<in>set (owned_rows shop_env). own_account_no r \<noteq> []" by code_simp
  note V = voucher_is_the_net_of_the_legs [OF shop_txn_entries small ord nos]
  from V [THEN conjunct2, THEN conjunct1, THEN spec [where x = "''transit''"], THEN conjunct2]
  have "goes_out shop_env ''transit'' (Legs shop_txn) = goes_in shop_env ''transit'' (Legs shop_txn)" by simp
  moreover from V [THEN conjunct2, THEN conjunct2]
  have "case legEntries shop_env shop_txn of Inr es \<Rightarrow> validateEntries es = None | Inl _ \<Rightarrow> False"
    unfolding shop_txn_entries by simp
  ultimately show ?thesis by blast
qed

section \<open>An order runs within its retries\<close>

text \<open>What other writers may do to an order that no other call works on: \<open>ResetStuckProcessing\<close> gives a
  run up, and orders that are new to the table appear.\<close>

definition gives_up :: "TxnOrder \<Rightarrow> TxnOrder \<Rightarrow> bool" where
  "gives_up r r' \<longleftrightarrow> txn_status r = OrderProcessing \<and> txn_status r' = OrderFailed \<and> txn_retries r' = txn_retries r + 1 \<and>
     txn_no r' = txn_no r \<and> txn_max r' = txn_max r \<and> txn_voucher r' = txn_voucher r"

definition only_resets :: "TxnOrder list \<Rightarrow> TxnOrder list \<Rightarrow> bool" where
  "only_resets rs rs' \<longleftrightarrow> distinct (map txn_no rs') \<and> (\<forall>r\<in>set rs. \<exists>r'\<in>set rs'. r' = r \<or> gives_up r r') \<and>
     (\<forall>r'\<in>set rs'. (\<exists>r\<in>set rs. r' = r \<or> gives_up r r') \<or>
        (txn_no r' \<notin> txn_no ` set rs \<and> txn_status r' = OrderPending \<and> txn_retries r' = 0 \<and> 0 < txn_max r'))"

definition polite :: "order_faults \<Rightarrow> bool" where
  "polite f \<longleftrightarrow> (\<forall>rs. distinct (map txn_no rs) \<longrightarrow> only_resets rs (before_insert f rs) \<and> only_resets rs (before_take f rs))"

inductive txn_history :: "posting_state \<Rightarrow> bool" where
  starts: "txns s = [] \<Longrightarrow> executions s = [] \<Longrightarrow> txn_history s"
| creates: "txn_history s \<Longrightarrow> polite f \<Longrightarrow>
    txn_history (snd (CreateTxn env call f req s))"
| retries: "txn_history s \<Longrightarrow> polite f \<Longrightarrow>
    txn_history (snd (RetryTransaction env call u f no s))"
| resets: "txn_history s \<Longrightarrow> only_resets (txns s) rs \<Longrightarrow> txn_history (s\<lparr>txns := rs\<rparr>)"

definition row_fine :: "nat \<Rightarrow> TxnOrder \<Rightarrow> bool" where
  "row_fine n r \<longleftrightarrow> 0 \<le> txn_retries r \<and> 0 < txn_max r \<and>
     (if txn_status r \<in> {OrderProcessing, OrderSuccess} then int n \<le> txn_retries r + 1 \<and> txn_retries r < txn_max r
      else int n \<le> txn_retries r \<and> txn_retries r \<le> txn_max r) \<and> (txn_status r = OrderPending \<longrightarrow> txn_retries r = 0)"

definition rows_ok :: "string list \<Rightarrow> TxnOrder list \<Rightarrow> bool" where
  "rows_ok ex rs \<longleftrightarrow> distinct (map txn_no rs) \<and> (\<forall>r\<in>set rs. row_fine (count_list ex (txn_no r)) r) \<and> set ex \<subseteq> txn_no ` set rs"

lemma gives_up_fine: "row_fine n r \<Longrightarrow> gives_up r r' \<Longrightarrow> row_fine n r' \<and> txn_no r' = txn_no r"
  by (auto simp: row_fine_def gives_up_def)

lemma taken_fine:
  "row_fine n r \<Longrightarrow> txn_status r \<in> {OrderPending, OrderFailed} \<Longrightarrow> txn_retries r < txn_max r \<Longrightarrow>
     row_fine n (r\<lparr>txn_status := OrderProcessing\<rparr>) \<and> row_fine (Suc n) (r\<lparr>txn_status := OrderProcessing\<rparr>)"
  by (auto simp: row_fine_def)

lemma rows_ok_resets:
  assumes "rows_ok ex rs" "only_resets rs rs'"
  shows "rows_ok ex rs'"
proof -
  have "row_fine (count_list ex (txn_no r')) r'" if r': "r' \<in> set rs'" for r'
  proof -
    from assms(2) r' consider r where "r \<in> set rs" "r' = r \<or> gives_up r r'"
      | "txn_no r' \<notin> txn_no ` set rs" "txn_status r' = OrderPending" "txn_retries r' = 0" "0 < txn_max r'"
      unfolding only_resets_def by blast
    then show ?thesis
    proof cases
      case 1
      then have "row_fine (count_list ex (txn_no r)) r" using assms(1) by (simp add: rows_ok_def)
      then show ?thesis using 1(2) gives_up_fine by metis
    next
      case 2
      then have "count_list ex (txn_no r') = 0" using assms(1) by (auto simp: rows_ok_def count_list_0_iff)
      then show ?thesis using 2 by (simp add: row_fine_def)
    qed
  qed
  moreover have "txn_no ` set rs \<subseteq> txn_no ` set rs'"
  proof
    fix no assume "no \<in> txn_no ` set rs"
    then obtain r where r: "r \<in> set rs" "no = txn_no r" by blast
    with assms(2) obtain r' where "r' \<in> set rs'" "r' = r \<or> gives_up r r'" unfolding only_resets_def by blast
    moreover from this(2) have "txn_no r' = no" using r(2) by (auto simp: gives_up_def)
    ultimately show "no \<in> txn_no ` set rs'" by blast
  qed
  ultimately show ?thesis using assms by (auto simp: rows_ok_def only_resets_def)
qed

lemma rows_ok_map:
  assumes "rows_ok ex rs" "\<forall>r\<in>set rs. txn_no (g r) = txn_no r \<and> row_fine (count_list ex' (txn_no r)) (g r)"
    "set ex' \<subseteq> txn_no ` set rs"
  shows "rows_ok ex' (map g rs)"
proof -
  have "map txn_no (map g rs) = map txn_no rs" using assms(2) by simp
  then have "distinct (map txn_no (map g rs))" "txn_no ` set (map g rs) = txn_no ` set rs"
    using assms(1) by (metis rows_ok_def, metis list.set_map)
  then show ?thesis using assms(2,3) by (auto simp: rows_ok_def)
qed

text \<open>A row that may be run is taken; the run is on the books before its outcome is known.\<close>

lemma take_pays:
  assumes "rows_ok ex rs" "\<forall>r\<in>set rs. txn_no r = no \<longrightarrow> txn_status r \<in> {OrderPending, OrderFailed} \<longrightarrow> txn_retries r < txn_max r"
    "takeTxn no rs = (n, rs')"
  shows "rows_ok ex rs'" "n \<noteq> 0 \<Longrightarrow> rows_ok (no # ex) rs'" "n \<noteq> 0 \<Longrightarrow> \<forall>r\<in>set rs'. txn_no r = no \<longrightarrow> txn_status r = OrderProcessing"
proof -
  let ?P = "\<lambda>r. txn_no r = no \<and> txn_status r \<in> {OrderPending, OrderFailed}"
  let ?g = "\<lambda>r. if ?P r then r\<lparr>txn_status := OrderProcessing\<rparr> else r"
  have rs': "rs' = map ?g rs" and n: "n = count_where ?P rs"
    using assms(3) by (simp_all add: takeTxn_def update_where_def Let_def)
  have fine: "\<forall>r\<in>set rs. row_fine (count_list ex (txn_no r)) r" using assms(1) by (simp add: rows_ok_def)
  show "rows_ok ex rs'" unfolding rs'
  proof (rule rows_ok_map [OF assms(1)])
    show "\<forall>r\<in>set rs. txn_no (?g r) = txn_no r \<and> row_fine (count_list ex (txn_no r)) (?g r)"
    proof
      fix r assume r: "r \<in> set rs"
      then have "row_fine (count_list ex (txn_no r)) r" using fine by blast
      then show "txn_no (?g r) = txn_no r \<and> row_fine (count_list ex (txn_no r)) (?g r)"
        using taken_fine assms(2) r by (cases "?P r") auto
    qed
    show "set ex \<subseteq> txn_no ` set rs" using assms(1) by (simp add: rows_ok_def)
  qed
  assume "n \<noteq> 0"
  then obtain r0 where r0: "r0 \<in> set rs" "?P r0" unfolding n count_where_def by (auto simp: filter_empty_conv)
  have one: "r = r0" if "r \<in> set rs" "txn_no r = no" for r
    using assms(1) r0 that unfolding rows_ok_def by (metis distinct_map inj_on_def)
  show "rows_ok (no # ex) rs'" unfolding rs'
  proof (rule rows_ok_map [OF assms(1)])
    show "\<forall>r\<in>set rs. txn_no (?g r) = txn_no r \<and> row_fine (count_list (no # ex) (txn_no r)) (?g r)"
    proof
      fix r assume r: "r \<in> set rs"
      show "txn_no (?g r) = txn_no r \<and> row_fine (count_list (no # ex) (txn_no r)) (?g r)"
      proof (cases "txn_no r = no")
        case True
        then have "r = r0" using one r by blast
        then show ?thesis using r0 fine assms(2) taken_fine [of "count_list ex no" r0] by auto
      next
        case False
        then show ?thesis using fine r by auto
      qed
    qed
    show "set (no # ex) \<subseteq> txn_no ` set rs" using assms(1) r0 by (auto simp: rows_ok_def)
  qed
  show "\<forall>r\<in>set rs'. txn_no r = no \<longrightarrow> txn_status r = OrderProcessing" unfolding rs' using one r0 by auto
qed

lemma executeTxn_ok:
  assumes "rows_ok (TxnOrderNo req # executions s) (txns s)"
    "\<forall>r\<in>set (txns s). txn_no r = TxnOrderNo req \<longrightarrow> txn_status r = OrderProcessing"
  shows "rows_ok (executions (snd (executeTxn env call f req currency s))) (txns (snd (executeTxn env call f req currency s)))"
proof -
  let ?no = "TxnOrderNo req" and ?ex = "TxnOrderNo req # executions s"
  have fine: "\<forall>r\<in>set (txns s). row_fine (count_list ?ex (txn_no r)) r" using assms(1) by (simp add: rows_ok_def)
  have upd: "rows_ok ?ex (update_where (\<lambda>r. txn_no r = ?no) g (txns s))"
    if "\<forall>r. txn_no (g r) = txn_no r" "\<forall>r n. row_fine n r \<and> txn_status r = OrderProcessing \<longrightarrow> row_fine n (g r)" for g
    unfolding update_where_def
  proof (rule rows_ok_map [OF assms(1)])
    show "\<forall>r\<in>set (txns s). txn_no (if txn_no r = ?no then g r else r) = txn_no r \<and>
        row_fine (count_list ?ex (txn_no r)) (if txn_no r = ?no then g r else r)"
      using that fine assms(2) by auto
    show "set ?ex \<subseteq> txn_no ` set (txns s)" using assms(1) by (simp add: rows_ok_def)
  qed
  obtain x b where xb: "executeBookkeeping env call req currency (posted_bank s) = (x, b)" by force
  have failed: "rows_ok ?ex (update_where (\<lambda>r. txn_no r = ?no)
      (\<lambda>r. r\<lparr>txn_status := OrderFailed, txn_error := e, txn_retries := txn_retries r + 1\<rparr>) (txns s))" for e
    by (rule upd) (auto simp: row_fine_def)
  have booked: "rows_ok ?ex (update_where (\<lambda>r. txn_no r = ?no)
      (\<lambda>r. r\<lparr>txn_status := OrderSuccess, txn_voucher := v\<rparr>) (txns s))" for v
    by (rule upd) (auto simp: row_fine_def)
  show ?thesis using assms(1) failed booked
    by (cases x; cases "record_fails f") (simp_all add: executeTxn_def xb Let_def)
qed

lemma takeAndExecute_ok:
  assumes "rows_ok (executions s) (txns s)" "polite f"
    "\<forall>r\<in>set (before_take f (txns s)). txn_no r = TxnOrderNo req \<longrightarrow> txn_status r \<in> {OrderPending, OrderFailed} \<longrightarrow>
       txn_retries r < txn_max r"
  shows "rows_ok (executions (snd (takeAndExecute env call f req currency s))) (txns (snd (takeAndExecute env call f req currency s)))"
proof -
  let ?no = "TxnOrderNo req"
  have "only_resets (txns s) (before_take f (txns s))" using assms(1,2) by (simp add: polite_def rows_ok_def)
  from rows_ok_resets [OF assms(1) this] have ok: "rows_ok (executions s) (before_take f (txns s))" .
  obtain n rs where t: "takeTxn ?no (before_take f (txns s)) = (n, rs)" by force
  note T = take_pays [OF ok assms(3) t]
  show ?thesis
  proof (cases "take_fails f")
    case True
    then show ?thesis using ok by (simp add: takeAndExecute_def Let_def)
  next
    case False
    show ?thesis
    proof (cases "n = 0")
      case True
      then show ?thesis using False T(1) t by (simp add: takeAndExecute_def Let_def)
    next
      case n: False
      have "rows_ok (executions (snd (executeTxn env call f req currency (s\<lparr>txns := rs\<rparr>))))
          (txns (snd (executeTxn env call f req currency (s\<lparr>txns := rs\<rparr>))))"
        by (rule executeTxn_ok) (use T(2,3) n in simp_all)
      then show ?thesis using False n t by (simp add: takeAndExecute_def Let_def)
    qed
  qed
qed

lemma txnGet_Some: "txnGet s no = Some r \<Longrightarrow> r \<in> set (txns s) \<and> txn_no r = no"
  unfolding txnGet_def by (rule select_one_Some)

lemma insert_ok:
  assumes "rows_ok ex rs" "insertTxn f r rs = (e, rs')" "txn_status r = OrderPending" "txn_retries r = 0" "0 < txn_max r"
  shows "rows_ok ex rs'"
proof -
  have "rows_ok ex (rs @ [x])" if "txn_no x = txn_no r" "txn_status x = OrderPending" "txn_retries x = 0" "0 < txn_max x"
    "\<not> list_ex (\<lambda>y. txn_no y = txn_no r) rs" for x
  proof -
    have new: "txn_no x \<notin> txn_no ` set rs" using that(1,5) by (auto simp: list_ex_iff)
    then have "count_list ex (txn_no x) = 0" using assms(1) by (auto simp: rows_ok_def count_list_0_iff)
    then show ?thesis using assms(1) that(2-4) new by (auto simp: rows_ok_def row_fine_def)
  qed
  from this [of r] this [of "r\<lparr>txn_payload := None\<rparr>"] show ?thesis
    using assms by (simp add: insertTxn_def split: if_splits)
qed

lemma CreateTxn_ok:
  assumes "rows_ok (executions s) (txns s)" "polite f"
  shows "rows_ok (executions (snd (CreateTxn env call f req s))) (txns (snd (CreateTxn env call f req s)))"
proof (cases "validateTxn req \<noteq> None \<or> (\<exists>e. summarizeLegs (Legs req) = Inl e) \<or> read_fails f")
  case True
  then show ?thesis using assms(1) by (auto simp: CreateTxn_def split: option.split sum.split)
next
  case False
  then obtain tot currency where ok: "validateTxn req = None" "summarizeLegs (Legs req) = Inr (tot, currency)" "\<not> read_fails f"
    by (cases "summarizeLegs (Legs req)") auto
  have dist: "distinct (map txn_no (txns s))" using assms(1) by (simp add: rows_ok_def)
  have resets: "only_resets (txns s) (before_insert f (txns s))" "only_resets (txns s) (before_take f (txns s))"
    using assms(2) dist by (simp_all add: polite_def)
  show ?thesis
  proof (cases "txnGet s (TxnOrderNo req)")
    case None
    obtain e rs where i: "insertTxn (insert_fault f) (newOrder req tot currency) (before_insert f (txns s)) = (e, rs)" by force
    have rs: "rows_ok (executions s) rs"
      by (rule insert_ok [OF rows_ok_resets [OF assms(1) resets(1)] i]) (simp_all add: newOrder_def)
    show ?thesis
    proof (cases e)
      case None
      have only: "only_resets rs (before_take f rs)" using assms(2) rs by (simp add: polite_def rows_ok_def)
      have "txn_retries r < txn_max r" if r: "r \<in> set (before_take f rs)" "txn_no r = TxnOrderNo req"
        "txn_status r \<in> {OrderPending, OrderFailed}" for r
      proof -
        have here: "\<forall>r\<in>set rs. txn_no r = TxnOrderNo req \<longrightarrow> txn_status r = OrderPending"
        proof -
          have new: "rs = before_insert f (txns s) @ [newOrder req tot currency]"
              "\<not> list_ex (\<lambda>x. txn_no x = TxnOrderNo req) (before_insert f (txns s))"
            using i None by (auto simp: insertTxn_def newOrder_def split: if_splits)
          then show ?thesis by (auto simp: list_ex_iff newOrder_def)
        qed
        from only r(1) consider r0 where "r0 \<in> set rs" "r = r0 \<or> gives_up r0 r" | "txn_status r = OrderPending" "txn_retries r = 0" "0 < txn_max r"
          unfolding only_resets_def by blast
        then show ?thesis
        proof cases
          case 1
          then have "r = r0" using here r(2) by (auto simp: gives_up_def)
          then have "txn_status r = OrderPending" "row_fine (count_list (executions s) (txn_no r)) r"
            using 1(1) here r(2) rs by (auto simp: rows_ok_def)
          then show ?thesis by (simp add: row_fine_def)
        qed simp
      qed
      then have "rows_ok (executions (snd (takeAndExecute env call f req currency (s\<lparr>txns := rs\<rparr>))))
          (txns (snd (takeAndExecute env call f req currency (s\<lparr>txns := rs\<rparr>))))"
        by (intro takeAndExecute_ok) (simp_all add: rs assms(2))
      then show ?thesis using ok i None \<open>txnGet s (TxnOrderNo req) = None\<close> by (simp add: CreateTxn_def)
    next
      case (Some x)
      then show ?thesis using ok i rs \<open>txnGet s (TxnOrderNo req) = None\<close> by (simp add: CreateTxn_def)
    qed
  next
    case (Some r0)
    show ?thesis
    proof (cases "txn_status r0 = OrderSuccess \<or> txn_status r0 = OrderProcessing \<or> txn_status r0 = OrderFailed \<and> txn_retries r0 \<ge> txn_max r0")
      case True
      then show ?thesis using ok Some assms(1) by (auto simp: CreateTxn_def)
    next
      case False
      have r0: "r0 \<in> set (txns s)" "txn_no r0 = TxnOrderNo req" using txnGet_Some [OF Some] by simp_all
      then have fine: "row_fine (count_list (executions s) (txn_no r0)) r0" using assms(1) unfolding rows_ok_def by blast
      have "txn_retries r < txn_max r" if r: "r \<in> set (before_take f (txns s))" "txn_no r = TxnOrderNo req"
        "txn_status r \<in> {OrderPending, OrderFailed}" for r
      proof -
        from resets(2) r(1) consider r1 where "r1 \<in> set (txns s)" "r = r1 \<or> gives_up r1 r" | "txn_no r \<notin> txn_no ` set (txns s)"
          unfolding only_resets_def by blast
        then show ?thesis
        proof cases
          case 1
          then have "txn_no r1 = txn_no r0" using r(2) r0(2) by (auto simp: gives_up_def)
          then have "r1 = r0" using dist 1(1) r0(1) by (metis distinct_map inj_on_def)
          then have "r = r0" using 1(2) False by (auto simp: gives_up_def)
          then show ?thesis using False fine r(3) by (auto simp: row_fine_def)
        next
          case 2
          then show ?thesis using r0 r(2) by (metis imageI)
        qed
      qed
      then have "rows_ok (executions (snd (takeAndExecute env call f req currency s)))
          (txns (snd (takeAndExecute env call f req currency s)))"
        by (intro takeAndExecute_ok) (simp_all add: assms)
      then show ?thesis using ok Some False by (auto simp: CreateTxn_def)
    qed
  qed
qed

lemma RetryTransaction_ok:
  assumes "rows_ok (executions s) (txns s)" "polite f"
  shows "rows_ok (executions (snd (RetryTransaction env call u f no s))) (txns (snd (RetryTransaction env call u f no s)))"
  using assms CreateTxn_ok
  by (auto simp: RetryTransaction_def split: option.split stored_payload.split list.split)

lemma txn_history_ok: "txn_history s \<Longrightarrow> rows_ok (executions s) (txns s)"
proof (induction rule: txn_history.induct)
  case (starts s)
  then show ?case by (simp add: rows_ok_def)
next
  case (creates s f env call req)
  then show ?case using CreateTxn_ok by blast
next
  case (retries s f env call u no)
  then show ?case using RetryTransaction_ok by blast
next
  case (resets s rs)
  then show ?case using rows_ok_resets by simp
qed


text \<open>The order fails because its rule is missing, and succeeds when it is retried.\<close>

definition calm_order :: order_faults where
  "calm_order = \<lparr>read_fails = False, before_insert = (\<lambda>rs. rs), insert_fault = None, before_take = (\<lambda>rs. rs),
     take_fails = False, record_fails = False\<rparr>"

definition plain_env :: posting_env where
  "plain_env = shop_env\<lparr>range_order := (\<lambda>agg. agg)\<rparr>"

definition shop_ledger :: ledger_call where
  "shop_ledger = DoubleEntryBooking (\<lambda>t. t) calm (shop_booker no_faults)"

definition wallet_txn :: "string \<Rightarrow> CreateTransactionRequest" where
  "wallet_txn amount = \<lparr>TxnOrderNo = ''4200000001'', ProductCode = ''PAYMENT'', EventCode = ''PAY'',
     Legs = [leg wallet_no shop_no amount], TxnDescription = [], MaxRetry = 0, TxnExtra = []\<rparr>"

definition fresh_state :: posting_state where
  "fresh_state = \<lparr>txns = [], posted_bank = shop_bank, executions = []\<rparr>"

definition retried_order :: "txn_outcome \<times> posting_state" where
  "retried_order = RetryTransaction plain_env shop_ledger False calm_order ''4200000001''
     (snd (CreateTxn (plain_env\<lparr>rule_rows := []\<rparr>) shop_ledger calm_order (wallet_txn ''12'') fresh_state))"

lemma calm_order_polite: "polite calm_order"
  by (simp add: polite_def calm_order_def only_resets_def) blast

lemma retried_order_history: "txn_history (snd retried_order)"
  unfolding retried_order_def
  by (intro retries creates starts calm_order_polite) (simp_all add: fresh_state_def)

lemma retried_order_run:
  "fst retried_order = Response ((plain_reply OrderSuccess)\<lparr>reply_voucher := ''1010000000000001''\<rparr>)"
  "executions (snd retried_order) = [''4200000001'', ''4200000001'']"
  "map_option (\<lambda>r. (txn_status r, txn_retries r, txn_max r, txn_voucher r)) (txnGet (snd retried_order) ''4200000001'') =
     Some (OrderSuccess, 1, 3, ''1010000000000001'')"
  by code_simp+


section \<open>What the code does not guard\<close>

text \<open>A leg is checked before it is scaled: 1844674407370955.17 of a currency is booked as 0.0084.\<close>

lemma huge_leg_is_booked_small:
  "legEntries plain_env (wallet_txn ''184467440737095517'') = Inr
     [\<lparr>AccountNo = wallet_no, DebitAmount = 84, CreditAmount = 0, EntryDescription = []\<rparr>,
      \<lparr>AccountNo = shop_no, DebitAmount = 0, CreditAmount = 84, EntryDescription = []\<rparr>]"
  by code_simp

text \<open>A booking that failed in the ledger keeps its digest there: the same order with corrected legs
  is an idempotency violation, which ends the process.\<close>

lemma corrected_order_ends_the_process:
  "let (first, s) = CreateTxn plain_env shop_ledger calm_order (wallet_txn ''120'') fresh_state
   in (case first of Response r \<Rightarrow> reply_status r = OrderFailed | _ \<Rightarrow> False) \<and>
      fst (CreateTxn plain_env shop_ledger calm_order (wallet_txn ''12'') s) = Ended"
  by code_simp

text \<open>Accounts are looked up without a currency: a leg in PHP is booked on the owner's USD account.\<close>

lemma leg_takes_an_account_of_another_currency:
  "let env = plain_env\<lparr>owned_rows := [\<lparr>own_user = 142, own_type = 1, own_phase = 0, own_currency = ''USD'', own_account_no = ''usd''\<rparr>,
                                     \<lparr>own_user = 142, own_type = 1, own_phase = 0, own_currency = ''PHP'', own_account_no = ''php''\<rparr>]\<rparr>
   in resolveAccountRef env ''USER_WALLET/142'' = Inr ''usd''"
  by code_simp

text \<open>An owner number that does not fit becomes owner 0.\<close>

lemma long_owner_is_owner_zero: "ref_owner ''99999999999999999999'' = 0"
  by code_simp

text \<open>The legs of a long order do not fit the extra column; such an order cannot be retried.\<close>

lemma long_order_cannot_be_retried:
  assumes "txnGet s no = Some r" "txn_status r = OrderFailed" "txn_retries r < txn_max r" "txn_payload r = Some CutPayload"
  shows "RetryTransaction env call False f no s = (CallError ExtraUndecodable, s)"
  using assms by (simp add: RetryTransaction_def)

lemma sixty_legs_are_cut: "truncatePayload (replicate 60 (leg wallet_no shop_no ''12'')) [] = CutPayload"
  by code_simp

end
