(* ===== verification/IdSegments.thy ===== *)
theory IdSegments
  imports Complex_Main Prelude
begin

text \<open>
  The id generator of \<open>order-core\<close> (\<open>internal/idgen/leaf.go\<close>): a table with one row per business tag hands
  out segments of numbers, a process keeps two segments per tag and loads the next one ahead of time.
  Several processes share the table, and the calls of a process share its buffers; a call is a
  program counter between two critical sections or statements, so that calls interleave the way
  goroutines do. Main and shadow traffic have a table each.
\<close>

section \<open>Segments and buffers\<close>

text \<open>The position is an atomic \<open>int64\<close>; it is unbounded here, as it moves by one per call.\<close>

record segment =
  seg_cur :: int
  seg_max :: int
  seg_step :: int

definition newSegment :: "int \<Rightarrow> int \<Rightarrow> segment" where
  "newSegment start step = \<lparr>seg_cur = start, seg_max = start + step, seg_step = step\<rparr>"

text \<open>\<open>next\<close> advances the position even when the segment is used up, and then answers -1.\<close>

definition nextOf :: "segment \<Rightarrow> int \<times> segment" where
  "nextOf s = (if seg_cur s \<ge> seg_max s then - 1 else seg_cur s, s\<lparr>seg_cur := seg_cur s + 1\<rparr>)"

definition consumed :: "segment \<Rightarrow> rat" where
  "consumed s = 1 - of_int (max 0 (seg_max s - seg_cur s)) / of_int (seg_step s)"

record buffer =
  slot0 :: "segment option"
  slot1 :: "segment option"
  current :: bool \<comment> \<open>false is index 0\<close>
  nextReady :: bool
  loading :: bool

definition emptyBuffer :: buffer where
  "emptyBuffer = \<lparr>slot0 = None, slot1 = None, current = False, nextReady = False, loading = False\<rparr>"

definition slot :: "bool \<Rightarrow> buffer \<Rightarrow> segment option" where
  "slot i b = (if i then slot1 b else slot0 b)"

definition put_slot :: "bool \<Rightarrow> segment \<Rightarrow> buffer \<Rightarrow> buffer" where
  "put_slot i s b = (if i then b\<lparr>slot1 := Some s\<rparr> else b\<lparr>slot0 := Some s\<rparr>)"

definition cur :: "buffer \<Rightarrow> segment option" where
  "cur b = slot (current b) b"

definition defaultLoadFactor :: rat where "defaultLoadFactor = 9 / 10"
definition defaultStep :: int where "defaultStep = 100000"
definition defaultInitMaxID :: int where "defaultInitMaxID = 1000000"

definition effectiveBufferKey :: "string \<Rightarrow> bool \<Rightarrow> string" where
  "effectiveBufferKey biz isShadow = (if isShadow then biz @ ''::shadow'' else biz)"

section \<open>The table\<close>

record LeafAlloc =
  BizTag :: string
  MaxID :: int
  Step :: int

definition leaf_get :: "LeafAlloc list \<Rightarrow> string \<Rightarrow> LeafAlloc option" where
  "leaf_get t biz = select_one (\<lambda>a. BizTag a = biz) t"

text \<open>\<open>register\<close> leaves a row that exists alone; \<open>Register\<close> puts defaults for what is missing.\<close>

definition leaf_register :: "LeafAlloc \<Rightarrow> LeafAlloc list \<Rightarrow> LeafAlloc list" where
  "leaf_register a t = (if leaf_get t (BizTag a) = None then t @ [a] else t)"

definition Register :: "string \<Rightarrow> int \<Rightarrow> int \<Rightarrow> LeafAlloc list \<Rightarrow> LeafAlloc list option" where
  "Register biz initMaxID step t =
     (if biz = [] then None
      else Some (leaf_register
        \<lparr>BizTag = biz, MaxID = (if initMaxID \<le> 0 then defaultInitMaxID else initMaxID),
         Step = (if step \<le> 0 then defaultStep else step)\<rparr> t))"

text \<open>\<open>advance\<close> is one transaction: no row, or a \<open>BIGINT\<close> out of range, is an error.\<close>

definition advance :: "LeafAlloc list \<Rightarrow> string \<Rightarrow> (LeafAlloc \<times> LeafAlloc list) option" where
  "advance t biz = (case leaf_get t biz of
     None \<Rightarrow> None
   | Some a \<Rightarrow> if MaxID a + Step a > max_int64 then None
               else Some (a\<lparr>MaxID := MaxID a + Step a\<rparr>,
                 update_where (\<lambda>r. BizTag r = biz) (\<lambda>r. r\<lparr>MaxID := MaxID r + Step r\<rparr>) t))"

section \<open>Calls\<close>

text \<open>
  \<open>AtEnsure\<close> is the check of \<open>ensure\<close>, \<open>AtLookup\<close> its read of the row; \<open>AtAdvance\<close> and \<open>AtInstall\<close> are
  the two halves of \<open>loadInto\<close>; \<open>AtLoop\<close> is the start of the loop of \<open>NextID\<close>. A load is made for
  \<open>ensure\<close>, for an exhausted buffer, or in the background (by \<open>NextID\<close> or \<open>Preload\<close>).
\<close>

datatype load = ForEnsure | ForLoop | InBackground

datatype leaf_error = NotRegistered | StatementFailed | NilSegment

datatype pc =
    AtEnsure | AtLookup | AtAdvance load | AtInstall load int int | AtLoop
  | Answered "leaf_error + int" | BackgroundDone

record id_call =
  call_proc :: nat
  call_tag :: string
  call_shadow :: bool
  call_pc :: pc

record id_world =
  leaf_table :: "bool \<Rightarrow> LeafAlloc list"
  generators :: "(string \<Rightarrow> buffer) list"
  id_calls :: "id_call list"

definition call_key :: "id_call \<Rightarrow> string" where
  "call_key c = effectiveBufferKey (call_tag c) (call_shadow c)"

text \<open>What the database does to a statement.\<close>

datatype db_reply = Works | Refused | ReplyLost

text \<open>Where a call goes on after its load failed, or was installed.\<close>

definition load_failed :: "load \<Rightarrow> leaf_error \<Rightarrow> pc" where
  "load_failed l e = (if l = InBackground then BackgroundDone else Answered (Inl e))"

definition load_installed :: "load \<Rightarrow> pc" where
  "load_installed l = (if l = InBackground then BackgroundDone else AtLoop)"

text \<open>The critical section of \<open>loadInto\<close>.\<close>

definition install :: "segment \<Rightarrow> buffer \<Rightarrow> buffer" where
  "install s b = (let b' = (if cur b = None then (put_slot False s b)\<lparr>current := False\<rparr>
                            else (put_slot (\<not> current b) s b)\<lparr>nextReady := True\<rparr>)
                  in b'\<lparr>loading := False\<rparr>)"

text \<open>One turn of the loop of \<open>NextID\<close>, under the lock: the buffer it leaves, where the call goes on,
  and whether it starts a load in the background.\<close>

definition NextID_turn :: "buffer \<Rightarrow> buffer \<times> pc \<times> bool" where
  "NextID_turn b = (case cur b of
     None \<Rightarrow> (b, Answered (Inl NilSegment), False)
   | Some s \<Rightarrow>
       let (i, s') = nextOf s; b' = put_slot (current b) s' b
       in if i \<ge> 0 then
            if \<not> nextReady b' \<and> \<not> loading b' \<and> consumed s' \<ge> defaultLoadFactor
            then (b'\<lparr>loading := True\<rparr>, Answered (Inr i), True)
            else (b', Answered (Inr i), False)
          else if nextReady b' then (b'\<lparr>current := \<not> current b', nextReady := False\<rparr>, AtLoop, False)
          else if \<not> loading b' then (b'\<lparr>loading := True\<rparr>, AtAdvance ForLoop, False)
          else (b', AtLoop, False))"

definition buffer_of :: "id_world \<Rightarrow> id_call \<Rightarrow> buffer" where
  "buffer_of w c = (generators w ! call_proc c) (call_key c)"

definition set_buffer :: "id_call \<Rightarrow> buffer \<Rightarrow> id_world \<Rightarrow> id_world" where
  "set_buffer c b w = w\<lparr>generators := (generators w)[call_proc c := (generators w ! call_proc c)(call_key c := b)]\<rparr>"

definition goes_to :: "nat \<Rightarrow> pc \<Rightarrow> id_world \<Rightarrow> id_world" where
  "goes_to i p w = w\<lparr>id_calls := (id_calls w)[i := (id_calls w ! i)\<lparr>call_pc := p\<rparr>]\<rparr>"

definition spawn :: "id_call \<Rightarrow> id_world \<Rightarrow> id_world" where
  "spawn c w = w\<lparr>id_calls := id_calls w @ [c]\<rparr>"

text \<open>The next step of call \<open>i\<close>.\<close>

definition id_step :: "db_reply \<Rightarrow> nat \<Rightarrow> id_world \<Rightarrow> id_world" where
  "id_step r i w = (let c = id_calls w ! i; b = buffer_of w c; t = leaf_table w (call_shadow c) in
     case call_pc c of
       AtEnsure \<Rightarrow> goes_to i (if cur b \<noteq> None then AtLoop else AtLookup) w
     | AtLookup \<Rightarrow> goes_to i (if r \<noteq> Works then Answered (Inl StatementFailed)
         else if leaf_get t (call_tag c) = None then Answered (Inl NotRegistered) else AtAdvance ForEnsure) w
     | AtAdvance l \<Rightarrow> (case (r, advance t (call_tag c)) of
         (Refused, _) \<Rightarrow> goes_to i (load_failed l StatementFailed) w
       | (_, None) \<Rightarrow> goes_to i (load_failed l StatementFailed) w
       | (ReplyLost, Some (a, t')) \<Rightarrow>
           goes_to i (load_failed l StatementFailed) (w\<lparr>leaf_table := (leaf_table w)(call_shadow c := t')\<rparr>)
       | (Works, Some (a, t')) \<Rightarrow>
           goes_to i (AtInstall l (MaxID a - Step a) (Step a)) (w\<lparr>leaf_table := (leaf_table w)(call_shadow c := t')\<rparr>))
     | AtInstall l start step \<Rightarrow>
         goes_to i (load_installed l) (set_buffer c (install (newSegment start step) b) w)
     | AtLoop \<Rightarrow> (let (b', p, ahead) = NextID_turn b; w' = goes_to i p (set_buffer c b' w)
         in if ahead then spawn (c\<lparr>call_pc := AtAdvance InBackground\<rparr>) w' else w')
     | Answered _ \<Rightarrow> w
     | BackgroundDone \<Rightarrow> w)"

text \<open>\<open>Preload\<close> loads a segment for every row of a table; its loads are taken in any order.\<close>

definition Preload :: "nat \<Rightarrow> bool \<Rightarrow> id_world \<Rightarrow> id_world" where
  "Preload p sh w = w\<lparr>id_calls := id_calls w @
     map (\<lambda>a. \<lparr>call_proc = p, call_tag = BizTag a, call_shadow = sh, call_pc = AtAdvance InBackground\<rparr>)
       (leaf_table w sh)\<rparr>"

text \<open>A process that dies takes its buffers and the calls it has not answered with it.\<close>

definition unanswered :: "id_call \<Rightarrow> bool" where
  "unanswered c = (case call_pc c of Answered _ \<Rightarrow> False | _ \<Rightarrow> True)"

definition dies :: "nat \<Rightarrow> id_world \<Rightarrow> id_world" where
  "dies p w = w\<lparr>generators := (generators w)[p := (\<lambda>_. emptyBuffer)],
     id_calls := filter (\<lambda>c. \<not> (call_proc c = p \<and> unanswered c)) (id_calls w)\<rparr>"

text \<open>Tags are what the program passes; none of them ends like the key of a shadow buffer.\<close>

definition plain_tag :: "string \<Rightarrow> bool" where
  "plain_tag biz \<longleftrightarrow> drop (length biz - 8) biz \<noteq> ''::shadow''"

definition bizTags :: "string list" where
  "bizTags = [''order.payment_intent'', ''order.charge'', ''order.refund'', ''order.inbound_webhook'',
     ''order.ledger_txn'', ''order.dispute'', ''order.accounting_outbox'']"

inductive id_history :: "id_world \<Rightarrow> bool" where
  begins: "id_history \<lparr>leaf_table = (\<lambda>_. []), generators = [], id_calls = []\<rparr>"
| boots: "id_history w \<Longrightarrow> id_history (w\<lparr>generators := generators w @ [\<lambda>_. emptyBuffer]\<rparr>)"
| registers: "id_history w \<Longrightarrow> plain_tag biz \<Longrightarrow> Register biz m st (leaf_table w sh) = Some t \<Longrightarrow>
    id_history (w\<lparr>leaf_table := (leaf_table w)(sh := t)\<rparr>)"
| preloads: "id_history w \<Longrightarrow> p < length (generators w) \<Longrightarrow> id_history (Preload p sh w)"
| asks: "id_history w \<Longrightarrow> plain_tag biz \<Longrightarrow> p < length (generators w) \<Longrightarrow>
    id_history (spawn \<lparr>call_proc = p, call_tag = biz, call_shadow = sh, call_pc = AtEnsure\<rparr> w)"
| goes_on: "id_history w \<Longrightarrow> i < length (id_calls w) \<Longrightarrow> id_history (id_step r i w)"
| process_dies: "id_history w \<Longrightarrow> id_history (dies p w)"

section \<open>Who holds a number\<close>

lemma sum_list_set:
  fixes f :: "'x \<Rightarrow> int"
  assumes "i < length xs"
  shows "sum_list (map f (xs[i := y])) = sum_list (map f xs) + f y - f (xs ! i)"
  using assms by (induction xs arbitrary: i) (auto split: nat.splits)

lemma sum_list_bound:
  fixes f :: "'x \<Rightarrow> int"
  assumes "\<And>x. f x \<ge> 0"
  shows "sum_list (map f xs) \<ge> 0" "i < length xs \<Longrightarrow> f (xs ! i) \<le> sum_list (map f xs)"
    "i < length xs \<Longrightarrow> j < length xs \<Longrightarrow> i \<noteq> j \<Longrightarrow> f (xs ! i) + f (xs ! j) \<le> sum_list (map f xs)"
proof -
  show pos: "sum_list (map f xs) \<ge> 0" for xs by (induction xs) (simp_all add: assms)
  show one: "i < length xs \<Longrightarrow> f (xs ! i) \<le> sum_list (map f xs)" for i xs
    using pos by (induction xs arbitrary: i) (auto simp: assms less_Suc_eq_0_disj nth_Cons add_increasing split: nat.splits)
  show "i < length xs \<Longrightarrow> j < length xs \<Longrightarrow> i \<noteq> j \<Longrightarrow> f (xs ! i) + f (xs ! j) \<le> sum_list (map f xs)"
  proof (induction xs arbitrary: i j)
    case (Cons z zs)
    then show ?case using one [of _ zs] assms [of z]
      by (cases i; cases j) (fastforce simp: add_increasing)+
  qed simp
qed

lemma sum_list_filter_le:
  fixes f :: "'x \<Rightarrow> int"
  assumes "\<And>x. f x \<ge> 0"
  shows "sum_list (map f (filter P xs)) \<le> sum_list (map f xs)"
  using assms by (induction xs) (auto simp: add_increasing)

text \<open>How often a number is given out, on its way into a buffer, or waiting in one.\<close>

definition seg_holds :: "int \<Rightarrow> segment option \<Rightarrow> int" where
  "seg_holds x s = (case s of None \<Rightarrow> 0 | Some s \<Rightarrow> of_bool (seg_cur s \<le> x \<and> x < seg_max s))"

definition buf_holds :: "int \<Rightarrow> buffer \<Rightarrow> int" where
  "buf_holds x b = seg_holds x (slot0 b) + seg_holds x (slot1 b)"

definition pc_holds :: "int \<Rightarrow> pc \<Rightarrow> int" where
  "pc_holds x p = (case p of Answered (Inr i) \<Rightarrow> of_bool (i = x)
     | AtInstall l start step \<Rightarrow> of_bool (start \<le> x \<and> x < start + step) | _ \<Rightarrow> 0)"

definition call_holds :: "string \<Rightarrow> int \<Rightarrow> id_call \<Rightarrow> int" where
  "call_holds k x c = (if call_key c = k then pc_holds x (call_pc c) else 0)"

definition times_held :: "string \<Rightarrow> int \<Rightarrow> id_world \<Rightarrow> int" where
  "times_held k x w = (\<Sum>c\<leftarrow>id_calls w. call_holds k x c) + (\<Sum>g\<leftarrow>generators w. buf_holds x (g k))"

lemma holds_pos [simp]: "0 \<le> seg_holds x so" "0 \<le> buf_holds x b" "0 \<le> pc_holds x p" "0 \<le> call_holds k x c"
proof -
  show seg: "0 \<le> seg_holds x so" for so by (simp add: seg_holds_def split: option.split)
  show "0 \<le> buf_holds x b" by (simp add: buf_holds_def seg)
  show pc: "0 \<le> pc_holds x p" by (simp add: pc_holds_def split: pc.split sum.split)
  show "0 \<le> call_holds k x c" by (simp add: call_holds_def pc_holds_def split: pc.split sum.split)
qed

lemma held_pos: "0 \<le> times_held k x w"
  unfolding times_held_def by (intro add_nonneg_nonneg sum_list_bound(1)) simp_all

lemma pc_holds_simps [simp]:
  "pc_holds x AtEnsure = 0" "pc_holds x AtLookup = 0" "pc_holds x (AtAdvance l) = 0" "pc_holds x AtLoop = 0"
  "pc_holds x (Answered (Inl e)) = 0" "pc_holds x BackgroundDone = 0" "pc_holds x (Answered (Inr i)) = of_bool (i = x)"
  "pc_holds x (AtInstall l start step) = of_bool (start \<le> x \<and> x < start + step)"
  "pc_holds x (load_failed l e) = 0" "pc_holds x (load_installed l) = 0"
  by (simp_all add: pc_holds_def load_failed_def load_installed_def)

lemma held_goes_to:
  assumes "i < length (id_calls w)"
  shows "times_held k x (goes_to i p w) = times_held k x w +
    (if call_key (id_calls w ! i) = k then pc_holds x p - pc_holds x (call_pc (id_calls w ! i)) else 0)"
  using assms by (simp add: times_held_def goes_to_def sum_list_set call_holds_def call_key_def)

lemma held_set_buffer:
  assumes "call_proc c < length (generators w)"
  shows "times_held k x (set_buffer c b w) = times_held k x w +
    (if call_key c = k then buf_holds x b - buf_holds x (buffer_of w c) else 0)"
  using assms by (simp add: times_held_def set_buffer_def sum_list_set buffer_of_def)

lemma held_spawn: "times_held k x (spawn c w) = times_held k x w + call_holds k x c"
  by (simp add: times_held_def spawn_def)

lemma held_table [simp]: "times_held k x (w\<lparr>leaf_table := t\<rparr>) = times_held k x w"
  by (simp add: times_held_def)

text \<open>An installed segment pushes out one that is used up or unused; a turn of the loop takes the number
  it answers out of the buffer.\<close>

lemma put_slot_holds:
  "buf_holds x (put_slot i s b) = buf_holds x b - seg_holds x (slot i b) + seg_holds x (Some s)"
  by (simp add: buf_holds_def put_slot_def slot_def)

lemma buf_holds_flags [simp]:
  "buf_holds x (b\<lparr>current := c\<rparr>) = buf_holds x b" "buf_holds x (b\<lparr>nextReady := r\<rparr>) = buf_holds x b"
  "buf_holds x (b\<lparr>loading := l\<rparr>) = buf_holds x b"
  by (simp_all add: buf_holds_def)

lemma install_holds: "buf_holds x (install s b) \<le> buf_holds x b + seg_holds x (Some s)"
  by (simp add: install_def Let_def put_slot_holds)

lemma turn_holds:
  assumes "NextID_turn b = (b', p, ahead)"
  shows "buf_holds x b' + pc_holds x p \<le> buf_holds x b"
proof (cases "cur b")
  case None
  then show ?thesis using assms by (auto simp: NextID_turn_def)
next
  case (Some s)
  have "buf_holds x (put_slot (current b) (s\<lparr>seg_cur := seg_cur s + 1\<rparr>) b) =
      buf_holds x b - (if seg_cur s < seg_max s then of_bool (seg_cur s = x) else 0)"
    using Some by (auto simp: put_slot_holds cur_def seg_holds_def)
  then show ?thesis using assms Some
    by (auto simp: NextID_turn_def nextOf_def Let_def split: if_splits)
qed

section \<open>The invariant\<close>

lemma effectiveBufferKey_inj:
  assumes "plain_tag biz" "plain_tag biz'" "effectiveBufferKey biz sh = effectiveBufferKey biz' sh'"
  shows "biz = biz' \<and> sh = sh'"
  using assms by (cases sh; cases sh') (auto simp: effectiveBufferKey_def plain_tag_def)

lemma bizTags_plain: "\<forall>b\<in>set bizTags. plain_tag b"
  by (simp add: bizTags_def plain_tag_def)

definition seg_ok :: "segment \<Rightarrow> bool" where
  "seg_ok s \<longleftrightarrow> 0 \<le> seg_cur s"

definition buf_ok :: "buffer \<Rightarrow> bool" where
  "buf_ok b \<longleftrightarrow> (\<forall>s. slot0 b = Some s \<or> slot1 b = Some s \<longrightarrow> seg_ok s) \<and>
     (nextReady b \<longrightarrow> (\<exists>s. slot (\<not> current b) b = Some s \<and> seg_cur s < seg_max s) \<and> cur b \<noteq> None)"

definition pc_ok :: "buffer \<Rightarrow> pc \<Rightarrow> bool" where
  "pc_ok b p \<longleftrightarrow> (case p of AtLoop \<Rightarrow> cur b \<noteq> None | AtInstall l start step \<Rightarrow> 0 \<le> start \<and> 0 < step
     | Answered (Inr i) \<Rightarrow> 0 \<le> i | Answered (Inl e) \<Rightarrow> e \<noteq> NilSegment | _ \<Rightarrow> True)"

definition call_ok :: "id_world \<Rightarrow> id_call \<Rightarrow> bool" where
  "call_ok w c \<longleftrightarrow> plain_tag (call_tag c) \<and> call_proc c < length (generators w) \<and> pc_ok (buffer_of w c) (call_pc c)"

definition row_of :: "id_world \<Rightarrow> string \<Rightarrow> bool \<Rightarrow> LeafAlloc option" where
  "row_of w biz sh = leaf_get (leaf_table w sh) biz"

definition numbers_ok :: "id_world \<Rightarrow> bool" where
  "numbers_ok w \<longleftrightarrow> (\<forall>biz sh x. plain_tag biz \<longrightarrow> times_held (effectiveBufferKey biz sh) x w \<le> 1 \<and>
     (times_held (effectiveBufferKey biz sh) x w \<noteq> 0 \<longrightarrow> (\<exists>a. row_of w biz sh = Some a \<and> x < MaxID a)))"

definition id_inv :: "id_world \<Rightarrow> bool" where
  "id_inv w \<longleftrightarrow> (\<forall>sh. \<forall>a\<in>set (leaf_table w sh). plain_tag (BizTag a) \<and> 0 < Step a \<and> 0 < MaxID a) \<and>
     (\<forall>g\<in>set (generators w). \<forall>k. buf_ok (g k)) \<and> (\<forall>c\<in>set (id_calls w). call_ok w c) \<and> numbers_ok w"

text \<open>What only gives numbers back keeps them apart; a new segment lies beyond all that were held.\<close>

lemma numbers_shrink:
  assumes "numbers_ok w" "\<And>k x. times_held k x w' \<le> times_held k x w"
    "\<And>biz sh a. row_of w biz sh = Some a \<Longrightarrow> \<exists>a'. row_of w' biz sh = Some a' \<and> MaxID a \<le> MaxID a'"
  shows "numbers_ok w'"
  unfolding numbers_ok_def
proof (intro allI impI conjI)
  fix biz sh x assume p: "plain_tag biz"
  let ?k = "effectiveBufferKey biz sh"
  from assms(1) p have old: "times_held ?k x w \<le> 1"
    "times_held ?k x w \<noteq> 0 \<Longrightarrow> \<exists>a. row_of w biz sh = Some a \<and> x < MaxID a" unfolding numbers_ok_def by blast+
  show "times_held ?k x w' \<le> 1" using old(1) assms(2) [of ?k x] by linarith
  assume "times_held ?k x w' \<noteq> 0"
  then have "times_held ?k x w \<noteq> 0" using assms(2) [of ?k x] held_pos [of ?k x w'] by linarith
  with old(2) assms(3) show "\<exists>a. row_of w' biz sh = Some a \<and> x < MaxID a" by (meson less_le_trans)
qed

lemma numbers_same:
  assumes "numbers_ok w" "\<And>k x. times_held k x w' \<le> times_held k x w" "leaf_table w' = leaf_table w"
  shows "numbers_ok w'"
  by (rule numbers_shrink [OF assms(1,2)]) (auto simp: row_of_def assms(3))

lemma numbers_grow:
  assumes "numbers_ok w" "plain_tag biz" "row_of w biz sh = Some a"
    "row_of w' biz sh = Some (a\<lparr>MaxID := MaxID a + n\<rparr>)" "0 < n"
    "\<And>b h. (b, h) \<noteq> (biz, sh) \<Longrightarrow> row_of w' b h = row_of w b h"
    "\<And>k x. times_held k x w' = times_held k x w +
       (if k = effectiveBufferKey biz sh then of_bool (MaxID a \<le> x \<and> x < MaxID a + n) else 0)"
  shows "numbers_ok w'"
  unfolding numbers_ok_def
proof (intro allI impI)
  fix b h x assume p: "plain_tag b"
  let ?k = "effectiveBufferKey b h"
  from assms(1) p have old: "times_held ?k x w \<le> 1"
    "times_held ?k x w \<noteq> 0 \<Longrightarrow> \<exists>a. row_of w b h = Some a \<and> x < MaxID a" unfolding numbers_ok_def by blast+
  show "times_held ?k x w' \<le> 1 \<and> (times_held ?k x w' \<noteq> 0 \<longrightarrow> (\<exists>a. row_of w' b h = Some a \<and> x < MaxID a))"
  proof (cases "(b, h) = (biz, sh)")
    case True
    then have "times_held ?k x w = 0 \<or> x < MaxID a" using old(2) assms(3) by auto
    then show ?thesis using True old(1) assms(4,5) assms(7) [of ?k x] by auto
  next
    case False
    then have "?k \<noteq> effectiveBufferKey biz sh" using effectiveBufferKey_inj [OF p assms(2)] by blast
    then show ?thesis using old assms(6) [OF False] assms(7) [of ?k x] by simp
  qed
qed

lemma advance_rows:
  assumes "advance t biz = Some (a', t')"
  obtains a where "leaf_get t biz = Some a" "a' = a\<lparr>MaxID := MaxID a + Step a\<rparr>" "leaf_get t' biz = Some a'"
    "\<And>b. b \<noteq> biz \<Longrightarrow> leaf_get t' b = leaf_get t b" "a \<in> set t" "MaxID a' \<le> max_int64" "BizTag a = biz"
    "\<forall>r\<in>set t'. \<exists>r0\<in>set t. BizTag r = BizTag r0 \<and> Step r = Step r0 \<and> (MaxID r = MaxID r0 \<or> MaxID r = MaxID r0 + Step r0)"
proof -
  from assms obtain a where a: "leaf_get t biz = Some a" "a' = a\<lparr>MaxID := MaxID a + Step a\<rparr>"
    "t' = update_where (\<lambda>r. BizTag r = biz) (\<lambda>r. r\<lparr>MaxID := MaxID r + Step r\<rparr>) t" "MaxID a' \<le> max_int64"
    unfolding advance_def by (auto split: option.splits if_splits)
  have b: "b \<noteq> biz \<Longrightarrow> leaf_get t' b = leaf_get t b" for b
    unfolding a(3) leaf_get_def select_one_def update_where_def by (induction t) auto
  have c: "leaf_get t' biz = Some a'"
    using a(1) unfolding a(2,3) leaf_get_def select_one_def update_where_def by (induction t) auto
  from a(1) have "a \<in> set t" "BizTag a = biz" unfolding leaf_get_def using select_one_Some by fastforce+
  moreover have "\<forall>r\<in>set t'. \<exists>r0\<in>set t. BizTag r = BizTag r0 \<and> Step r = Step r0 \<and>
      (MaxID r = MaxID r0 \<or> MaxID r = MaxID r0 + Step r0)"
    unfolding a(3) set_update_where by force
  ultimately show ?thesis using that a b c by blast
qed

lemma install_cur: "cur (install s b) \<noteq> None"
  by (auto simp: install_def Let_def cur_def put_slot_def slot_def)

lemma install_ok:
  assumes "buf_ok b" "0 \<le> start" "0 < step"
  shows "buf_ok (install (newSegment start step) b)"
  using assms unfolding buf_ok_def seg_ok_def
  by (auto simp: install_def Let_def cur_def put_slot_def slot_def newSegment_def split: if_splits)

lemma turn_ok:
  assumes "buf_ok b" "cur b \<noteq> None" "NextID_turn b = (b', p, ahead)"
  shows "buf_ok b' \<and> cur b' \<noteq> None \<and> pc_ok b' p"
proof -
  from assms(2) obtain s where s: "cur b = Some s" by blast
  let ?b = "put_slot (current b) (s\<lparr>seg_cur := seg_cur s + 1\<rparr>) b"
  have c: "cur ?b = Some (s\<lparr>seg_cur := seg_cur s + 1\<rparr>)" "slot (\<not> current b) ?b = slot (\<not> current b) b"
      "nextReady ?b = nextReady b" "loading ?b = loading b" "current ?b = current b"
    by (simp_all add: cur_def slot_def put_slot_def)
  have ok: "buf_ok ?b" "0 \<le> seg_cur s" using assms(1) s c
    by (auto simp: buf_ok_def seg_ok_def put_slot_def cur_def slot_def split: if_splits)
  have flags: "cur (b\<lparr>loading := l\<rparr>) = cur b" "buf_ok (b\<lparr>loading := l\<rparr>) = buf_ok b" for l b
    by (simp_all add: buf_ok_def cur_def slot_def)
  have swap: "buf_ok (?b\<lparr>current := \<not> current ?b, nextReady := False\<rparr>)"
      "cur (?b\<lparr>current := \<not> current ?b, nextReady := False\<rparr>) \<noteq> None" if "nextReady b"
    using ok(1) c that by (auto simp: buf_ok_def cur_def slot_def)
  show ?thesis using assms(3) s c ok(1) ok(2) swap
    by (auto simp: NextID_turn_def nextOf_def Let_def flags pc_ok_def split: if_splits)
qed

lemma id_frames [simp]:
  "generators (goes_to i p w) = generators w" "leaf_table (goes_to i p w) = leaf_table w"
  "generators (spawn c w) = generators w" "leaf_table (spawn c w) = leaf_table w"
  "id_calls (spawn c w) = id_calls w @ [c]" "leaf_table (set_buffer c b w) = leaf_table w"
  "id_calls (set_buffer c b w) = id_calls w" "length (generators (set_buffer c b w)) = length (generators w)"
  "length (id_calls (goes_to i p w)) = length (id_calls w)"
  by (simp_all add: goes_to_def spawn_def set_buffer_def)

lemma row_of_frames [simp]:
  "row_of (goes_to i p w) = row_of w" "row_of (spawn c w) = row_of w" "row_of (set_buffer c b w) = row_of w"
  by (simp_all add: row_of_def fun_eq_iff)

lemma call_ok_frames [simp]:
  "call_ok (goes_to i p w) d = call_ok w d" "call_ok (spawn c w) d = call_ok w d"
  "call_ok (w\<lparr>leaf_table := t\<rparr>) d = call_ok w d" "call_ok (w\<lparr>id_calls := cs\<rparr>) d = call_ok w d"
  by (simp_all add: call_ok_def buffer_of_def)

lemma buffer_of_set_buffer:
  "call_proc c < length (generators w) \<Longrightarrow> buffer_of (set_buffer c b w) d =
     (if call_proc d = call_proc c \<and> call_key d = call_key c then b else buffer_of w d)"
  by (simp add: buffer_of_def set_buffer_def nth_list_update)

lemma set_goes_to:
  "i < length (id_calls w) \<Longrightarrow> d \<in> set (id_calls (goes_to i p w)) \<Longrightarrow>
     d \<in> set (id_calls w) \<or> d = (id_calls w ! i)\<lparr>call_pc := p\<rparr>"
  unfolding goes_to_def using set_update_subset_insert by fastforce

lemma call_ok_set_buffer:
  assumes "call_ok w d" "call_proc c < length (generators w)" "cur b \<noteq> None"
  shows "call_ok (set_buffer c b w) d"
  using assms by (auto simp: call_ok_def buffer_of_set_buffer pc_ok_def split: pc.splits)

lemma inv_goes_to:
  assumes "id_inv w" "i < length (id_calls w)" "pc_ok (buffer_of w (id_calls w ! i)) p" "numbers_ok (goes_to i p w)"
  shows "id_inv (goes_to i p w)"
proof -
  let ?c = "id_calls w ! i"
  from assms(1,2) have "call_ok w ?c" by (simp add: id_inv_def)
  with assms(3) have "call_ok w (?c\<lparr>call_pc := p\<rparr>)" by (simp add: call_ok_def buffer_of_def call_key_def)
  then show ?thesis using assms(1,4) set_goes_to [OF assms(2)] by (fastforce simp: id_inv_def)
qed

lemma inv_set_buffer:
  assumes "id_inv w" "call_ok w c" "buf_ok b" "cur b \<noteq> None" "numbers_ok (set_buffer c b w)"
  shows "id_inv (set_buffer c b w)"
proof -
  have len: "call_proc c < length (generators w)" using assms(2) by (simp add: call_ok_def)
  have old: "\<forall>g\<in>set (generators w). \<forall>k. buf_ok (g k)" using assms(1) by (simp add: id_inv_def)
  have "\<forall>k. buf_ok (((generators w ! call_proc c)(call_key c := b)) k)" using old nth_mem [OF len] assms(3) by simp
  then have "\<forall>g\<in>set (generators (set_buffer c b w)). \<forall>k. buf_ok (g k)"
    using old set_update_subset_insert [of "generators w" "call_proc c"] unfolding set_buffer_def by fastforce
  then show ?thesis using assms(1,4,5) call_ok_set_buffer [OF _ len assms(4)] by (auto simp: id_inv_def)
qed

text \<open>A statement of the table: the row moves on, and the call that moved it may hold what was added.\<close>

lemma inv_advance:
  assumes "id_inv w" "i < length (id_calls w)" "call_pc (id_calls w ! i) = AtAdvance l"
    "advance (leaf_table w (call_shadow (id_calls w ! i))) (call_tag (id_calls w ! i)) = Some (a', t')"
    "p = load_failed l StatementFailed \<or> p = AtInstall l (MaxID a' - Step a') (Step a')"
  shows "id_inv (goes_to i p (w\<lparr>leaf_table := (leaf_table w)(call_shadow (id_calls w ! i) := t')\<rparr>))"
proof -
  let ?c = "id_calls w ! i"
  let ?w = "w\<lparr>leaf_table := (leaf_table w)(call_shadow ?c := t')\<rparr>"
  have ci: "id_calls ?w ! i = ?c" "i < length (id_calls ?w)" using assms(2) by simp_all
  have ok: "call_ok w ?c" using assms(1,2) by (simp add: id_inv_def)
  from advance_rows [OF assms(4)] obtain a where a: "leaf_get (leaf_table w (call_shadow ?c)) (call_tag ?c) = Some a"
    "a' = a\<lparr>MaxID := MaxID a + Step a\<rparr>" "leaf_get t' (call_tag ?c) = Some a'"
    "\<And>b. b \<noteq> call_tag ?c \<Longrightarrow> leaf_get t' b = leaf_get (leaf_table w (call_shadow ?c)) b"
    "a \<in> set (leaf_table w (call_shadow ?c))"
    "\<forall>r\<in>set t'. \<exists>r0\<in>set (leaf_table w (call_shadow ?c)). BizTag r = BizTag r0 \<and> Step r = Step r0 \<and>
       (MaxID r = MaxID r0 \<or> MaxID r = MaxID r0 + Step r0)" by metis
  have pos: "0 < Step a" "0 < MaxID a" using assms(1) a(5) by (auto simp: id_inv_def)
  have tables: "\<forall>sh. \<forall>a\<in>set (leaf_table ?w sh). plain_tag (BizTag a) \<and> 0 < Step a \<and> 0 < MaxID a"
    using assms(1) a(6) unfolding id_inv_def by (auto, (metis add_pos_pos)+)
  have rows: "row_of ?w b h = (if (b, h) = (call_tag ?c, call_shadow ?c) then Some a' else row_of w b h)" for b h
    using a(3,4) by (simp add: row_of_def)
  have num: "numbers_ok w" using assms(1) by (simp add: id_inv_def)
  have row: "row_of w (call_tag ?c) (call_shadow ?c) = Some a" using a(1) by (simp add: row_of_def)
  have num1: "numbers_ok ?w"
  proof (rule numbers_shrink [OF num])
    show "\<exists>r'. row_of ?w b h = Some r' \<and> MaxID r \<le> MaxID r'" if "row_of w b h = Some r" for b h r
      using that row pos a(2) by (cases "(b, h) = (call_tag ?c, call_shadow ?c)") (auto simp: rows)
  qed simp
  have inv1: "id_inv ?w" using assms(1) tables num1 by (simp add: id_inv_def)
  show ?thesis
  proof (rule inv_goes_to [OF inv1 ci(2)])
    show "pc_ok (buffer_of ?w (id_calls ?w ! i)) p"
      using assms(5) pos a(2) by (auto simp: pc_ok_def load_failed_def)
    show "numbers_ok (goes_to i p ?w)"
      using assms(5)
    proof
      assume p: "p = load_failed l StatementFailed"
      show ?thesis by (rule numbers_shrink [OF num1]) (use assms(3) ci in \<open>simp_all add: held_goes_to p\<close>)
    next
      assume p: "p = AtInstall l (MaxID a' - Step a') (Step a')"
      show ?thesis
      proof (rule numbers_grow [OF num, where biz = "call_tag ?c" and sh = "call_shadow ?c" and a = a and n = "Step a"])
        show "plain_tag (call_tag ?c)" using ok by (simp add: call_ok_def)
        show "row_of w (call_tag ?c) (call_shadow ?c) = Some a" by (rule row)
        show "row_of (goes_to i p ?w) (call_tag ?c) (call_shadow ?c) = Some (a\<lparr>MaxID := MaxID a + Step a\<rparr>)"
          using a(2) by (simp add: rows)
        show "0 < Step a" by (rule pos)
        show "row_of (goes_to i p ?w) b h = row_of w b h" if "(b, h) \<noteq> (call_tag ?c, call_shadow ?c)" for b h
          using that by (auto simp: rows)
        show "times_held k x (goes_to i p ?w) = times_held k x w + (if k = effectiveBufferKey (call_tag ?c) (call_shadow ?c)
            then of_bool (MaxID a \<le> x \<and> x < MaxID a + Step a) else 0)" for k x
          using assms(3) ci a(2) by (simp add: held_goes_to p call_key_def [of ?c])
      qed
    qed
  qed
qed

lemma inv_install:
  assumes "id_inv w" "i < length (id_calls w)" "call_pc (id_calls w ! i) = AtInstall l start step"
  shows "id_inv (goes_to i (load_installed l) (set_buffer (id_calls w ! i)
           (install (newSegment start step) (buffer_of w (id_calls w ! i))) w))" (is "id_inv (goes_to i _ ?w)")
proof -
  let ?c = "id_calls w ! i" and ?b = "install (newSegment start step) (buffer_of w (id_calls w ! i))"
  have ok: "call_ok w ?c" using assms(1,2) by (simp add: id_inv_def)
  then have len: "call_proc ?c < length (generators w)" and seg: "0 \<le> start" "0 < step"
    using assms(3) by (auto simp: call_ok_def pc_ok_def)
  have num: "numbers_ok w" using assms(1) by (simp add: id_inv_def)
  have "buf_ok (buffer_of w ?c)" using assms(1) nth_mem [OF len] by (simp add: id_inv_def buffer_of_def)
  then have b: "buf_ok ?b" by (rule install_ok [OF _ seg])
  have seg_held: "seg_holds x (Some (newSegment start step)) = of_bool (start \<le> x \<and> x < start + step)" for x
    by (simp add: seg_holds_def newSegment_def)
  have held: "times_held k x (goes_to i (load_installed l) ?w) \<le> times_held k x w" for k x
    using assms(2,3) install_holds [of x "newSegment start step" "buffer_of w ?c"] unfolding seg_held
    by (simp add: held_goes_to held_set_buffer [OF len])
  have rows: "row_of (goes_to i (load_installed l) ?w) = row_of w" by simp
  have num': "numbers_ok (goes_to i (load_installed l) ?w)"
    by (rule numbers_shrink [OF num held]) (auto simp: rows)
  have mid: "\<forall>d\<in>set (id_calls w). call_ok ?w d"
    using assms(1) call_ok_set_buffer [OF _ len install_cur] by (simp add: id_inv_def)
  have old: "\<forall>g\<in>set (generators w). \<forall>k. buf_ok (g k)" using assms(1) by (simp add: id_inv_def)
  have gens: "\<forall>g\<in>set (generators ?w). \<forall>k. buf_ok (g k)"
    using old nth_mem [OF len] b set_update_subset_insert [of "generators w" "call_proc ?c"]
    unfolding set_buffer_def by fastforce
  have "call_ok ?w (?c\<lparr>call_pc := load_installed l\<rparr>)"
    using ok install_cur len by (auto simp: call_ok_def buffer_of_set_buffer call_key_def load_installed_def pc_ok_def)
  then show ?thesis using assms(1,2) num' mid gens set_goes_to [of i ?w]
    by (fastforce simp: id_inv_def)
qed

lemma inv_turn:
  assumes "id_inv w" "i < length (id_calls w)" "call_pc (id_calls w ! i) = AtLoop"
    "NextID_turn (buffer_of w (id_calls w ! i)) = (b', p, ahead)"
  shows "id_inv (goes_to i p (set_buffer (id_calls w ! i) b' w))" (is "id_inv (goes_to i _ ?w)")
proof -
  let ?c = "id_calls w ! i"
  have ok: "call_ok w ?c" using assms(1,2) by (simp add: id_inv_def)
  then have len: "call_proc ?c < length (generators w)" and cur: "cur (buffer_of w ?c) \<noteq> None"
    using assms(3) by (auto simp: call_ok_def pc_ok_def)
  have "buf_ok (buffer_of w ?c)" using assms(1) nth_mem [OF len] by (simp add: id_inv_def buffer_of_def)
  from turn_ok [OF this cur assms(4)] have b': "buf_ok b'" "cur b' \<noteq> None" "pc_ok b' p" by blast+
  have num: "numbers_ok w" using assms(1) by (simp add: id_inv_def)
  have held: "times_held k x (goes_to i p ?w) \<le> times_held k x w" for k x
    using assms(2,3) turn_holds [OF assms(4), of x] by (simp add: held_goes_to held_set_buffer [OF len])
  have "times_held k x ?w \<le> times_held k x (goes_to i p ?w)" for k x
    using assms(2,3) by (simp add: held_goes_to)
  with held have held': "times_held k x ?w \<le> times_held k x w" for k x by (meson order_trans)
  have "id_inv ?w"
    by (rule inv_set_buffer [OF assms(1) ok b'(1,2)]) (rule numbers_shrink [OF num held'], auto)
  then show ?thesis
  proof (rule inv_goes_to)
    show "pc_ok (buffer_of ?w (id_calls ?w ! i)) p" using b'(3) len by (simp add: buffer_of_set_buffer)
    show "numbers_ok (goes_to i p ?w)" by (rule numbers_shrink [OF num held]) auto
  qed (simp add: assms(2))
qed

lemma inv_spawn:
  assumes "id_inv w" "call_ok w c" "call_pc c \<in> {AtEnsure, AtAdvance InBackground}"
  shows "id_inv (spawn c w)"
proof -
  have "numbers_ok (spawn c w)"
    by (rule numbers_shrink [where w = w]) (use assms in \<open>auto simp: id_inv_def held_spawn call_holds_def\<close>)
  then show ?thesis using assms by (simp add: id_inv_def)
qed

lemma inv_step:
  assumes "id_inv w" "i < length (id_calls w)"
  shows "id_inv (id_step r i w)"
proof -
  let ?c = "id_calls w ! i"
  have ok: "call_ok w ?c" using assms by (simp add: id_inv_def)
  have num: "numbers_ok w" using assms by (simp add: id_inv_def)
  have stay: "id_inv (goes_to i p w)" if "pc_ok (buffer_of w ?c) p" "\<And>x. pc_holds x p = 0" for p
    by (rule inv_goes_to [OF assms that(1)]) (rule numbers_shrink [OF num], auto simp: held_goes_to assms(2) that(2))
  have failed: "pc_ok (buffer_of w ?c) (load_failed l StatementFailed)" for l
    by (simp add: pc_ok_def load_failed_def)
  show ?thesis
  proof (cases "call_pc ?c")
    case AtEnsure
    then show ?thesis using stay by (simp add: id_step_def Let_def pc_ok_def)
  next
    case AtLookup
    then show ?thesis using stay by (simp add: id_step_def Let_def pc_ok_def)
  next
    case (AtAdvance l)
    show ?thesis
    proof (cases "advance (leaf_table w (call_shadow ?c)) (call_tag ?c)")
      case None
      then show ?thesis using AtAdvance stay [OF failed] by (cases r) (simp_all add: id_step_def Let_def)
    next
      case (Some y)
      then obtain a' t' where y: "advance (leaf_table w (call_shadow ?c)) (call_tag ?c) = Some (a', t')" by force
      then show ?thesis using AtAdvance stay [OF failed] inv_advance [OF assms AtAdvance y]
        by (cases r) (simp_all add: id_step_def Let_def)
    qed
  next
    case (AtInstall l start step)
    then show ?thesis using inv_install [OF assms AtInstall] by (simp add: id_step_def Let_def)
  next
    case AtLoop
    obtain b' p ahead where t: "NextID_turn (buffer_of w ?c) = (b', p, ahead)" by (cases "NextID_turn (buffer_of w ?c)")
    let ?w = "goes_to i p (set_buffer ?c b' w)"
    note inv = inv_turn [OF assms AtLoop t]
    have "call_ok ?w (?c\<lparr>call_pc := AtAdvance InBackground\<rparr>)"
      using ok by (simp add: call_ok_def pc_ok_def)
    then have "id_inv (spawn (?c\<lparr>call_pc := AtAdvance InBackground\<rparr>) ?w)" by (intro inv_spawn [OF inv]) simp_all
    then show ?thesis using AtLoop t inv by (simp add: id_step_def Let_def)
  qed (use assms in \<open>simp_all add: id_step_def Let_def\<close>)
qed

lemma leaf_get_register:
  "leaf_get (leaf_register a t) b = (if leaf_get t (BizTag a) = None \<and> b = BizTag a then Some a else leaf_get t b)"
proof -
  have "leaf_get (t @ [a]) b = (case leaf_get t b of None \<Rightarrow> if BizTag a = b then Some a else None | r \<Rightarrow> r)"
    unfolding leaf_get_def select_one_def by (induction t) auto
  then show ?thesis by (auto simp: leaf_register_def split: option.splits)
qed

lemma inv_register:
  assumes "id_inv w" "plain_tag biz" "Register biz m st (leaf_table w sh) = Some t"
  shows "id_inv (w\<lparr>leaf_table := (leaf_table w)(sh := t)\<rparr>)" (is "id_inv ?w")
proof -
  obtain a where a: "t = leaf_register a (leaf_table w sh)" "BizTag a = biz" "0 < Step a" "0 < MaxID a"
    using assms(3) unfolding Register_def defaultStep_def defaultInitMaxID_def by (fastforce split: if_splits)
  have rows: "row_of w b h = Some r \<Longrightarrow> row_of ?w b h = Some r" for b h r
    by (auto simp: row_of_def a(1) leaf_get_register)
  have "numbers_ok ?w"
    by (rule numbers_shrink [where w = w]) (use assms(1) rows in \<open>auto simp: id_inv_def\<close>)
  moreover have "set t \<subseteq> insert a (set (leaf_table w sh))" by (auto simp: a(1) leaf_register_def)
  then have "\<forall>h. \<forall>r\<in>set (leaf_table ?w h). plain_tag (BizTag r) \<and> 0 < Step r \<and> 0 < MaxID r"
    using assms(1,2) a(2-4) unfolding id_inv_def by auto
  ultimately show ?thesis using assms(1) by (simp add: id_inv_def)
qed

lemma empty_holds: "buf_holds x emptyBuffer = 0"
  by (simp add: buf_holds_def emptyBuffer_def seg_holds_def)

lemma inv_dies:
  assumes "id_inv w"
  shows "id_inv (dies p w)"
proof -
  have bufs: "\<forall>g\<in>set (generators (dies p w)). \<forall>k. buf_ok (g k)"
  proof
    fix g assume "g \<in> set (generators (dies p w))"
    then have "g = (\<lambda>_. emptyBuffer) \<or> g \<in> set (generators w)"
      using set_update_subset_insert [of "generators w" p "\<lambda>_. emptyBuffer"] by (auto simp: dies_def)
    then show "\<forall>k. buf_ok (g k)" using assms by (auto simp: id_inv_def emptyBuffer_def buf_ok_def)
  qed
  have calls: "call_ok (dies p w) c" if "c \<in> set (id_calls (dies p w))" for c
  proof -
    from that have c: "call_ok w c" "call_proc c = p \<longrightarrow> \<not> unanswered c" using assms by (auto simp: dies_def id_inv_def)
    then show ?thesis
      by (cases "call_proc c = p") (auto simp: call_ok_def dies_def buffer_of_def nth_list_update pc_ok_def unanswered_def
        split: pc.splits)
  qed
  have gens: "(\<Sum>g\<leftarrow>(generators w)[p := (\<lambda>_. emptyBuffer)]. buf_holds x (g k)) \<le> (\<Sum>g\<leftarrow>generators w. buf_holds x (g k))" for x k
    by (cases "p < length (generators w)")
      (simp_all add: sum_list_set list_update_beyond empty_holds)
  have "times_held k x (dies p w) \<le> times_held k x w" for k x
    unfolding times_held_def dies_def using gens [where x = x and k = k]
      sum_list_filter_le [of "call_holds k x" "\<lambda>c. \<not> (call_proc c = p \<and> unanswered c)" "id_calls w"] by simp
  then have "numbers_ok (dies p w)"
    by (rule numbers_same [rotated]) (use assms in \<open>simp_all add: id_inv_def dies_def\<close>)
  with bufs calls assms show ?thesis by (simp add: id_inv_def dies_def)
qed

lemma inv_preload:
  assumes "id_inv w" "p < length (generators w)"
  shows "id_inv (Preload p sh w)"
proof -
  have held: "times_held k x (Preload p sh w) = times_held k x w" for k x
  proof -
    have "call_holds k x \<lparr>call_proc = p, call_tag = b, call_shadow = sh, call_pc = AtAdvance InBackground\<rparr> = 0" for b
      by (simp add: call_holds_def)
    then show ?thesis by (simp add: times_held_def Preload_def comp_def)
  qed
  have "numbers_ok w" using assms(1) by (simp add: id_inv_def)
  then have "numbers_ok (Preload p sh w)" by (rule numbers_same) (simp_all add: held, simp add: Preload_def)
  moreover have "\<forall>c\<in>set (id_calls (Preload p sh w)). call_ok (Preload p sh w) c"
    using assms by (auto simp: Preload_def id_inv_def call_ok_def pc_ok_def buffer_of_def)
  ultimately show ?thesis using assms(1) by (simp add: id_inv_def Preload_def)
qed

lemma id_history_inv: "id_history w \<Longrightarrow> id_inv w"
proof (induction rule: id_history.induct)
  case begins
  show ?case by (simp add: id_inv_def numbers_ok_def times_held_def)
next
  case (boots w)
  have held: "times_held k x (w\<lparr>generators := generators w @ [\<lambda>_. emptyBuffer]\<rparr>) = times_held k x w" for k x
    by (simp add: times_held_def empty_holds)
  have "numbers_ok w" using boots.IH by (simp add: id_inv_def)
  then have "numbers_ok (w\<lparr>generators := generators w @ [\<lambda>_. emptyBuffer]\<rparr>)"
    by (rule numbers_same) (simp_all add: held)
  moreover have "call_ok (w\<lparr>generators := generators w @ [\<lambda>_. emptyBuffer]\<rparr>) c" if "call_ok w c" for c
    using that by (auto simp: call_ok_def buffer_of_def nth_append)
  moreover have "buf_ok emptyBuffer"
    by (simp add: buf_ok_def emptyBuffer_def)
  ultimately show ?case using boots.IH by (simp add: id_inv_def)
next
  case (registers w biz m st sh t)
  then show ?case using inv_register by blast
next
  case (preloads w p sh)
  then show ?case using inv_preload by blast
next
  case (asks w biz p sh)
  have "call_ok w \<lparr>call_proc = p, call_tag = biz, call_shadow = sh, call_pc = AtEnsure\<rparr>"
    using asks.hyps by (simp add: call_ok_def pc_ok_def)
  from inv_spawn [OF asks.IH this] show ?case by simp
next
  case (goes_on w i r)
  then show ?case using inv_step by blast
next
  case (process_dies w p)
  then show ?case using inv_dies by blast
qed

text \<open>C10. However many processes share the table, however their calls and background loads interleave,
  whatever statements fail or lose their reply and whichever processes die: two calls for the same tag
  and the same traffic never get the same number, and what a call gets is below the row's \<open>max_id\<close>, so
  that no later segment will contain it.\<close>

theorem numbers_are_never_given_twice:
  assumes "id_history w" "i < length (id_calls w)" "call_pc (id_calls w ! i) = Answered (Inr n)"
  shows "0 \<le> n \<and> (\<exists>a. leaf_get (leaf_table w (call_shadow (id_calls w ! i))) (call_tag (id_calls w ! i)) = Some a \<and> n < MaxID a) \<and>
    (\<forall>j<length (id_calls w). j \<noteq> i \<and> call_tag (id_calls w ! j) = call_tag (id_calls w ! i) \<and>
       call_shadow (id_calls w ! j) = call_shadow (id_calls w ! i) \<longrightarrow> call_pc (id_calls w ! j) \<noteq> Answered (Inr n))"
proof -
  let ?c = "id_calls w ! i" and ?k = "call_key (id_calls w ! i)"
  from id_history_inv [OF assms(1)] assms(2) have ok: "call_ok w ?c" "numbers_ok w" by (simp_all add: id_inv_def)
  then have tag: "plain_tag (call_tag ?c)" "0 \<le> n" using assms(3) by (simp_all add: call_ok_def pc_ok_def)
  have one: "call_holds ?k n ?c = 1" using assms(3) by (simp add: call_holds_def)
  have gens: "0 \<le> (\<Sum>g\<leftarrow>generators w. buf_holds n (g ?k))" by (rule sum_list_bound(1)) simp
  have below: "call_holds ?k n ?c \<le> times_held ?k n w"
    using sum_list_bound(2) [of "call_holds ?k n", OF _ assms(2)] gens by (simp add: times_held_def)
  have num: "times_held ?k n w \<le> 1" "times_held ?k n w \<noteq> 0 \<Longrightarrow> \<exists>a. row_of w (call_tag ?c) (call_shadow ?c) = Some a \<and> n < MaxID a"
    using ok(2) tag(1) unfolding numbers_ok_def call_key_def by blast+
  have "call_pc (id_calls w ! j) \<noteq> Answered (Inr n)" if "j < length (id_calls w)" "j \<noteq> i"
      "call_tag (id_calls w ! j) = call_tag ?c" "call_shadow (id_calls w ! j) = call_shadow ?c" for j
  proof
    assume "call_pc (id_calls w ! j) = Answered (Inr n)"
    then have "call_holds ?k n (id_calls w ! j) = 1" using that(3,4) by (simp add: call_holds_def call_key_def)
    then show False using one num(1) gens
      sum_list_bound(3) [of "call_holds ?k n", OF _ assms(2) that(1)] that(2) by (simp add: times_held_def)
  qed
  then show ?thesis using tag(2) num(2) one below by (auto simp: row_of_def)
qed

section \<open>An undisturbed call returns\<close>

definition alone :: "nat \<Rightarrow> nat \<Rightarrow> id_world \<Rightarrow> id_world" where
  "alone m i w = (id_step Works i ^^ m) w"

definition answers_within :: "nat \<Rightarrow> nat \<Rightarrow> id_world \<Rightarrow> bool" where
  "answers_within m i w \<longleftrightarrow> (\<exists>m'\<le>m. \<exists>n. call_pc (id_calls (alone m' i w) ! i) = Answered (Inr n))"

lemma answers_now: "call_pc (id_calls w ! i) = Answered (Inr n) \<Longrightarrow> answers_within m i w"
  unfolding answers_within_def alone_def by (metis funpow_0 le0)

lemma answers_later: "answers_within m i (id_step Works i w) \<Longrightarrow> answers_within (Suc m) i w"
  unfolding answers_within_def alone_def by (metis Suc_le_mono comp_apply funpow_Suc_right)

lemma answers_mono: "answers_within m i w \<Longrightarrow> m \<le> m' \<Longrightarrow> answers_within m' i w"
  unfolding answers_within_def by (meson order_trans)

text \<open>What a call sees and does: its place, its buffer and the table, after a step of its own.\<close>

lemma id_step_call:
  assumes "i < length (id_calls w)" "call_proc (id_calls w ! i) < length (generators w)"
  shows "i < length (id_calls (id_step r i w))"
    "id_calls (id_step r i w) ! i = (id_calls w ! i)\<lparr>call_pc := call_pc (id_calls (id_step r i w) ! i)\<rparr>"
    "length (generators (id_step r i w)) = length (generators w)"
  using assms unfolding id_step_def Let_def
  by (auto simp: goes_to_def set_buffer_def spawn_def nth_append
      split: pc.split prod.split db_reply.split option.split)

lemma turn_step:
  assumes "i < length (id_calls w)" "call_proc (id_calls w ! i) < length (generators w)"
    "call_pc (id_calls w ! i) = AtLoop" "NextID_turn (buffer_of w (id_calls w ! i)) = (b, p, ahead)"
  shows "call_pc (id_calls (id_step r i w) ! i) = p" "buffer_of (id_step r i w) (id_calls (id_step r i w) ! i) = b"
    "leaf_table (id_step r i w) = leaf_table w"
proof -
  let ?c = "id_calls w ! i"
  let ?w = "goes_to i p (set_buffer ?c b w)"
  have "id_step r i w = (if ahead then spawn (?c\<lparr>call_pc := AtAdvance InBackground\<rparr>) ?w else ?w)"
    using assms by (simp add: id_step_def Let_def)
  then show "call_pc (id_calls (id_step r i w) ! i) = p" "buffer_of (id_step r i w) (id_calls (id_step r i w) ! i) = b"
    "leaf_table (id_step r i w) = leaf_table w"
    using assms(1,2) by (auto simp: nth_append goes_to_def set_buffer_def spawn_def buffer_of_def call_key_def)
qed

lemma put_slot_flags [simp]:
  "nextReady (put_slot i s b) = nextReady b" "loading (put_slot i s b) = loading b" "current (put_slot i s b) = current b"
  by (simp_all add: put_slot_def)

lemma view_frames [simp]:
  "buffer_of (goes_to i p w) = buffer_of w" "buffer_of w (c\<lparr>call_pc := p\<rparr>) = buffer_of w c"
  "i < length (id_calls w) \<Longrightarrow> id_calls (goes_to i p w) ! i = (id_calls w ! i)\<lparr>call_pc := p\<rparr>"
  by (simp_all add: goes_to_def buffer_of_def call_key_def fun_eq_iff)

lemma fresh_segment_answers:
  assumes "id_inv w" "i < length (id_calls w)" "call_pc (id_calls w ! i) = AtLoop"
    "cur (buffer_of w (id_calls w ! i)) = Some s" "seg_cur s < seg_max s"
  shows "answers_within 1 i w"
proof -
  let ?c = "id_calls w ! i"
  have ok: "call_proc ?c < length (generators w)" using assms(1,2) by (simp add: id_inv_def call_ok_def)
  then have "buf_ok (buffer_of w ?c)" using assms(1) nth_mem [OF ok] by (simp add: id_inv_def buffer_of_def)
  then have "0 \<le> seg_cur s" using assms(4) by (auto simp: buf_ok_def cur_def slot_def seg_ok_def split: if_splits)
  then obtain b ahead where "NextID_turn (buffer_of w ?c) = (b, Answered (Inr (seg_cur s)), ahead)"
    using assms(4,5) by (cases "\<not> nextReady (buffer_of w ?c) \<and> \<not> loading (buffer_of w ?c) \<and>
        consumed (s\<lparr>seg_cur := seg_cur s + 1\<rparr>) \<ge> defaultLoadFactor")
      (auto simp: NextID_turn_def nextOf_def Let_def)
  from turn_step(1) [OF assms(2) ok assms(3) this] answers_now have "answers_within 0 i (id_step Works i w)" by blast
  then show ?thesis using answers_later by fastforce
qed

lemma ready_segment_answers:
  assumes "id_inv w" "i < length (id_calls w)" "call_pc (id_calls w ! i) = AtLoop"
    "nextReady (buffer_of w (id_calls w ! i))"
  shows "answers_within 2 i w"
proof -
  let ?c = "id_calls w ! i" and ?b = "buffer_of w (id_calls w ! i)"
  have ok: "call_proc ?c < length (generators w)" using assms(1,2) by (simp add: id_inv_def call_ok_def)
  then have "buf_ok ?b" using assms(1) nth_mem [OF ok] by (simp add: id_inv_def buffer_of_def)
  then obtain s s2 where s: "cur ?b = Some s" "slot (\<not> current ?b) ?b = Some s2" "seg_cur s2 < seg_max s2"
    using assms(4) by (auto simp: buf_ok_def)
  show ?thesis
  proof (cases "seg_cur s < seg_max s")
    case True
    then show ?thesis using fresh_segment_answers [OF assms(1-3) s(1)] answers_mono by fastforce
  next
    case False
    let ?b' = "(put_slot (current ?b) (s\<lparr>seg_cur := seg_cur s + 1\<rparr>) ?b)\<lparr>current := \<not> current ?b, nextReady := False\<rparr>"
    have t: "NextID_turn ?b = (?b', AtLoop, False)"
      using False s(1) assms(4) by (simp add: NextID_turn_def nextOf_def Let_def put_slot_def)
    have "cur ?b' = Some s2" using s(2) by (cases "current ?b") (simp_all add: cur_def slot_def put_slot_def)
    with turn_step [OF assms(2) ok assms(3) t] fresh_segment_answers inv_step [OF assms(1,2)]
      id_step_call(1) [OF assms(2) ok] s(3) have "answers_within 1 i (id_step Works i w)" by metis
    then show ?thesis using answers_later by (metis one_add_one plus_1_eq_Suc)
  qed
qed

lemma load_steps:
  assumes "id_inv w" "i < length (id_calls w)" "call_pc (id_calls w ! i) = AtAdvance l" "l \<noteq> InBackground"
    "row_of w (call_tag (id_calls w ! i)) (call_shadow (id_calls w ! i)) = Some a" "MaxID a + Step a \<le> max_int64"
  shows "let w' = alone 2 i w; b = buffer_of w (id_calls w ! i)
         in id_inv w' \<and> i < length (id_calls w') \<and> call_pc (id_calls w' ! i) = AtLoop \<and>
            buffer_of w' (id_calls w' ! i) = install (newSegment (MaxID a) (Step a)) b"
proof -
  let ?c = "id_calls w ! i" and ?w1 = "id_step Works i w" and ?w2 = "id_step Works i (id_step Works i w)"
  have ok: "call_proc ?c < length (generators w)" using assms(1,2) by (simp add: id_inv_def call_ok_def)
  obtain t' where t': "advance (leaf_table w (call_shadow ?c)) (call_tag ?c) = Some (a\<lparr>MaxID := MaxID a + Step a\<rparr>, t')"
    using assms(5,6) by (simp add: advance_def row_of_def)
  have w1: "?w1 = goes_to i (AtInstall l (MaxID a) (Step a)) (w\<lparr>leaf_table := (leaf_table w)(call_shadow ?c := t')\<rparr>)"
    using assms(3) t' by (simp add: id_step_def Let_def)
  have c1: "id_calls ?w1 ! i = ?c\<lparr>call_pc := AtInstall l (MaxID a) (Step a)\<rparr>" "generators ?w1 = generators w"
    using assms(2) by (simp_all add: w1 goes_to_def)
  have b1: "buffer_of ?w1 (id_calls ?w1 ! i) = buffer_of w ?c" by (simp add: c1 buffer_of_def call_key_def)
  note i1 = inv_step [OF assms(1,2)] and l1 = id_step_call(1) [OF assms(2) ok]
  have w2: "?w2 = goes_to i (load_installed l) (set_buffer (id_calls ?w1 ! i)
      (install (newSegment (MaxID a) (Step a)) (buffer_of w ?c)) ?w1)"
    using c1(1) b1 by (simp add: id_step_def [of _ _ ?w1] Let_def)
  have "call_pc (id_calls ?w2 ! i) = AtLoop" "buffer_of ?w2 (id_calls ?w2 ! i) = install (newSegment (MaxID a) (Step a)) (buffer_of w ?c)"
    "i < length (id_calls ?w2)"
    using l1 ok assms(4) c1
    by (simp_all add: w2 load_installed_def) (simp_all add: goes_to_def set_buffer_def buffer_of_def call_key_def)
  moreover have "id_inv ?w2" by (rule inv_step [OF i1 l1])
  moreover have "alone 2 i w = ?w2" by (simp add: alone_def numeral_2_eq_2)
  ultimately show ?thesis by (simp add: Let_def)
qed

lemma answers_after: "answers_within m i (alone k i w) \<Longrightarrow> answers_within (m + k) i w"
  unfolding answers_within_def alone_def by (metis add_le_cancel_right comp_apply funpow_add)


section \<open>Runs\<close>

definition ask :: "nat \<Rightarrow> string \<Rightarrow> id_world \<Rightarrow> id_world" where
  "ask p biz w = spawn \<lparr>call_proc = p, call_tag = biz, call_shadow = False, call_pc = AtEnsure\<rparr> w"

definition schedule :: "(db_reply \<times> nat) list \<Rightarrow> id_world \<Rightarrow> id_world" where
  "schedule xs w = fold (\<lambda>(r, i). id_step r i) xs w"

lemma schedule_history:
  "id_history w \<Longrightarrow> \<forall>x\<in>set xs. snd x < length (id_calls w) \<Longrightarrow> id_history (schedule xs w)"
proof (induction xs arbitrary: w)
  case (Cons x xs)
  obtain r i where x: "x = (r, i)" by force
  then have i: "i < length (id_calls w)" using Cons.prems(2) by simp
  have h: "id_history (id_step r i w)" by (rule goes_on [OF Cons.prems(1) i])
  have "call_proc (id_calls w ! i) < length (generators w)"
    using id_history_inv [OF Cons.prems(1)] i by (simp add: id_inv_def call_ok_def)
  then have "length (id_calls w) \<le> length (id_calls (id_step r i w))"
    unfolding id_step_def Let_def by (auto simp: spawn_def split: pc.split prod.split db_reply.split option.split)
  then have "\<forall>y\<in>set xs. snd y < length (id_calls (id_step r i w))" using Cons.prems(2) by fastforce
  from Cons.IH [OF h this] show ?case by (simp add: schedule_def x)
qed (simp add: schedule_def)

definition two_processes :: id_world where
  "two_processes = ask 1 ''order.charge'' (ask 0 ''order.charge''
     \<lparr>leaf_table = (\<lambda>_. [])(False := [\<lparr>BizTag = ''order.charge'', MaxID = 1000000, Step = 100000\<rparr>]),
      generators = [\<lambda>_. emptyBuffer, \<lambda>_. emptyBuffer], id_calls = []\<rparr>)"

lemma two_processes_history: "id_history two_processes"
proof -
  let ?w = "\<lparr>leaf_table = (\<lambda>_. []), generators = [\<lambda>_. emptyBuffer, \<lambda>_. emptyBuffer], id_calls = []\<rparr> :: id_world"
  have "id_history ?w" using boots [OF boots [OF begins]] by simp
  moreover have "plain_tag ''order.charge''" by (simp add: plain_tag_def)
  moreover have "Register ''order.charge'' 0 0 (leaf_table ?w False) =
      Some [\<lparr>BizTag = ''order.charge'', MaxID = 1000000, Step = 100000\<rparr>]"
    by (simp add: Register_def leaf_register_def leaf_get_def select_one_def defaultInitMaxID_def defaultStep_def)
  ultimately have "id_history (?w\<lparr>leaf_table := (leaf_table ?w)(False := [\<lparr>BizTag = ''order.charge'', MaxID = 1000000, Step = 100000\<rparr>])\<rparr>)"
    using registers by blast
  then show ?thesis unfolding two_processes_def ask_def
    by (intro asks) (simp_all add: plain_tag_def spawn_def)
qed

text \<open>Both processes find their buffer empty, and each takes a segment of its own.\<close>

definition both_answered :: id_world where
  "both_answered = schedule [(Works, 0), (Works, 1), (Works, 0), (Works, 1), (Works, 1), (Works, 0),
     (Works, 0), (Works, 1), (Works, 0), (Works, 1)] two_processes"

lemma both_answered_pcs:
  "map call_pc (id_calls both_answered) = [Answered (Inr 1100000), Answered (Inr 1000000)]"
  by code_simp

lemma numbers_are_never_given_twice_witness:
  "0 \<le> (1100000::int) \<and> call_pc (id_calls both_answered ! 1) \<noteq> Answered (Inr 1100000)"
proof -
  have h: "id_history both_answered" unfolding both_answered_def
    by (rule schedule_history [OF two_processes_history]) (simp add: two_processes_def ask_def spawn_def)
  have len: "length (id_calls both_answered) = 2" using both_answered_pcs by (metis length_map length_Cons list.size(3) One_nat_def Suc_1)
  have pc: "call_pc (id_calls both_answered ! 0) = Answered (Inr 1100000)"
    using both_answered_pcs len by (metis nth_Cons_0 nth_map zero_less_numeral)
  have same: "call_tag (id_calls both_answered ! 1) = call_tag (id_calls both_answered ! 0) \<and>
      call_shadow (id_calls both_answered ! 1) = call_shadow (id_calls both_answered ! 0)" by code_simp
  show ?thesis using numbers_are_never_given_twice [OF h _ pc] len same by auto
qed


section \<open>A failed load blocks the buffer\<close>

text \<open>
  \<open>loadInto\<close> clears \<open>loading\<close> only when it installs a segment. When the statement of a load fails, the mark
  stays: the segment is used up, no next one is loaded, and every call turns its loop for ever, until
  the process is restarted.
\<close>

definition stuck_buffer :: "buffer \<Rightarrow> bool" where
  "stuck_buffer b \<longleftrightarrow> loading b \<and> \<not> nextReady b \<and> 
     (case cur b of None \<Rightarrow> False | Some s \<Rightarrow> seg_max s \<le> seg_cur s)"

definition jammed :: "nat \<Rightarrow> string \<Rightarrow> id_world \<Rightarrow> bool" where
  "jammed p k w \<longleftrightarrow> p < length (generators w) \<and> stuck_buffer ((generators w ! p) k) \<and>
     (\<forall>c\<in>set (id_calls w). call_proc c = p \<and> call_key c = k \<longrightarrow>
        (case call_pc c of AtLookup \<Rightarrow> False | AtAdvance _ \<Rightarrow> False | AtInstall _ _ _ \<Rightarrow> False | _ \<Rightarrow> True))"

lemma stuck_turn:
  assumes "stuck_buffer b"
  shows "\<exists>b'. NextID_turn b = (b', AtLoop, False) \<and> stuck_buffer b'"
proof -
  from assms obtain s where s: "cur b = Some s" "seg_max s \<le> seg_cur s" "loading b" "\<not> nextReady b"
    by (auto simp: stuck_buffer_def split: option.splits)
  then have "cur (put_slot (current b) (s\<lparr>seg_cur := seg_cur s + 1\<rparr>) b) = Some (s\<lparr>seg_cur := seg_cur s + 1\<rparr>)"
    by (simp add: cur_def slot_def put_slot_def)
  then show ?thesis using s by (auto simp: NextID_turn_def nextOf_def stuck_buffer_def Let_def)
qed

lemma id_step_nth:
  "i < length (id_calls w) \<Longrightarrow> i \<noteq> j \<Longrightarrow> id_calls (id_step r j w) ! i = id_calls w ! i"
  unfolding id_step_def Let_def goes_to_def spawn_def set_buffer_def
  by (auto simp: nth_append split: pc.split prod.split db_reply.split option.split)

lemma id_step_others:
  assumes "j < length (id_calls w)" "call_proc (id_calls w ! j) < length (generators w)"
    "(call_proc (id_calls w ! j), call_key (id_calls w ! j)) \<noteq> (p, k)"
  shows "(generators (id_step r j w) ! p) k = (generators w ! p) k"
    "c \<in> set (id_calls (id_step r j w)) \<Longrightarrow> call_proc c = p \<and> call_key c = k \<Longrightarrow> c \<in> set (id_calls w)"
proof -
  let ?c = "id_calls w ! j"
  have sub: "d \<in> set (id_calls (id_step r j w)) \<Longrightarrow> d \<in> set (id_calls w) \<or> (\<exists>q. d = ?c\<lparr>call_pc := q\<rparr>)" for d
    using set_update_subset_insert [of "id_calls w" j]
    unfolding id_step_def Let_def goes_to_def spawn_def set_buffer_def
    by (fastforce split: pc.splits prod.splits db_reply.splits option.splits if_splits)
  show "(generators (id_step r j w) ! p) k = (generators w ! p) k"
    using assms unfolding id_step_def Let_def goes_to_def spawn_def set_buffer_def
    by (auto simp: nth_list_update split: pc.splits prod.splits db_reply.splits option.splits)
  show "call_proc c = p \<and> call_key c = k \<Longrightarrow> c \<in> set (id_calls w)" if "c \<in> set (id_calls (id_step r j w))"
    using sub [OF that] assms(3) by (auto simp: call_key_def)
qed

lemma jammed_step:
  assumes "jammed p k w" "\<forall>c\<in>set (id_calls w). call_proc c < length (generators w)" "j < length (id_calls w)"
  shows "jammed p k (id_step r j w)"
    "i < length (id_calls w) \<Longrightarrow> call_proc (id_calls w ! i) = p \<Longrightarrow> call_key (id_calls w ! i) = k \<Longrightarrow>
       call_pc (id_calls w ! i) = AtLoop \<Longrightarrow> call_pc (id_calls (id_step r j w) ! i) = AtLoop"
proof -
  let ?c = "id_calls w ! j"
  have pr: "call_proc ?c < length (generators w)" using assms(2,3) by simp
  have len: "length (generators (id_step r j w)) = length (generators w)"
    using id_step_call(3) [OF assms(3) pr] .
  have here: "jammed p k (id_step r j w) \<and> (call_pc ?c = AtLoop \<longrightarrow> call_pc (id_calls (id_step r j w) ! j) = AtLoop)"
    if same: "call_proc ?c = p" "call_key ?c = k"
  proof -
    have b: "stuck_buffer (buffer_of w ?c)" using assms(1) same by (simp add: jammed_def buffer_of_def)
    from stuck_turn [OF b] obtain b' where b': "NextID_turn (buffer_of w ?c) = (b', AtLoop, False)" "stuck_buffer b'" by blast
    have "cur (buffer_of w ?c) \<noteq> None" using b by (auto simp: stuck_buffer_def split: option.splits)
    moreover have "case call_pc ?c of AtLookup \<Rightarrow> False | AtAdvance _ \<Rightarrow> False | AtInstall _ _ _ \<Rightarrow> False | _ \<Rightarrow> True"
      using assms(1,3) same by (simp add: jammed_def)
    ultimately consider "id_step r j w = w" "call_pc ?c \<noteq> AtLoop" | "id_step r j w = goes_to j AtLoop w"
      | "id_step r j w = goes_to j AtLoop (set_buffer ?c b' w)"
      using b' by (auto simp: id_step_def Let_def split: pc.splits)
    then show ?thesis
    proof cases
      case 1
      then show ?thesis using assms(1) by simp
    next
      case 2
      then show ?thesis using assms(1,3) set_goes_to [OF assms(3)] by (fastforce simp: jammed_def)
    next
      case 3
      have "(generators (set_buffer ?c b' w) ! p) k = b'" using same pr by (auto simp: set_buffer_def)
      then show ?thesis using 3 assms(1,3) b'(2) set_goes_to [of j "set_buffer ?c b' w"]
        by (fastforce simp: jammed_def)
    qed
  qed
  show "jammed p k (id_step r j w)"
  proof (cases "call_proc ?c = p \<and> call_key ?c = k")
    case False
    then show ?thesis using assms(1) id_step_others [OF assms(3) pr, where p = p and k = k and r = r] len by (auto simp: jammed_def)
  qed (use here in blast)
  show "call_pc (id_calls (id_step r j w) ! i) = AtLoop" if "i < length (id_calls w)" "call_proc (id_calls w ! i) = p"
    "call_key (id_calls w ! i) = k" "call_pc (id_calls w ! i) = AtLoop"
  proof (cases "i = j")
    case True
    then show ?thesis using here that by blast
  next
    case False
    then show ?thesis using id_step_nth [OF that(1)] that(4) by simp
  qed
qed

lemma jammed_call_never_returns:
  assumes "id_history w" "jammed p k w" "i < length (id_calls w)" "call_proc (id_calls w ! i) = p"
    "call_key (id_calls w ! i) = k" "call_pc (id_calls w ! i) = AtLoop" "\<forall>x\<in>set xs. snd x < length (id_calls w)"
  shows "call_pc (id_calls (schedule xs w) ! i) = AtLoop"
  using assms
proof (induction xs arbitrary: w)
  case (Cons x xs)
  obtain r j where x: "x = (r, j)" by force
  then have j: "j < length (id_calls w)" using Cons.prems(7) by simp
  have procs: "\<forall>c\<in>set (id_calls w). call_proc c < length (generators w)"
    using id_history_inv [OF Cons.prems(1)] by (simp add: id_inv_def call_ok_def)
  let ?w = "id_step r j w"
  have len: "length (id_calls w) \<le> length (id_calls ?w)"
    unfolding id_step_def Let_def by (auto simp: spawn_def split: pc.split prod.split db_reply.split option.split)
  have "\<exists>q. id_calls ?w ! i = (id_calls w ! i)\<lparr>call_pc := q\<rparr>"
  proof (cases "i = j")
    case True
    have "call_proc (id_calls w ! j) < length (generators w)" using procs j by simp
    from id_step_call(2) [OF j this] True show ?thesis by blast
  next
    case False
    have "id_calls w ! i = (id_calls w ! i)\<lparr>call_pc := call_pc (id_calls w ! i)\<rparr>" by simp
    then show ?thesis using id_step_nth [OF Cons.prems(3) False] by metis
  qed
  then obtain q where "id_calls ?w ! i = (id_calls w ! i)\<lparr>call_pc := q\<rparr>" by blast
  then have same: "call_proc (id_calls ?w ! i) = p" "call_key (id_calls ?w ! i) = k"
    using Cons.prems(4,5) by (simp_all add: call_key_def)
  have "call_pc (id_calls (schedule xs ?w) ! i) = AtLoop"
    by (rule Cons.IH [OF goes_on [OF Cons.prems(1) j] jammed_step(1) [OF Cons.prems(2) procs j] _ same
          jammed_step(2) [OF Cons.prems(2) procs j Cons.prems(3-6)]])
      (use Cons.prems(3,7) len in \<open>auto intro: less_le_trans\<close>)
  then show ?case by (simp add: schedule_def x)
qed (simp add: schedule_def)

text \<open>One refused background load is enough: the first call takes the only number of its segment and
  starts a load, which fails; the second call never returns.\<close>

definition tiny_world :: id_world where
  "tiny_world = ask 0 ''order.refund'' (ask 0 ''order.refund''
     \<lparr>leaf_table = (\<lambda>_. [])(False := [\<lparr>BizTag = ''order.refund'', MaxID = 7, Step = 1\<rparr>]),
      generators = [\<lambda>_. emptyBuffer], id_calls = []\<rparr>)"

definition jammed_world :: id_world where
  "jammed_world = schedule [(Works, 0), (Works, 0), (Works, 0), (Works, 0), (Works, 0), (Refused, 2), (Works, 1)] tiny_world"

lemma failed_load_blocks_for_ever:
  "id_history jammed_world \<and> call_pc (id_calls jammed_world ! 0) = Answered (Inr 7) \<and>
   (\<forall>xs. (\<forall>x\<in>set xs. snd x < 3) \<longrightarrow> call_pc (id_calls (schedule xs jammed_world) ! 1) = AtLoop)"
proof -
  let ?w = "\<lparr>leaf_table = (\<lambda>_. []), generators = [\<lambda>_. emptyBuffer], id_calls = []\<rparr> :: id_world"
  have "id_history ?w" using boots [OF begins] by simp
  moreover have "plain_tag ''order.refund''" by (simp add: plain_tag_def)
  moreover have "Register ''order.refund'' 7 1 (leaf_table ?w False) = Some [\<lparr>BizTag = ''order.refund'', MaxID = 7, Step = 1\<rparr>]"
    by (simp add: Register_def leaf_register_def leaf_get_def select_one_def)
  ultimately have "id_history (?w\<lparr>leaf_table := (leaf_table ?w)(False := [\<lparr>BizTag = ''order.refund'', MaxID = 7, Step = 1\<rparr>])\<rparr>)"
    using registers by blast
  then have tiny: "id_history tiny_world" unfolding tiny_world_def ask_def
    by (intro asks) (simp_all add: plain_tag_def spawn_def)
  define mid where "mid = schedule [(Works, 0), (Works, 0), (Works, 0), (Works, 0), (Works, 0)] tiny_world"
  have mid: "id_history mid" unfolding mid_def
    by (rule schedule_history [OF tiny]) (simp add: tiny_world_def ask_def spawn_def)
  have three: "length (id_calls mid) = 3" unfolding mid_def by code_simp
  have "jammed_world = schedule [(Refused, 2), (Works, 1)] mid" by (simp add: jammed_world_def mid_def schedule_def)
  then have h: "id_history jammed_world" using schedule_history [OF mid, of "[(Refused, 2), (Works, 1)]"] three by simp
  have facts: "length (id_calls jammed_world) = 3" "call_proc (id_calls jammed_world ! 1) = 0"
    "call_key (id_calls jammed_world ! 1) = ''order.refund''" "call_pc (id_calls jammed_world ! 1) = AtLoop"
    "call_pc (id_calls jammed_world ! 0) = Answered (Inr 7)" by code_simp+
  have "jammed 0 ''order.refund'' jammed_world" unfolding jammed_def stuck_buffer_def by code_simp
  from jammed_call_never_returns [OF h this _ facts(2-4)] facts h show ?thesis by simp
qed

end
