(* ===== verification/Spec2Isabelle.thy ===== *)
theory Spec2Isabelle
  imports Prelude Money Identity Sharding AccountModel Ledger LedgerInvariant Tcc TccInvariant
    TccBooking Recovery Protocol Buffer Booking Freeze FreezeLaws
    GoText Breaker Routing Charge RetryQueue ChargeLaws
    OrderShard OrderStore OrderPay OrderRefund OrderOutbox OrderFrame OrderLife OrderMoney
    OrderCases OrderKeys OrderRefundLaws
    DayCut DayCutLaws DayCutRun TrialBalance Posting IdSegments
begin

text \<open>
  A verification library for the core of the payment platform: how an order is taken, charged and
  refunded (\<open>order-core\<close>), how a charge reaches a channel (\<open>payment-core\<close>), and how money is booked
  (\<open>accounting-system\<close>), with the libraries these services share (\<open>payment-util\<close>).

  \<^bold>\<open>The program.\<close> A merchant's request creates a payment intent in \<open>order-core\<close>; confirming it creates a
  charge and asks \<open>payment-core\<close>, which routes it to a channel adapter behind a circuit breaker and
  queues it for a retry when every adapter fails. The result comes back at once, by webhook, or through
  the reconcile worker; a paid intent puts a row into the accounting outbox, and the outbox worker has
  \<open>accounting-system\<close> post a voucher. The ledger lives on a hundred shards; a voucher that touches several
  is booked in two phases (Try, then Confirm or Cancel per branch) under a coordinator row, and a
  recovery worker finishes what a crash left open. Hot accounts are updated through balance buffers
  that a worker flushes; funds can be frozen, returned or debited with a compensation. Once a day the postings
  of an accounting date are cut into balance snapshots, shard by shard and resumable, and a trial balance is
  drawn from the snapshots.

  \<^bold>\<open>Which theory models what.\<close>

  \<^item> \<open>Prelude\<close>: \<open>int64\<close> on \<open>int\<close> with the wrap-around written out, decimal printing and parsing, tables as
    lists of rows. \<open>GoText\<close>: the functions of Go's \<open>strings\<close> the services use.
  \<^item> \<open>Money\<close>, \<open>Identity\<close>: \<open>payment-util/money/money.go\<close> and \<open>payment-util/shadow/identity.go\<close>.
  \<^item> \<open>Sharding\<close>, \<open>AccountModel\<close>: \<open>accounting-system/internal/infrastructure/sharding\<close> and \<open>internal/domain/model\<close>.
  \<^item> \<open>Ledger\<close>, \<open>LedgerInvariant\<close>: one branch of a voucher on one shard (\<open>tccTry\<close>, \<open>tccConfirm\<close>, \<open>tccCancel\<close> of
    \<open>accounting_service.go\<close> with the repositories' statements) and the invariant of a shard's tables.
  \<^item> \<open>Tcc\<close>, \<open>TccInvariant\<close>, \<open>TccBooking\<close>: \<open>tccBooking\<close> over all shards; the locales \<open>tx_steps\<close> and \<open>tx_ledger\<close> are
    the contract of a group transaction, interpreted on Try, Confirm and Cancel.
  \<^item> \<open>Recovery\<close>, \<open>Protocol\<close>: \<open>tcc_service.go\<close>, \<open>tcc_recovery_worker.go\<close>, and a step relation in which one booking,
    the recovery worker and other writers interleave.
  \<^item> \<open>Booking\<close>: the idempotent entry point \<open>DoubleEntryBooking\<close> and its order table.
  \<^item> \<open>Buffer\<close>: \<open>buffered_balance_worker.go\<close>; \<open>Freeze\<close>, \<open>FreezeLaws\<close>: \<open>freeze_service.go\<close> and its compensation.
  \<^item> \<open>DayCut\<close>: \<open>ProcessShardDayCut\<close> of \<open>day_cut_service.go\<close> with the statements on the tables of postings, snapshots
    and controls; \<open>cut_env\<close> says which statement fails, dies or loses its reply. \<open>DayCutLaws\<close>: what any number of
    attempts does to a run. \<open>DayCutRun\<close>: \<open>TriggerDayCut\<close>, the watchdog, \<open>ResumeStuckShards\<close>, the reports,
    \<open>day_cut_scheduler.go\<close> and \<open>cut_date_provider.go\<close>. \<open>TrialBalance\<close>: \<open>trial_balance_service.go\<close>, its repository
    and the entry of \<open>grpc/server.go\<close> that picks the run.
  \<^item> \<open>Posting\<close>: the transaction orders of \<open>transaction_service.go\<close>, from legs and account references to the
    voucher it hands to \<open>DoubleEntryBooking\<close>. \<open>IdSegments\<close>: the id segments of \<open>order-core/internal/idgen/leaf.go\<close>, as
    an interleaving of calls, background loads and processes over one table.
  \<^item> \<open>Breaker\<close>, \<open>Routing\<close>, \<open>Charge\<close>, \<open>RetryQueue\<close>, \<open>ChargeLaws\<close>: the packages \<open>circuitbreaker\<close>, \<open>routing\<close>, \<open>channelops\<close> and
    \<open>service\<close> of \<open>payment-core\<close>; both retry queues interpret the locale \<open>retry_queue\<close>.
  \<^item> \<open>OrderShard\<close>, \<open>OrderStore\<close>: routing and ids, rows and statements of \<open>order-core\<close> (\<open>internal/sharding\<close>,
    \<open>internal/domain\<close>, \<open>internal/repo\<close>). \<open>OrderPay\<close>, \<open>OrderRefund\<close>, \<open>OrderOutbox\<close>: its \<open>internal/service\<close>. An operation
    is a computation of the state monad over the store with an error or a value as its result.
  \<^item> \<open>OrderFrame\<close>: the calculus for such computations; the locale \<open>statement_relation\<close> lifts a relation that
    single statements respect to whole operations. \<open>OrderLife\<close>: requests, worker rounds and their
    histories (\<open>serve_all\<close>); \<open>order_relation\<close> and \<open>service_relation\<close> carry a relation through all of them.
    \<open>OrderMoney\<close>, \<open>OrderKeys\<close>, \<open>OrderRefundLaws\<close>: charging and booking, idempotency keys, refunds. \<open>OrderCases\<close>: concrete runs.

  \<^bold>\<open>What the lemmas show.\<close> The ledger keeps its books (balances, held amounts, equality of debits and
  credits) under booking, recovery, flush and freeze with any faults; a voucher is never half confirmed
  and half cancelled; a request is booked once. A day cut that was interrupted anywhere and run again counts
  every posting once, and the trial balance is then that of the postings. A transaction order becomes one balanced voucher over the net of its
  legs and is run within its retries. Identifiers are handed out once, under any interleaving. A charge passes its guards and asks one channel; an unknown
  result is never reported as a failure; retries end; breakers open, refuse and recover. An order follows its
  abstract life (\<open>life_step\<close>), is charged at most once, is booked at most once with the amount received,
  is found again by its key, and never gives back more than was captured. Conversions, identifiers and
  routes round-trip. Where the code does not do what it says, a concrete run shows it (the last sections of
  the component theories, and \<open>OrderCases\<close>).

  \<^bold>\<open>Modelling decisions.\<close> A clock is read once per stage and is an argument. Strings are ASCII. Integers are
  \<open>int\<close>, with the wrap-around of \<open>int64\<close> written where amounts are computed. \<open>sort.Slice\<close> is a stable sort.
  Every database statement or transaction may fail: as an argument (accounting) or by a tape of
  faults in the store (\<open>order-core\<close>), so the theorems hold for any pattern of failures; a crash is a run
  whose remaining statements fail. \<open>Protocol\<close> interleaves committed transactions; the operations of
  \<open>order-core\<close> run one at a time, which is what its \<open>SELECT .. FOR UPDATE\<close> and compare-and-set statements give for one
  row, and is an assumption for the read-then-insert of a refund. Loops over lists are structural
  recursions; retry loops recurse on the number of attempts left, taken from the code's constants, so
  no fuel is needed. Channels, risk engine, hashes, redis, URL guard and random numbers are arguments.

  \<^bold>\<open>Not modelled.\<close> Transport, start-up, metrics, logging, tickers and generated code; the redis scripts of the
  hot path; rotation of logical accounts beyond its phases and \<open>money_flow_engine.go\<close> (which no
  code constructs) of \<open>accounting-system\<close>, statements of its snapshot repository that no code calls (\<open>Upsert\<close>, \<open>UpsertBatch\<close>,
  \<open>UpdateBufferedFinal\<close>) and time zones whose offset changes; disputes, the merchant ledger view, notifications of
  \<open>order-core\<close>; the remaining services of the repository. Some paging queries have no counterpart.
\<close>

end
